(* ===== verification/Prelude.thy ===== *)
theory Prelude
  imports Main "HOL-Library.Word"
begin

text \<open>
  The vocabulary shared by the whole development: names for the machine integers of the
  Rust sources, the \<open>Result\<close> type with the \<open>?\<close> operator (\<open>rbind\<close>), three-way
  comparison (\<open>core::cmp::Ordering\<close>) with the contract of a Rust \<open>Ord\<close> implementation
  as a locale, big-endian byte strings, the ordered maps of \<open>alloc::collections::BTreeMap\<close>
  and the UTF-8 validation of \<open>core::str::from_utf8\<close>.
\<close>

unbundle bit_operations_syntax

section \<open>Machine integers\<close>

type_synonym u8 = "8 word"
type_synonym u16 = "16 word"
type_synonym u32 = "32 word"
type_synonym u64 = "64 word"
type_synonym bytes = "8 word list"

named_theorems result_simps \<open>unfolding the result monad\<close>
named_theorems be_simps \<open>big-endian byte strings\<close>

section \<open>Results\<close>

text \<open>\<open>Result<A, E>\<close> is \<open>'e + 'a\<close>; \<open>rbind\<close> is what the \<open>?\<close> operator does.\<close>

type_synonym ('e, 'a) result = "'e + 'a"

definition rbind :: "'e + 'a \<Rightarrow> ('a \<Rightarrow> 'e + 'b) \<Rightarrow> 'e + 'b" where
  "rbind m f = (case m of Inl e \<Rightarrow> Inl e | Inr x \<Rightarrow> f x)"

definition ok_or :: "'e \<Rightarrow> 'a option \<Rightarrow> 'e + 'a" where
  "ok_or e opt = (case opt of None \<Rightarrow> Inl e | Some x \<Rightarrow> Inr x)"

lemma rbind_Inl [simp, result_simps]: "rbind (Inl e) f = Inl e"
  by (simp add: rbind_def)

lemma rbind_Inr [simp, result_simps]: "rbind (Inr x) f = f x"
  by (simp add: rbind_def)

lemma rbind_eq_Inr_iff: "rbind m f = Inr y \<longleftrightarrow> (\<exists>x. m = Inr x \<and> f x = Inr y)"
  by (cases m) auto

lemma rbind_eq_Inl_iff: "rbind m f = Inl e \<longleftrightarrow> m = Inl e \<or> (\<exists>x. m = Inr x \<and> f x = Inl e)"
  by (cases m) auto

lemma rbind_cong [fundef_cong]:
  "m = m' \<Longrightarrow> (\<And>x. m' = Inr x \<Longrightarrow> f x = f' x) \<Longrightarrow> rbind m f = rbind m' f'"
  by (cases m) auto

lemma ok_or_simps [simp, result_simps]: "ok_or e None = Inl e" "ok_or e (Some x) = Inr x"
  by (simp_all add: ok_or_def)

lemma ok_or_eq_Inr_iff: "ok_or e opt = Inr y \<longleftrightarrow> opt = Some y"
  by (cases opt) auto

section \<open>Three-way comparison\<close>

datatype ordering = Less | Equal | Greater

fun ord_reverse :: "ordering \<Rightarrow> ordering" where
  "ord_reverse Less = Greater"
| "ord_reverse Equal = Equal"
| "ord_reverse Greater = Less"

fun ord_then :: "ordering \<Rightarrow> ordering \<Rightarrow> ordering" where
  "ord_then Equal o2 = o2"
| "ord_then o1 o2 = o1"

lemma ord_reverse_reverse [simp]: "ord_reverse (ord_reverse r) = r"
  by (cases r) auto

lemma ord_reverse_eq_iff [simp]:
  "ord_reverse r = Less \<longleftrightarrow> r = Greater"
  "ord_reverse r = Equal \<longleftrightarrow> r = Equal"
  "ord_reverse r = Greater \<longleftrightarrow> r = Less"
  by (cases r; simp)+

lemma ord_then_eq_iff [simp]:
  "ord_then r s = Less \<longleftrightarrow> r = Less \<or> (r = Equal \<and> s = Less)"
  "ord_then r s = Equal \<longleftrightarrow> r = Equal \<and> s = Equal"
  "ord_then r s = Greater \<longleftrightarrow> r = Greater \<or> (r = Equal \<and> s = Greater)"
  by (cases r; cases s; simp)+

lemma ord_reverse_then [simp]:
  "ord_reverse (ord_then r s) = ord_then (ord_reverse r) (ord_reverse s)"
  by (cases r) auto

text \<open>
  What a Rust implementation of \<open>Ord\<close> must satisfy: \<open>Equal\<close> is equality, swapping the
  arguments reverses the result, and \<open>Less\<close> is transitive.
\<close>

locale total_cmp =
  fixes cmp :: "'a \<Rightarrow> 'a \<Rightarrow> ordering"
  assumes cmp_equal: "cmp x y = Equal \<longleftrightarrow> x = y"
    and cmp_reverse: "cmp y x = ord_reverse (cmp x y)"
    and cmp_trans: "cmp x y = Less \<Longrightarrow> cmp y z = Less \<Longrightarrow> cmp x z = Less"
begin

lemma cmp_refl: "cmp x x = Equal"
  by (simp add: cmp_equal)

lemma cmp_greater_iff: "cmp x y = Greater \<longleftrightarrow> cmp y x = Less"
  by (subst cmp_reverse) simp

lemma cmp_le_iff: "cmp x y \<noteq> Greater \<longleftrightarrow> cmp x y = Less \<or> x = y"
  by (cases "cmp x y") (auto simp: cmp_equal [symmetric])

lemma cmp_le_trans: "cmp x y \<noteq> Greater \<Longrightarrow> cmp y z \<noteq> Greater \<Longrightarrow> cmp x z \<noteq> Greater"
  using cmp_trans [of x y z] by (auto simp: cmp_le_iff)

lemma cmp_le_antisym: "cmp x y \<noteq> Greater \<Longrightarrow> cmp y x \<noteq> Greater \<Longrightarrow> x = y"
  using cmp_greater_iff [of y x] by (auto simp: cmp_le_iff)

lemma cmp_le_total: "cmp x y \<noteq> Greater \<or> cmp y x \<noteq> Greater"
  using cmp_greater_iff [of x y] by auto

lemma cmp_less_iff: "cmp x y = Less \<longleftrightarrow> cmp x y \<noteq> Greater \<and> cmp y x = Greater"
  using cmp_greater_iff [of y x] by auto

end

text \<open>The derived comparison of a linearly ordered type (integers in the sources).\<close>

definition lin_cmp :: "'a::linorder \<Rightarrow> 'a \<Rightarrow> ordering" where
  "lin_cmp x y = (if x < y then Less else if x = y then Equal else Greater)"

lemma lin_cmp_iff [simp]:
  "lin_cmp x y = Less \<longleftrightarrow> x < y"
  "lin_cmp x y = Equal \<longleftrightarrow> x = y"
  "lin_cmp x y = Greater \<longleftrightarrow> y < x"
  by (auto simp: lin_cmp_def)

lemma lin_cmp_reverse [simp]: "ord_reverse (lin_cmp x y) = lin_cmp y x"
  by (auto simp: lin_cmp_def)

lemma lin_cmp_total: "total_cmp lin_cmp"
proof
  fix x y z :: 'a
  show "lin_cmp x y = Equal \<longleftrightarrow> x = y" by simp
  show "lin_cmp y x = ord_reverse (lin_cmp x y)" by simp
  show "lin_cmp x y = Less \<Longrightarrow> lin_cmp y z = Less \<Longrightarrow> lin_cmp x z = Less" by simp
qed

interpretation lin: total_cmp lin_cmp
  by (rule lin_cmp_total)

text \<open>The lexicographic comparison of slices: \<open><[u8] as Ord>::cmp\<close>.\<close>

fun slice_cmp :: "bytes \<Rightarrow> bytes \<Rightarrow> ordering" where
  "slice_cmp [] [] = Equal"
| "slice_cmp [] (y # ys) = Less"
| "slice_cmp (x # xs) [] = Greater"
| "slice_cmp (x # xs) (y # ys) = ord_then (lin_cmp x y) (slice_cmp xs ys)"

lemma slice_cmp_equal: "slice_cmp xs ys = Equal \<longleftrightarrow> xs = ys"
  by (induction xs ys rule: slice_cmp.induct) auto

lemma slice_cmp_reverse [simp]: "ord_reverse (slice_cmp xs ys) = slice_cmp ys xs"
  by (induction xs ys rule: slice_cmp.induct) auto

lemma slice_cmp_trans: "slice_cmp xs ys = Less \<Longrightarrow> slice_cmp ys zs = Less \<Longrightarrow> slice_cmp xs zs = Less"
proof (induction xs ys arbitrary: zs rule: slice_cmp.induct)
  case (2 y ys)
  then show ?case by (cases zs) auto
next
  case (4 x xs y ys)
  then show ?case by (cases zs) auto
qed auto

interpretation slice: total_cmp slice_cmp
  by unfold_locales (auto simp: slice_cmp_equal intro: slice_cmp_trans)

section \<open>Big-endian byte strings\<close>

fun be_enc :: "nat \<Rightarrow> nat \<Rightarrow> bytes" where
  "be_enc 0 v = []"
| "be_enc (Suc n) v = be_enc n (v div 256) @ [of_nat v]"

definition be_val :: "bytes \<Rightarrow> nat" where
  "be_val bs = foldl (\<lambda>a b. a * 256 + unat b) 0 bs"

lemma be_val_Nil [simp, be_simps]: "be_val [] = 0"
  by (simp add: be_val_def)

lemma be_val_snoc [simp, be_simps]: "be_val (bs @ [b]) = be_val bs * 256 + unat b"
  by (simp add: be_val_def)

lemma length_be_enc [simp, be_simps]: "length (be_enc n v) = n"
  by (induction n arbitrary: v) auto

lemma unat_of_nat_u8 [simp]: "unat (of_nat n :: u8) = n mod 256"
  by (simp add: unat_of_nat)

lemma unat_u8_less [simp]: "unat (b :: u8) < 256"
  using unsigned_less [of b, where ?'a = nat] by simp

lemma unat_ucast_u8_u64 [simp]: "unat (ucast (b :: u8) :: u64) = unat b"
proof -
  have "unat b < 2 ^ 64" using unat_u8_less [of b] by (rule less_trans) simp
  then have "take_bit 64 (unat b) = unat b" by (rule take_bit_nat_eq_self)
  then show ?thesis by (simp add: unsigned_ucast_eq)
qed

lemma ucast_u8_u64_u8 [simp]: "ucast (ucast (b :: u8) :: u64) = b"
proof (rule unsigned_word_eqI [where ?'a = nat])
  have "take_bit 8 (unat b) = unat b" by (rule take_bit_nat_eq_self) simp
  then show "unat (ucast (ucast b :: u64) :: u8) = unat b"
    by (simp add: unsigned_ucast_eq [where ?'b = 64 and ?'c = 8])
qed

lemma unat_drop_bit: "unat (drop_bit n (w :: 'a::len word)) = unat w div 2 ^ n"
  unfolding unsigned_drop_bit_eq by (simp add: drop_bit_eq_div take_bit_nat_eq_self)

lemma take_bit_word_self: "unat (a :: 'a::len word) < 2 ^ n \<Longrightarrow> take_bit n a = a"
  by (rule unsigned_word_eqI [where ?'a = nat])
    (simp add: unsigned_take_bit_eq take_bit_nat_eq_self)

lemma be_val_be_enc [be_simps]: "be_val (be_enc n v) = v mod 256 ^ n"
proof (induction n arbitrary: v)
  case 0
  then show ?case by simp
next
  case (Suc n)
  have "v mod (256 * 256 ^ n) = 256 * (v div 256 mod 256 ^ n) + v mod 256"
    by (rule mod_mult2_eq)
  with Suc show ?case by (simp add: mult.commute)
qed

lemma be_val_less: "be_val bs < 256 ^ length bs"
proof (induction bs rule: rev_induct)
  case Nil
  then show ?case by simp
next
  case (snoc b bs)
  have "be_val bs * 256 + unat b < (be_val bs + 1) * 256" by simp
  also have "\<dots> \<le> 256 ^ length bs * 256" using snoc by (intro mult_le_mono1) simp
  finally show ?case by (simp add: mult.commute)
qed

lemma be_enc_be_val [be_simps]: "be_enc (length bs) (be_val bs) = bs"
proof (induction bs rule: rev_induct)
  case Nil
  then show ?case by simp
next
  case (snoc b bs)
  have "(be_val bs * 256 + unat b) div 256 = be_val bs" by simp
  moreover have "unat (of_nat (be_val bs * 256 + unat b) :: u8) = unat b"
    by (simp only: unat_of_nat_u8) simp
  then have "(of_nat (be_val bs * 256 + unat b) :: u8) = b"
    by (rule unsigned_word_eqI)
  ultimately show ?case using snoc by simp
qed

text \<open>\<open>block[start..start + contents.len()].copy_from_slice(contents)\<close>.\<close>

definition copy_into :: "nat \<Rightarrow> bytes \<Rightarrow> bytes \<Rightarrow> bytes" where
  "copy_into start contents block = take start block @ contents @ drop (start + length contents) block"

text \<open>\<open>u32::from_ne_bytes\<close> and \<open>u32::to_ne_bytes\<close> on the little-endian targets of the firmware.\<close>

definition u32_from_ne_bytes :: "bytes \<Rightarrow> u32" where
  "u32_from_ne_bytes bs = of_nat (be_val (rev bs))"

definition u32_to_ne_bytes :: "u32 \<Rightarrow> bytes" where
  "u32_to_ne_bytes w = rev (be_enc 4 (unat w))"

lemma u32_ne_bytes_round_trip [simp]: "u32_from_ne_bytes (u32_to_ne_bytes w) = w"
proof -
  have "unat w < 256 ^ 4" using unsigned_less [of w, where ?'a = nat] by simp
  then show ?thesis by (simp add: u32_from_ne_bytes_def u32_to_ne_bytes_def be_val_be_enc)
qed

lemma length_u32_to_ne_bytes [simp]: "length (u32_to_ne_bytes w) = 4"
  by (simp add: u32_to_ne_bytes_def)

section \<open>Ordered maps\<close>

text \<open>
  A \<open>BTreeMap\<close> is modelled by what its iterator yields: its entries in strictly increasing
  order of their keys.
\<close>

type_synonym ('k, 'v) btree = "('k \<times> 'v) list"

definition btree_ok :: "('k::linorder, 'v) btree \<Rightarrow> bool" where
  "btree_ok m \<longleftrightarrow> sorted_wrt (<) (map fst m)"

fun btree_insert :: "'k::linorder \<Rightarrow> 'v \<Rightarrow> ('k, 'v) btree \<Rightarrow> ('k, 'v) btree" where
  "btree_insert k v [] = [(k, v)]"
| "btree_insert k v ((a, b) # m) =
     (if k < a then (k, v) # (a, b) # m
      else if k = a then (a, v) # m
      else (a, b) # btree_insert k v m)"

lemma btree_ok_Nil [simp]: "btree_ok []"
  by (simp add: btree_ok_def)

lemma btree_ok_Cons: "btree_ok ((a, b) # m) \<longleftrightarrow> (\<forall>k \<in> fst ` set m. a < k) \<and> btree_ok m"
  by (auto simp: btree_ok_def)

lemma fst_set_btree_insert: "fst ` set (btree_insert k v m) = insert k (fst ` set m)"
proof (induction m)
  case (Cons p m)
  then show ?case by (cases p) (simp add: insert_commute)
qed simp

lemma btree_ok_insert: "btree_ok m \<Longrightarrow> btree_ok (btree_insert k v m)"
proof (induction m)
  case (Cons p m)
  then show ?case
    by (cases p) (auto simp: btree_ok_Cons fst_set_btree_insert image_iff)
qed (simp add: btree_ok_Cons)

lemma map_of_btree_insert: "btree_ok m \<Longrightarrow> map_of (btree_insert k v m) = (map_of m)(k \<mapsto> v)"
proof (induction m)
  case (Cons p m)
  then show ?case by (cases p) (auto simp: btree_ok_Cons fun_eq_iff)
qed auto

lemma btree_insert_greatest:
  "\<forall>a \<in> fst ` set m. a < k \<Longrightarrow> btree_insert k v m = m @ [(k, v)]"
  by (induction m) auto

lemma btree_ok_snoc: "btree_ok (m @ [(k, v)]) \<longleftrightarrow> btree_ok m \<and> (\<forall>a \<in> fst ` set m. a < k)"
  by (auto simp: btree_ok_def sorted_wrt_append)

lemma btree_ok_distinct: "btree_ok m \<Longrightarrow> distinct (map fst m)"
  by (simp add: btree_ok_def strict_sorted_iff)

text \<open>The contract of a map keyed by a linear order, as its clients use it.\<close>

locale ordered_map =
  fixes empty :: "'m" and insert_kv :: "'k \<Rightarrow> 'v \<Rightarrow> 'm \<Rightarrow> 'm"
    and lookup :: "'m \<Rightarrow> 'k \<Rightarrow> 'v option" and invar :: "'m \<Rightarrow> bool"
  assumes lookup_empty: "lookup empty k = None"
    and lookup_insert: "invar m \<Longrightarrow> lookup (insert_kv k v m) k' = (if k' = k then Some v else lookup m k')"
    and invar_empty: "invar empty"
    and invar_insert: "invar m \<Longrightarrow> invar (insert_kv k v m)"
begin

lemma invar_fold: "invar m \<Longrightarrow> invar (fold (\<lambda>(k, v). insert_kv k v) kvs m)"
  by (induction kvs arbitrary: m) (auto simp: invar_insert split: prod.splits)

lemma lookup_fold:
  "invar m \<Longrightarrow> lookup (fold (\<lambda>(k, v). insert_kv k v) kvs m) k
     = (case map_of (rev kvs) k of Some v \<Rightarrow> Some v | None \<Rightarrow> lookup m k)"
proof (induction kvs arbitrary: m)
  case (Cons kv kvs)
  then show ?case
    by (cases kv) (auto simp: lookup_insert invar_insert map_add_def split: option.splits)
qed (simp add: lookup_empty)

lemmas map_laws = lookup_empty lookup_insert invar_empty invar_insert

end

interpretation btree: ordered_map "[]" btree_insert map_of btree_ok
  by unfold_locales (auto simp: map_of_btree_insert btree_ok_insert)

section \<open>UTF-8\<close>

text \<open>
  \<open>core::str::from_utf8\<close> accepts exactly the well-formed byte sequences of the Unicode
  standard (table 3-7): no overlong forms, no surrogates, nothing above U+10FFFF. A Rust
  \<open>String\<close> is modelled by its bytes.
\<close>

definition in_range :: "u8 \<Rightarrow> u8 \<Rightarrow> u8 \<Rightarrow> bool" where
  "in_range lo hi b \<longleftrightarrow> lo \<le> b \<and> b \<le> hi"

abbreviation utf8_cont :: "u8 \<Rightarrow> bool" where
  "utf8_cont \<equiv> in_range 0x80 0xBF"

fun utf8_valid :: "bytes \<Rightarrow> bool" where
  "utf8_valid [] = True"
| "utf8_valid (b # bs) =
     (if b < 0x80 then utf8_valid bs
      else if in_range 0xC2 0xDF b then
        (case bs of c # r \<Rightarrow> utf8_cont c \<and> utf8_valid r | _ \<Rightarrow> False)
      else if in_range 0xE0 0xEF b then
        (case bs of c # d # r \<Rightarrow>
           in_range (if b = 0xE0 then 0xA0 else 0x80) (if b = 0xED then 0x9F else 0xBF) c
           \<and> utf8_cont d \<and> utf8_valid r
         | _ \<Rightarrow> False)
      else if in_range 0xF0 0xF4 b then
        (case bs of c # d # e # r \<Rightarrow>
           in_range (if b = 0xF0 then 0x90 else 0x80) (if b = 0xF4 then 0x8F else 0xBF) c
           \<and> utf8_cont d \<and> utf8_cont e \<and> utf8_valid r
         | _ \<Rightarrow> False)
      else False)"

end
