(* ===== verification/Cbor_Values.thy ===== *)
theory Cbor_Values
  imports Prelude
begin

text \<open>
  The CBOR data model of \<open>libraries/cbor/src/values.rs\<close> and the construction and
  destructuring helpers of \<open>libraries/cbor/src/macros.rs\<close>: the key and value types, the
  canonical key order (an instance of \<open>linorder\<close>, obtained from the \<open>Ord\<close>
  contract) and the linear-scan destructuring of maps, with its equivalence to map lookup.
\<close>

section \<open>Values\<close>

text \<open>
  \<open>i64\<close> contents are integers; \<open>key_ok\<close> below states their range. A text string is the
  byte sequence of the Rust \<open>String\<close>; a map is its \<open>BTreeMap\<close>.
\<close>

datatype key_type =
    Unsigned u64
  | Negative int
  | ByteString bytes
  | TextString bytes

datatype simple_value = FalseValue | TrueValue | NullValue | Undefined

datatype cbor_value =
    KeyValue key_type
  | Array "cbor_value list"
  | Map "(key_type \<times> cbor_value) list"
  | Simple simple_value

type_synonym cbor_map = "(key_type, cbor_value) btree"

definition MAJOR_TYPE_BIT_SHIFT :: nat where "MAJOR_TYPE_BIT_SHIFT = 5"
definition ADDITIONAL_INFORMATION_MASK :: u8 where "ADDITIONAL_INFORMATION_MASK = 0x1F"
definition ADDITIONAL_INFORMATION_MAX_INT :: u8 where "ADDITIONAL_INFORMATION_MAX_INT = 23"
definition ADDITIONAL_INFORMATION_1_BYTE :: u8 where "ADDITIONAL_INFORMATION_1_BYTE = 24"
definition ADDITIONAL_INFORMATION_2_BYTES :: u8 where "ADDITIONAL_INFORMATION_2_BYTES = 25"
definition ADDITIONAL_INFORMATION_4_BYTES :: u8 where "ADDITIONAL_INFORMATION_4_BYTES = 26"
definition ADDITIONAL_INFORMATION_8_BYTES :: u8 where "ADDITIONAL_INFORMATION_8_BYTES = 27"

lemmas cbor_constants =
  MAJOR_TYPE_BIT_SHIFT_def ADDITIONAL_INFORMATION_MASK_def ADDITIONAL_INFORMATION_MAX_INT_def
  ADDITIONAL_INFORMATION_1_BYTE_def ADDITIONAL_INFORMATION_2_BYTES_def
  ADDITIONAL_INFORMATION_4_BYTES_def ADDITIONAL_INFORMATION_8_BYTES_def

definition bool_value :: "bool \<Rightarrow> cbor_value" where
  "bool_value b = (if b then Simple TrueValue else Simple FalseValue)"

fun key_type_label :: "key_type \<Rightarrow> u8" where
  "key_type_label (Unsigned _) = 0"
| "key_type_label (Negative _) = 1"
| "key_type_label (ByteString _) = 2"
| "key_type_label (TextString _) = 3"

fun value_type_label :: "cbor_value \<Rightarrow> u8" where
  "value_type_label (KeyValue key) = key_type_label key"
| "value_type_label (Array _) = 4"
| "value_type_label (Map _) = 5"
| "value_type_label (Simple _) = 7"

definition key_integer :: "int \<Rightarrow> key_type" where
  "key_integer i = (if i \<ge> 0 then Unsigned (of_int i) else Negative i)"

text \<open>The discriminants of \<open>SimpleValue\<close> (\<open>simple_value as u64\<close>) and their inverse.\<close>

fun simple_as_u64 :: "simple_value \<Rightarrow> u64" where
  "simple_as_u64 FalseValue = 20"
| "simple_as_u64 TrueValue = 21"
| "simple_as_u64 NullValue = 22"
| "simple_as_u64 Undefined = 23"

definition simple_from_integer :: "u64 \<Rightarrow> simple_value option" where
  "simple_from_integer i =
     (if i = 20 then Some FalseValue
      else if i = 21 then Some TrueValue
      else if i = 22 then Some NullValue
      else if i = 23 then Some Undefined
      else None)"

lemma simple_from_integer_inverse [simp]: "simple_from_integer (simple_as_u64 s) = Some s"
  by (cases s) (simp_all add: simple_from_integer_def)

lemma simple_from_integer_Some: "simple_from_integer i = Some s \<Longrightarrow> simple_as_u64 s = i"
  by (auto simp: simple_from_integer_def split: if_splits)

section \<open>The canonical key order\<close>

text \<open>
  \<open>impl Ord for KeyType\<close>: first by major type, then by value; negative integers in reverse;
  strings by length and then lexicographically. The \<open>unreachable!()\<close> arm needs two different
  constructors with one label, which the first test excludes.
\<close>

fun key_cmp_same :: "key_type \<Rightarrow> key_type \<Rightarrow> ordering option" where
  "key_cmp_same (Unsigned u1) (Unsigned u2) = Some (lin_cmp u1 u2)"
| "key_cmp_same (Negative n1) (Negative n2) = Some (ord_reverse (lin_cmp n1 n2))"
| "key_cmp_same (ByteString b1) (ByteString b2) =
     Some (ord_then (lin_cmp (length b1) (length b2)) (slice_cmp b1 b2))"
| "key_cmp_same (TextString t1) (TextString t2) =
     Some (ord_then (lin_cmp (length t1) (length t2)) (slice_cmp t1 t2))"
| "key_cmp_same _ _ = None"

definition key_cmp :: "key_type \<Rightarrow> key_type \<Rightarrow> ordering" where
  "key_cmp k1 k2 =
     (if key_type_label k1 \<noteq> key_type_label k2
      then lin_cmp (key_type_label k1) (key_type_label k2)
      else (case key_cmp_same k1 k2 of Some r \<Rightarrow> r | None \<Rightarrow> Equal))"

lemma key_cmp_reachable: "key_type_label k1 = key_type_label k2 \<Longrightarrow> key_cmp_same k1 k2 \<noteq> None"
  by (cases k1; cases k2) auto

lemma key_cmp_equal: "key_cmp k1 k2 = Equal \<longleftrightarrow> k1 = k2"
  by (cases k1; cases k2) (auto simp: key_cmp_def slice.cmp_equal)

lemma key_cmp_reverse: "key_cmp k2 k1 = ord_reverse (key_cmp k1 k2)"
  by (cases k1; cases k2) (auto simp: key_cmp_def)

lemma key_cmp_trans: "key_cmp k1 k2 = Less \<Longrightarrow> key_cmp k2 k3 = Less \<Longrightarrow> key_cmp k1 k3 = Less"
  by (cases k1; cases k2; cases k3)
    (auto simp: key_cmp_def intro: slice_cmp_trans split: if_splits)

interpretation key: total_cmp key_cmp
  by unfold_locales (auto simp: key_cmp_equal intro: key_cmp_reverse key_cmp_trans)

instantiation key_type :: linorder
begin

definition less_eq_key_type :: "key_type \<Rightarrow> key_type \<Rightarrow> bool" where
  "less_eq_key_type k1 k2 \<longleftrightarrow> key_cmp k1 k2 \<noteq> Greater"

definition less_key_type :: "key_type \<Rightarrow> key_type \<Rightarrow> bool" where
  "less_key_type k1 k2 \<longleftrightarrow> key_cmp k1 k2 = Less"

instance
proof
  fix x y z :: key_type
  show "x < y \<longleftrightarrow> x \<le> y \<and> \<not> y \<le> x"
    using key.cmp_less_iff by (simp add: less_key_type_def less_eq_key_type_def)
  show "x \<le> x" by (simp add: less_eq_key_type_def key.cmp_refl)
  show "x \<le> y \<Longrightarrow> y \<le> z \<Longrightarrow> x \<le> z"
    unfolding less_eq_key_type_def by (rule key.cmp_le_trans)
  show "x \<le> y \<Longrightarrow> y \<le> x \<Longrightarrow> x = y"
    unfolding less_eq_key_type_def by (rule key.cmp_le_antisym)
  show "x \<le> y \<or> y \<le> x"
    unfolding less_eq_key_type_def by (rule key.cmp_le_total)
qed

end

lemma key_cmp_lin_cmp: "key_cmp k1 k2 = lin_cmp k1 k2"
  using key.cmp_equal [of k1 k2]
  by (cases "key_cmp k1 k2")
    (auto simp: lin_cmp_def less_key_type_def key.cmp_greater_iff)

section \<open>Conversions and construction macros\<close>

text \<open>
  The \<open>From\<close> implementations select a constructor by the type of their argument;
  \<open>into_cbor_value_option\<close> keeps an option. \<open>cbor_map!\<close> inserts every pair in turn,
  \<open>cbor_map_options!\<close> only those whose value is present.
\<close>

definition cbor_unsigned :: "u64 \<Rightarrow> cbor_value" where "cbor_unsigned u = KeyValue (Unsigned u)"
definition cbor_int :: "int \<Rightarrow> cbor_value" where "cbor_int i = KeyValue (key_integer i)"
definition cbor_text :: "bytes \<Rightarrow> cbor_value" where "cbor_text t = KeyValue (TextString t)"
definition cbor_bytes :: "bytes \<Rightarrow> cbor_value" where "cbor_bytes b = KeyValue (ByteString b)"

definition cbor_map :: "(key_type \<times> cbor_value) list \<Rightarrow> cbor_value" where
  "cbor_map kvs = Map (fold (\<lambda>(k, v) m. btree_insert k v m) kvs [])"

definition cbor_map_options :: "(key_type \<times> cbor_value option) list \<Rightarrow> cbor_value" where
  "cbor_map_options kvs =
     Map (fold (\<lambda>(k, opt) m. case opt of Some v \<Rightarrow> btree_insert k v m | None \<Rightarrow> m) kvs [])"

definition cbor_array :: "cbor_value list \<Rightarrow> cbor_value" where
  "cbor_array vs = Array vs"

section \<open>Destructuring maps\<close>

text \<open>
  \<open>destructure_cbor_map_peek_value\<close>: advance the iterator past every smaller key and take
  the value if the needle is next; the macro calls it once per key. The state of the peekable
  iterator is the list of entries it has still to yield.
\<close>

fun destructure_cbor_map_peek_value :: "cbor_map \<Rightarrow> key_type \<Rightarrow> cbor_value option \<times> cbor_map" where
  "destructure_cbor_map_peek_value [] needle = (None, [])"
| "destructure_cbor_map_peek_value ((key, v) # it) needle =
     (case key_cmp key needle of
        Less \<Rightarrow> destructure_cbor_map_peek_value it needle
      | Equal \<Rightarrow> (Some v, it)
      | Greater \<Rightarrow> (None, (key, v) # it))"

fun destructure_cbor_map :: "cbor_map \<Rightarrow> key_type list \<Rightarrow> cbor_value option list" where
  "destructure_cbor_map it [] = []"
| "destructure_cbor_map it (k # ks) =
     (case destructure_cbor_map_peek_value it k of (v, it') \<Rightarrow> v # destructure_cbor_map it' ks)"

text \<open>\<open>assert_sorted_keys!\<close>, the check the macro makes in test mode.\<close>

fun assert_sorted_keys :: "key_type list \<Rightarrow> bool" where
  "assert_sorted_keys (k1 # k2 # ks) \<longleftrightarrow> k1 < k2 \<and> assert_sorted_keys (k2 # ks)"
| "assert_sorted_keys _ \<longleftrightarrow> True"

lemma assert_sorted_keys_Cons:
  "assert_sorted_keys (k # ks) \<longleftrightarrow> assert_sorted_keys ks \<and> (\<forall>k' \<in> set ks. k < k')"
  by (induction ks arbitrary: k) (auto intro: less_trans)

lemma peek_value_cases:
  assumes "btree_ok it" and "destructure_cbor_map_peek_value it k = (v, it')"
  shows "v = map_of it k \<and> btree_ok it' \<and> (\<forall>k' > k. map_of it' k' = map_of it k')"
  using assms
proof (induction it k rule: destructure_cbor_map_peek_value.induct)
  case (2 key val it needle)
  have notin: "map_of it k' = None" if "k' \<le> key" for k'
    using "2.prems"(1) that by (auto simp: btree_ok_Cons map_of_eq_None_iff)
  consider "key < needle" | "key = needle" | "needle < key" by (rule linorder_cases)
  then show ?case
  proof cases
    case 1
    then have "key_cmp key needle = Less" by (simp add: key_cmp_lin_cmp)
    with 1 2 show ?thesis by (auto simp: btree_ok_Cons)
  next
    case 2
    then have "key_cmp key needle = Equal" by (simp add: key_cmp_lin_cmp)
    with 2 "2.prems" show ?thesis by (auto simp: btree_ok_Cons)
  next
    case 3
    then have "key_cmp key needle = Greater" by (simp add: key_cmp_lin_cmp)
    with 3 "2.prems" notin [of needle] show ?thesis by auto
  qed
qed simp

text \<open>The documented equivalence of the macro with one lookup per key, for sorted keys.\<close>

lemma destructure_cbor_map_lookup:
  "btree_ok m \<Longrightarrow> assert_sorted_keys ks \<Longrightarrow> destructure_cbor_map m ks = map (map_of m) ks"
proof (induction ks arbitrary: m)
  case (Cons k ks)
  obtain v it' where peek: "destructure_cbor_map_peek_value m k = (v, it')"
    by (cases "destructure_cbor_map_peek_value m k")
  note p = peek_value_cases [OF Cons.prems(1) peek]
  from Cons.prems(2) have sorted: "assert_sorted_keys ks" "\<forall>k' \<in> set ks. k < k'"
    by (auto simp: assert_sorted_keys_Cons)
  with p Cons.IH have "destructure_cbor_map it' ks = map (map_of it') ks" by simp
  also have "\<dots> = map (map_of m) ks" using p sorted by simp
  finally show ?case using p peek by simp
qed simp

lemma cbor_map_lookup:
  "cbor_map kvs = Map m \<Longrightarrow> btree_ok m \<and> map_of m = map_of (rev kvs)"
  using btree.invar_fold [of "[]" kvs] btree.lookup_fold [of "[]" kvs]
  by (auto simp: cbor_map_def fun_eq_iff split: option.splits)

section \<open>Well-formed values\<close>

text \<open>
  What the Rust types guarantee: \<open>Negative\<close> holds a negative \<open>i64\<close> (the constructors of
  the library never build another), a \<open>String\<close> is UTF-8, a \<open>Vec\<close> is shorter than
  \<open>2^w\<close> on a target with \<open>w\<close>-bit pointers, a \<open>BTreeMap\<close> is strictly sorted.
\<close>

fun key_ok :: "nat \<Rightarrow> key_type \<Rightarrow> bool" where
  "key_ok w (Unsigned u) \<longleftrightarrow> True"
| "key_ok w (Negative n) \<longleftrightarrow> - (2 ^ 63) \<le> n \<and> n < 0"
| "key_ok w (ByteString b) \<longleftrightarrow> length b < 2 ^ w"
| "key_ok w (TextString t) \<longleftrightarrow> length t < 2 ^ w \<and> utf8_valid t"

fun value_ok :: "nat \<Rightarrow> cbor_value \<Rightarrow> bool" where
  "value_ok w (KeyValue k) \<longleftrightarrow> key_ok w k"
| "value_ok w (Array vs) \<longleftrightarrow> length vs < 2 ^ w \<and> list_all (value_ok w) vs"
| "value_ok w (Map kvs) \<longleftrightarrow>
     length kvs < 2 ^ w \<and> btree_ok kvs \<and> list_all (\<lambda>(k, v). key_ok w k \<and> value_ok w v) kvs"
| "value_ok w (Simple s) \<longleftrightarrow> True"

text \<open>The nesting depth the reader and the writer limit.\<close>

fun value_depth :: "cbor_value \<Rightarrow> nat" where
  "value_depth (KeyValue k) = 0"
| "value_depth (Array vs) = (if vs = [] then 0 else Suc (Max (set (map value_depth vs))))"
| "value_depth (Map kvs) =
     (if kvs = [] then 0 else Suc (Max (set (map (\<lambda>(k, v). value_depth v) kvs))))"
| "value_depth (Simple s) = 0"

end
