(* ===== verification/Cbor_Reader.thy ===== *)
theory Cbor_Reader
  imports Cbor_Values
begin

text \<open>
  The decoder of \<open>libraries/cbor/src/reader.rs\<close>. The reader's state, the remaining input,
  is threaded explicitly; an error aborts the whole read, so it carries no state. The width of
  \<open>usize\<close> is a parameter: the decoder casts a 64-bit length to \<open>usize\<close>, which is
  32 bits wide on the device and 64 bits wide on the host.
\<close>

datatype decoder_error =
    UnsupportedMajorType
  | UnknownAdditionalInfo
  | IncompleteCborData
  | IncorrectMapKeyType
  | TooMuchNesting
  | InvalidUtf8
  | ExtranousData
  | OutOfOrderKey
  | NonMinimalCborEncoding
  | UnsupportedSimpleValue
  | UnsupportedFloatingPointValue
  | OutOfRangeIntegerValue

definition READER_MAX_NESTING_DEPTH :: int where "READER_MAX_NESTING_DEPTH = 4"

text \<open>\<open>x as usize\<close> on a target with \<open>w\<close>-bit pointers.\<close>

definition as_usize :: "nat \<Rightarrow> u64 \<Rightarrow> nat" where
  "as_usize w x = unat x mod 2 ^ w"

definition read_bytes :: "nat \<Rightarrow> bytes \<Rightarrow> (bytes \<times> bytes) option" where
  "read_bytes num_bytes rem =
     (if num_bytes > length rem then None else Some (take num_bytes rem, drop num_bytes rem))"

text \<open>The loop \<open>size_value <<= 8; size_value += *byte as u64\<close>.\<close>

definition accumulate_bytes :: "bytes \<Rightarrow> u64" where
  "accumulate_bytes bs = foldl (\<lambda>acc b. push_bit 8 acc + ucast b) 0 bs"

definition additional_bytes_num :: "u8 \<Rightarrow> nat option" where
  "additional_bytes_num additional_info =
     (if additional_info = ADDITIONAL_INFORMATION_1_BYTE then Some 1
      else if additional_info = ADDITIONAL_INFORMATION_2_BYTES then Some 2
      else if additional_info = ADDITIONAL_INFORMATION_4_BYTES then Some 4
      else if additional_info = ADDITIONAL_INFORMATION_8_BYTES then Some 8
      else None)"

definition read_variadic_length_integer :: "u8 \<Rightarrow> bytes \<Rightarrow> decoder_error + u64 \<times> bytes" where
  "read_variadic_length_integer additional_info rem =
     (if additional_info \<le> ADDITIONAL_INFORMATION_MAX_INT then Inr (ucast additional_info, rem)
      else case additional_bytes_num additional_info of
        None \<Rightarrow> Inl UnknownAdditionalInfo
      | Some n \<Rightarrow>
         (case read_bytes n rem of
            None \<Rightarrow> Inl IncompleteCborData
          | Some (bs, rem') \<Rightarrow>
             (let size_value = accumulate_bytes bs in
              if (n = 1 \<and> size_value < 24) \<or> size_value < push_bit (8 * (n div 2)) 1
              then Inl NonMinimalCborEncoding
              else Inr (size_value, rem'))))"

definition decode_value_to_unsigned :: "u64 \<Rightarrow> decoder_error + cbor_value" where
  "decode_value_to_unsigned size_value = Inr (cbor_unsigned size_value)"

definition decode_value_to_negative :: "u64 \<Rightarrow> decoder_error + cbor_value" where
  "decode_value_to_negative size_value =
     (if sint size_value < 0 then Inl OutOfRangeIntegerValue
      else Inr (KeyValue (Negative (- sint size_value - 1))))"

definition read_byte_string_content :: "nat \<Rightarrow> u64 \<Rightarrow> bytes \<Rightarrow> decoder_error + cbor_value \<times> bytes" where
  "read_byte_string_content w size_value rem =
     (case read_bytes (as_usize w size_value) rem of
        Some (bs, rem') \<Rightarrow> Inr (cbor_bytes bs, rem')
      | None \<Rightarrow> Inl IncompleteCborData)"

definition read_text_string_content :: "nat \<Rightarrow> u64 \<Rightarrow> bytes \<Rightarrow> decoder_error + cbor_value \<times> bytes" where
  "read_text_string_content w size_value rem =
     (case read_bytes (as_usize w size_value) rem of
        Some (bs, rem') \<Rightarrow>
          (if utf8_valid bs then Inr (cbor_text bs, rem') else Inl InvalidUtf8)
      | None \<Rightarrow> Inl IncompleteCborData)"

definition decode_to_simple_value :: "u64 \<Rightarrow> u8 \<Rightarrow> decoder_error + cbor_value" where
  "decode_to_simple_value size_value additional_info =
     (if additional_info > ADDITIONAL_INFORMATION_MAX_INT
        \<and> additional_info \<noteq> ADDITIONAL_INFORMATION_1_BYTE
      then Inl UnsupportedFloatingPointValue
      else (case simple_from_integer size_value of
              Some simple_value \<Rightarrow> Inr (Simple simple_value)
            | None \<Rightarrow> Inl UnsupportedSimpleValue))"

definition with_rem :: "bytes \<Rightarrow> decoder_error + cbor_value \<Rightarrow> decoder_error + cbor_value \<times> bytes" where
  "with_rem rem r = rbind r (\<lambda>v. Inr (v, rem))"

text \<open>
  The mutually recursive part. The third argument of the loops is the number of elements left;
  \<open>read_map_content\<close> keeps the last key and the map built so far. An array or map at depth
  \<open>d\<close> decodes its items at depth \<open>d - 1\<close>, so the nesting bounds the recursion and the
  element count bounds the loops.
\<close>

function (sequential) decode_complete_data_item ::
    "nat \<Rightarrow> int \<Rightarrow> bytes \<Rightarrow> decoder_error + cbor_value \<times> bytes"
  and read_array_content ::
    "nat \<Rightarrow> int \<Rightarrow> nat \<Rightarrow> bytes \<Rightarrow> decoder_error + cbor_value list \<times> bytes"
  and read_map_content ::
    "nat \<Rightarrow> int \<Rightarrow> nat \<Rightarrow> key_type option \<Rightarrow> cbor_map \<Rightarrow> bytes \<Rightarrow> decoder_error + cbor_map \<times> bytes"
  where
  "decode_complete_data_item w remaining_depth rem =
     (if remaining_depth < 0 then Inl TooMuchNesting
      else case read_bytes 1 rem of
        Some ([first_byte], rem1) \<Rightarrow>
          (let major_type_value = drop_bit MAJOR_TYPE_BIT_SHIFT first_byte;
               additional_info = first_byte AND ADDITIONAL_INFORMATION_MASK
           in rbind (read_variadic_length_integer additional_info rem1) (\<lambda>(size_value, rem2).
             if major_type_value = 0 then with_rem rem2 (decode_value_to_unsigned size_value)
             else if major_type_value = 1 then with_rem rem2 (decode_value_to_negative size_value)
             else if major_type_value = 2 then read_byte_string_content w size_value rem2
             else if major_type_value = 3 then read_text_string_content w size_value rem2
             else if major_type_value = 4 then
               rbind (read_array_content w remaining_depth (unat size_value) rem2)
                 (\<lambda>(vs, rem3). Inr (Array vs, rem3))
             else if major_type_value = 5 then
               rbind (read_map_content w remaining_depth (unat size_value) None [] rem2)
                 (\<lambda>(m, rem3). Inr (Map m, rem3))
             else if major_type_value = 7 then
               with_rem rem2 (decode_to_simple_value size_value additional_info)
             else Inl UnsupportedMajorType))
      | _ \<Rightarrow> Inl IncompleteCborData)"
| "read_array_content w remaining_depth 0 rem = Inr ([], rem)"
| "read_array_content w remaining_depth (Suc n) rem =
     rbind (decode_complete_data_item w (remaining_depth - 1) rem) (\<lambda>(v, rem1).
     rbind (read_array_content w remaining_depth n rem1) (\<lambda>(vs, rem2). Inr (v # vs, rem2)))"
| "read_map_content w remaining_depth 0 last_key_option value_map rem = Inr (value_map, rem)"
| "read_map_content w remaining_depth (Suc n) last_key_option value_map rem =
     rbind (decode_complete_data_item w (remaining_depth - 1) rem) (\<lambda>(key_value, rem1).
       case key_value of
         KeyValue key \<Rightarrow>
           (if (case last_key_option of Some last_key \<Rightarrow> last_key \<ge> key | None \<Rightarrow> False)
            then Inl OutOfOrderKey
            else rbind (decode_complete_data_item w (remaining_depth - 1) rem1) (\<lambda>(v, rem2).
              read_map_content w remaining_depth n (Some key) (btree_insert key v value_map) rem2))
       | _ \<Rightarrow> Inl IncorrectMapKeyType)"
  by pat_completeness auto
termination
  by (relation "inv_image (less_than <*lex*> less_than)
        (\<lambda>x. case x of
           Inl (w, d, _) \<Rightarrow> (if d < 0 then 0 else 2 * nat d + 2, 0)
         | Inr (Inl (w, d, n, _)) \<Rightarrow> (if d < 0 then 1 else 2 * nat d + 1, n)
         | Inr (Inr (w, d, n, _)) \<Rightarrow> (if d < 0 then 1 else 2 * nat d + 1, n))") auto

declare decode_complete_data_item.simps [simp del]

definition cbor_read :: "nat \<Rightarrow> bytes \<Rightarrow> decoder_error + cbor_value" where
  "cbor_read w encoded_cbor =
     rbind (decode_complete_data_item w READER_MAX_NESTING_DEPTH encoded_cbor) (\<lambda>(value, rem).
       if rem \<noteq> [] then Inl ExtranousData else Inr value)"

section \<open>Integers and headers\<close>

lemma read_bytes_append: "n = length bs \<Longrightarrow> read_bytes n (bs @ rem) = Some (bs, rem)"
  by (simp add: read_bytes_def)

lemma read_bytes_Some: "read_bytes n rem = Some (bs, rem') \<longleftrightarrow> rem = bs @ rem' \<and> length bs = n"
  by (auto simp: read_bytes_def split: if_splits)

lemma unat_push_bit_8_add:
  assumes "unat (acc :: u64) < 256 ^ 7"
  shows "unat (push_bit 8 acc + ucast (b :: u8)) = unat acc * 256 + unat b"
proof -
  have "unat acc * 256 < 256 ^ 8" using assms by simp
  then have p: "unat (push_bit 8 acc) = unat acc * 256"
    by (simp add: push_bit_eq_mult unat_word_ariths)
  have "unat acc * 256 + unat b < 2 ^ 64"
    using assms unat_u8_less [of b] by (simp del: unat_u8_less)
  with p show ?thesis by (simp add: unat_word_ariths)
qed

lemma unat_accumulate_bytes: "length bs \<le> 8 \<Longrightarrow> unat (accumulate_bytes bs) = be_val bs"
proof (induction bs rule: rev_induct)
  case (snoc b bs)
  have "be_val bs < 256 ^ length bs" by (rule be_val_less)
  also have "\<dots> \<le> 256 ^ 7" using snoc.prems by (intro power_increasing) auto
  finally have "unat (accumulate_bytes bs) < 256 ^ 7" using snoc by simp
  moreover have "accumulate_bytes (bs @ [b]) = push_bit 8 (accumulate_bytes bs) + ucast b"
    by (simp add: accumulate_bytes_def)
  ultimately show ?case using snoc by (simp add: unat_push_bit_8_add)
qed (simp add: accumulate_bytes_def)

end
