(* ===== verification/Cbor_Roundtrip.thy ===== *)
theory Cbor_Roundtrip
  imports Cbor_Writer Cbor_Reader
begin

text \<open>
  The encoder and the decoder together: item headers, then the round trip (every value the
  writer accepts is read back) and canonicity (an input the reader accepts is the encoding of
  the value it returns), both for a pointer width of up to 64 bits.
\<close>

section \<open>Item headers\<close>

lemma ucast_u8_of_nat: "(ucast (x :: u64) :: u8) = of_nat (unat x)"
  by simp

lemma payload_bytes_be_enc:
  "map (\<lambda>i. ucast (drop_bit (i * 8) (sz :: u64))) (rev [0..<n]) = be_enc n (unat sz)"
proof (induction n arbitrary: sz)
  case (Suc n)
  have split: "rev [0..<Suc n] = map Suc (rev [0..<n]) @ [0]"
    by (simp only: upt_conv_Cons [OF zero_less_Suc] map_Suc_upt [symmetric] rev.simps rev_map)
  have "map (\<lambda>i. ucast (drop_bit (Suc i * 8) sz) :: u8) (rev [0..<n])
      = map (\<lambda>i. ucast (drop_bit (i * 8) (drop_bit 8 sz))) (rev [0..<n])"
    by (simp add: add.commute)
  also have "\<dots> = be_enc n (unat sz div 256)"
    by (simp only: Suc.IH unat_drop_bit) simp
  finally show ?case unfolding split by (simp add: comp_def)
qed simp

text \<open>The additional information and the number of length bytes the writer chooses.\<close>

definition header_class :: "u64 \<Rightarrow> u8 \<times> nat" where
  "header_class sz =
     (if sz \<le> 23 then (ucast sz, 0)
      else if sz \<le> 0xFF then (24, 1)
      else if sz \<le> 0xFFFF then (25, 2)
      else if sz \<le> 0xFFFFFFFF then (26, 4)
      else (27, 8))"

lemma start_item_class:
  "start_item t sz =
     (fst (header_class sz) OR push_bit 5 t) # be_enc (snd (header_class sz)) (unat sz)"
  unfolding start_item_def header_class_def payload_bytes_be_enc
  by (simp add: cbor_constants split: if_splits)

lemma start_item_neq_Nil [simp]: "start_item t sz \<noteq> []"
  by (simp add: start_item_class)

lemma fst_header_class_less: "fst (header_class sz) < 32"
proof (cases "sz \<le> 23")
  case True
  then have "unat sz \<le> 23" by (simp add: word_le_nat_alt)
  then have "unat (ucast sz :: u8) \<le> 23" by (simp add: unsigned_ucast_eq take_bit_nat_eq_self)
  with True show ?thesis by (simp add: header_class_def word_less_nat_alt)
qed (simp add: header_class_def)

lemma header_byte_split:
  assumes "(a :: u8) < 32" and "t < 8"
  shows "drop_bit 5 (a OR push_bit 5 t) = t" and "(a OR push_bit 5 t) AND 0x1F = a"
proof -
  have a: "take_bit 5 a = a"
    using take_bit_word_self [of a 5] assms(1) by (simp add: word_less_nat_alt)
  have t: "take_bit 3 t = t"
    using take_bit_word_self [of t 3] assms(2) by (simp add: word_less_nat_alt)
  have m: "(0x1F :: u8) = mask 5" by (simp add: mask_eq_exp_minus_1)
  have "drop_bit 5 a = 0" by (subst a [symmetric]) (simp add: drop_bit_take_bit)
  moreover have "drop_bit 5 (push_bit 5 t) = take_bit 3 t"
    by (rule bit_word_eqI) (auto simp: bit_simps)
  ultimately show "drop_bit 5 (a OR push_bit 5 t) = t" using t by (simp add: drop_bit_or)
  have "push_bit 5 t AND mask 5 = 0" by (rule bit_word_eqI) (auto simp: bit_simps)
  moreover have "a AND mask 5 = a" using a by (simp add: take_bit_eq_mask)
  ultimately show "(a OR push_bit 5 t) AND 0x1F = a" unfolding m
    by (simp add: bit.conj_disj_distrib2)
qed

lemma header_byte_join: "(b AND 0x1F) OR push_bit 5 (drop_bit 5 (b :: u8)) = b"
proof -
  have m: "(0x1F :: u8) = mask 5" by (simp add: mask_eq_exp_minus_1)
  show ?thesis unfolding m
  proof (rule bit_word_eqI)
    fix n
    show "bit ((b AND mask 5) OR push_bit 5 (drop_bit 5 b)) n = bit b n" if "n < LENGTH(8)"
      using that by (cases "n < 5") (auto simp: bit_simps)
  qed
qed

lemma and_1F_less: "(b AND 0x1F :: u8) < 32"
  using word_and_le1 [of b "0x1F"] by (rule order_le_less_trans) simp

lemma drop_bit_5_less: "drop_bit 5 (b :: u8) < 8"
proof -
  have "unat b div 32 < 8" using unat_u8_less [of b] by linarith
  then show ?thesis by (simp only: word_less_nat_alt unat_drop_bit) simp
qed

lemma accumulate_be_enc:
  "n \<le> 8 \<Longrightarrow> unat sz < 256 ^ n \<Longrightarrow> accumulate_bytes (be_enc n (unat sz)) = sz"
  by (rule unsigned_word_eqI [where ?'a = nat]) (simp add: unat_accumulate_bytes be_val_be_enc)

text \<open>The four multi-byte headers: additional information, length bytes, least value.\<close>

definition multi_byte :: "u8 \<Rightarrow> nat \<Rightarrow> nat \<Rightarrow> bool" where
  "multi_byte ai n lo \<longleftrightarrow> (ai, n, lo) \<in> {(24, 1, 24), (25, 2, 256), (26, 4, 65536), (27, 8, 4294967296)}"

lemma multi_byteE:
  assumes "multi_byte ai n lo"
  obtains "ai = 24" "n = 1" "lo = 24" | "ai = 25" "n = 2" "lo = 256"
    | "ai = 26" "n = 4" "lo = 65536" | "ai = 27" "n = 8" "lo = 4294967296"
  using assms by (auto simp: multi_byte_def)

lemma too_small_iff:
  assumes "multi_byte ai n lo"
  shows "(n = 1 \<and> sz < 24) \<or> (sz :: u64) < push_bit (8 * (n div 2)) 1 \<longleftrightarrow> unat sz < lo"
  using assms by (rule multi_byteE) (auto simp: word_less_nat_alt push_bit_eq_mult)

lemma read_variadic_multi:
  assumes "multi_byte ai n lo"
  shows "read_variadic_length_integer ai rem = Inr (sz, rem')
    \<longleftrightarrow> (\<exists>bs. rem = bs @ rem' \<and> length bs = n \<and> sz = accumulate_bytes bs \<and> lo \<le> unat sz)"
proof -
  have ai: "\<not> ai \<le> ADDITIONAL_INFORMATION_MAX_INT" "additional_bytes_num ai = Some n"
    using assms by (auto elim!: multi_byteE simp: additional_bytes_num_def cbor_constants)
  have eq: "read_variadic_length_integer ai rem =
    (case read_bytes n rem of None \<Rightarrow> Inl IncompleteCborData
     | Some (bs, rem') \<Rightarrow> if unat (accumulate_bytes bs) < lo then Inl NonMinimalCborEncoding
                        else Inr (accumulate_bytes bs, rem'))"
    by (simp only: read_variadic_length_integer_def ai if_False option.case Let_def
        too_small_iff [OF assms])
  show ?thesis
  proof (cases "read_bytes n rem")
    case None
    then show ?thesis by (auto simp: eq read_bytes_def split: if_splits)
  next
    case (Some p)
    obtain bs r where p: "p = (bs, r)" by (cases p)
    then have "rem = bs @ r" "length bs = n" using Some by (auto simp: read_bytes_Some)
    moreover have "read_variadic_length_integer ai rem = Inr (sz, rem')
      \<longleftrightarrow> sz = accumulate_bytes bs \<and> rem' = r \<and> lo \<le> unat sz"
      by (auto simp: eq Some p)
    ultimately show ?thesis by auto
  qed
qed

lemma read_variadic_small:
  "ai \<le> 23 \<Longrightarrow> read_variadic_length_integer ai rem = Inr (ucast ai, rem)"
  by (simp add: read_variadic_length_integer_def cbor_constants)

lemma header_class_multi:
  assumes "multi_byte ai n lo" and "unat sz < 256 ^ n" and "lo \<le> unat sz"
  shows "header_class sz = (ai, n)"
  using assms by (auto elim!: multi_byteE simp: header_class_def word_le_nat_alt)

lemma header_class_cases:
  obtains (small) "sz \<le> 23" "header_class sz = (ucast sz, 0)"
  | (multi) ai n lo where "multi_byte ai n lo" "unat sz < 256 ^ n" "lo \<le> unat sz" "header_class sz = (ai, n)"
proof -
  have "unat sz < 2 ^ 64" using unsigned_less [of sz, where ?'a = nat] by simp
  then consider "unat sz \<le> 23" | "24 \<le> unat sz" "unat sz < 256 ^ 1" | "256 \<le> unat sz" "unat sz < 256 ^ 2"
    | "65536 \<le> unat sz" "unat sz < 256 ^ 4" | "4294967296 \<le> unat sz" "unat sz < 256 ^ 8"
    by fastforce
  then show thesis
  proof cases
    case 1
    then show ?thesis by (intro small) (simp_all add: header_class_def word_le_nat_alt)
  qed (rule multi, auto simp: multi_byte_def intro: header_class_multi)+
qed

lemma ucast_small:
  "(sz :: u64) \<le> 23 \<Longrightarrow> (ucast sz :: u8) \<le> 23 \<and> ucast (ucast sz :: u8) = sz"
proof -
  assume "sz \<le> 23"
  then have "unat sz \<le> 23" by (simp add: word_le_nat_alt)
  then have "unat (ucast sz :: u8) = unat sz"
    by (simp add: unsigned_ucast_eq take_bit_nat_eq_self)
  with \<open>unat sz \<le> 23\<close> show ?thesis
    by (simp add: word_le_nat_alt word_unat_eq_iff)
qed

lemma read_header_class:
  "read_variadic_length_integer (fst (header_class sz)) (be_enc (snd (header_class sz)) (unat sz) @ rem)
     = Inr (sz, rem)"
proof (cases rule: header_class_cases [of sz])
  case small
  then show ?thesis by (simp add: read_variadic_small ucast_small)
next
  case (multi ai n lo)
  moreover have "n \<le> 8" using multi(1) by (rule multi_byteE) auto
  ultimately show ?thesis by (auto simp: read_variadic_multi accumulate_be_enc)
qed

lemma read_variadic_canonical:
  assumes "read_variadic_length_integer ai rem = Inr (sz, rem')" and "ai < 32"
  shows "ai = fst (header_class sz) \<and> rem = be_enc (snd (header_class sz)) (unat sz) @ rem'"
proof -
  have "additional_bytes_num ai \<noteq> None \<Longrightarrow> \<exists>n lo. multi_byte ai n lo"
    by (auto simp: multi_byte_def additional_bytes_num_def cbor_constants split: if_splits)
  then consider "ai \<le> 23" | n lo where "multi_byte ai n lo" | "additional_bytes_num ai = None" "\<not> ai \<le> 23"
    by blast
  then show ?thesis
  proof cases
    case 1
    then have "sz = ucast ai" "rem' = rem" using assms(1) by (simp_all add: read_variadic_small)
    moreover have "sz \<le> 23" using 1 calculation(1) by (simp add: word_le_nat_alt)
    ultimately show ?thesis by (simp add: header_class_def)
  next
    case (2 n lo)
    with assms(1) obtain bs where bs: "rem = bs @ rem'" "length bs = n" "sz = accumulate_bytes bs"
      "lo \<le> unat sz" by (auto simp: read_variadic_multi)
    moreover have "n \<le> 8" using 2 by (rule multi_byteE) auto
    ultimately have sz: "unat sz = be_val bs" by (simp add: unat_accumulate_bytes)
    then have "header_class sz = (ai, n)"
      using be_val_less [of bs] bs by (intro header_class_multi [OF 2]) auto
    moreover have "be_enc n (unat sz) = bs" using sz bs be_enc_be_val [of bs] by simp
    ultimately show ?thesis using bs by simp
  next
    case 3
    then show ?thesis
      using assms(1) by (simp add: read_variadic_length_integer_def cbor_constants)
  qed
qed

section \<open>Round trip\<close>

text \<open>What the decoder does once the header is read.\<close>

definition decode_body ::
    "nat \<Rightarrow> int \<Rightarrow> u8 \<Rightarrow> u8 \<Rightarrow> u64 \<Rightarrow> bytes \<Rightarrow> decoder_error + cbor_value \<times> bytes" where
  "decode_body w d major ai sz rem =
     (if major = 0 then with_rem rem (decode_value_to_unsigned sz)
      else if major = 1 then with_rem rem (decode_value_to_negative sz)
      else if major = 2 then read_byte_string_content w sz rem
      else if major = 3 then read_text_string_content w sz rem
      else if major = 4 then
        rbind (read_array_content w d (unat sz) rem) (\<lambda>(vs, rem'). Inr (Array vs, rem'))
      else if major = 5 then
        rbind (read_map_content w d (unat sz) None [] rem) (\<lambda>(m, rem'). Inr (Map m, rem'))
      else if major = 7 then with_rem rem (decode_to_simple_value sz ai)
      else Inl UnsupportedMajorType)"

lemma decode_Cons:
  "0 \<le> d \<Longrightarrow> decode_complete_data_item w d (b # rem) =
     rbind (read_variadic_length_integer (b AND 0x1F) rem)
       (\<lambda>(sz, rem'). decode_body w d (drop_bit 5 b) (b AND 0x1F) sz rem')"
  by (subst decode_complete_data_item.simps)
    (auto simp: read_bytes_def cbor_constants decode_body_def Let_def intro!: rbind_cong)

lemma decode_Nil: "decode_complete_data_item w d [] = Inl (if d < 0 then TooMuchNesting else IncompleteCborData)"
  by (subst decode_complete_data_item.simps) (simp add: read_bytes_def)

lemma decode_start_item:
  "0 \<le> d \<Longrightarrow> t < 8 \<Longrightarrow> decode_complete_data_item w d (start_item t sz @ rem)
     = decode_body w d t (fst (header_class sz)) sz rem"
  by (simp only: start_item_class append_Cons decode_Cons read_header_class rbind_Inr prod.case
      header_byte_split [OF fst_header_class_less])

lemma sint_of_nonneg: "0 \<le> n \<Longrightarrow> n < 2 ^ 63 \<Longrightarrow> sint (of_int n :: u64) = n"
  by (simp add: signed_of_int signed_take_bit_int_eq_self)

lemma unat_of_nat_len:
  assumes "n < 2 ^ w" and "w \<le> 64"
  shows "unat (of_nat n :: u64) = n"
proof -
  have "(2 :: nat) ^ w \<le> 2 ^ 64" using assms(2) by (intro power_increasing) auto
  with assms(1) have "n < 2 ^ 64" by (rule less_le_trans)
  then show ?thesis by (simp add: unat_of_nat)
qed

lemma decode_enc_key:
  assumes "key_ok w k" and "w \<le> 64" and "0 \<le> d"
  shows "decode_complete_data_item w d (enc_key k @ rem) = Inr (KeyValue k, rem)"
proof -
  have len: "as_usize w (of_nat n) = n" if "n < 2 ^ w" for n
    using unat_of_nat_len [OF that assms(2)] that by (simp add: as_usize_def)
  show ?thesis
  proof (cases k)
    case (Negative n)
    with assms(1) have "sint (of_int (- (n + 1)) :: u64) = - (n + 1)"
      by (intro sint_of_nonneg) auto
    with Negative assms(1,3) show ?thesis
      by (simp add: decode_start_item decode_body_def decode_value_to_negative_def with_rem_def)
  qed (use assms len in \<open>simp_all add: decode_start_item decode_body_def with_rem_def
      decode_value_to_unsigned_def cbor_unsigned_def read_byte_string_content_def
      read_text_string_content_def read_bytes_append cbor_bytes_def cbor_text_def\<close>)
qed

lemma read_array_enc:
  assumes "\<And>v rem. v \<in> set vs \<Longrightarrow> decode_complete_data_item w (d - 1) (enc v @ rem) = Inr (v, rem)"
  shows "read_array_content w d (length vs) (concat (map enc vs) @ rem) = Inr (vs, rem)"
  using assms by (induction vs) simp_all

lemma read_map_enc:
  assumes "\<And>k v rem. (k, v) \<in> set kvs \<Longrightarrow>
      decode_complete_data_item w (d - 1) (enc_key k @ rem) = Inr (KeyValue k, rem)
      \<and> decode_complete_data_item w (d - 1) (enc v @ rem) = Inr (v, rem)"
    and "btree_ok (acc @ kvs)"
    and "\<forall>k \<in> fst ` set kvs. \<forall>l. last_key = Some l \<longrightarrow> l < k"
  shows "read_map_content w d (length kvs) last_key acc
      (concat (map (\<lambda>(k, v). enc_key k @ enc v) kvs) @ rem) = Inr (acc @ kvs, rem)"
  using assms
proof (induction kvs arbitrary: last_key acc)
  case (Cons kv kvs)
  obtain k v where kv: "kv = (k, v)" by (cases kv)
  from Cons.prems(2) have acc: "\<forall>a \<in> fst ` set acc. a < k" and k: "\<forall>k' \<in> fst ` set kvs. k < k'"
    by (auto simp: kv btree_ok_def sorted_wrt_append)
  have "read_map_content w d (length kvs) (Some k) (acc @ [(k, v)])
      (concat (map (\<lambda>(k, v). enc_key k @ enc v) kvs) @ rem) = Inr ((acc @ [(k, v)]) @ kvs, rem)"
    by (rule Cons.IH) (use Cons.prems k in \<open>auto simp: kv\<close>)
  moreover have "\<not> (case last_key of Some l \<Rightarrow> k \<le> l | None \<Rightarrow> False)"
    using Cons.prems(3) by (auto simp: kv split: option.splits)
  ultimately show ?case
    using Cons.prems(1) [of k v] by (simp add: kv btree_insert_greatest acc)
qed simp

lemma decode_enc:
  "value_ok w v \<Longrightarrow> w \<le> 64 \<Longrightarrow> fits v d \<Longrightarrow>
     decode_complete_data_item w d (enc v @ rem) = Inr (v, rem)"
proof (induction v arbitrary: d rem)
  case (KeyValue k)
  then show ?case by (simp add: decode_enc_key)
next
  case (Array vs)
  then have "0 \<le> d" and sz: "unat (of_nat (length vs) :: u64) = length vs"
    by (auto simp: fits_Array unat_of_nat_len)
  moreover have "read_array_content w d (length vs) (concat (map enc vs) @ rem) = Inr (vs, rem)"
    using Array by (intro read_array_enc) (auto simp: fits_Array list_all_iff)
  ultimately show ?case by (simp add: decode_start_item decode_body_def)
next
  case (Map kvs)
  then have "0 \<le> d" and sz: "unat (of_nat (length kvs) :: u64) = length kvs"
    by (auto simp: fits_Map unat_of_nat_len)
  moreover have "read_map_content w d (length kvs) None []
      (concat (map (\<lambda>(k, v). enc_key k @ enc v) kvs) @ rem) = Inr ([] @ kvs, rem)"
  proof (rule read_map_enc)
    fix k v r
    assume kv: "(k, v) \<in> set kvs"
    with Map.prems have ok: "key_ok w k" "value_ok w v" "fits v (d - 1)"
      by (auto simp: list_all_iff fits_Map)
    then have "0 \<le> d - 1" by (simp add: fits_def)
    with ok kv Map.prems(2) Map.IH [OF kv]
    show "decode_complete_data_item w (d - 1) (enc_key k @ r) = Inr (KeyValue k, r)
      \<and> decode_complete_data_item w (d - 1) (enc v @ r) = Inr (v, r)"
      by (simp add: decode_enc_key)
  qed (use Map.prems in auto)
  ultimately show ?case by (simp add: decode_start_item decode_body_def)
next
  case (Simple s)
  have "fst (header_class (simple_as_u64 s)) \<le> 23"
    by (cases s) (simp_all add: header_class_def)
  with Simple show ?case
    by (simp add: decode_start_item decode_body_def decode_to_simple_value_def cbor_constants
        with_rem_def not_less)
qed

section \<open>Canonicity\<close>

lemma decode_header:
  assumes "decode_complete_data_item w d bs = Inr (v, rem)"
  obtains t sz rem' where "0 \<le> d" and "t < 8" and "bs = start_item t sz @ rem'"
    and "decode_body w d t (fst (header_class sz)) sz rem' = Inr (v, rem)"
proof -
  from assms have d: "0 \<le> d" by (subst (asm) decode_complete_data_item.simps) (auto split: if_splits)
  from assms obtain b bs' where bs: "bs = b # bs'"
    by (cases bs) (auto simp: decode_Nil)
  from assms d bs obtain sz rem' where
    rd: "read_variadic_length_integer (b AND 0x1F) bs' = Inr (sz, rem')" and
    body: "decode_body w d (drop_bit 5 b) (b AND 0x1F) sz rem' = Inr (v, rem)"
    by (auto simp: decode_Cons rbind_eq_Inr_iff)
  note can = read_variadic_canonical [OF rd and_1F_less]
  then have "bs = start_item (drop_bit 5 b) sz @ rem'"
    using header_byte_join [of b] by (simp add: start_item_class bs)
  with that d drop_bit_5_less body can show thesis by metis
qed

lemma key_body_canonical:
  assumes "decode_body 64 d t ai sz rem' = Inr (KeyValue k, rem)"
  shows "start_item t sz @ rem' = enc_key k @ rem \<and> key_ok 64 k"
proof -
  have "as_usize 64 sz = unat sz"
    using unsigned_less [of sz, where ?'a = nat] by (simp add: as_usize_def)
  moreover have "of_int (sint sz) = sz" by simp
  moreover have "sint sz < 2 ^ 63" using sint_lt [of sz] by simp
  moreover have "unat sz < 2 ^ 64" using unsigned_less [of sz, where ?'a = nat] by simp
  ultimately show ?thesis
    using assms
    by (auto simp: decode_body_def with_rem_def rbind_eq_Inr_iff decode_value_to_unsigned_def
        decode_value_to_negative_def read_byte_string_content_def read_text_string_content_def
        decode_to_simple_value_def cbor_unsigned_def cbor_bytes_def cbor_text_def read_bytes_Some
        split: if_splits option.splits)
qed

lemma simple_body_canonical:
  assumes "decode_body w d t ai sz rem' = Inr (Simple s, rem)"
  shows "start_item t sz @ rem' = enc (Simple s) @ rem"
  using assms
  by (auto simp: decode_body_def with_rem_def rbind_eq_Inr_iff decode_value_to_unsigned_def
      decode_value_to_negative_def read_byte_string_content_def read_text_string_content_def
      decode_to_simple_value_def cbor_unsigned_def cbor_bytes_def cbor_text_def
      dest!: simple_from_integer_Some split: if_splits option.splits)

lemma container_body:
  "decode_body w d t ai sz rem' = Inr (Array vs, rem) \<Longrightarrow>
     t = 4 \<and> read_array_content w d (unat sz) rem' = Inr (vs, rem)"
  "decode_body w d t ai sz rem' = Inr (Map m, rem) \<Longrightarrow>
     t = 5 \<and> read_map_content w d (unat sz) None [] rem' = Inr (m, rem)"
  by (auto simp: decode_body_def with_rem_def rbind_eq_Inr_iff decode_value_to_unsigned_def
      decode_value_to_negative_def read_byte_string_content_def read_text_string_content_def
      decode_to_simple_value_def cbor_unsigned_def cbor_bytes_def cbor_text_def
      split: if_splits option.splits)

text \<open>
  Canonicity of the items of a container, as an assumption on the next lower depth.
\<close>

definition canonical_at :: "int \<Rightarrow> bool" where
  "canonical_at d \<longleftrightarrow> (\<forall>bs v rem. decode_complete_data_item 64 d bs = Inr (v, rem) \<longrightarrow>
     bs = enc v @ rem \<and> value_ok 64 v \<and> fits v d)"

lemma canonical_atD:
  "canonical_at d \<Longrightarrow> decode_complete_data_item 64 d bs = Inr (v, rem) \<Longrightarrow>
     bs = enc v @ rem \<and> value_ok 64 v \<and> fits v d"
  by (auto simp: canonical_at_def)

lemma read_array_canonical:
  assumes "canonical_at (d - 1)" and "read_array_content 64 d n bs = Inr (vs, rem)"
  shows "bs = concat (map enc vs) @ rem \<and> length vs = n \<and> list_all (value_ok 64) vs
    \<and> (\<forall>v \<in> set vs. fits v (d - 1))"
  using assms(2)
proof (induction n arbitrary: bs vs)
  case (Suc n)
  then obtain v rem1 vs' where "decode_complete_data_item 64 (d - 1) bs = Inr (v, rem1)"
    and rest: "read_array_content 64 d n rem1 = Inr (vs', rem)" and "vs = v # vs'"
    by (auto simp: rbind_eq_Inr_iff)
  with canonical_atD [OF assms(1)] Suc.IH [OF rest] show ?case by force
qed simp

text \<open>\<open>seen\<close>: the last key read bounds every key already in the map.\<close>

definition seen :: "key_type option \<Rightarrow> cbor_map \<Rightarrow> bool" where
  "seen last_key acc \<longleftrightarrow> btree_ok acc \<and> (\<forall>a \<in> fst ` set acc. \<exists>l. last_key = Some l \<and> a \<le> l)"

lemma seen_snoc:
  assumes "seen last_key acc" and "\<not> (case last_key of Some l \<Rightarrow> k \<le> l | None \<Rightarrow> False)"
  shows "btree_insert k v acc = acc @ [(k, v)]" and "seen (Some k) (acc @ [(k, v)])"
proof -
  have "\<forall>a \<in> fst ` set acc. a < k"
    using assms by (fastforce simp: seen_def split: option.splits)
  then show "btree_insert k v acc = acc @ [(k, v)]" "seen (Some k) (acc @ [(k, v)])"
    using assms(1) by (auto simp: seen_def btree_insert_greatest btree_ok_snoc less_imp_le)
qed

lemma read_map_SucE:
  assumes "read_map_content w d (Suc n) last_key acc bs = Inr (m, rem)"
  obtains k rem1 v rem2 where
    "decode_complete_data_item w (d - 1) bs = Inr (KeyValue k, rem1)"
    "decode_complete_data_item w (d - 1) rem1 = Inr (v, rem2)"
    "\<not> (case last_key of Some l \<Rightarrow> k \<le> l | None \<Rightarrow> False)"
    "read_map_content w d n (Some k) (btree_insert k v acc) rem2 = Inr (m, rem)"
proof -
  from assms obtain kv rem1 where dec: "decode_complete_data_item w (d - 1) bs = Inr (kv, rem1)"
    by (auto simp: rbind_eq_Inr_iff)
  with assms that show thesis
    by (cases kv) (auto simp: rbind_eq_Inr_iff split: if_splits)
qed

lemma read_map_canonical:
  assumes "canonical_at (d - 1)" and "read_map_content 64 d n last_key acc bs = Inr (m, rem)"
    and "seen last_key acc"
  shows "\<exists>kvs. m = acc @ kvs \<and> btree_ok m \<and> length kvs = n
    \<and> bs = concat (map (\<lambda>(k, v). enc_key k @ enc v) kvs) @ rem
    \<and> list_all (\<lambda>(k, v). key_ok 64 k \<and> value_ok 64 v) kvs \<and> (\<forall>(k, v) \<in> set kvs. fits v (d - 1))"
  using assms(2,3)
proof (induction n arbitrary: last_key acc bs)
  case 0
  then show ?case by (simp add: seen_def)
next
  case (Suc n)
  from Suc.prems(1) obtain k rem1 v rem2 where
    k: "decode_complete_data_item 64 (d - 1) bs = Inr (KeyValue k, rem1)" and
    v: "decode_complete_data_item 64 (d - 1) rem1 = Inr (v, rem2)" and
    ord: "\<not> (case last_key of Some l \<Rightarrow> k \<le> l | None \<Rightarrow> False)" and
    rest: "read_map_content 64 d n (Some k) (btree_insert k v acc) rem2 = Inr (m, rem)"
    by (rule read_map_SucE)
  note s = seen_snoc [OF Suc.prems(2) ord]
  obtain kvs where kvs: "m = (acc @ [(k, v)]) @ kvs" "btree_ok m" "length kvs = n"
    "rem2 = concat (map (\<lambda>(k, v). enc_key k @ enc v) kvs) @ rem"
    "list_all (\<lambda>(k, v). key_ok 64 k \<and> value_ok 64 v) kvs" "\<forall>(k, v) \<in> set kvs. fits v (d - 1)"
    using Suc.IH [OF rest [unfolded s(1)] s(2)] by blast
  from canonical_atD [OF assms(1) k] canonical_atD [OF assms(1) v] kvs
  show ?case by (intro exI [of _ "(k, v) # kvs"]) auto
qed

lemma decode_canonical: "canonical_at d"
proof (induction "nat (d + 1)" arbitrary: d rule: less_induct)
  case less
  show ?case
    unfolding canonical_at_def
  proof (intro allI impI)
    fix bs v rem
    assume dec: "decode_complete_data_item 64 d bs = Inr (v, rem)"
    then obtain t sz rem' where hd: "0 \<le> d" "bs = start_item t sz @ rem'"
      and body: "decode_body 64 d t (fst (header_class sz)) sz rem' = Inr (v, rem)"
      by (rule decode_header)
    from hd have IH: "canonical_at (d - 1)" by (intro less) simp
    have sz: "unat sz < 2 ^ 64" "of_nat (unat sz) = sz"
      using unsigned_less [of sz, where ?'a = nat] by simp_all
    show "bs = enc v @ rem \<and> value_ok 64 v \<and> fits v d"
    proof (cases v)
      case (KeyValue k)
      with key_body_canonical body hd show ?thesis by auto
    next
      case (Array vs)
      with container_body(1) body have "t = 4" "read_array_content 64 d (unat sz) rem' = Inr (vs, rem)"
        by auto
      with read_array_canonical [OF IH] hd sz Array show ?thesis by (fastforce simp: fits_Array)
    next
      case (Map m)
      with container_body(2) body have "t = 5" "read_map_content 64 d (unat sz) None [] rem' = Inr (m, rem)"
        by auto
      with read_map_canonical [OF IH, of "unat sz" None "[]"] hd sz Map show ?thesis
        by (fastforce simp: fits_Map seen_def)
    next
      case (Simple s)
      with simple_body_canonical body hd show ?thesis by fastforce
    qed
  qed
qed

section \<open>The key order is the byte order of the encodings\<close>

lemma lin_cmp_div_mod:
  "lin_cmp a b = ord_then (lin_cmp (a div 256) (b div 256)) (lin_cmp (a mod 256) (b mod (256 :: nat)))"
proof -
  consider "a div 256 < b div 256" | "a div 256 = b div 256" | "b div 256 < a div 256"
    by (rule linorder_cases)
  then show ?thesis
  proof cases
    case 1
    then have "a < b" using div_le_mono [of b a 256] by linarith
    with 1 show ?thesis by (simp add: lin_cmp_def)
  next
    case 2
    then have "a < b \<longleftrightarrow> a mod 256 < b mod 256" "a = b \<longleftrightarrow> a mod 256 = b mod 256"
      using div_mult_mod_eq [of a 256] div_mult_mod_eq [of b 256] by linarith+
    with 2 show ?thesis by (simp add: lin_cmp_def)
  next
    case 3
    then have "b < a" using div_le_mono [of a b 256] by linarith
    with 3 show ?thesis by (simp add: lin_cmp_def)
  qed
qed

lemma lin_cmp_unat: "lin_cmp (a :: 'a::len word) b = lin_cmp (unat a) (unat b)"
  by (simp add: lin_cmp_def word_less_nat_alt word_unat_eq_iff)

lemma ord_then_assoc: "ord_then (ord_then r s) t = ord_then r (ord_then s t)"
  by (cases r) auto

lemma slice_cmp_be_enc:
  "a < 256 ^ n \<Longrightarrow> b < 256 ^ n \<Longrightarrow>
     slice_cmp (be_enc n a @ x) (be_enc n b @ y) = ord_then (lin_cmp a b) (slice_cmp x y)"
proof (induction n arbitrary: a b x y)
  case 0
  then show ?case by (simp add: lin_cmp_def)
next
  case (Suc n)
  then have "a div 256 < 256 ^ n" "b div 256 < 256 ^ n"
    by (simp_all add: div_less_iff_less_mult mult.commute)
  then show ?case
    by (subst lin_cmp_div_mod) (simp add: Suc.IH lin_cmp_unat ord_then_assoc)
qed

lemma unat_header_byte:
  assumes "(a :: u8) < 32" and "t < 8"
  shows "unat (a OR push_bit 5 t) = unat t * 32 + unat a"
proof -
  let ?b = "a OR push_bit 5 t"
  have "unat ?b div 32 = unat t"
    using unat_drop_bit [of 5 ?b] header_byte_split(1) [OF assms] by simp
  moreover have "(0x1F :: u8) = mask 5" by (simp add: mask_eq_exp_minus_1)
  then have "take_bit 5 ?b = a"
    using header_byte_split(2) [OF assms] by (simp add: take_bit_eq_mask)
  then have "unat ?b mod 32 = unat a"
    using unsigned_take_bit_eq [of 5 ?b, where ?'a = nat] by (simp add: take_bit_eq_mod)
  ultimately show ?thesis using div_mult_mod_eq [of "unat ?b" 32] by simp
qed

lemma unat_fst_header_class:
  "unat (fst (header_class sz)) =
     (if unat sz \<le> 23 then unat sz else if unat sz \<le> 0xFF then 24
      else if unat sz \<le> 0xFFFF then 25 else if unat sz \<le> 0xFFFFFFFF then 26 else 27)"
  using ucast_small [of sz]
  by (auto simp: header_class_def word_le_nat_alt unsigned_ucast_eq take_bit_nat_eq_self)

lemma header_class_cmp:
  "ord_then (lin_cmp (unat (fst (header_class s1))) (unat (fst (header_class s2)))) (lin_cmp (unat s1) (unat s2))
     = lin_cmp (unat s1) (unat s2)"
  by (auto simp: unat_fst_header_class lin_cmp_def)

lemma snd_header_class:
  "snd (header_class sz) =
     (if unat sz \<le> 23 then 0 else if unat sz \<le> 0xFF then 1
      else if unat sz \<le> 0xFFFF then 2 else if unat sz \<le> 0xFFFFFFFF then 4 else 8)"
  by (simp add: header_class_def word_le_nat_alt)

lemma header_class_eq:
  "unat (fst (header_class s1)) = unat (fst (header_class s2)) \<Longrightarrow>
     snd (header_class s1) = snd (header_class s2)
     \<and> (snd (header_class s1) = 0 \<longrightarrow> unat s1 = unat s2)"
  by (auto simp: unat_fst_header_class snd_header_class split: if_splits)

lemma unat_less_header_class: "snd (header_class s) \<noteq> 0 \<Longrightarrow> unat s < 256 ^ snd (header_class s)"
  by (cases rule: header_class_cases [of s]) auto

lemma lin_cmp_header_byte:
  assumes "a1 < 32" "t1 < 8" "a2 < 32" "t2 < 8"
  shows "lin_cmp (a1 OR push_bit 5 t1) (a2 OR push_bit 5 t2)
    = ord_then (lin_cmp (unat t1) (unat t2)) (lin_cmp (unat (a1 :: u8)) (unat a2))"
proof -
  have "unat a1 < 32" "unat a2 < 32" using assms(1,3) by (simp_all add: word_less_nat_alt)
  then show ?thesis
    by (auto simp: lin_cmp_unat unat_header_byte assms lin_cmp_def)
qed

lemma slice_cmp_start_item:
  assumes "t1 < 8" and "t2 < 8"
  shows "slice_cmp (start_item t1 s1 @ x) (start_item t2 s2 @ y)
    = ord_then (lin_cmp (unat t1) (unat t2)) (ord_then (lin_cmp (unat s1) (unat s2)) (slice_cmp x y))"
proof -
  let ?a1 = "unat (fst (header_class s1))" and ?a2 = "unat (fst (header_class s2))"
  let ?p1 = "be_enc (snd (header_class s1)) (unat s1) @ x"
  let ?p2 = "be_enc (snd (header_class s2)) (unat s2) @ y"
  have "ord_then (lin_cmp ?a1 ?a2) (slice_cmp ?p1 ?p2)
      = ord_then (lin_cmp (unat s1) (unat s2)) (slice_cmp x y)"
  proof (cases "?a1 = ?a2")
    case True
    note same = True and eq = header_class_eq [OF True]
    show ?thesis
    proof (cases "snd (header_class s1) = 0")
      case True
      with eq same show ?thesis by (simp add: lin_cmp_def)
    next
      case False
      with eq unat_less_header_class [of s1] unat_less_header_class [of s2] same
      show ?thesis by (simp add: slice_cmp_be_enc) (simp add: lin_cmp_def)
    qed
  next
    case False
    then show ?thesis
      using header_class_cmp [of s1 s2]
      by (cases "?a1 < ?a2") (auto simp: lin_cmp_def split: if_splits)
  qed
  then show ?thesis
    by (simp add: start_item_class lin_cmp_header_byte fst_header_class_less assms ord_then_assoc)
qed

text \<open>A key is encoded as its label, an integer and, for strings, the content.\<close>

fun key_head :: "key_type \<Rightarrow> u64" where
  "key_head (Unsigned u) = u"
| "key_head (Negative n) = of_int (- (n + 1))"
| "key_head (ByteString b) = of_nat (length b)"
| "key_head (TextString t) = of_nat (length t)"

fun key_content :: "key_type \<Rightarrow> bytes" where
  "key_content (ByteString b) = b"
| "key_content (TextString t) = t"
| "key_content _ = []"

lemma enc_key_parts: "enc_key k = start_item (key_type_label k) (key_head k) @ key_content k"
  by (cases k) auto

lemma key_type_label_less: "key_type_label k < 8"
  by (cases k) auto

lemma unat_key_head:
  assumes "key_ok 64 k"
  shows "unat (key_head k) = (case k of Unsigned u \<Rightarrow> unat u | Negative n \<Rightarrow> nat (- (n + 1))
    | ByteString b \<Rightarrow> length b | TextString t \<Rightarrow> length t)"
proof (cases k)
  case (Negative n)
  with assms have n: "n < 0" "nat (- (n + 1)) < 2 ^ 63" by auto
  then have "unat (of_nat (nat (- (n + 1))) :: u64) = nat (- (n + 1))"
    by (intro unat_of_nat_len [of _ 63]) auto
  moreover have "of_nat (nat (- (n + 1))) = (of_int (- (n + 1)) :: u64)"
    using n by (subst of_nat_nat) auto
  ultimately show ?thesis using Negative by simp
qed (use assms in \<open>auto intro!: unat_of_nat_len [of _ 64]\<close>)

lemma enc_key_cmp:
  assumes "key_ok 64 k1" and "key_ok 64 k2"
  shows "slice_cmp (enc_key k1) (enc_key k2) = key_cmp k1 k2"
proof -
  have "slice_cmp (enc_key k1) (enc_key k2)
      = ord_then (lin_cmp (unat (key_type_label k1)) (unat (key_type_label k2)))
         (ord_then (lin_cmp (unat (key_head k1)) (unat (key_head k2)))
            (slice_cmp (key_content k1) (key_content k2)))"
    by (simp add: enc_key_parts slice_cmp_start_item key_type_label_less)
  also have "\<dots> = key_cmp k1 k2"
    unfolding unat_key_head [OF assms(1)] unat_key_head [OF assms(2)]
    using assms
    by (cases k1; cases k2) (auto simp: key_cmp_def lin_cmp_def word_less_nat_alt word_unat_eq_iff)
  finally show ?thesis .
qed

end
