(* ===== verification/Cbor.thy ===== *)
theory Cbor
  imports Cbor_Roundtrip
begin

text \<open>
  The properties of the CBOR library (\<open>libraries/cbor\<close>) as its clients rely on them.
\<close>

lemmas cbor_read_eval =
  cbor_read_def READER_MAX_NESTING_DEPTH_def decode_Cons decode_body_def
  read_variadic_length_integer_def additional_bytes_num_def cbor_constants read_bytes_def
  accumulate_bytes_def decode_value_to_unsigned_def cbor_unsigned_def with_rem_def
  read_byte_string_content_def as_usize_def cbor_bytes_def

lemma read_array_numeral:
  "read_array_content w d (numeral n) rem =
     rbind (decode_complete_data_item w (d - 1) rem) (\<lambda>(v, rem1).
     rbind (read_array_content w d (pred_numeral n) rem1) (\<lambda>(vs, rem2). Inr (v # vs, rem2)))"
  by (simp add: numeral_eq_Suc)

lemmas cbor_write_eval =
  cbor_write_def WRITER_MAX_NESTING_DEPTH_def encode_cbor.simps start_item_def

definition sample_value :: cbor_value where
  "sample_value =
     Map [(Unsigned 1, cbor_text [0x70, 0xC3, 0xBC]),
          (Unsigned 500, Array [cbor_bytes [1, 2], Simple TrueValue]),
          (Negative (- 7), cbor_int (- 300))]"

lemma sample_value_ok: "value_ok 32 sample_value" "value_depth sample_value = 2"
  by (simp_all add: sample_value_def btree_ok_def less_key_type_def key_cmp_def lin_cmp_def
      cbor_text_def cbor_bytes_def cbor_int_def key_integer_def in_range_def)

text \<open>
  C11. Decoding what the encoder wrote gives the value back: for every well-formed value that is
  nested at most four deep, \<open>write\<close> succeeds and \<open>read\<close> of its output returns the value,
  on targets with pointers of up to 64 bits.
\<close>

theorem cbor_round_trip:
  assumes "value_ok w v" and "w \<le> 64" and "value_depth v \<le> 4"
  shows "\<exists>bs. cbor_write v [] = (True, bs) \<and> cbor_read w bs = Inr v"
proof -
  have fits: "fits v 4" using assms(3) by (simp add: fits_def)
  have "cbor_read w (enc v) = Inr v"
    using decode_enc [OF assms(1,2) fits, of "[]"]
    by (simp add: cbor_read_def READER_MAX_NESTING_DEPTH_def)
  with encode_cbor_fits(1) [OF fits, of "[]"] show ?thesis
    by (simp add: cbor_write_def WRITER_MAX_NESTING_DEPTH_def)
qed

theorem cbor_round_trip_witness:
  "\<exists>bs. cbor_write sample_value [] = (True, bs) \<and> cbor_read 32 bs = Inr sample_value"
  by (rule cbor_round_trip) (simp_all add: sample_value_ok)




text \<open>
  The encoder fails exactly on values nested more than four deep; otherwise it appends the
  encoding to the buffer and leaves what was there.
\<close>

theorem cbor_write_depth:
  "(value_depth v \<le> 4 \<longrightarrow> cbor_write v buf = (True, buf @ enc v))
   \<and> (4 < value_depth v \<longrightarrow> fst (cbor_write v buf) = False)"
  using encode_cbor_fits(1) [of v 4 buf] encode_cbor_too_deep(1) [of v 4 buf]
  by (auto simp: cbor_write_def WRITER_MAX_NESTING_DEPTH_def fits_def)

theorem cbor_write_depth_witness:
  "cbor_write sample_value [1] = (True, 1 # enc sample_value)
   \<and> fst (cbor_write (Array [Array [Array [Array [Array [cbor_int 0]]]]]) []) = False"
proof
  show "cbor_write sample_value [1] = (True, 1 # enc sample_value)"
    using cbor_write_depth [of sample_value "[1]"] by (simp add: sample_value_ok)
  show "fst (cbor_write (Array [Array [Array [Array [Array [cbor_int 0]]]]]) []) = False"
    using cbor_write_depth [of "Array [Array [Array [Array [Array [cbor_int 0]]]]]" "[]"]
    by (simp add: cbor_int_def)
qed



text \<open>
  The single linear scan of \<open>destructure_cbor_map!\<close> yields, for keys listed in increasing
  order, exactly the values a lookup of each key in the map gives.
\<close>

theorem destructure_cbor_map_correct:
  assumes "btree_ok m" and "assert_sorted_keys ks"
  shows "destructure_cbor_map m ks = map (map_of m) ks"
  using assms by (rule destructure_cbor_map_lookup)

theorem destructure_cbor_map_correct_witness:
  "destructure_cbor_map [(Unsigned 1, cbor_int 10), (Unsigned 3, cbor_int 30)]
     [Unsigned 1, Unsigned 2, Unsigned 3] = [Some (cbor_int 10), None, Some (cbor_int 30)]"
  using destructure_cbor_map_correct [of "[(Unsigned 1, cbor_int 10), (Unsigned 3, cbor_int 30)]"
      "[Unsigned 1, Unsigned 2, Unsigned 3]"]
  by (simp add: btree_ok_def less_key_type_def key_cmp_def)

end
