(* ===== verification/Timer.thy ===== *)
theory Timer
  imports Prelude
begin

text \<open>
  Clock values, durations and timestamps (\<open>third_party/libtock-drivers/src/timer.rs\<close>), as far
  as the authenticator computes with them. \<open>isize\<close> is 32 bits wide on the device: a 32-bit
  word read with \<^const>\<open>sint\<close>, with the wrapping arithmetic of the release build. The one
  panic, a division by a clock frequency of zero, is \<^const>\<open>None\<close>. The system calls of the
  same file (alarms, subscriptions) are not modelled.
\<close>

type_synonym isize32 = "32 word"

record clock_value =
  num_ticks :: isize32
  clock_hz :: u32

definition clock_value_new :: "isize32 \<Rightarrow> u32 \<Rightarrow> clock_value" where
  "clock_value_new ticks hz = \<lparr>num_ticks = ticks, clock_hz = hz\<rparr>"

text \<open>Rust's \<open>/\<close> truncates towards zero.\<close>

definition i64_div :: "int \<Rightarrow> int \<Rightarrow> int" where
  "i64_div a b = sgn a * sgn b * (\<bar>a\<bar> div \<bar>b\<bar>)"

text \<open>
  \<open>((value as i64 * factor as i64) / divisor as i64) as isize\<close>: the product of two 32-bit
  values fits in an \<open>i64\<close>; the last cast truncates.
\<close>

definition scale_int :: "isize32 \<Rightarrow> isize32 \<Rightarrow> isize32 \<Rightarrow> isize32 option" where
  "scale_int v factor divisor =
     (if divisor = 0 then None
      else Some (of_int (i64_div (sint v * sint factor) (sint divisor))))"

definition clock_ms :: "clock_value \<Rightarrow> isize32 option" where
  "clock_ms c = scale_int (num_ticks c) 1000 (clock_hz c)"

text \<open>A \<open>Duration<isize>\<close> and a \<open>Timestamp<isize>\<close> are their milliseconds.\<close>

definition clock_wrapping_add :: "clock_value \<Rightarrow> isize32 \<Rightarrow> clock_value option" where
  "clock_wrapping_add c duration_ms =
     map_option (\<lambda>duration_ticks. c\<lparr>num_ticks := num_ticks c + duration_ticks\<rparr>)
       (scale_int duration_ms (clock_hz c) 1000)"

definition clock_wrapping_sub :: "clock_value \<Rightarrow> clock_value \<Rightarrow> isize32 option option" where
  "clock_wrapping_sub c other =
     (if clock_hz c = clock_hz other
      then map_option Some (clock_ms \<lparr>num_ticks = num_ticks c - num_ticks other, clock_hz = clock_hz c\<rparr>)
      else Some None)"

definition timestamp_from_clock_value :: "clock_value \<Rightarrow> isize32 option" where
  "timestamp_from_clock_value c = clock_ms c"

definition timestamp_sub :: "isize32 \<Rightarrow> isize32 \<Rightarrow> isize32" where
  "timestamp_sub t1 t2 = t1 - t2"

section \<open>Arithmetic\<close>

lemma i64_div_nonneg: "0 \<le> a \<Longrightarrow> 0 < b \<Longrightarrow> i64_div a b = a div b"
  by (cases "a = 0") (auto simp: i64_div_def)

lemma i64_div_pos_iff: "0 < b \<Longrightarrow> 0 < i64_div a b \<longleftrightarrow> b \<le> a"
proof -
  assume b: "0 < b"
  have "0 < a div b \<longleftrightarrow> b \<le> a" if "0 \<le> a" using that b by (simp add: pos_imp_zdiv_pos_iff)
  moreover have "0 \<le> \<bar>a\<bar> div \<bar>b\<bar>" using b by (simp add: pos_imp_zdiv_nonneg_iff)
  ultimately show ?thesis
    using b by (cases "0 \<le> a"; cases "a = 0") (auto simp: i64_div_def)
qed

lemma sint_of_int_range: "- (2 ^ 31) \<le> x \<Longrightarrow> x < 2 ^ 31 \<Longrightarrow> sint (of_int x :: isize32) = x"
  by (simp add: signed_of_int signed_take_bit_int_eq_self)

text \<open>From a frequency of 1 kHz on, a tick difference in milliseconds fits in an \<open>isize\<close>.\<close>

lemma i64_div_1000_range:
  assumes "1000 \<le> hz" and "- (2 ^ 31) \<le> t" and "t < 2 ^ 31"
  shows "- (2 ^ 31) \<le> i64_div (t * 1000) hz \<and> i64_div (t * 1000) hz < 2 ^ 31"
proof -
  have "\<bar>t * 1000\<bar> div hz \<le> (\<bar>t\<bar> * hz) div hz"
    using assms(1) by (intro zdiv_mono1) (auto simp: abs_mult mult_left_mono)
  then have le: "\<bar>t * 1000\<bar> div hz \<le> \<bar>t\<bar>" using assms(1) by simp
  have "0 \<le> \<bar>t * 1000\<bar> div hz" using assms(1) by (simp add: pos_imp_zdiv_nonneg_iff)
  with le assms show ?thesis
    by (auto simp: i64_div_def sgn_if)
qed

lemma clock_ms_pos:
  assumes "sint (clock_hz c) \<ge> 1000"
  shows "\<exists>m. clock_ms c = Some m \<and> (0 < sint m \<longleftrightarrow> sint (clock_hz c) \<le> sint (num_ticks c) * 1000)"
proof -
  have hz: "clock_hz c \<noteq> 0" using assms by auto
  have t: "- (2 ^ 31) \<le> sint (num_ticks c)" "sint (num_ticks c) < 2 ^ 31"
    using sint_ge [of "num_ticks c"] sint_lt [of "num_ticks c"] by simp_all
  have "sint (of_int (i64_div (sint (num_ticks c) * 1000) (sint (clock_hz c))) :: isize32)
      = i64_div (sint (num_ticks c) * 1000) (sint (clock_hz c))"
    using i64_div_1000_range [OF assms t] by (intro sint_of_int_range) auto
  moreover have "sint (1000 :: isize32) = 1000" by simp
  ultimately show ?thesis
    using hz assms i64_div_pos_iff by (auto simp: clock_ms_def scale_int_def)
qed

end
