(* ===== verification/Hid_Packets.thy ===== *)
theory Hid_Packets
  imports Timer
begin

text \<open>
  CTAPHID packets: the types and constants of \<open>src/ctap/hid/mod.rs\<close>, the parsing of a single
  packet, and the splitting of a message into packets (\<open>src/ctap/hid/send.rs\<close>).
  A \<open>[u8; 64]\<close> is a byte list of length 64 and a \<open>[u8; 4]\<close> one of length 4.
\<close>

type_synonym hid_packet = bytes
type_synonym channel_id = bytes

datatype processed_packet =
    InitPacket u8 nat bytes
  | ContinuationPacket u8 bytes

record message =
  msg_cid :: channel_id
  msg_cmd :: u8
  msg_payload :: bytes

definition message_new :: "channel_id \<Rightarrow> u8 \<Rightarrow> bytes \<Rightarrow> message" where
  "message_new cid cmd payload = \<lparr>msg_cid = cid, msg_cmd = cmd, msg_payload = payload\<rparr>"

definition message_ok :: "message \<Rightarrow> bool" where
  "message_ok m \<longleftrightarrow> length (msg_cid m) = 4 \<and> msg_cmd m < 0x80"

definition TYPE_INIT_BIT :: u8 where "TYPE_INIT_BIT = 0x80"
definition PACKET_TYPE_MASK :: u8 where "PACKET_TYPE_MASK = 0x80"
definition MAX_PAYLOAD :: nat where "MAX_PAYLOAD = 7609"

definition process_single_packet :: "hid_packet \<Rightarrow> channel_id \<times> processed_packet" where
  "process_single_packet packet =
     (let cid = take 4 packet; rest = drop 4 packet in
      if rest ! 0 AND PACKET_TYPE_MASK \<noteq> 0 then
        (let cmd = rest ! 0 AND NOT PACKET_TYPE_MASK;
             len = unat ((push_bit 8 (ucast (rest ! 1)) :: u32) OR ucast (rest ! 2))
         in (cid, InitPacket cmd len (take 57 (drop 3 rest))))
      else (cid, ContinuationPacket (rest ! 0) (take 59 (drop 1 rest))))"

section \<open>Splitting a message\<close>

record message_splitter =
  sp_message :: message
  sp_packet :: hid_packet
  sp_seq :: "u8 option"
  sp_i :: nat

type_synonym hid_packet_iterator = "message_splitter option"

definition splitter_new :: "message \<Rightarrow> message_splitter option" where
  "splitter_new m =
     (if length (msg_payload m) > MAX_PAYLOAD then None
      else Some \<lparr>sp_message = m, sp_packet = msg_cid m @ replicate 60 0, sp_seq = None, sp_i = 0\<rparr>)"

text \<open>\<open>consume_data dst data\<close>: the new content of \<open>dst\<close> and the number of bytes copied.\<close>

definition consume_data :: "bytes \<Rightarrow> bytes \<Rightarrow> bytes \<times> nat" where
  "consume_data dst data =
     (if length data \<le> length dst
      then (data @ replicate (length dst - length data) 0, length data)
      else (take (length dst) data, length dst))"

definition splitter_next :: "message_splitter \<Rightarrow> hid_packet option \<times> message_splitter" where
  "splitter_next sp =
     (let payload = msg_payload (sp_message sp); payload_len = length payload in
      case sp_seq sp of
        None \<Rightarrow>
          (let packet = (sp_packet sp)[4 := msg_cmd (sp_message sp) OR TYPE_INIT_BIT,
                                       5 := of_nat (payload_len div 256),
                                       6 := of_nat payload_len];
               (tail, i) = consume_data (drop 7 packet) payload;
               packet = take 7 packet @ tail
           in (Some packet, sp\<lparr>sp_packet := packet, sp_seq := Some 0, sp_i := i\<rparr>))
      | Some seq \<Rightarrow>
          (if sp_i sp < payload_len then
             (let packet = (sp_packet sp)[4 := seq];
                  (tail, n) = consume_data (drop 5 packet) (drop (sp_i sp) payload);
                  packet = take 5 packet @ tail
              in (Some packet, sp\<lparr>sp_packet := packet, sp_seq := Some (seq + 1), sp_i := sp_i sp + n\<rparr>))
           else (None, sp)))"

definition iterator_new :: "message \<Rightarrow> hid_packet_iterator option" where
  "iterator_new m = (case splitter_new m of Some sp \<Rightarrow> Some (Some sp) | None \<Rightarrow> None)"

definition iterator_none :: hid_packet_iterator where
  "iterator_none = None"

fun iterator_next :: "hid_packet_iterator \<Rightarrow> hid_packet option \<times> hid_packet_iterator" where
  "iterator_next (Some sp) = (case splitter_next sp of (p, sp') \<Rightarrow> (p, Some sp'))"
| "iterator_next None = (None, None)"

definition split_message :: "message \<Rightarrow> hid_packet_iterator option" where
  "split_message m = iterator_new m"

text \<open>Draining an iterator, with a bound on the number of packets.\<close>

fun drain :: "nat \<Rightarrow> hid_packet_iterator \<Rightarrow> hid_packet list option" where
  "drain 0 it = None"
| "drain (Suc fuel) it =
     (case iterator_next it of
        (None, it') \<Rightarrow> Some []
      | (Some p, it') \<Rightarrow> map_option ((#) p) (drain fuel it'))"

section \<open>The packets of a message\<close>

text \<open>The packets a message is made of, as a function of the message.\<close>

definition pad :: "nat \<Rightarrow> bytes \<Rightarrow> bytes" where
  "pad n bs = take n bs @ replicate (n - length bs) 0"

definition init_packet :: "message \<Rightarrow> hid_packet" where
  "init_packet m = msg_cid m @ [msg_cmd m OR TYPE_INIT_BIT, of_nat (length (msg_payload m) div 256),
     of_nat (length (msg_payload m))] @ pad 57 (msg_payload m)"

function cont_packets :: "channel_id \<Rightarrow> u8 \<Rightarrow> bytes \<Rightarrow> hid_packet list" where
  "cont_packets cid seq data =
     (if data = [] then []
      else (cid @ [seq] @ pad 59 data) # cont_packets cid (seq + 1) (drop 59 data))"
  by pat_completeness auto
termination
  by (relation "measure (\<lambda>(cid, seq, data). length data)") auto

declare cont_packets.simps [simp del]

definition packets :: "message \<Rightarrow> hid_packet list" where
  "packets m = init_packet m # cont_packets (msg_cid m) 0 (drop 57 (msg_payload m))"

lemma consume_data_eq:
  "consume_data dst data = (pad (length dst) data, min (length data) (length dst))"
  by (auto simp: consume_data_def pad_def min_def)

lemma length_pad [simp]: "length (pad n bs) = n"
  by (auto simp: pad_def)

lemma length_init_packet: "message_ok m \<Longrightarrow> length (init_packet m) = 64"
  by (simp add: init_packet_def message_ok_def)

lemma splitter_next_init:
  assumes "message_ok m" and "splitter_new m = Some sp"
  shows "splitter_next sp = (Some (init_packet m),
    sp\<lparr>sp_packet := init_packet m, sp_seq := Some 0, sp_i := min (length (msg_payload m)) 57\<rparr>)"
proof -
  from assms obtain a b c d where cid: "msg_cid m = [a, b, c, d]"
    by (auto simp: message_ok_def length_Suc_conv numeral_eq_Suc)
  from assms(2) have sp: "sp = \<lparr>sp_message = m, sp_packet = msg_cid m @ replicate 60 0, sp_seq = None, sp_i = 0\<rparr>"
    by (simp add: splitter_new_def split: if_splits)
  have r: "replicate 60 (0 :: u8) = 0 # 0 # 0 # replicate 57 0" by (simp add: numeral_eq_Suc)
  show ?thesis
    by (simp add: splitter_next_def sp cid r consume_data_eq init_packet_def Let_def)
qed

lemma take_Suc_update: "n < length xs \<Longrightarrow> take (Suc n) (xs[n := v]) = take n xs @ [v]"
  by (simp add: take_Suc_conv_app_nth)

lemma splitter_next_cont:
  assumes "length (msg_cid m) = 4" and "sp_message sp = m" and "sp_seq sp = Some seq"
    and "take 4 (sp_packet sp) = msg_cid m" and "length (sp_packet sp) = 64"
    and "sp_i sp < length (msg_payload m)"
  shows "splitter_next sp =
    (let data = drop (sp_i sp) (msg_payload m); p = msg_cid m @ [seq] @ pad 59 data in
     (Some p, sp\<lparr>sp_packet := p, sp_seq := Some (seq + 1), sp_i := sp_i sp + min (length data) 59\<rparr>))"
proof -
  have "take 5 ((sp_packet sp)[4 := seq]) = msg_cid m @ [seq]"
    using take_Suc_update [of 4 "sp_packet sp" seq] assms(4,5) by simp
  then show ?thesis
    using assms by (simp add: splitter_next_def consume_data_eq Let_def)
qed

lemma cont_packets_Nil [simp]: "cont_packets cid seq [] = []"
  by (simp add: cont_packets.simps)

lemma cont_packets_step:
  "data \<noteq> [] \<Longrightarrow> cont_packets cid seq data
     = (cid @ [seq] @ pad 59 data) # cont_packets cid (seq + 1) (drop 59 data)"
  by (simp add: cont_packets.simps)

text \<open>Where a splitter stands after its first packet.\<close>

definition sp_ok :: "message \<Rightarrow> u8 \<Rightarrow> message_splitter \<Rightarrow> bool" where
  "sp_ok m seq sp \<longleftrightarrow> sp_message sp = m \<and> sp_seq sp = Some seq \<and> take 4 (sp_packet sp) = msg_cid m
     \<and> length (sp_packet sp) = 64 \<and> sp_i sp \<le> length (msg_payload m)"

lemma drain_cont:
  assumes "length (msg_cid m) = 4" and "sp_ok m seq sp"
    and "length (drop (sp_i sp) (msg_payload m)) < fuel"
  shows "drain fuel (Some sp) = Some (cont_packets (msg_cid m) seq (drop (sp_i sp) (msg_payload m)))"
  using assms
proof (induction fuel arbitrary: seq sp)
  case (Suc fuel)
  show ?case
  proof (cases "sp_i sp < length (msg_payload m)")
    case True
    let ?data = "drop (sp_i sp) (msg_payload m)"
    let ?p = "msg_cid m @ [seq] @ pad 59 ?data"
    let ?sp = "sp\<lparr>sp_packet := ?p, sp_seq := Some (seq + 1), sp_i := sp_i sp + min (length ?data) 59\<rparr>"
    have next_sp: "splitter_next sp = (Some ?p, ?sp)"
      using splitter_next_cont [OF Suc.prems(1), of sp seq] Suc.prems(2) True
      by (simp add: sp_ok_def Let_def)
    have ok: "sp_ok m (seq + 1) ?sp" using Suc.prems(1,2) by (auto simp: sp_ok_def)
    have rest: "drop (sp_i ?sp) (msg_payload m) = drop 59 ?data"
      by (simp add: min_def add.commute)
    have "drain fuel (Some ?sp) = Some (cont_packets (msg_cid m) (seq + 1) (drop 59 ?data))"
      using Suc.IH [OF Suc.prems(1) ok] Suc.prems(3) True unfolding rest by simp
    moreover have "?data \<noteq> []" using True by simp
    ultimately show ?thesis by (simp add: next_sp cont_packets_step)
  next
    case False
    with Suc.prems(2) show ?thesis by (simp add: splitter_next_def sp_ok_def Let_def)
  qed
qed simp

lemma drain_packets:
  assumes "message_ok m" and "length (msg_payload m) \<le> MAX_PAYLOAD" and "length (msg_payload m) + 1 < fuel"
  shows "Option.bind (split_message m) (drain fuel) = Some (packets m)"
proof -
  obtain sp where sp: "splitter_new m = Some sp" using assms(2) by (simp add: splitter_new_def)
  obtain fuel' where fuel: "fuel = Suc fuel'" using assms(3) by (cases fuel) auto
  let ?sp = "sp\<lparr>sp_packet := init_packet m, sp_seq := Some 0, sp_i := min (length (msg_payload m)) 57\<rparr>"
  have "sp_ok m 0 ?sp"
    using assms(1) sp length_init_packet [OF assms(1)]
    by (auto simp: sp_ok_def splitter_new_def init_packet_def message_ok_def split: if_splits)
  then have "drain fuel' (Some ?sp) = Some (cont_packets (msg_cid m) 0 (drop 57 (msg_payload m)))"
    using drain_cont [of m 0 ?sp fuel'] assms fuel by (simp add: message_ok_def min_def)
  then show ?thesis
    by (simp add: split_message_def iterator_new_def sp fuel splitter_next_init [OF assms(1) sp] packets_def)
qed

end
