(* ===== verification/Hid_Receive.thy ===== *)
theory Hid_Receive
  imports Hid_Packets
begin

text \<open>
  The message assembler of \<open>src/ctap/hid/receive.rs\<close>: the state machine that joins CTAPHID
  packets into messages, its invariant, the bound on the length of an assembled message, and the
  round trip with the splitter.
\<close>

record message_assembler =
  asm_idle :: bool
  asm_cid :: channel_id
  last_timestamp :: isize32
  asm_cmd :: u8
  asm_seq :: u8
  remaining_payload_len :: nat
  asm_payload :: bytes

datatype receive_error =
    UnexpectedChannel
  | UnexpectedInit
  | UnexpectedContinuation
  | UnexpectedSeq
  | Timeout

definition COMMAND_INIT :: u8 where "COMMAND_INIT = 0x06"
definition TIMEOUT_DURATION :: isize32 where "TIMEOUT_DURATION = 100"

definition assembler_new :: message_assembler where
  "assembler_new = \<lparr>asm_idle = True, asm_cid = [0, 0, 0, 0], last_timestamp = 0, asm_cmd = 0,
     asm_seq = 0, remaining_payload_len = 0, asm_payload = []\<rparr>"

definition assembler_reset :: "message_assembler \<Rightarrow> message_assembler" where
  "assembler_reset a = a\<lparr>asm_idle := True, asm_cid := [0, 0, 0, 0], last_timestamp := 0,
     asm_cmd := 0, asm_seq := 0, remaining_payload_len := 0, asm_payload := []\<rparr>"

definition append_payload :: "message_assembler \<Rightarrow> bytes \<Rightarrow> message option \<times> message_assembler" where
  "append_payload a data =
     (if length data < remaining_payload_len a then
        (None, a\<lparr>asm_payload := asm_payload a @ data, asm_idle := False,
                 remaining_payload_len := remaining_payload_len a - length data\<rparr>)
      else
        (Some \<lparr>msg_cid = asm_cid a, msg_cmd = asm_cmd a,
               msg_payload = asm_payload a @ take (remaining_payload_len a) data\<rparr>,
         a\<lparr>asm_payload := [], asm_idle := True\<rparr>))"

definition accept_init_packet ::
    "message_assembler \<Rightarrow> channel_id \<Rightarrow> u8 \<Rightarrow> nat \<Rightarrow> bytes \<Rightarrow> isize32 \<Rightarrow> message option \<times> message_assembler" where
  "accept_init_packet a cid cmd len data timestamp =
     append_payload
       (a\<lparr>asm_cid := cid, last_timestamp := timestamp, asm_cmd := cmd, asm_seq := 0,
          remaining_payload_len := len\<rparr>) data"

type_synonym parse_result = "(channel_id \<times> receive_error) + message option"

fun parse_idle :: "message_assembler \<Rightarrow> channel_id \<Rightarrow> processed_packet \<Rightarrow> isize32 \<Rightarrow> parse_result \<times> message_assembler" where
  "parse_idle a cid (InitPacket cmd len data) timestamp =
     (case accept_init_packet a cid cmd len data timestamp of (m, a') \<Rightarrow> (Inr m, a'))"
| "parse_idle a cid (ContinuationPacket seq data) timestamp = (Inl (cid, UnexpectedContinuation), a)"

fun parse_busy :: "message_assembler \<Rightarrow> channel_id \<Rightarrow> processed_packet \<Rightarrow> isize32 \<Rightarrow> parse_result \<times> message_assembler" where
  "parse_busy a cid (InitPacket cmd len data) timestamp =
     (if cid \<noteq> asm_cid a then (Inl (cid, UnexpectedChannel), a)
      else if cmd = COMMAND_INIT then
        (case accept_init_packet (assembler_reset a) cid cmd len data timestamp of (m, a') \<Rightarrow> (Inr m, a'))
      else (Inl (cid, UnexpectedInit), assembler_reset a))"
| "parse_busy a cid (ContinuationPacket seq data) timestamp =
     (if cid \<noteq> asm_cid a then (Inl (cid, UnexpectedChannel), a)
      else if seq \<noteq> asm_seq a then (Inl (cid, UnexpectedSeq), assembler_reset a)
      else (case append_payload (a\<lparr>last_timestamp := timestamp, asm_seq := asm_seq a + 1\<rparr>) data of
              (m, a') \<Rightarrow> (Inr m, a')))"

definition timed_out :: "message_assembler \<Rightarrow> isize32 \<Rightarrow> bool" where
  "timed_out a timestamp \<longleftrightarrow>
     \<not> asm_idle a \<and> sint TIMEOUT_DURATION \<le> sint (timestamp_sub timestamp (last_timestamp a))"

definition parse_packet :: "message_assembler \<Rightarrow> hid_packet \<Rightarrow> isize32 \<Rightarrow> parse_result \<times> message_assembler" where
  "parse_packet a packet timestamp =
     (case process_single_packet packet of (cid, processed_packet) \<Rightarrow>
      if timed_out a timestamp \<and> cid = asm_cid a then (Inl (cid, Timeout), assembler_reset a)
      else
        (let a' = (if timed_out a timestamp then assembler_reset a else a) in
         if asm_idle a' then parse_idle a' cid processed_packet timestamp
         else parse_busy a' cid processed_packet timestamp))"

section \<open>Invariant\<close>

text \<open>
  An idle assembler holds no payload. A busy one holds the first 57 bytes and 59 more for every
  continuation packet; it still misses some. The sequence number stays below 129, because a
  continuation packet has a sequence number of at most 127.
\<close>

definition asm_inv :: "message_assembler \<Rightarrow> bool" where
  "asm_inv a \<longleftrightarrow>
     (if asm_idle a then asm_payload a = []
      else length (asm_payload a) = 57 + 59 * unat (asm_seq a) \<and> 0 < remaining_payload_len a
           \<and> unat (asm_seq a) \<le> 128 \<and> length (asm_cid a) = 4 \<and> asm_cmd a < 0x80)"

definition packet_ok :: "hid_packet \<Rightarrow> bool" where
  "packet_ok p \<longleftrightarrow> length p = 64"

lemma asm_inv_new [simp]: "asm_inv assembler_new"
  by (simp add: asm_inv_def assembler_new_def)

lemma asm_inv_reset [simp]: "asm_inv (assembler_reset a)"
  by (simp add: asm_inv_def assembler_reset_def)

lemma assembler_reset_simps [simp]:
  "asm_payload (assembler_reset a) = []" "asm_idle (assembler_reset a)"
  by (simp_all add: assembler_reset_def)

lemma mask_0x80: "(b :: u8) AND 0x80 \<noteq> 0 \<longleftrightarrow> 128 \<le> unat b"
proof -
  have "b AND 0x80 \<noteq> 0 \<longleftrightarrow> bit b 7"
    using bit_iff_and_push_bit_not_eq_0 [of b 7] by simp
  also have "\<dots> \<longleftrightarrow> odd (unat b div 128)"
    using bit_unsigned_iff [of b 7, where ?'a = nat] by (simp add: bit_iff_odd)
  also have "\<dots> \<longleftrightarrow> 128 \<le> unat b"
  proof (cases "128 \<le> unat b")
    case True
    then have "unat b div 128 = 1" using unat_u8_less [of b] by linarith
    with True show ?thesis by simp
  qed simp
  finally show ?thesis .
qed

lemma not_packet_type_mask: "NOT PACKET_TYPE_MASK = (0x7F :: u8)"
  unfolding PACKET_TYPE_MASK_def by code_simp

lemma process_single_packet_cases:
  assumes "packet_ok p"
  obtains (init) cid cmd len data where "process_single_packet p = (cid, InitPacket cmd len data)"
      "length cid = 4" "length data = 57" "cmd < 0x80"
  | (cont) cid seq data where "process_single_packet p = (cid, ContinuationPacket seq data)"
      "length cid = 4" "length data = 59" "unat seq < 128"
proof (cases "drop 4 p ! 0 AND PACKET_TYPE_MASK \<noteq> 0")
  case True
  have "drop 4 p ! 0 AND NOT PACKET_TYPE_MASK \<le> 0x7F"
    unfolding not_packet_type_mask by (rule word_and_le1)
  then have "drop 4 p ! 0 AND NOT PACKET_TYPE_MASK < 0x80" by (rule order_le_less_trans) simp
  with True assms show thesis
    by (intro init) (auto simp: process_single_packet_def packet_ok_def Let_def)
next
  case False
  then have "unat (drop 4 p ! 0) < 128"
    using mask_0x80 [of "drop 4 p ! 0"] by (simp add: PACKET_TYPE_MASK_def not_le)
  with False assms show thesis
    by (intro cont) (auto simp: process_single_packet_def packet_ok_def Let_def)
qed

lemma append_payload_inv:
  assumes "append_payload a data = (m, a')" and "asm_cid a = cid" "length cid = 4"
    and "length (asm_payload a @ data) = 57 + 59 * unat (asm_seq a)" and "unat (asm_seq a) \<le> 128"
    and "asm_cmd a < 0x80"
  shows "asm_inv a'"
  using assms by (auto simp: append_payload_def asm_inv_def split: if_splits)

lemma accept_init_inv:
  "accept_init_packet a cid cmd len data ts = (m, a') \<Longrightarrow> asm_payload a = [] \<Longrightarrow> length cid = 4 \<Longrightarrow>
     length data = 57 \<Longrightarrow> cmd < 0x80 \<Longrightarrow> asm_inv a'"
  unfolding accept_init_packet_def by (erule append_payload_inv) auto

lemma unat_seq_Suc: "unat (s :: u8) < 128 \<Longrightarrow> unat (s + 1) = Suc (unat s)"
  by (simp add: unat_word_ariths)

lemma parse_packet_inv:
  assumes inv: "asm_inv a" and p: "packet_ok p"
  shows "asm_inv (snd (parse_packet a p ts))"
proof -
  let ?a = "if timed_out a ts then assembler_reset a else a"
  have inv': "asm_inv ?a" using inv by simp
  from p show ?thesis
  proof (cases rule: process_single_packet_cases)
    case (init cid cmd len data)
    have "asm_inv (snd (parse_idle ?a cid (InitPacket cmd len data) ts))" if "asm_idle ?a"
      using accept_init_inv [of ?a cid cmd len data ts] that inv' init
      by (auto simp: asm_inv_def split: prod.splits)
    moreover have "asm_inv (snd (parse_busy ?a cid (InitPacket cmd len data) ts))"
      using accept_init_inv [of "assembler_reset ?a" cid cmd len data ts] inv' init
      by (auto split: prod.splits)
    ultimately show ?thesis using init by (simp add: parse_packet_def Let_def)
  next
    case (cont cid seq data)
    have "asm_inv (snd (parse_busy ?a cid (ContinuationPacket seq data) ts))" if "\<not> asm_idle ?a"
    proof (cases "cid = asm_cid ?a \<and> seq = asm_seq ?a")
      case True
      let ?b = "?a\<lparr>last_timestamp := ts, asm_seq := asm_seq ?a + 1\<rparr>"
      obtain m a' where ap: "append_payload ?b data = (m, a')" by (cases "append_payload ?b data")
      have "asm_inv a'"
        by (rule append_payload_inv [OF ap refl]) (use True that inv' cont in \<open>auto simp: asm_inv_def unat_seq_Suc\<close>)
      with True ap show ?thesis by simp
    qed (use inv' in auto)
    moreover have "asm_inv (snd (parse_idle ?a cid (ContinuationPacket seq data) ts))"
      using inv' by simp
    ultimately show ?thesis using cont by (simp add: parse_packet_def Let_def)
  qed
qed

section \<open>Assembled messages\<close>

lemma append_payload_message:
  "append_payload a data = (Some m, a') \<Longrightarrow> remaining_payload_len a \<le> length data
     \<and> msg_cid m = asm_cid a \<and> msg_cmd m = asm_cmd a \<and> asm_idle a'
     \<and> length (msg_payload m) = length (asm_payload a) + remaining_payload_len a"
  by (auto simp: append_payload_def split: if_splits)

lemma parse_packet_message:
  assumes inv: "asm_inv a" and p: "packet_ok p" and res: "parse_packet a p ts = (Inr (Some m), a')"
  shows "length (msg_payload m) \<le> MAX_PAYLOAD \<and> message_ok m \<and> asm_idle a'
    \<and> msg_cid m = fst (process_single_packet p)"
proof -
  let ?a = "if timed_out a ts then assembler_reset a else a"
  have inv': "asm_inv ?a" using inv by simp
  from p show ?thesis
  proof (cases rule: process_single_packet_cases)
    case (init cid cmd len data)
    from res init inv' have "accept_init_packet ?a cid cmd len data ts = (Some m, a') \<and> asm_payload ?a = []
      \<or> accept_init_packet (assembler_reset ?a) cid cmd len data ts = (Some m, a')"
      by (auto simp: parse_packet_def Let_def asm_inv_def split: if_splits prod.splits)
    then obtain b where b: "asm_payload b = []" "accept_init_packet b cid cmd len data ts = (Some m, a')"
      by (metis assembler_reset_simps(1))
    from b(2) append_payload_message b(1) init show ?thesis
      by (fastforce simp: accept_init_packet_def message_ok_def MAX_PAYLOAD_def)
  next
    case (cont cid seq data)
    from res cont have busy: "\<not> asm_idle ?a" "cid = asm_cid ?a" "seq = asm_seq ?a"
      and ap: "append_payload (?a\<lparr>last_timestamp := ts, asm_seq := asm_seq ?a + 1\<rparr>) data = (Some m, a')"
      by (auto simp: parse_packet_def Let_def split: if_splits prod.splits)
    from append_payload_message [OF ap] busy inv' cont show ?thesis
      by (auto simp: asm_inv_def message_ok_def MAX_PAYLOAD_def)
  qed
qed

section \<open>Round trip with the splitter\<close>

text \<open>Feeding packets with their arrival times; the first message or error ends the run.\<close>

fun feed :: "message_assembler \<Rightarrow> (hid_packet \<times> isize32) list \<Rightarrow> parse_result \<times> message_assembler" where
  "feed a [] = (Inr None, a)"
| "feed a ((p, ts) # ps) =
     (case parse_packet a p ts of
        (Inr None, a') \<Rightarrow> feed a' ps
      | (r, a') \<Rightarrow> (r, a'))"

text \<open>No two consecutive packets are 100 ms or more apart.\<close>

fun in_time :: "isize32 \<Rightarrow> isize32 list \<Rightarrow> bool" where
  "in_time t [] = True"
| "in_time t (u # us) \<longleftrightarrow> sint (timestamp_sub u t) < sint TIMEOUT_DURATION \<and> in_time u us"

lemma unat_be_u16:
  "unat ((push_bit 8 (ucast (a :: u8)) :: u32) OR ucast (b :: u8)) = unat a * 256 + unat b"
proof -
  let ?a = "push_bit 8 (ucast a) :: u32" and ?b = "ucast b :: u32"
  have "?a AND ?b = 0" by (rule bit_word_eqI) (auto simp: bit_simps dest: bit_imp_le_length)
  then have "?a OR ?b = ?a + ?b" by (rule disjunctive_add_eq_or [symmetric])
  moreover have u: "unat (ucast x :: u32) = unat x" for x :: u8
  proof -
    have "unat x < 2 ^ 32" using unat_u8_less [of x] by (rule less_trans) simp
    then show ?thesis by (simp add: unsigned_ucast_eq take_bit_nat_eq_self)
  qed
  have "unat a * 256 + unat b < 65536"
    using unat_u8_less [of a] unat_u8_less [of b] by linarith
  then have "unat a * 256 + unat b < 2 ^ 32" by (rule less_trans) simp
  then have "unat (?a + ?b) = unat a * 256 + unat b"
    by (simp add: push_bit_eq_mult unat_word_ariths u)
  ultimately show ?thesis by simp
qed

lemma process_init_packet:
  assumes "message_ok m" and "length (msg_payload m) \<le> MAX_PAYLOAD"
  shows "process_single_packet (init_packet m)
    = (msg_cid m, InitPacket (msg_cmd m) (length (msg_payload m)) (pad 57 (msg_payload m)))"
proof -
  let ?n = "length (msg_payload m)" and ?c = "msg_cmd m"
  have "?n div 256 < 256" using assms(2) by (simp add: MAX_PAYLOAD_def)
  then have len: "unat ((push_bit 8 (ucast (of_nat (?n div 256) :: u8)) :: u32) OR ucast (of_nat ?n :: u8)) = ?n"
    by (simp only: unat_be_u16 unat_of_nat_u8) simp
  have c: "take_bit 7 ?c = ?c"
    using assms(1) by (intro take_bit_word_self) (simp add: message_ok_def word_less_nat_alt)
  have cmd: "(?c OR 0x80) AND 0x80 = 0x80" "(?c OR 0x80) AND NOT 0x80 = ?c"
  proof -
    show "(?c OR 0x80) AND 0x80 = 0x80" by (simp add: bit.conj_disj_distrib2)
    have "?c AND 0x7F = ?c" using c by (simp add: take_bit_eq_mask mask_eq_exp_minus_1)
    then show "(?c OR 0x80) AND NOT 0x80 = ?c"
      using not_packet_type_mask by (simp only: PACKET_TYPE_MASK_def bit.conj_disj_distrib2) simp
  qed
  show ?thesis
    using assms(1) len cmd
    by (simp add: process_single_packet_def init_packet_def message_ok_def TYPE_INIT_BIT_def
        PACKET_TYPE_MASK_def Let_def nth_append)
qed

lemma process_cont_packet:
  assumes "length cid = 4" and "unat seq < 128"
  shows "process_single_packet (cid @ seq # pad 59 data) = (cid, ContinuationPacket seq (pad 59 data))"
proof -
  have "\<not> seq AND PACKET_TYPE_MASK \<noteq> 0" using mask_0x80 [of seq] assms(2) by (simp add: PACKET_TYPE_MASK_def)
  with assms(1) show ?thesis by (simp add: process_single_packet_def)
qed

text \<open>
  An assembler in the middle of a message: \<open>done\<close> bytes received, \<open>data\<close> missing.
\<close>

definition mid_message :: "message \<Rightarrow> message_assembler \<Rightarrow> u8 \<Rightarrow> bytes \<Rightarrow> isize32 \<Rightarrow> bool" where
  "mid_message m a seq data t \<longleftrightarrow>
     \<not> asm_idle a \<and> asm_cid a = msg_cid m \<and> asm_cmd a = msg_cmd m \<and> asm_seq a = seq
     \<and> last_timestamp a = t \<and> remaining_payload_len a = length data
     \<and> asm_payload a @ data = msg_payload m"

lemma pad_short: "length data \<le> n \<Longrightarrow> take (length data) (pad n data) = data"
  by (simp add: pad_def)

lemma pad_long: "n \<le> length data \<Longrightarrow> pad n data = take n data"
  by (simp add: pad_def)

lemma append_payload_pad:
  assumes "remaining_payload_len a = length data"
  shows "append_payload a (pad n data) =
    (if n < length data
     then (None, a\<lparr>asm_payload := asm_payload a @ take n data, asm_idle := False,
                   remaining_payload_len := length (drop n data)\<rparr>)
     else (Some \<lparr>msg_cid = asm_cid a, msg_cmd = asm_cmd a, msg_payload = asm_payload a @ data\<rparr>,
           a\<lparr>asm_payload := [], asm_idle := True\<rparr>))"
  using assms by (simp add: append_payload_def pad_short pad_long)

lemma feed_cont:
  assumes "length (msg_cid m) = 4"
  shows "mid_message m a seq data t \<Longrightarrow> data \<noteq> [] \<Longrightarrow> length data \<le> 59 * (128 - unat seq) \<Longrightarrow>
    length us = length (cont_packets (msg_cid m) seq data) \<Longrightarrow> in_time t us \<Longrightarrow>
    fst (feed a (zip (cont_packets (msg_cid m) seq data) us)) = Inr (Some m)"
proof (induction "msg_cid m" seq data arbitrary: a t us rule: cont_packets.induct)
  case (1 seq data)
  from "1.prems"(2,3) have seq: "unat seq < 128" by (cases "unat seq < 128") auto
  obtain u us' where us: "us = u # us'"
    using "1.prems"(2,4) by (cases us) (auto simp: cont_packets_step)
  let ?p = "msg_cid m @ seq # pad 59 data"
  let ?b = "a\<lparr>last_timestamp := u, asm_seq := seq + 1\<rparr>"
  have mid: "\<not> asm_idle a" "asm_cid a = msg_cid m" "asm_seq a = seq" "last_timestamp a = t"
    "remaining_payload_len a = length data" "asm_cmd a = msg_cmd m" "asm_payload a @ data = msg_payload m"
    using "1.prems"(1) by (simp_all add: mid_message_def)
  have "\<not> timed_out a u" using "1.prems"(5) mid by (simp add: timed_out_def us)
  then have parse: "parse_packet a ?p u = (case append_payload ?b (pad 59 data) of (r, a') \<Rightarrow> (Inr r, a'))"
    using mid by (simp add: parse_packet_def process_cont_packet [OF assms seq])
  have pkts: "cont_packets (msg_cid m) seq data = ?p # cont_packets (msg_cid m) (seq + 1) (drop 59 data)"
    using cont_packets_step [OF "1.prems"(2)] by simp
  show ?case
  proof (cases "59 < length data")
    case True
    let ?c = "?b\<lparr>asm_payload := asm_payload a @ take 59 data, asm_idle := False,
      remaining_payload_len := length (drop 59 data)\<rparr>"
    have step: "parse_packet a ?p u = (Inr None, ?c)"
      using True mid by (simp add: parse append_payload_pad)
    have "fst (feed ?c (zip (cont_packets (msg_cid m) (seq + 1) (drop 59 data)) us')) = Inr (Some m)"
    proof (rule "1.hyps" [OF "1.prems"(2)])
      show "mid_message m ?c (seq + 1) (drop 59 data) u"
        using mid by (simp add: mid_message_def)
      show "length (drop 59 data) \<le> 59 * (128 - unat (seq + 1))"
        using "1.prems"(3) seq by (simp add: unat_seq_Suc)
    qed (use True "1.prems"(4,5) us pkts in auto)
    with step show ?thesis by (simp add: pkts us)
  next
    case False
    have "parse_packet a ?p u = (Inr (Some m), ?b\<lparr>asm_payload := [], asm_idle := True\<rparr>)"
      using False mid by (simp add: parse append_payload_pad)
    then show ?thesis by (simp add: pkts us)
  qed
qed

lemma feed_packets:
  assumes "message_ok m" and "length (msg_payload m) \<le> MAX_PAYLOAD" and "asm_inv a" and "asm_idle a"
    and "length us = length (packets m)" and "\<exists>u us'. us = u # us' \<and> in_time u us'"
  shows "fst (feed a (zip (packets m) us)) = Inr (Some m)"
proof -
  from assms(6) obtain u us' where us: "us = u # us'" "in_time u us'" by blast
  have idle: "asm_payload a = []" "\<not> timed_out a u" using assms(3,4) by (auto simp: asm_inv_def timed_out_def)
  let ?n = "length (msg_payload m)"
  let ?b = "a\<lparr>asm_cid := msg_cid m, last_timestamp := u, asm_cmd := msg_cmd m, asm_seq := 0, remaining_payload_len := ?n\<rparr>"
  have parse: "parse_packet a (init_packet m) u = (case append_payload ?b (pad 57 (msg_payload m)) of (r, a') \<Rightarrow> (Inr r, a'))"
    using assms(1,2,4) idle(2) by (simp add: parse_packet_def process_init_packet accept_init_packet_def)
  show ?thesis
  proof (cases "57 < ?n")
    case True
    let ?c = "?b\<lparr>asm_payload := take 57 (msg_payload m), asm_idle := False, remaining_payload_len := length (drop 57 (msg_payload m))\<rparr>"
    have step: "parse_packet a (init_packet m) u = (Inr None, ?c)"
      using True idle by (simp add: parse append_payload_pad)
    have "fst (feed ?c (zip (cont_packets (msg_cid m) 0 (drop 57 (msg_payload m))) us')) = Inr (Some m)"
    proof (rule feed_cont)
      show "mid_message m ?c 0 (drop 57 (msg_payload m)) u" by (simp add: mid_message_def)
    qed (use assms True us in \<open>auto simp: message_ok_def MAX_PAYLOAD_def packets_def\<close>)
    with step show ?thesis by (simp add: packets_def us)
  next
    case False
    then have "parse_packet a (init_packet m) u = (Inr (Some m), ?b\<lparr>asm_payload := [], asm_idle := True\<rparr>)"
      using idle by (simp add: parse append_payload_pad)
    then show ?thesis by (simp add: packets_def us)
  qed
qed

end
