(* ===== verification/Timed_Permission.thy ===== *)
theory Timed_Permission
  imports Timer
begin

text \<open>
  Permissions that expire (\<open>src/ctap/timed_permission.rs\<close>) and the CTAP1 user presence
  state built from two of them. \<^const>\<open>None\<close> is the panic of a zero clock frequency.
\<close>

datatype timed_permission = Waiting | Granted clock_value

definition tp_granted :: "clock_value \<Rightarrow> isize32 \<Rightarrow> timed_permission option" where
  "tp_granted now grant_duration = map_option Granted (clock_wrapping_add now grant_duration)"

fun is_granted :: "timed_permission \<Rightarrow> clock_value \<Rightarrow> bool option" where
  "is_granted (Granted timeout) now =
     (case clock_wrapping_sub timeout now of
        None \<Rightarrow> None
      | Some (Some remaining_duration) \<Rightarrow> Some (0 < sint remaining_duration)
      | Some None \<Rightarrow> Some False)"
| "is_granted Waiting now = Some False"

fun tp_check_expiration :: "timed_permission \<Rightarrow> clock_value \<Rightarrow> timed_permission option" where
  "tp_check_expiration (Granted timeout) now =
     (case clock_wrapping_sub timeout now of
        None \<Rightarrow> None
      | Some (Some remaining_duration) \<Rightarrow>
          (if 0 < sint remaining_duration then Some (Granted timeout) else Some Waiting)
      | Some None \<Rightarrow> Some Waiting)"
| "tp_check_expiration Waiting now = Some Waiting"

record u2f_up =
  needs_up :: timed_permission
  has_up :: timed_permission
  request_duration :: isize32
  presence_duration :: isize32

definition u2f_new :: "isize32 \<Rightarrow> isize32 \<Rightarrow> u2f_up" where
  "u2f_new request presence =
     \<lparr>needs_up = Waiting, has_up = Waiting, request_duration = request, presence_duration = presence\<rparr>"

definition u2f_check_expiration :: "u2f_up \<Rightarrow> clock_value \<Rightarrow> u2f_up option" where
  "u2f_check_expiration s now =
     Option.bind (tp_check_expiration (needs_up s) now) (\<lambda>n.
     Option.bind (tp_check_expiration (has_up s) now) (\<lambda>h.
     Some (s\<lparr>needs_up := n, has_up := h\<rparr>)))"

definition grant_up :: "u2f_up \<Rightarrow> clock_value \<Rightarrow> u2f_up option" where
  "grant_up s now =
     Option.bind (u2f_check_expiration s now) (\<lambda>s.
     Option.bind (is_granted (needs_up s) now) (\<lambda>needed.
     if needed then
       Option.bind (tp_granted now (presence_duration s)) (\<lambda>h.
       Some (s\<lparr>needs_up := Waiting, has_up := h\<rparr>))
     else Some s))"

definition consume_up :: "u2f_up \<Rightarrow> clock_value \<Rightarrow> (bool \<times> u2f_up) option" where
  "consume_up s now =
     Option.bind (u2f_check_expiration s now) (\<lambda>s.
     Option.bind (is_granted (has_up s) now) (\<lambda>present.
     if present then Some (True, s\<lparr>has_up := Waiting\<rparr>)
     else
       Option.bind (tp_granted now (request_duration s)) (\<lambda>n.
       Some (False, s\<lparr>needs_up := n\<rparr>))))"

definition is_up_needed :: "u2f_up \<Rightarrow> clock_value \<Rightarrow> (bool \<times> u2f_up) option" where
  "is_up_needed s now =
     Option.bind (u2f_check_expiration s now) (\<lambda>s.
     Option.bind (is_granted (needs_up s) now) (\<lambda>needed. Some (needed, s)))"

section \<open>Expiration\<close>

lemma tp_check_expiration_is_granted:
  "tp_check_expiration p now =
     map_option (\<lambda>g. if g then p else Waiting) (is_granted p now)"
  by (cases p) (auto split: option.splits)

text \<open>
  The exact life of a permission, in ticks. \<open>e\<close> is the number of ticks since the grant; the
  tick counter itself may wrap around in between.
\<close>

definition grant_ticks :: "u32 \<Rightarrow> isize32 \<Rightarrow> int" where
  "grant_ticks hz d = i64_div (sint d * sint hz) 1000"

lemma tp_granted_ticks:
  "tp_granted now d =
     Some (Granted (now\<lparr>num_ticks := num_ticks now + of_int (grant_ticks (clock_hz now) d)\<rparr>))"
  by (simp add: tp_granted_def clock_wrapping_add_def scale_int_def grant_ticks_def)

lemma is_granted_after:
  assumes hz: "1000 \<le> sint (clock_hz now)"
    and range: "- (2 ^ 31) \<le> grant_ticks (clock_hz now) d - e" "grant_ticks (clock_hz now) d - e < 2 ^ 31"
    and p: "tp_granted now d = Some p"
  shows "is_granted p (now\<lparr>num_ticks := num_ticks now + of_int e\<rparr>)
    = Some (sint (clock_hz now) \<le> (grant_ticks (clock_hz now) d - e) * 1000)"
proof -
  let ?c = "\<lparr>num_ticks = of_int (grant_ticks (clock_hz now) d - e), clock_hz = clock_hz now\<rparr>"
  obtain m where m: "clock_ms ?c = Some m"
    "0 < sint m \<longleftrightarrow> sint (clock_hz now) \<le> (grant_ticks (clock_hz now) d - e) * 1000"
    using clock_ms_pos [of ?c] hz sint_of_int_range [OF range] by auto
  moreover have "p = Granted (now\<lparr>num_ticks := num_ticks now + of_int (grant_ticks (clock_hz now) d)\<rparr>)"
    using p by (simp add: tp_granted_ticks)
  ultimately show ?thesis
    by (simp add: clock_wrapping_sub_def)
qed

section \<open>Runs of the user presence state\<close>

datatype up_event = GrantUp clock_value | ConsumeUp clock_value | IsUpNeeded clock_value

text \<open>A run returns the final state and the number of consumptions that succeeded.\<close>

fun up_run :: "u2f_up \<Rightarrow> up_event list \<Rightarrow> (u2f_up \<times> nat) option" where
  "up_run s [] = Some (s, 0)"
| "up_run s (GrantUp now # es) = Option.bind (grant_up s now) (\<lambda>s'. up_run s' es)"
| "up_run s (ConsumeUp now # es) =
     Option.bind (consume_up s now) (\<lambda>(b, s').
     map_option (\<lambda>(t, n). (t, if b then Suc n else n)) (up_run s' es))"
| "up_run s (IsUpNeeded now # es) = Option.bind (is_up_needed s now) (\<lambda>(_, s'). up_run s' es)"

fun is_grant :: "up_event \<Rightarrow> bool" where
  "is_grant (GrantUp _) = True"
| "is_grant _ = False"

definition pending :: "u2f_up \<Rightarrow> nat" where
  "pending s = (if has_up s = Waiting then 0 else 1)"

definition u2f_inv :: "u2f_up \<Rightarrow> bool" where
  "u2f_inv s \<longleftrightarrow> needs_up s = Waiting \<or> has_up s = Waiting"

lemmas u2f_defs = u2f_check_expiration_def grant_up_def consume_up_def is_up_needed_def
  tp_check_expiration_is_granted tp_granted_ticks

lemma u2f_step_pending:
  "grant_up s now = Some s' \<Longrightarrow> pending s' \<le> Suc (pending s)"
  "consume_up s now = Some (b, s') \<Longrightarrow> (if b then 1 else 0) + pending s' \<le> pending s"
  "is_up_needed s now = Some (b, s') \<Longrightarrow> pending s' \<le> pending s"
  by (auto simp: u2f_defs pending_def bind_eq_Some_conv split: if_splits)

lemma u2f_step_inv:
  "u2f_inv s \<Longrightarrow> grant_up s now = Some s' \<Longrightarrow> u2f_inv s'"
  "u2f_inv s \<Longrightarrow> consume_up s now = Some (b, s') \<Longrightarrow> u2f_inv s'"
  "u2f_inv s \<Longrightarrow> is_up_needed s now = Some (b, s') \<Longrightarrow> u2f_inv s'"
  by (auto simp: u2f_defs u2f_inv_def bind_eq_Some_conv split: if_splits)

lemma up_run_pending:
  "up_run s es = Some (t, n) \<Longrightarrow> n + pending t \<le> pending s + length (filter is_grant es)"
proof (induction s es arbitrary: t n rule: up_run.induct)
  case (2 s now es)
  then show ?case using u2f_step_pending(1) by (fastforce simp: bind_eq_Some_conv)
next
  case (3 s now es)
  then obtain b s' n' where c: "consume_up s now = Some (b, s')"
    and run: "up_run s' es = Some (t, n')" and n: "n = (if b then Suc n' else n')"
    by (auto simp: bind_eq_Some_conv)
  from "3.IH" [OF c refl run] u2f_step_pending(2) [OF c] n show ?case by auto
next
  case (4 s now es)
  then show ?case using u2f_step_pending(3) by (fastforce simp: bind_eq_Some_conv)
qed simp

section \<open>Properties\<close>



text \<open>
  One button touch authorises at most one CTAP1 request: in any sequence of grants,
  consumptions and queries from a fresh state, no more consumptions succeed than touches were
  registered, and user presence is never wanted and held at the same time.
\<close>

theorem u2f_one_touch_one_request:
  assumes "up_run (u2f_new r d) es = Some (t, n)"
  shows "n \<le> length (filter is_grant es) \<and> u2f_inv t"
proof
  have "pending (u2f_new r d) = 0" by (simp add: pending_def u2f_new_def)
  with up_run_pending [OF assms] show "n \<le> length (filter is_grant es)" by simp
  have "u2f_inv s \<Longrightarrow> up_run s es = Some (t, n) \<Longrightarrow> u2f_inv t" for s n
  proof (induction s es arbitrary: n rule: up_run.induct)
    case (2 s now es)
    then show ?case using u2f_step_inv(1) by (fastforce simp: bind_eq_Some_conv)
  next
    case (3 s now es)
    then show ?case using u2f_step_inv(2) by (fastforce simp: bind_eq_Some_conv)
  next
    case (4 s now es)
    then show ?case using u2f_step_inv(3) by (fastforce simp: bind_eq_Some_conv)
  qed simp
  from this [OF _ assms] show "u2f_inv t" by (simp add: u2f_inv_def u2f_new_def)
qed

theorem u2f_one_touch_one_request_witness:
  "\<exists>t. up_run (u2f_new 10000 10000)
      [ConsumeUp (clock_value_new 0 32768), GrantUp (clock_value_new 1 32768),
       ConsumeUp (clock_value_new 2 32768), ConsumeUp (clock_value_new 3 32768)] = Some (t, 1)
     \<and> 1 \<le> length (filter is_grant
      [ConsumeUp (clock_value_new 0 32768), GrantUp (clock_value_new 1 32768),
       ConsumeUp (clock_value_new 2 32768), ConsumeUp (clock_value_new 3 32768)]) \<and> u2f_inv t"
proof -
  let ?es = "[ConsumeUp (clock_value_new 0 32768), GrantUp (clock_value_new 1 32768),
       ConsumeUp (clock_value_new 2 32768), ConsumeUp (clock_value_new 3 32768)]"
  obtain t where t: "up_run (u2f_new 10000 10000) ?es = Some (t, 1)"
    by (simp add: u2f_defs u2f_new_def clock_value_new_def clock_wrapping_sub_def clock_ms_def
        scale_int_def i64_div_def grant_ticks_def)
  from u2f_one_touch_one_request [OF t] t show ?thesis by blast
qed

end
