(* ===== verification/Effects.thy ===== *)
theory Effects
  imports Prelude
begin

text \<open>
  The effects of the Rust sources. A fallible function that may also panic (a failed
  \<open>unwrap\<close>, an index out of range, an \<open>unreachable!\<close>) returns an \<open>outcome\<close>. A method on
  \<open>&mut self\<close> is an \<open>op\<close>: it maps the state to an outcome and the state it leaves behind,
  also when it fails, since what was changed before an early return stays changed.
\<close>

datatype ('e, 'a) outcome = Ok 'a | Err 'e | Panic

definition obind :: "('e, 'a) outcome \<Rightarrow> ('a \<Rightarrow> ('e, 'b) outcome) \<Rightarrow> ('e, 'b) outcome" where
  "obind r f = (case r of Ok x \<Rightarrow> f x | Err e \<Rightarrow> Err e | Panic \<Rightarrow> Panic)"

definition lift :: "'e + 'a \<Rightarrow> ('e, 'a) outcome" where
  "lift r = (case r of Inl e \<Rightarrow> Err e | Inr x \<Rightarrow> Ok x)"

lemma obind_simps [simp]:
  "obind (Ok x) f = f x" "obind (Err e) f = Err e" "obind Panic f = Panic"
  by (simp_all add: obind_def)

lemma lift_simps [simp]: "lift (Inl e) = Err e" "lift (Inr x) = Ok x"
  by (simp_all add: lift_def)

lemma obind_eq_Ok: "obind r f = Ok y \<longleftrightarrow> (\<exists>x. r = Ok x \<and> f x = Ok y)"
  by (cases r) simp_all

lemma obind_eq_Err: "obind r f = Err e \<longleftrightarrow> r = Err e \<or> (\<exists>x. r = Ok x \<and> f x = Err e)"
  by (cases r) simp_all

lemma obind_eq_Panic: "obind r f = Panic \<longleftrightarrow> r = Panic \<or> (\<exists>x. r = Ok x \<and> f x = Panic)"
  by (cases r) simp_all

lemma lift_eq_iff [simp]:
  "lift r = Ok x \<longleftrightarrow> r = Inr x" "lift r = Err e \<longleftrightarrow> r = Inl e" "lift r \<noteq> Panic"
  by (cases r; simp)+

text \<open>\<open>result.unwrap()\<close>, \<open>option.unwrap()\<close> and \<open>result.map_err(f)\<close>.\<close>

fun unwrap_result :: "('e, 'a) outcome \<Rightarrow> ('f, 'a) outcome" where
  "unwrap_result (Ok x) = Ok x"
| "unwrap_result _ = Panic"

fun unwrap_option :: "'a option \<Rightarrow> ('e, 'a) outcome" where
  "unwrap_option (Some x) = Ok x"
| "unwrap_option None = Panic"

fun map_err :: "('e \<Rightarrow> 'f) \<Rightarrow> ('e, 'a) outcome \<Rightarrow> ('f, 'a) outcome" where
  "map_err f (Ok x) = Ok x"
| "map_err f (Err e) = Err (f e)"
| "map_err f Panic = Panic"

text \<open>A subslice \<open>xs[start..start + len]\<close> (also \<open>array_ref!(xs, start, len)\<close>) and \<open>xs[i]\<close>.\<close>

definition subslice :: "nat \<Rightarrow> nat \<Rightarrow> 'a list \<Rightarrow> ('e, 'a list) outcome" where
  "subslice start len xs = (if start + len \<le> length xs then Ok (take len (drop start xs)) else Panic)"

definition index_at :: "'a list \<Rightarrow> nat \<Rightarrow> ('e, 'a) outcome" where
  "index_at xs i = (if i < length xs then Ok (xs ! i) else Panic)"

section \<open>Operations on a state\<close>

type_synonym ('s, 'e, 'a) op = "'s \<Rightarrow> ('e, 'a) outcome \<times> 's"

definition sret :: "'a \<Rightarrow> ('s, 'e, 'a) op" where
  "sret x = (\<lambda>s. (Ok x, s))"

definition sfail :: "'e \<Rightarrow> ('s, 'e, 'a) op" where
  "sfail e = (\<lambda>s. (Err e, s))"

definition sbind :: "('s, 'e, 'a) op \<Rightarrow> ('a \<Rightarrow> ('s, 'e, 'b) op) \<Rightarrow> ('s, 'e, 'b) op" where
  "sbind m f = (\<lambda>s. case m s of (Ok x, s') \<Rightarrow> f x s' | (Err e, s') \<Rightarrow> (Err e, s') | (Panic, s') \<Rightarrow> (Panic, s'))"

text \<open>A read-only function as an operation, a result that does not depend on the state, a change
  of the state, and a change of the error type.\<close>

definition sread :: "('s \<Rightarrow> ('e, 'a) outcome) \<Rightarrow> ('s, 'e, 'a) op" where
  "sread f = (\<lambda>s. (f s, s))"

definition slift :: "'e + 'a \<Rightarrow> ('s, 'e, 'a) op" where
  "slift r = (\<lambda>s. (lift r, s))"

definition soutcome :: "('e, 'a) outcome \<Rightarrow> ('s, 'e, 'a) op" where
  "soutcome r = (\<lambda>s. (r, s))"

definition smodify :: "('s \<Rightarrow> 's) \<Rightarrow> ('s, 'e, unit) op" where
  "smodify f = (\<lambda>s. (Ok (), f s))"

definition smap_err :: "('e \<Rightarrow> 'f) \<Rightarrow> ('s, 'e, 'a) op \<Rightarrow> ('s, 'f, 'a) op" where
  "smap_err f m = (\<lambda>s. case m s of (r, s') \<Rightarrow> (map_err f r, s'))"

text \<open>Early return of an error unless a condition holds.\<close>

definition sguard :: "bool \<Rightarrow> 'e \<Rightarrow> ('s, 'e, unit) op" where
  "sguard c e = (if c then sret () else sfail e)"

lemma sbind_Ok: "sbind m f s = (Ok y, t) \<longleftrightarrow> (\<exists>x s'. m s = (Ok x, s') \<and> f x s' = (Ok y, t))"
  by (auto simp: sbind_def split: prod.splits outcome.splits)

lemma sbindE:
  assumes "sbind m f s = (r, t)"
  obtains (ok) x s' where "m s = (Ok x, s')" and "f x s' = (r, t)"
    | (err) e where "m s = (Err e, t)" and "r = Err e"
    | (panic) "m s = (Panic, t)" and "r = Panic"
  using assms by (auto simp: sbind_def split: prod.splits outcome.splits)

lemma sbind_apply_Ok: "m s = (Ok x, s') \<Longrightarrow> sbind m f s = f x s'"
  by (simp add: sbind_def)

lemma sbind_apply_Err: "m s = (Err e, s') \<Longrightarrow> sbind m f s = (Err e, s')"
  by (simp add: sbind_def)

lemma sbind_assoc: "sbind (sbind m f) g = sbind m (\<lambda>x. sbind (f x) g)"
  by (auto simp: sbind_def fun_eq_iff split: prod.splits outcome.splits)

lemma sfail_apply: "sfail e s = (Err e, s)"
  by (simp add: sfail_def)

lemma sbind_simps:
  "sbind (sret x) f = f x" "sbind (sfail e) f = sfail e"
  "sbind (soutcome (Ok x)) f = f x" "sbind (soutcome (Err e)) f = sfail e"
  "sbind (slift (Inr x)) f = f x" "sbind (slift (Inl e)) f = sfail e"
  "sguard True e = sret ()" "sguard False e = sfail e"
  by (simp_all add: sbind_def sret_def sfail_def soutcome_def slift_def sguard_def fun_eq_iff)

lemmas op_defs = sret_def sfail_def sread_def slift_def soutcome_def smodify_def smap_err_def sguard_def

end
