(* ===== verification/Apdu.thy ===== *)
theory Apdu
  imports Effects
begin

text \<open>
  Application protocol data units (\<open>src/ctap/apdu.rs\<close>): the frames that carry U2F messages, with
  their short and extended length encodings.
\<close>

definition APDU_HEADER_LEN :: nat where "APDU_HEADER_LEN = 4"

datatype apdu_status_code =
    SW_SUCCESS | SW_GET_RESPONSE | SW_MEMERR | SW_WRONG_DATA | SW_WRONG_LENGTH
  | SW_COND_USE_NOT_SATISFIED | SW_FILE_NOT_FOUND | SW_INCORRECT_P1P2 | SW_INS_INVALID
  | SW_CLA_INVALID | SW_INTERNAL_EXCEPTION

fun apdu_status_u16 :: "apdu_status_code \<Rightarrow> u16" where
  "apdu_status_u16 SW_SUCCESS = 0x9000"
| "apdu_status_u16 SW_GET_RESPONSE = 0x6100"
| "apdu_status_u16 SW_MEMERR = 0x6501"
| "apdu_status_u16 SW_WRONG_DATA = 0x6A80"
| "apdu_status_u16 SW_WRONG_LENGTH = 0x6700"
| "apdu_status_u16 SW_COND_USE_NOT_SATISFIED = 0x6985"
| "apdu_status_u16 SW_FILE_NOT_FOUND = 0x6A82"
| "apdu_status_u16 SW_INCORRECT_P1P2 = 0x6A86"
| "apdu_status_u16 SW_INS_INVALID = 0x6D00"
| "apdu_status_u16 SW_CLA_INVALID = 0x6E00"
| "apdu_status_u16 SW_INTERNAL_EXCEPTION = 0x6F00"

record apdu_header =
  hdr_cla :: u8
  hdr_ins :: u8
  hdr_p1 :: u8
  hdr_p2 :: u8

definition header_from :: "bytes \<Rightarrow> (apdu_status_code, apdu_header) outcome" where
  "header_from h =
     obind (index_at h 0) (\<lambda>cla. obind (index_at h 1) (\<lambda>ins.
     obind (index_at h 2) (\<lambda>p1. obind (index_at h 3) (\<lambda>p2.
       Ok \<lparr>hdr_cla = cla, hdr_ins = ins, hdr_p1 = p1, hdr_p2 = p2\<rparr>))))"

datatype apdu_case = Le1 | Lc1Data | Lc1DataLe1 | Lc3Data | Lc3DataLe1 | Lc3DataLe2 | Le3

datatype apdu_type = Instruction | Short apdu_case | Extended apdu_case

record apdu =
  apdu_header :: apdu_header
  apdu_lc :: u16
  apdu_data :: bytes
  apdu_le :: u32
  apdu_case_type :: apdu_type

definition read_u16 :: "bytes \<Rightarrow> (apdu_status_code, nat) outcome" where
  "read_u16 bs = obind (subslice 0 2 bs) (\<lambda>bs. Ok (be_val bs))"

text \<open>The expected length of an extended frame, from the last bytes of the payload; a length of
  zero means the largest one.\<close>

definition extended_le :: "bytes \<Rightarrow> nat \<Rightarrow> (apdu_status_code, u32) outcome" where
  "extended_le payload le_len =
     obind (index_at payload (length payload - 1)) (\<lambda>last_byte.
     if le_len = 0 then Ok 0
     else if le_len = 1 then Ok (if last_byte = 0 then 0x100 else ucast last_byte)
     else if le_len = 2 then
       obind (subslice (length payload - 2) 2 payload) (\<lambda>tail.
       obind (read_u16 tail) (\<lambda>le. Ok (if le = 0 then 0x10000 else of_nat le)))
     else if le_len = 3 then
       obind (index_at payload (length payload - 3)) (\<lambda>le_first_byte.
       if le_first_byte \<noteq> 0 then Err SW_INTERNAL_EXCEPTION
       else
         obind (subslice (length payload - 2) 2 payload) (\<lambda>tail.
         obind (read_u16 tail) (\<lambda>le. Ok (if le = 0 then 0x10000 else of_nat le))))
     else Err SW_INTERNAL_EXCEPTION)"

definition extended_case :: "nat \<Rightarrow> (apdu_status_code, apdu_case) outcome" where
  "extended_case le_len =
     (if le_len = 0 then Ok Lc3Data else if le_len = 1 then Ok Lc3DataLe1
      else if le_len = 2 then Ok Lc3DataLe2 else if le_len = 3 then Ok Le3
      else Err SW_INTERNAL_EXCEPTION)"

definition apdu_try_from :: "bytes \<Rightarrow> (apdu_status_code, apdu) outcome" where
  "apdu_try_from frame =
     (if length frame < APDU_HEADER_LEN then Err SW_WRONG_DATA
      else
        (let payload = drop APDU_HEADER_LEN frame in
         obind (header_from (take APDU_HEADER_LEN frame)) (\<lambda>header.
         if payload = [] then
           Ok \<lparr>apdu_header = header, apdu_lc = 0, apdu_data = [], apdu_le = 0, apdu_case_type = Instruction\<rparr>
         else obind (index_at payload 0) (\<lambda>byte_0.
         if length payload = 1 then
           Ok \<lparr>apdu_header = header, apdu_lc = 0, apdu_data = [],
               apdu_le = (if byte_0 = 0 then 0x100 else ucast byte_0), apdu_case_type = Short Le1\<rparr>
         else if length payload = 1 + unat byte_0 \<and> byte_0 \<noteq> 0 then
           Ok \<lparr>apdu_header = header, apdu_lc = ucast byte_0, apdu_data = drop 1 payload,
               apdu_le = 0, apdu_case_type = Short Lc1Data\<rparr>
         else if length payload = 2 + unat byte_0 \<and> byte_0 \<noteq> 0 then
           obind (index_at payload (length payload - 1)) (\<lambda>last_byte.
           obind (subslice 1 (length payload - 1 - 1) payload) (\<lambda>data.
             Ok \<lparr>apdu_header = header, apdu_lc = ucast byte_0, apdu_data = data,
                 apdu_le = (if last_byte = 0 then 0x100 else ucast last_byte),
                 apdu_case_type = Short Lc1DataLe1\<rparr>))
         else if length payload > 2 then
           obind (subslice 1 2 payload) (\<lambda>lc_bytes.
           obind (read_u16 lc_bytes) (\<lambda>extended_apdu_lc.
           if length payload < extended_apdu_lc + 3 then Err SW_WRONG_LENGTH
           else
             (let extended_apdu_le_len = length payload - (extended_apdu_lc + 3) in
              if extended_apdu_le_len > 3 then Err SW_WRONG_LENGTH
              else if byte_0 = 0 \<and> extended_apdu_le_len \<le> 3 then
                obind (subslice 3 (length payload - extended_apdu_le_len - 3) payload) (\<lambda>data.
                obind (extended_le payload extended_apdu_le_len) (\<lambda>le.
                obind (extended_case extended_apdu_le_len) (\<lambda>c.
                  Ok \<lparr>apdu_header = header, apdu_lc = of_nat extended_apdu_lc, apdu_data = data,
                      apdu_le = le, apdu_case_type = Extended c\<rparr>)))
              else Err SW_INTERNAL_EXCEPTION)))
         else Err SW_INTERNAL_EXCEPTION))))"

section \<open>Frames\<close>

text \<open>The frame of a command in each encoding.\<close>

definition header_bytes :: "apdu_header \<Rightarrow> bytes" where
  "header_bytes h = [hdr_cla h, hdr_ins h, hdr_p1 h, hdr_p2 h]"

fun le_bytes :: "apdu_type \<Rightarrow> u32 \<Rightarrow> bytes" where
  "le_bytes (Short Le1) le = [ucast le]"
| "le_bytes (Short Lc1DataLe1) le = [ucast le]"
| "le_bytes (Extended Lc3DataLe1) le = [ucast le]"
| "le_bytes (Extended Lc3DataLe2) le = be_enc 2 (unat le)"
| "le_bytes (Extended Le3) le = 0 # be_enc 2 (unat le)"
| "le_bytes _ _ = []"

fun lc_bytes :: "apdu_type \<Rightarrow> bytes \<Rightarrow> bytes" where
  "lc_bytes (Short Lc1Data) d = [of_nat (length d)]"
| "lc_bytes (Short Lc1DataLe1) d = [of_nat (length d)]"
| "lc_bytes (Extended _) d = 0 # be_enc 2 (length d)"
| "lc_bytes _ d = []"

definition apdu_frame :: "apdu \<Rightarrow> bytes" where
  "apdu_frame a =
     header_bytes (apdu_header a) @ lc_bytes (apdu_case_type a) (apdu_data a) @ apdu_data a
       @ le_bytes (apdu_case_type a) (apdu_le a)"

text \<open>The commands that can be framed: \<open>Lc\<close> counts the data, and \<open>Le\<close> is in the range of its
  encoding, where the largest value is written as zero.\<close>

fun case_ok :: "apdu_type \<Rightarrow> nat \<Rightarrow> u32 \<Rightarrow> bool" where
  "case_ok Instruction n le \<longleftrightarrow> n = 0 \<and> le = 0"
| "case_ok (Short Le1) n le \<longleftrightarrow> n = 0 \<and> 0 < le \<and> le \<le> 0x100"
| "case_ok (Short Lc1Data) n le \<longleftrightarrow> 0 < n \<and> n < 256 \<and> le = 0"
| "case_ok (Short Lc1DataLe1) n le \<longleftrightarrow> 0 < n \<and> n < 256 \<and> 0 < le \<and> le \<le> 0x100"
| "case_ok (Short _) n le \<longleftrightarrow> False"
| "case_ok (Extended Lc3Data) n le \<longleftrightarrow> n < 65536 \<and> le = 0"
| "case_ok (Extended Lc3DataLe1) n le \<longleftrightarrow> n < 65536 \<and> 0 < le \<and> le \<le> 0x100"
| "case_ok (Extended Lc3DataLe2) n le \<longleftrightarrow> n < 65536 \<and> 0 < le \<and> le \<le> 0x10000"
| "case_ok (Extended Le3) n le \<longleftrightarrow> n < 65536 \<and> 0 < le \<and> le \<le> 0x10000"
| "case_ok (Extended _) n le \<longleftrightarrow> False"

definition apdu_ok :: "apdu \<Rightarrow> bool" where
  "apdu_ok a \<longleftrightarrow> unat (apdu_lc a) = length (apdu_data a)
     \<and> case_ok (apdu_case_type a) (length (apdu_data a)) (apdu_le a)"

section \<open>Expected lengths\<close>

lemma unat_le_256: "le \<le> (0x100 :: u32) \<longleftrightarrow> unat le \<le> 256"
  by (simp add: word_le_nat_alt)

lemma unat_le_65536: "le \<le> (0x10000 :: u32) \<longleftrightarrow> unat le \<le> 65536"
  by (simp add: word_le_nat_alt)

lemma unat_pos: "0 < (le :: u32) \<longleftrightarrow> 0 < unat le"
  by (simp add: word_less_nat_alt)

lemma unat_ucast_u32_u8 [simp]: "unat (ucast (le :: u32) :: u8) = unat le mod 256"
  by (simp add: unsigned_ucast_eq take_bit_eq_mod)

lemma unat_ucast_u8_u32 [simp]: "unat (ucast (b :: u8) :: u32) = unat b"
  by (simp add: unsigned_ucast_eq take_bit_eq_mod less_trans [OF unat_u8_less])

lemma unat_ucast_u8_u16 [simp]: "unat (ucast (b :: u8) :: u16) = unat b"
  by (simp add: unsigned_ucast_eq take_bit_eq_mod less_trans [OF unat_u8_less])

lemma unat_eq_iff32: "v = w \<longleftrightarrow> unat (v :: u32) = unat w"
  by (rule word_unat_eq_iff)

lemma unat_eq_iff8: "v = w \<longleftrightarrow> unat (v :: u8) = unat w"
  by (rule word_unat_eq_iff)

lemma unat_of_nat_self: "of_nat (unat w) = (w :: 'a::len word)"
  by simp

lemma u8_zero_iff: "b = (0 :: u8) \<longleftrightarrow> unat b = 0"
  by (simp add: unat_eq_0)

definition le1 :: "u8 \<Rightarrow> u32" where
  "le1 b = (if b = 0 then 0x100 else ucast b)"

definition le2 :: "nat \<Rightarrow> u32" where
  "le2 n = (if n = 0 then 0x10000 else of_nat n)"

lemma le1_ucast: "0 < le \<Longrightarrow> le \<le> 0x100 \<Longrightarrow> le1 (ucast le) = le"
  unfolding unat_pos unat_le_256 le1_def u8_zero_iff
  by (cases "unat le = 256") (auto simp: unat_eq_iff32 le_less)

lemma ucast_le1 [simp]: "ucast (le1 b) = b"
  by (auto simp: le1_def unat_eq_iff8)

lemma le1_range [simp]: "0 < le1 b" "le1 b \<le> 0x100"
  using unat_u8_less [of b] by (auto simp: unat_pos unat_le_256 le1_def u8_zero_iff simp del: unat_u8_less)

lemma unat_le2: "n < 65536 \<Longrightarrow> unat (le2 n) = (if n = 0 then 65536 else n)"
  by (simp add: le2_def unat_of_nat take_bit_eq_mod)

lemma le2_range: "n < 65536 \<Longrightarrow> 0 < le2 n \<and> le2 n \<le> 0x10000"
  by (simp add: unat_pos unat_le_65536 unat_le2)

lemma le2_mod: "0 < le \<Longrightarrow> le \<le> 0x10000 \<Longrightarrow> le2 (unat le mod 65536) = le"
  unfolding unat_pos unat_le_65536
  by (cases "unat le = 65536") (auto simp: unat_eq_iff32 unat_le2 le_less)

section \<open>Parsing and framing\<close>

lemma be_val_pair: "be_val [a, b] = unat a * 256 + unat b"
  using be_val_snoc [of "[a]" b] be_val_snoc [of "[]" a] by simp

lemma be_val_pair_less: "be_val [a, b] < 65536"
  using be_val_less [of "[a, b]"] by simp

lemma be_enc_pair: "be_enc 2 (be_val [a, b]) = [a, b]"
  using be_enc_be_val [of "[a, b]"] by (simp add: numeral_2_eq_2)

lemma be_enc_2_cases: obtains a b where "be_enc 2 v = [a, b]" "be_val [a, b] = v mod 65536"
proof -
  obtain a b where ab: "be_enc 2 v = [a, b]" by (simp add: numeral_2_eq_2)
  moreover from be_val_be_enc [of 2 v] ab have "be_val [a, b] = v mod 65536" by simp
  ultimately show thesis by (rule that)
qed

lemma read_u16_pair [simp]: "read_u16 [a, b] = Ok (be_val [a, b])"
  by (simp add: read_u16_def subslice_def)

lemma header_from_bytes [simp]: "header_from (header_bytes h) = Ok h"
  by (simp add: header_from_def header_bytes_def index_at_def)

lemma length_header_bytes [simp]: "length (header_bytes h) = 4"
  by (simp add: header_bytes_def)

text \<open>The parser on a payload, once the header is split off.\<close>

definition payload_parse :: "apdu_header \<Rightarrow> bytes \<Rightarrow> (apdu_status_code, apdu) outcome" where
  "payload_parse h payload = apdu_try_from (header_bytes h @ payload)"

lemma payload_Nil: "payload_parse h [] =
    Ok \<lparr>apdu_header = h, apdu_lc = 0, apdu_data = [], apdu_le = 0, apdu_case_type = Instruction\<rparr>"
  by (simp add: payload_parse_def apdu_try_from_def APDU_HEADER_LEN_def Let_def)

lemma payload_one: "payload_parse h [b] =
    Ok \<lparr>apdu_header = h, apdu_lc = 0, apdu_data = [], apdu_le = le1 b, apdu_case_type = Short Le1\<rparr>"
  by (simp add: payload_parse_def apdu_try_from_def APDU_HEADER_LEN_def Let_def index_at_def le1_def)

lemma payload_short:
  assumes "d \<noteq> []" and "length d = unat b"
  shows "payload_parse h (b # d) =
    Ok \<lparr>apdu_header = h, apdu_lc = ucast b, apdu_data = d, apdu_le = 0, apdu_case_type = Short Lc1Data\<rparr>"
proof -
  from assms have "0 < unat b" by (metis length_greater_0_conv)
  with assms show ?thesis
    by (auto simp: payload_parse_def apdu_try_from_def APDU_HEADER_LEN_def Let_def index_at_def)
qed

lemma payload_short_le:
  assumes "d \<noteq> []" and "length d = unat b"
  shows "payload_parse h (b # d @ [l]) =
    Ok \<lparr>apdu_header = h, apdu_lc = ucast b, apdu_data = d, apdu_le = le1 l, apdu_case_type = Short Lc1DataLe1\<rparr>"
proof -
  from assms have "0 < unat b" by (metis length_greater_0_conv)
  with assms show ?thesis
    by (auto simp: payload_parse_def apdu_try_from_def APDU_HEADER_LEN_def Let_def index_at_def subslice_def le1_def nth_append)
qed

lemma payload_extended:
  assumes "length d = be_val [l0, l1]" and "length le \<le> 3"
  shows "payload_parse h (0 # l0 # l1 # d @ le) =
    obind (extended_le (0 # l0 # l1 # d @ le) (length le)) (\<lambda>v. obind (extended_case (length le)) (\<lambda>c.
      Ok \<lparr>apdu_header = h, apdu_lc = of_nat (length d), apdu_data = d, apdu_le = v, apdu_case_type = Extended c\<rparr>))"
  using assms by (simp add: payload_parse_def apdu_try_from_def APDU_HEADER_LEN_def Let_def index_at_def subslice_def)

lemma extended_le_cases:
  "extended_le (p # ps) 0 = Ok 0"
  "extended_le (p # q # r # d @ [b]) (Suc 0) = Ok (le1 b)"
  "extended_le (p # q # r # d @ [a, b]) (Suc (Suc 0)) = Ok (le2 (be_val [a, b]))"
  "extended_le (p # q # r # d @ [z, a, b]) (Suc (Suc (Suc 0))) =
     (if z = 0 then Ok (le2 (be_val [a, b])) else Err SW_INTERNAL_EXCEPTION)"
  by (simp_all add: extended_le_def index_at_def subslice_def le1_def le2_def nth_append)

lemma frame_parse_Ok:
  assumes "apdu_ok a"
  shows "apdu_try_from (apdu_frame a) = Ok a"
proof -
  obtain h lc d le ct where a: "a = \<lparr>apdu_header = h, apdu_lc = lc, apdu_data = d, apdu_le = le, apdu_case_type = ct\<rparr>"
    by (cases a)
  have frame: "apdu_try_from (apdu_frame a) = payload_parse h (lc_bytes ct d @ d @ le_bytes ct le)"
    by (simp add: payload_parse_def apdu_frame_def a)
  from assms have lc: "unat lc = length d" and c: "case_ok ct (length d) le"
    by (simp_all add: apdu_ok_def a)
  from lc have lc': "lc = of_nat (length d)" by (metis unat_of_nat_self)
  have short: "unat (of_nat (length d) :: u8) = length d" "lc = ucast (of_nat (length d) :: u8)" if "length d < 256"
    using that lc by (simp_all add: word_unat_eq_iff [where 'a = 16])
  show ?thesis
  proof (cases ct)
    case Instruction
    with c lc show ?thesis unfolding frame by (simp add: payload_Nil a unat_eq_0)
  next
    case (Short x)
    with c lc short show ?thesis unfolding frame
      by (cases x) (auto simp: payload_one payload_short payload_short_le a le1_ucast unat_eq_0)
  next
    case (Extended x)
    obtain l0 l1 where l: "be_enc 2 (length d) = [l0, l1]" "be_val [l0, l1] = length d mod 65536"
      by (rule be_enc_2_cases)
    obtain e0 e1 where e: "be_enc 2 (unat le) = [e0, e1]" "be_val [e0, e1] = unat le mod 65536"
      by (rule be_enc_2_cases)
    from Extended c have d: "length d = be_val [l0, l1]" by (cases x) (simp_all add: l(2))
    note ext = payload_extended [OF d]
    from Extended c show ?thesis unfolding frame
      by (cases x) (simp_all add: l(1) e ext ext [of "[]", simplified] extended_le_cases extended_case_def a lc' le1_ucast le2_mod)
  qed
qed

text \<open>Everything the parser returns is a command whose frame is the input.\<close>

definition parsed_from :: "apdu_header \<Rightarrow> bytes \<Rightarrow> (apdu_status_code, apdu) outcome \<Rightarrow> bool" where
  "parsed_from h p r \<longleftrightarrow> (case r of
     Ok a \<Rightarrow> apdu_ok a \<and> apdu_frame a = header_bytes h @ p | Err _ \<Rightarrow> True | Panic \<Rightarrow> False)"

lemma parsed_short:
  assumes "d \<noteq> []" and "length d = unat b"
  shows "parsed_from h (b # d) (payload_parse h (b # d))"
    and "parsed_from h (b # d @ [l]) (payload_parse h (b # d @ [l]))"
  using assms unat_u8_less [of b] length_greater_0_conv [of d]
  by (simp_all add: payload_short payload_short_le parsed_from_def apdu_ok_def apdu_frame_def
      unat_of_nat_self del: unat_u8_less)

lemma be_enc_le2 [simp]: "be_enc 2 (unat (le2 (be_val [a, b]))) = [a, b]"
proof (cases "be_val [a, b] = 0")
  case True
  then have "a = 0" "b = 0" by (simp_all add: be_val_pair unat_eq_0)
  with True show ?thesis by (rule_tac be_enc_2_cases [of 65536]) (simp add: unat_le2 be_val_pair unat_eq_0)
qed (simp add: unat_le2 be_val_pair_less be_enc_pair)

lemma parsed_extended:
  assumes "length d = be_val [l0, l1]" and "length le \<le> 3"
  shows "parsed_from h (0 # l0 # l1 # d @ le) (payload_parse h (0 # l0 # l1 # d @ le))"
proof -
  have lc: "unat (of_nat (length d) :: u16) = length d" "be_enc 2 (length d) = [l0, l1]" "length d < 65536"
    using be_val_pair_less [of l0 l1] by (simp_all add: assms(1) unat_of_nat take_bit_eq_mod be_enc_pair)
  consider "le = []" | b where "le = [b]" | a b where "le = [a, b]" | z a b where "le = [z, a, b]"
    using assms(2) by (auto simp: le_Suc_eq length_Suc_conv numeral_3_eq_3)
  then show ?thesis
    using payload_extended [OF assms, of h] lc
    by cases (simp_all add: extended_le_cases extended_case_def parsed_from_def apdu_ok_def apdu_frame_def
        le2_range be_val_pair_less)
qed

lemma payload_rejected:
  assumes "p = b # q # r" and "b \<noteq> 0 \<Longrightarrow> length p \<noteq> 1 + unat b \<and> length p \<noteq> 2 + unat b"
    and "\<And>l0 l1 d le. p = 0 # l0 # l1 # d @ le \<Longrightarrow> length d = be_val [l0, l1] \<Longrightarrow> \<not> length le \<le> 3"
  shows "\<exists>e. payload_parse h p = Err e"
proof (cases r)
  case Nil
  with assms(1,2) show ?thesis
    by (auto simp: payload_parse_def apdu_try_from_def APDU_HEADER_LEN_def Let_def index_at_def)
next
  case (Cons l1 s)
  define v where "v = be_val [q, l1]"
  have len: "\<not> (Suc (Suc (length s)) = unat b \<and> b \<noteq> 0)" "\<not> (Suc (length s) = unat b \<and> b \<noteq> 0)"
    using assms(1,2) Cons by auto
  have "v + 3 < length s \<or> length s < v" if "b = 0"
    using assms(3) [of q l1 "take v s" "drop v s"] that assms(1) Cons by (auto simp: v_def)
  then have z: "b \<noteq> 0 \<or> length s < v \<or> 3 < length s - v" by linarith
  have "payload_parse h p =
      (if length s < v then Err SW_WRONG_LENGTH else if length s - v > 3 then Err SW_WRONG_LENGTH
       else Err SW_INTERNAL_EXCEPTION)"
    using z apply (simp add: assms(1) Cons len payload_parse_def apdu_try_from_def APDU_HEADER_LEN_def Let_def
        index_at_def subslice_def disj_ac flip: v_def)
    by blast
  then show ?thesis by simp
qed

lemma parsed_payload: "parsed_from h p (payload_parse h p)"
proof -
  consider "p = []" | b where "p = [b]"
    | b d where "p = b # d" "d \<noteq> []" "length d = unat b"
    | b d l where "p = b # d @ [l]" "d \<noteq> []" "length d = unat b"
    | l0 l1 d le where "p = 0 # l0 # l1 # d @ le" "length d = be_val [l0, l1]" "length le \<le> 3"
    | e where "payload_parse h p = Err e"
  proof (cases "\<exists>b q r. p = b # q # r")
    case False
    then show thesis using that(1,2) by (metis neq_Nil_conv)
  next
    case True
    then obtain b q r where p: "p = b # q # r" by blast
    show thesis
    proof (cases "b \<noteq> 0 \<and> (length p = 1 + unat b \<or> length p = 2 + unat b)")
      case True
      obtain d l where dl: "q # r = d @ [l]" by (metis append_butlast_last_id list.distinct(1))
      have len: "length (q # r) = Suc (length d)" unfolding dl by simp
      from True have "0 < unat b" by (simp add: unat_gt_0)
      with True len p dl show thesis using that(3) [of b "q # r"] that(4) [of b d l] by (cases d) auto
    next
      case False
      then show thesis using payload_rejected [OF p, of h] that(5,6) by blast
    qed
  qed
  then show ?thesis
  proof cases
    case 1
    then show ?thesis by (simp add: payload_Nil parsed_from_def apdu_ok_def apdu_frame_def)
  next
    case 2
    then show ?thesis by (simp add: payload_one parsed_from_def apdu_ok_def apdu_frame_def)
  qed (simp_all add: parsed_short parsed_extended parsed_from_def [of _ _ "Err _"])
qed

text \<open>
  C30. Parsing and framing are inverse to each other: the parser returns a command exactly for the
  frames of well-formed commands, in the encoding the frame has, and it never panics, whatever the
  bytes of the frame.
\<close>

theorem apdu_parse_iff:
  "apdu_try_from frame \<noteq> Panic
   \<and> (apdu_try_from frame = Ok a \<longleftrightarrow> apdu_ok a \<and> apdu_frame a = frame)"
proof (cases "length frame < 4")
  case True
  then show ?thesis
    by (auto simp: apdu_try_from_def APDU_HEADER_LEN_def apdu_frame_def)
next
  case False
  then have "length (take 4 frame) = Suc (Suc (Suc (Suc 0)))" by simp
  then obtain w x y z where "take 4 frame = [w, x, y, z]" by (auto simp: length_Suc_conv simp del: length_take)
  then have "frame = header_bytes \<lparr>hdr_cla = w, hdr_ins = x, hdr_p1 = y, hdr_p2 = z\<rparr> @ drop 4 frame"
    by (metis append_take_drop_id apdu_header.select_convs header_bytes_def)
  then obtain h p where h: "frame = header_bytes h @ p" by blast
  have "parsed_from h p (apdu_try_from frame)"
    using parsed_payload [of h p] by (simp add: payload_parse_def h)
  then show ?thesis
    using frame_parse_Ok [of a] by (auto simp: parsed_from_def h split: outcome.splits)
qed

end
