(* ===== verification/Hid.thy ===== *)
theory Hid
  imports Hid_Receive Timed_Permission Apdu
begin

text \<open>
  The CTAPHID transport (\<open>src/ctap/hid/mod.rs\<close>): channel allocation, dispatch of assembled
  messages and error replies. The two command processors it calls are arguments here, over a
  state \<open>'st\<close> of their own (\<open>CtapState\<close> in the sources); the build option
  \<open>with_ctap1\<close> is a boolean argument. \<open>usize\<close> is 32 bits wide. A result of
  \<^const>\<open>None\<close> is a panic: an \<open>unwrap\<close> of a message that is too long to split, a
  clock without frequency, or a panic of a command processor.
\<close>

definition CHANNEL_RESERVED :: channel_id where "CHANNEL_RESERVED = [0, 0, 0, 0]"
definition CHANNEL_BROADCAST :: channel_id where "CHANNEL_BROADCAST = [0xFF, 0xFF, 0xFF, 0xFF]"

definition COMMAND_PING :: u8 where "COMMAND_PING = 0x01"
definition COMMAND_MSG :: u8 where "COMMAND_MSG = 0x03"
definition COMMAND_CBOR :: u8 where "COMMAND_CBOR = 0x10"
definition COMMAND_CANCEL :: u8 where "COMMAND_CANCEL = 0x11"
definition COMMAND_KEEPALIVE :: u8 where "COMMAND_KEEPALIVE = 0x3B"
definition COMMAND_ERROR :: u8 where "COMMAND_ERROR = 0x3F"
definition COMMAND_WINK :: u8 where "COMMAND_WINK = 0x08"

definition ERR_INVALID_CMD :: u8 where "ERR_INVALID_CMD = 0x01"
definition ERR_INVALID_LEN :: u8 where "ERR_INVALID_LEN = 0x03"
definition ERR_INVALID_SEQ :: u8 where "ERR_INVALID_SEQ = 0x04"
definition ERR_MSG_TIMEOUT :: u8 where "ERR_MSG_TIMEOUT = 0x05"
definition ERR_CHANNEL_BUSY :: u8 where "ERR_CHANNEL_BUSY = 0x06"
definition ERR_INVALID_CHANNEL :: u8 where "ERR_INVALID_CHANNEL = 0x0B"

definition PROTOCOL_VERSION :: u8 where "PROTOCOL_VERSION = 2"
definition DEVICE_VERSION_MAJOR :: u8 where "DEVICE_VERSION_MAJOR = 1"
definition DEVICE_VERSION_MINOR :: u8 where "DEVICE_VERSION_MINOR = 0"
definition DEVICE_VERSION_BUILD :: u8 where "DEVICE_VERSION_BUILD = 0"
definition CAPABILITY_WINK :: u8 where "CAPABILITY_WINK = 0x01"
definition CAPABILITY_CBOR :: u8 where "CAPABILITY_CBOR = 0x04"
definition CAPABILITY_NMSG :: u8 where "CAPABILITY_NMSG = 0x08"

definition CAPABILITIES :: "bool \<Rightarrow> u8" where
  "CAPABILITIES with_ctap1 =
     (if with_ctap1 then CAPABILITY_WINK OR CAPABILITY_CBOR
      else CAPABILITY_WINK OR CAPABILITY_CBOR OR CAPABILITY_NMSG)"

definition WINK_TIMEOUT_DURATION :: isize32 where "WINK_TIMEOUT_DURATION = 5000"
definition RESPONSE_TOO_LONG :: u8 where "RESPONSE_TOO_LONG = 0xF0"

record ctap_hid =
  assembler :: message_assembler
  allocated_cids :: u32
  wink_permission :: timed_permission

definition hid_new :: ctap_hid where
  "hid_new = \<lparr>assembler = assembler_new, allocated_cids = 0, wink_permission = Waiting\<rparr>"

definition u32_from_be_bytes :: "bytes \<Rightarrow> u32" where
  "u32_from_be_bytes bs = of_nat (be_val bs)"

definition u32_to_be_bytes :: "u32 \<Rightarrow> bytes" where
  "u32_to_be_bytes w = be_enc 4 (unat w)"

definition u16_to_be_bytes :: "u16 \<Rightarrow> bytes" where
  "u16_to_be_bytes w = be_enc 2 (unat w)"

definition is_allocated_channel :: "ctap_hid \<Rightarrow> channel_id \<Rightarrow> bool" where
  "is_allocated_channel h cid \<longleftrightarrow>
     cid \<noteq> CHANNEL_RESERVED \<and> u32_from_be_bytes cid \<le> allocated_cids h"

definition has_valid_channel :: "ctap_hid \<Rightarrow> message \<Rightarrow> bool" where
  "has_valid_channel h m =
     (if msg_cid m = CHANNEL_BROADCAST then msg_cmd m = COMMAND_INIT
      else is_allocated_channel h (msg_cid m))"

text \<open>\<open>split_message(..)\<close> followed by \<open>unwrap\<close> panics on a message that is too long.\<close>

definition error_message :: "channel_id \<Rightarrow> u8 \<Rightarrow> hid_packet_iterator option" where
  "error_message cid error_code = split_message (message_new cid COMMAND_ERROR [error_code])"

datatype keepalive_status = Processing | UpNeeded

fun keepalive :: "channel_id \<Rightarrow> keepalive_status \<Rightarrow> hid_packet_iterator option" where
  "keepalive cid Processing = split_message (message_new cid COMMAND_KEEPALIVE [1])"
| "keepalive cid UpNeeded = split_message (message_new cid COMMAND_KEEPALIVE [2])"

definition ctap1_error_message :: "channel_id \<Rightarrow> apdu_status_code \<Rightarrow> hid_packet_iterator option" where
  "ctap1_error_message cid error_code =
     split_message (message_new cid COMMAND_MSG (u16_to_be_bytes (apdu_status_u16 error_code)))"

definition ctap1_success_message :: "channel_id \<Rightarrow> bytes \<Rightarrow> hid_packet_iterator option" where
  "ctap1_success_message cid payload =
     split_message (message_new cid COMMAND_MSG (payload @ u16_to_be_bytes (apdu_status_u16 SW_SUCCESS)))"

section \<open>Processing a packet\<close>

type_synonym 'st cbor_processor = "bytes \<Rightarrow> channel_id \<Rightarrow> clock_value \<Rightarrow> 'st \<Rightarrow> (bytes \<times> 'st) option"
type_synonym 'st ctap1_processor = "bytes \<Rightarrow> clock_value \<Rightarrow> 'st \<Rightarrow> ((apdu_status_code + bytes) \<times> 'st) option"
type_synonym 'st hid_result = "(hid_packet_iterator \<times> ctap_hid \<times> 'st) option"

definition reply :: "hid_packet_iterator option \<Rightarrow> ctap_hid \<Rightarrow> 'st \<Rightarrow> 'st hid_result" where
  "reply it h st = map_option (\<lambda>it. (it, h, st)) it"

definition process_init :: "bool \<Rightarrow> message \<Rightarrow> ctap_hid \<Rightarrow> 'st \<Rightarrow> 'st hid_result" where
  "process_init with_ctap1 m h st =
     (if length (msg_payload m) \<noteq> 8
      then reply (error_message (msg_cid m) ERR_INVALID_LEN) h st
      else
        (let (new_cid, h') =
           (if msg_cid m = CHANNEL_BROADCAST
            then (u32_to_be_bytes (allocated_cids h + 1), h\<lparr>allocated_cids := allocated_cids h + 1\<rparr>)
            else (msg_cid m, h));
             payload = msg_payload m @ new_cid
               @ [PROTOCOL_VERSION, DEVICE_VERSION_MAJOR, DEVICE_VERSION_MINOR, DEVICE_VERSION_BUILD,
                  CAPABILITIES with_ctap1]
         in reply (split_message (message_new (msg_cid m) COMMAND_INIT payload)) h' st))"

definition ctap1_reply :: "channel_id \<Rightarrow> ctap_hid \<Rightarrow> (apdu_status_code + bytes) \<times> 'st \<Rightarrow> 'st hid_result" where
  "ctap1_reply cid h = (\<lambda>(r, st).
     case r of
       Inr payload \<Rightarrow> reply (ctap1_success_message cid payload) h st
     | Inl status \<Rightarrow> reply (ctap1_error_message cid status) h st)"

definition process_message ::
    "bool \<Rightarrow> 'st cbor_processor \<Rightarrow> 'st ctap1_processor \<Rightarrow> clock_value \<Rightarrow> message \<Rightarrow> ctap_hid \<Rightarrow> 'st \<Rightarrow> 'st hid_result" where
  "process_message with_ctap1 process_command ctap1_process clock m h st =
     (let cid = msg_cid m in
      if \<not> has_valid_channel h m then reply (error_message cid ERR_INVALID_CHANNEL) h st
      else
        (let h = h\<lparr>wink_permission := Waiting\<rparr> in
         if msg_cmd m = COMMAND_MSG then
           (if \<not> with_ctap1 then reply (error_message cid ERR_INVALID_CMD) h st
            else
              Option.bind (ctap1_process (msg_payload m) clock st) (ctap1_reply cid h))
         else if msg_cmd m = COMMAND_CBOR then
           Option.bind (process_command (msg_payload m) cid clock st) (\<lambda>(response, st').
             case split_message (message_new cid COMMAND_CBOR response) of
               Some it \<Rightarrow> Some (it, h, st')
             | None \<Rightarrow> reply (split_message (message_new cid COMMAND_CBOR [RESPONSE_TOO_LONG])) h st')
         else if msg_cmd m = COMMAND_INIT then process_init with_ctap1 m h st
         else if msg_cmd m = COMMAND_PING then reply (split_message m) h st
         else if msg_cmd m = COMMAND_CANCEL then Some (iterator_none, h, st)
         else if msg_cmd m = COMMAND_WINK then
           (if msg_payload m \<noteq> [] then reply (error_message cid ERR_INVALID_LEN) h st
            else Option.bind (tp_granted clock WINK_TIMEOUT_DURATION) (\<lambda>p.
              reply (split_message (message_new cid COMMAND_WINK [])) (h\<lparr>wink_permission := p\<rparr>) st))
         else reply (error_message cid ERR_INVALID_CMD) h st))"

definition process_error :: "channel_id \<Rightarrow> receive_error \<Rightarrow> ctap_hid \<Rightarrow> 'st \<Rightarrow> 'st hid_result" where
  "process_error cid err h st =
     (if \<not> is_allocated_channel h cid \<and> err \<noteq> UnexpectedContinuation
      then reply (error_message cid ERR_INVALID_CHANNEL) h st
      else (case err of
              UnexpectedChannel \<Rightarrow> reply (error_message cid ERR_CHANNEL_BUSY) h st
            | UnexpectedInit \<Rightarrow> reply (error_message cid ERR_INVALID_SEQ) h st
            | UnexpectedContinuation \<Rightarrow> Some (iterator_none, h, st)
            | UnexpectedSeq \<Rightarrow> reply (error_message cid ERR_INVALID_SEQ) h st
            | Timeout \<Rightarrow> reply (error_message cid ERR_MSG_TIMEOUT) h st))"

definition process_hid_packet ::
    "bool \<Rightarrow> 'st cbor_processor \<Rightarrow> 'st ctap1_processor \<Rightarrow> hid_packet \<Rightarrow> clock_value \<Rightarrow> ctap_hid \<Rightarrow> 'st \<Rightarrow> 'st hid_result" where
  "process_hid_packet with_ctap1 process_command ctap1_process packet clock h st =
     Option.bind (timestamp_from_clock_value clock) (\<lambda>timestamp.
       (case parse_packet (assembler h) packet timestamp of
          (Inr (Some m), a) \<Rightarrow>
            process_message with_ctap1 process_command ctap1_process clock m (h\<lparr>assembler := a\<rparr>) st
        | (Inr None, a) \<Rightarrow> Some (iterator_none, h\<lparr>assembler := a\<rparr>, st)
        | (Inl (cid, err), a) \<Rightarrow> process_error cid err (h\<lparr>assembler := a\<rparr>) st))"

section \<open>Invariant and absence of panics\<close>

definition hid_inv :: "ctap_hid \<Rightarrow> bool" where
  "hid_inv h \<longleftrightarrow> asm_inv (assembler h)"

lemma reply_Some: "reply it h st = Some (x, h', st') \<longleftrightarrow> it = Some x \<and> h' = h \<and> st' = st"
  by (auto simp: reply_def)

declare not_None_eq [simp del]

lemma reply_not_None [simp]: "reply it h st = None \<longleftrightarrow> it = None"
  by (simp add: reply_def)

lemma split_message_not_None:
  "length (msg_payload m) \<le> MAX_PAYLOAD \<Longrightarrow> split_message m \<noteq> None"
  by (simp add: split_message_def iterator_new_def splitter_new_def)

lemma split_short [simp]:
  "length p \<le> 7609 \<Longrightarrow> split_message (message_new cid cmd p) \<noteq> None"
  by (rule split_message_not_None) (simp add: message_new_def MAX_PAYLOAD_def)

lemma error_message_not_None [simp]:
  "error_message cid code \<noteq> None"
  "ctap1_error_message cid sw \<noteq> None"
  "Suc (Suc (length payload)) \<le> MAX_PAYLOAD \<Longrightarrow> ctap1_success_message cid payload \<noteq> None"
  by (simp_all add: error_message_def ctap1_error_message_def ctap1_success_message_def
      u16_to_be_bytes_def MAX_PAYLOAD_def)

lemma process_init_not_None:
  assumes "length (msg_cid m) = 4"
  shows "process_init c m h st \<noteq> None"
  using assms by (simp add: process_init_def Let_def u32_to_be_bytes_def)

lemma process_error_not_None: "process_error cid err h st \<noteq> None"
  by (simp add: process_error_def split: receive_error.splits)

text \<open>What the transport relies on in a state of the authenticator: the command processors do not
  panic there, and a CTAP1 response leaves room for its status word.\<close>

definition processors_return :: "'st cbor_processor \<Rightarrow> 'st ctap1_processor \<Rightarrow> clock_value \<Rightarrow> 'st \<Rightarrow> bool" where
  "processors_return pc c1 clock st \<longleftrightarrow>
     (\<forall>payload cid. pc payload cid clock st \<noteq> None)
     \<and> (\<forall>payload. c1 payload clock st \<noteq> None)
     \<and> (\<forall>payload r st'. c1 payload clock st = Some (Inr r, st') \<longrightarrow> length r + 2 \<le> MAX_PAYLOAD)"

lemma tp_granted_Some: "\<exists>p. tp_granted clock d = Some p"
  by (simp add: tp_granted_ticks)

lemma ctap1_reply_not_None:
  assumes "processors_return pc c1 clock st"
  shows "Option.bind (c1 payload clock st) (ctap1_reply cid h) \<noteq> None"
proof -
  obtain r st' where c1: "c1 payload clock st = Some (r, st')"
    using assms by (metis option.exhaust processors_return_def surj_pair)
  show ?thesis
  proof (cases r)
    case (Inr response)
    with c1 assms have "length response + 2 \<le> MAX_PAYLOAD" unfolding processors_return_def by metis
    with c1 Inr show ?thesis by (simp add: ctap1_reply_def)
  qed (simp add: c1 ctap1_reply_def)
qed

lemma cbor_reply_not_None:
  assumes "processors_return pc c1 clock st"
  shows "Option.bind (pc payload cid clock st) (\<lambda>(response, st').
      case split_message (message_new cid COMMAND_CBOR response) of
        Some it \<Rightarrow> Some (it, h, st')
      | None \<Rightarrow> reply (split_message (message_new cid COMMAND_CBOR [RESPONSE_TOO_LONG])) h st') \<noteq> None"
proof -
  obtain response st' where "pc payload cid clock st = Some (response, st')"
    using assms by (metis option.exhaust processors_return_def surj_pair)
  then show ?thesis by (simp split: option.splits)
qed

lemma process_message_not_None:
  assumes "message_ok m" and "length (msg_payload m) \<le> MAX_PAYLOAD" and "processors_return pc c1 clock st"
  shows "process_message w pc c1 clock m h st \<noteq> None"
proof -
  obtain p where p: "tp_granted clock WINK_TIMEOUT_DURATION = Some p" using tp_granted_Some by blast
  have init: "process_init w' m h' st \<noteq> None" for w' h'
    using assms(1) by (intro process_init_not_None) (simp add: message_ok_def)
  show ?thesis
    using ctap1_reply_not_None [OF assms(3)] cbor_reply_not_None [OF assms(3)] init
      split_message_not_None [OF assms(2)]
    by (simp add: process_message_def Let_def p)
qed

lemma ctap1_reply_Some: "ctap1_reply cid h r = Some (it, h', st') \<Longrightarrow> h' = h \<and> st' = snd r"
  by (auto simp: ctap1_reply_def reply_Some split: prod.splits sum.splits)

lemma process_message_assembler:
  "process_message w pc c1 clock m h st = Some (it, h', st') \<Longrightarrow> assembler h' = assembler h"
  by (auto simp: process_message_def process_init_def Let_def reply_Some bind_eq_Some_conv dest!: ctap1_reply_Some
      split: if_splits prod.splits option.splits)

lemma process_error_state:
  "process_error cid err h st = Some (it, h', st') \<Longrightarrow> h' = h \<and> st' = st"
  by (auto simp: process_error_def reply_Some split: if_splits receive_error.splits)

lemma process_hid_packet_inv:
  assumes "hid_inv h" and "packet_ok p"
    and "process_hid_packet w pc c1 p clock h st = Some (it, h', st')"
  shows "hid_inv h'"
proof -
  from assms(3) obtain ts where
    "(case parse_packet (assembler h) p ts of
        (Inr (Some m), a) \<Rightarrow> process_message w pc c1 clock m (h\<lparr>assembler := a\<rparr>) st
      | (Inr None, a) \<Rightarrow> Some (iterator_none, h\<lparr>assembler := a\<rparr>, st)
      | (Inl (cid, err), a) \<Rightarrow> process_error cid err (h\<lparr>assembler := a\<rparr>) st) = Some (it, h', st')"
    by (auto simp: process_hid_packet_def bind_eq_Some_conv)
  then have "assembler h' = snd (parse_packet (assembler h) p ts)"
    by (auto dest: process_message_assembler process_error_state split: prod.splits sum.splits option.splits)
  with parse_packet_inv [of "assembler h" p ts] assms(1,2) show ?thesis by (simp add: hid_inv_def)
qed

lemma timestamp_not_None: "clock_hz clock \<noteq> 0 \<Longrightarrow> \<exists>ts. timestamp_from_clock_value clock = Some ts"
  by (simp add: timestamp_from_clock_value_def clock_ms_def scale_int_def)

lemma process_hid_packet_not_None:
  assumes "hid_inv h" and "packet_ok p" and "clock_hz clock \<noteq> 0" and "processors_return pc c1 clock st"
  shows "process_hid_packet w pc c1 p clock h st \<noteq> None"
proof -
  obtain ts where ts: "timestamp_from_clock_value clock = Some ts"
    using timestamp_not_None [OF assms(3)] by blast
  obtain r a where pr: "parse_packet (assembler h) p ts = (r, a)" by (cases "parse_packet (assembler h) p ts")
  consider cid err where "r = Inl (cid, err)" | "r = Inr None" | m where "r = Inr (Some m)"
    by (cases r) auto
  then show ?thesis
  proof cases
    case 3
    with parse_packet_message [of "assembler h" p ts m a] assms(1,2) pr
    have "message_ok m" "length (msg_payload m) \<le> MAX_PAYLOAD" by (auto simp: hid_inv_def)
    with process_message_not_None assms(4) 3 ts pr show ?thesis
      by (simp add: process_hid_packet_def)
  qed (use ts pr process_error_not_None in \<open>simp_all add: process_hid_packet_def\<close>)
qed

section \<open>Reachable states\<close>

inductive hid_reachable ::
    "bool \<Rightarrow> 'st cbor_processor \<Rightarrow> 'st ctap1_processor \<Rightarrow> 'st \<Rightarrow> ctap_hid \<Rightarrow> 'st \<Rightarrow> bool"
  for w pc c1 st0 where
  start: "hid_reachable w pc c1 st0 hid_new st0"
| step: "hid_reachable w pc c1 st0 h st \<Longrightarrow> packet_ok p \<Longrightarrow>
     process_hid_packet w pc c1 p clock h st = Some (it, h', st') \<Longrightarrow>
     hid_reachable w pc c1 st0 h' st'"

lemma hid_reachable_inv: "hid_reachable w pc c1 st0 h st \<Longrightarrow> hid_inv h"
proof (induction rule: hid_reachable.induct)
  case start
  show ?case by (simp add: hid_inv_def hid_new_def)
next
  case (step h st p clock it h' st')
  then show ?case by (blast intro: process_hid_packet_inv)
qed

section \<open>Channels\<close>

lemma process_message_state_change:
  assumes "process_message w pc c1 clock m h st = Some (it, h', st')" and "st' \<noteq> st"
  shows "(msg_cmd m = COMMAND_MSG \<and> w \<or> msg_cmd m = COMMAND_CBOR) \<and> is_allocated_channel h (msg_cid m)
    \<and> msg_cid m \<noteq> CHANNEL_BROADCAST"
  using assms
  by (auto simp: process_message_def process_init_def has_valid_channel_def Let_def reply_Some
      bind_eq_Some_conv COMMAND_INIT_def COMMAND_MSG_def COMMAND_CBOR_def
      dest!: ctap1_reply_Some split: if_splits prod.splits option.splits)

end
