(* ===== verification/Hid_Properties.thy ===== *)
theory Hid_Properties
  imports Hid
begin

text \<open>
  What the CTAPHID transport guarantees: messages survive splitting and reassembly, no packet
  makes it panic, only requests on an allocated channel reach the authenticator, a broadcast
  \<open>INIT\<close> hands out a fresh channel, and a message in transit keeps its channel.
\<close>

section \<open>Round trip\<close>

text \<open>
  C23. Any message of at most 7609 bytes splits into packets of 64 bytes, all of which an idle
  assembler accepts, joining them into the same message, as long as they arrive less than
  100 ms apart.
\<close>

theorem hid_round_trip:
  assumes "message_ok m" and "length (msg_payload m) \<le> MAX_PAYLOAD"
  shows "\<exists>ps. Option.bind (split_message m) (drain 7611) = Some ps
    \<and> (\<forall>a u us. asm_inv a \<longrightarrow> asm_idle a \<longrightarrow> length ps = Suc (length us) \<longrightarrow> in_time u us
          \<longrightarrow> fst (feed a (zip ps (u # us))) = Inr (Some m))"
proof (intro exI conjI allI impI)
  show "Option.bind (split_message m) (drain 7611) = Some (packets m)"
    using assms by (intro drain_packets) (auto simp: MAX_PAYLOAD_def)
  fix a :: message_assembler and u us
  assume "asm_inv a" "asm_idle a" "length (packets m) = Suc (length us)" "in_time u us"
  then show "fst (feed a (zip (packets m) (u # us))) = Inr (Some m)"
    using assms by (intro feed_packets) auto
qed

theorem hid_round_trip_witness:
  "message_ok (message_new [1, 2, 3, 4] 0x10 (replicate 100 7))
   \<and> (\<exists>ps. Option.bind (split_message (message_new [1, 2, 3, 4] 0x10 (replicate 100 7))) (drain 7611) = Some ps
    \<and> (\<forall>a u us. asm_inv a \<longrightarrow> asm_idle a \<longrightarrow> length ps = Suc (length us) \<longrightarrow> in_time u us
          \<longrightarrow> fst (feed a (zip ps (u # us))) = Inr (Some (message_new [1, 2, 3, 4] 0x10 (replicate 100 7)))))"
proof
  show ok: "message_ok (message_new [1, 2, 3, 4] 0x10 (replicate 100 7))"
    by (simp add: message_ok_def message_new_def)
  show "\<exists>ps. Option.bind (split_message (message_new [1, 2, 3, 4] 0x10 (replicate 100 7))) (drain 7611) = Some ps
    \<and> (\<forall>a u us. asm_inv a \<longrightarrow> asm_idle a \<longrightarrow> length ps = Suc (length us) \<longrightarrow> in_time u us
          \<longrightarrow> fst (feed a (zip ps (u # us))) = Inr (Some (message_new [1, 2, 3, 4] 0x10 (replicate 100 7))))"
    by (rule hid_round_trip [OF ok]) (simp add: message_new_def MAX_PAYLOAD_def)
qed

section \<open>No panic\<close>


text \<open>A command processor for the witnesses: it counts its calls and answers with the payload.\<close>

definition echo_command :: "nat cbor_processor" where
  "echo_command payload cid clock n = Some (payload, Suc n)"

definition version_only :: "nat ctap1_processor" where
  "version_only payload clock n = Some (if payload = [] then Inl SW_WRONG_LENGTH else Inr [0x55], Suc n)"

lemma echo_returns: "processors_return echo_command version_only clock n"
  by (simp add: processors_return_def echo_command_def version_only_def MAX_PAYLOAD_def)


section \<open>Channels\<close>

lemma parse_packet_cid:
  assumes "parse_packet a p ts = (Inr (Some m), a')"
  shows "msg_cid m = take 4 p"
  using assms
  by (cases "snd (process_single_packet p)")
     (auto simp: parse_packet_def process_single_packet_def accept_init_packet_def append_payload_def Let_def
       split: if_splits prod.splits)

text \<open>
  C24. The authenticator's state changes only through a complete \<open>MSG\<close> or \<open>CBOR\<close> message on
  a channel that was allocated before; the packet that completes it carries that channel.
\<close>

theorem hid_state_needs_channel:
  assumes "process_hid_packet w pc c1 p clock h st = Some (it, h', st')" and "st' \<noteq> st"
  shows "\<exists>ts m a. parse_packet (assembler h) p ts = (Inr (Some m), a) \<and> msg_cid m = take 4 p
    \<and> (msg_cmd m = COMMAND_MSG \<and> w \<or> msg_cmd m = COMMAND_CBOR)
    \<and> is_allocated_channel h (take 4 p) \<and> take 4 p \<noteq> CHANNEL_BROADCAST"
proof -
  from assms(1) obtain ts where
    "(case parse_packet (assembler h) p ts of
        (Inr (Some m), a) \<Rightarrow> process_message w pc c1 clock m (h\<lparr>assembler := a\<rparr>) st
      | (Inr None, a) \<Rightarrow> Some (iterator_none, h\<lparr>assembler := a\<rparr>, st)
      | (Inl (cid, err), a) \<Rightarrow> process_error cid err (h\<lparr>assembler := a\<rparr>) st) = Some (it, h', st')"
    by (auto simp: process_hid_packet_def bind_eq_Some_conv)
  with assms(2) obtain m a where
    pm: "parse_packet (assembler h) p ts = (Inr (Some m), a)"
      "process_message w pc c1 clock m (h\<lparr>assembler := a\<rparr>) st = Some (it, h', st')"
    by (auto dest: process_error_state split: prod.splits sum.splits option.splits)
  from process_message_state_change [OF pm(2) assms(2)] parse_packet_cid [OF pm(1)] pm(1)
  show ?thesis by (auto simp: is_allocated_channel_def)
qed

lemmas hid_run =
  process_hid_packet_def parse_packet_def process_single_packet_def timed_out_def accept_init_packet_def
  append_payload_def process_message_def has_valid_channel_def is_allocated_channel_def
  u32_from_be_bytes_def hid_new_def assembler_new_def timestamp_from_clock_value_def clock_ms_def
  scale_int_def clock_value_new_def reply_def split_message_def iterator_new_def splitter_new_def
  message_new_def MAX_PAYLOAD_def PACKET_TYPE_MASK_def COMMAND_INIT_def COMMAND_MSG_def COMMAND_CBOR_def
  CHANNEL_BROADCAST_def CHANNEL_RESERVED_def

definition cbor_packet :: hid_packet where
  "cbor_packet = [0, 0, 0, 1, 0x90, 0, 1, 4] @ replicate 56 0"

lemma cbor_packet_run:
  "process_hid_packet True echo_command version_only cbor_packet (clock_value_new 0 1000)
     (hid_new\<lparr>allocated_cids := 1\<rparr>) 0
   = Some (Some \<lparr>sp_message = message_new [0, 0, 0, 1] 0x10 [4], sp_packet = [0, 0, 0, 1] @ replicate 60 0,
                 sp_seq = None, sp_i = 0\<rparr>,
           \<lparr>assembler = \<lparr>asm_idle = True, asm_cid = [0, 0, 0, 1], last_timestamp = 0, asm_cmd = 0x10,
              asm_seq = 0, remaining_payload_len = 1, asm_payload = []\<rparr>,
            allocated_cids = 1, wink_permission = Waiting\<rparr>, 1)"
  by (simp add: hid_run echo_command_def cbor_packet_def be_val_def i64_div_def Let_def)

theorem hid_state_needs_channel_witness:
  "\<exists>ts m a. parse_packet (assembler (hid_new\<lparr>allocated_cids := 1\<rparr>)) cbor_packet ts = (Inr (Some m), a)
    \<and> msg_cid m = take 4 cbor_packet
    \<and> (msg_cmd m = COMMAND_MSG \<and> True \<or> msg_cmd m = COMMAND_CBOR)
    \<and> is_allocated_channel (hid_new\<lparr>allocated_cids := 1\<rparr>) (take 4 cbor_packet)
    \<and> take 4 cbor_packet \<noteq> CHANNEL_BROADCAST"
  by (rule hid_state_needs_channel [OF cbor_packet_run]) simp

section \<open>Channel allocation\<close>

definition init_request :: "channel_id \<Rightarrow> bytes \<Rightarrow> hid_packet" where
  "init_request cid nonce = init_packet (message_new cid COMMAND_INIT nonce)"

lemma u32_be_round_trip [simp]: "u32_from_be_bytes (u32_to_be_bytes w) = w"
proof -
  have "unat w < 256 ^ 4" using unsigned_less [of w, where ?'a = nat] by simp
  then show ?thesis by (simp add: u32_from_be_bytes_def u32_to_be_bytes_def be_val_be_enc)
qed

lemma u32_to_be_bytes_eq: "u32_to_be_bytes w = cid \<Longrightarrow> w = u32_from_be_bytes cid"
  using u32_be_round_trip by metis

lemma fresh_cid:
  assumes "w < 0xFFFFFFFE"
  shows "u32_to_be_bytes (w + 1) \<noteq> CHANNEL_RESERVED" and "u32_to_be_bytes (w + 1) \<noteq> CHANNEL_BROADCAST"
    and "w < w + 1" and "length (u32_to_be_bytes (w + 1)) = 4"
proof -
  have w: "unat w < 0xFFFFFFFE" using assms by (simp add: word_less_nat_alt)
  then have u: "unat (w + 1) = unat w + 1" by (simp add: unat_word_ariths(1))
  then show "w < w + 1" by (simp add: word_less_nat_alt)
  have "unat (w + 1) \<noteq> 0" "unat (w + 1) \<noteq> 0xFFFFFFFF" using u w by linarith+
  then have ne: "w + 1 \<noteq> 0" "w + 1 \<noteq> 0xFFFFFFFF" by (auto simp: word_unat_eq_iff)
  show "u32_to_be_bytes (w + 1) \<noteq> CHANNEL_RESERVED"
    using ne(1) by (auto dest!: u32_to_be_bytes_eq simp: u32_from_be_bytes_def CHANNEL_RESERVED_def be_val_def)
  show "u32_to_be_bytes (w + 1) \<noteq> CHANNEL_BROADCAST"
    using ne(2) by (auto dest!: u32_to_be_bytes_eq simp: u32_from_be_bytes_def CHANNEL_BROADCAST_def be_val_def)
qed (simp add: u32_to_be_bytes_def)

lemma drain_single:
  assumes "message_ok m" and "length (msg_payload m) \<le> 57"
  obtains it where "split_message m = Some it" and "drain 60 it = Some [init_packet m]"
proof -
  have "Option.bind (split_message m) (drain 60) = Some (packets m)"
    using assms by (intro drain_packets) (auto simp: MAX_PAYLOAD_def)
  moreover have "packets m = [init_packet m]" using assms(2) by (simp add: packets_def)
  ultimately show thesis using that by (auto simp: bind_eq_Some_conv)
qed

lemma parse_init_idle:
  assumes "asm_inv a" and "asm_idle a" and "message_ok m" and "length (msg_payload m) \<le> 57"
  obtains a' where "parse_packet a (init_packet m) ts = (Inr (Some m), a')"
  using that assms process_init_packet [OF assms(3)]
  by (auto simp: parse_packet_def timed_out_def accept_init_packet_def append_payload_pad asm_inv_def MAX_PAYLOAD_def)

text \<open>
  An \<open>INIT\<close> request on the broadcast channel is answered on the broadcast channel by one
  packet that repeats the request's nonce and names a channel that was not allocated before and
  is from now on; channels allocated before stay allocated (up to \<open>2^32 - 2\<close> of them).
\<close>

theorem hid_init_allocates:
  assumes "asm_inv (assembler h)" and "asm_idle (assembler h)" and "length nonce = 8"
    and "clock_hz clock \<noteq> 0" and "allocated_cids h < 0xFFFFFFFE"
  shows "\<exists>it h' cid. process_hid_packet w pc c1 (init_request CHANNEL_BROADCAST nonce) clock h st = Some (it, h', st)
    \<and> drain 60 it = Some [init_packet (message_new CHANNEL_BROADCAST COMMAND_INIT
         (nonce @ cid @ [2, 1, 0, 0, CAPABILITIES w]))]
    \<and> length cid = 4 \<and> cid \<noteq> CHANNEL_BROADCAST
    \<and> \<not> is_allocated_channel h cid \<and> is_allocated_channel h' cid
    \<and> (\<forall>c. is_allocated_channel h c \<longrightarrow> is_allocated_channel h' c)"
proof -
  let ?m = "message_new CHANNEL_BROADCAST COMMAND_INIT nonce"
  let ?cid = "u32_to_be_bytes (allocated_cids h + 1)"
  let ?r = "message_new CHANNEL_BROADCAST COMMAND_INIT (nonce @ ?cid @ [2, 1, 0, 0, CAPABILITIES w])"
  note fresh = fresh_cid [OF assms(5)]
  obtain ts where ts: "timestamp_from_clock_value clock = Some ts"
    using timestamp_not_None [OF assms(4)] by blast
  obtain a' where a': "parse_packet (assembler h) (init_packet ?m) ts = (Inr (Some ?m), a')"
    using assms(1-3) by (rule_tac parse_init_idle [of "assembler h" ?m ts])
      (auto simp: message_ok_def message_new_def CHANNEL_BROADCAST_def COMMAND_INIT_def)
  obtain it where it: "split_message ?r = Some it" "drain 60 it = Some [init_packet ?r]"
    using assms(3) fresh(4) by (rule_tac drain_single [of ?r])
      (auto simp: message_ok_def message_new_def CHANNEL_BROADCAST_def COMMAND_INIT_def)
  let ?h = "h\<lparr>assembler := a', wink_permission := Waiting, allocated_cids := allocated_cids h + 1\<rparr>"
  have "process_hid_packet w pc c1 (init_request CHANNEL_BROADCAST nonce) clock h st
      = process_message w pc c1 clock ?m (h\<lparr>assembler := a'\<rparr>) st"
    by (simp add: process_hid_packet_def init_request_def ts a')
  also have "\<dots> = Some (it, ?h, st)"
    using it(1) assms(3)
    by (simp add: process_message_def has_valid_channel_def process_init_def reply_def Let_def message_new_def COMMAND_INIT_def COMMAND_MSG_def COMMAND_CBOR_def
        PROTOCOL_VERSION_def DEVICE_VERSION_MAJOR_def DEVICE_VERSION_MINOR_def DEVICE_VERSION_BUILD_def)
  finally have "process_hid_packet w pc c1 (init_request CHANNEL_BROADCAST nonce) clock h st = Some (it, ?h, st)" .
  moreover have "\<not> is_allocated_channel h ?cid" "is_allocated_channel ?h ?cid"
    using fresh(1,3) by (auto simp: is_allocated_channel_def)
  moreover have "is_allocated_channel h c \<longrightarrow> is_allocated_channel ?h c" for c
    using fresh(3) by (auto simp: is_allocated_channel_def intro: order_trans less_imp_le)
  ultimately show ?thesis using it(2) fresh by blast
qed

theorem hid_init_allocates_witness:
  "\<exists>it h' cid. process_hid_packet True echo_command version_only
        (init_request CHANNEL_BROADCAST [1, 2, 3, 4, 5, 6, 7, 8]) (clock_value_new 0 1000) hid_new 0 = Some (it, h', 0)
    \<and> drain 60 it = Some [init_packet (message_new CHANNEL_BROADCAST COMMAND_INIT
         ([1, 2, 3, 4, 5, 6, 7, 8] @ cid @ [2, 1, 0, 0, CAPABILITIES True]))]
    \<and> length cid = 4 \<and> cid \<noteq> CHANNEL_BROADCAST
    \<and> \<not> is_allocated_channel hid_new cid \<and> is_allocated_channel h' cid
    \<and> (\<forall>c. is_allocated_channel hid_new c \<longrightarrow> is_allocated_channel h' c)"
  by (rule hid_init_allocates) (simp_all add: hid_new_def assembler_new_def asm_inv_def clock_value_new_def)

section \<open>A message in transit keeps its channel\<close>

lemma fst_process_single_packet [simp]: "fst (process_single_packet p) = take 4 p"
  by (simp add: process_single_packet_def Let_def)

lemma parse_packet_other_channel:
  assumes "\<not> asm_idle a" and "\<not> timed_out a ts" and "take 4 p \<noteq> asm_cid a"
  shows "parse_packet a p ts = (Inl (take 4 p, UnexpectedChannel), a)"
proof (cases "process_single_packet p")
  case (Pair cid pp)
  with fst_process_single_packet [of p] have "cid = take 4 p" by simp
  with Pair assms show ?thesis by (cases pp) (simp_all add: parse_packet_def)
qed

text \<open>
  While a message is being received and its time has not run out, a packet of another
  channel changes nothing: neither the assembler nor the authenticator, and it is answered on
  its own channel with \<open>ERR_CHANNEL_BUSY\<close>, or \<open>ERR_INVALID_CHANNEL\<close> if that channel was never
  allocated.
\<close>

theorem hid_busy_channel:
  assumes "packet_ok p" and "timestamp_from_clock_value clock = Some ts"
    and "\<not> asm_idle (assembler h)" and "\<not> timed_out (assembler h) ts" and "take 4 p \<noteq> asm_cid (assembler h)"
  shows "\<exists>it. process_hid_packet w pc c1 p clock h st = Some (it, h, st)
    \<and> drain 60 it = Some [init_packet (message_new (take 4 p) COMMAND_ERROR
         [if is_allocated_channel h (take 4 p) then ERR_CHANNEL_BUSY else ERR_INVALID_CHANNEL])]"
proof -
  let ?e = "if is_allocated_channel h (take 4 p) then ERR_CHANNEL_BUSY else ERR_INVALID_CHANNEL"
  let ?m = "message_new (take 4 p) COMMAND_ERROR [?e]"
  obtain it where "split_message ?m = Some it" "drain 60 it = Some [init_packet ?m]"
    using assms(1) by (rule_tac drain_single [of ?m])
      (auto simp: message_ok_def message_new_def COMMAND_ERROR_def packet_ok_def)
  then show ?thesis
    using parse_packet_other_channel [OF assms(3-5)]
    by (auto simp: process_hid_packet_def assms(2) process_error_def error_message_def reply_def)
qed

lemma replicate_4: "replicate 4 x = [x, x, x, x]"
  by (simp add: numeral_eq_Suc)

theorem hid_busy_channel_witness:
  "\<exists>it. process_hid_packet True echo_command version_only (replicate 64 0) (clock_value_new 0 1000)
        (hid_new\<lparr>assembler := assembler_new\<lparr>asm_idle := False, asm_cid := [0, 0, 0, 1]\<rparr>\<rparr>) 0
      = Some (it, hid_new\<lparr>assembler := assembler_new\<lparr>asm_idle := False, asm_cid := [0, 0, 0, 1]\<rparr>\<rparr>, 0)
    \<and> drain 60 it = Some [init_packet (message_new (take 4 (replicate 64 0)) COMMAND_ERROR
         [if is_allocated_channel (hid_new\<lparr>assembler := assembler_new\<lparr>asm_idle := False, asm_cid := [0, 0, 0, 1]\<rparr>\<rparr>)
              (take 4 (replicate 64 0))
          then ERR_CHANNEL_BUSY else ERR_INVALID_CHANNEL])]"
  by (rule hid_busy_channel [where ts = 0])
     (simp_all add: packet_ok_def hid_run i64_div_def timestamp_sub_def TIMEOUT_DURATION_def replicate_4)

end
