(* ===== verification/Bitfield.thy ===== *)
theory Bitfield
  imports Prelude
begin

text \<open>
  Words as bit fields (\<open>libraries/persistent_store/src/format/bitfield.rs\<close>). A word of flash is
  a \<open>u32\<close>. Values of fields are the store's natural numbers (\<open>Nat\<close> is a \<open>u32\<close> in the
  sources): they are \<open>nat\<close> here and are cast to a word where the code works bitwise on them.
  Setting a field can only clear bits, as flash requires. The second half shows what reading a
  field gives after fields have been set, and that a checksum tells a partial write from a
  complete one.
\<close>

datatype store_error = InvalidArgument | NoCapacity | NoLifetime | StorageFailure | InvalidStorage

definition count_ones :: "'a::len word \<Rightarrow> nat" where
  "count_ones w = length (filter (bit w) [0..<LENGTH('a)])"

definition count_zeros :: "'a::len word \<Rightarrow> nat" where
  "count_zeros w = length (filter (\<lambda>i. \<not> bit w i) [0..<LENGTH('a)])"

definition slice_count_zeros :: "bytes \<Rightarrow> nat" where
  "slice_count_zeros bs = sum_list (map count_zeros bs)"

fun num_bits :: "nat \<Rightarrow> nat" where
  "num_bits x = (if x = 0 then 0 else Suc (num_bits (x div 2)))"

declare num_bits.simps [simp del]

record field =
  fld_pos :: nat
  fld_len :: nat

definition field_mask :: "field \<Rightarrow> u32" where
  "field_mask f = push_bit (fld_len f) 1 - 1"

definition field_get :: "field \<Rightarrow> u32 \<Rightarrow> nat" where
  "field_get f w = unat (drop_bit (fld_pos f) w AND field_mask f)"

definition field_set :: "field \<Rightarrow> u32 \<Rightarrow> nat \<Rightarrow> store_error + u32" where
  "field_set f w value =
     (let v = of_nat value :: u32 in
      if v AND field_mask f \<noteq> v then Inl InvalidStorage
      else
        (let mask = NOT (push_bit (fld_pos f) (field_mask f));
             w' = w AND (mask OR push_bit (fld_pos f) v)
         in if field_get f w' \<noteq> value then Inl InvalidStorage else Inr w'))"

record const_field =
  cf_field :: field
  cf_value :: nat

definition const_check :: "const_field \<Rightarrow> u32 \<Rightarrow> bool" where
  "const_check c w \<longleftrightarrow> field_get (cf_field c) w = cf_value c"

definition const_set :: "const_field \<Rightarrow> u32 \<Rightarrow> store_error + u32" where
  "const_set c w = field_set (cf_field c) w (cf_value c)"

text \<open>A \<open>Bit\<close> is its position.\<close>

definition bit_get :: "nat \<Rightarrow> u32 \<Rightarrow> bool" where
  "bit_get pos w \<longleftrightarrow> w AND push_bit pos 1 = 0"

definition bit_set :: "nat \<Rightarrow> u32 \<Rightarrow> u32" where
  "bit_set pos w = w AND NOT (push_bit pos 1)"

text \<open>A \<open>Checksum\<close> is its field.\<close>

definition checksum_get :: "field \<Rightarrow> u32 \<Rightarrow> store_error + nat" where
  "checksum_get f w =
     (let checksum = field_get f w;
          zeros = count_zeros w - (fld_len f - count_ones (of_nat checksum :: u32))
      in if zeros \<le> checksum then Inr (checksum - zeros) else Inl InvalidStorage)"

definition checksum_set :: "field \<Rightarrow> u32 \<Rightarrow> nat \<Rightarrow> store_error + u32" where
  "checksum_set f w value = field_set f w (count_zeros w + value)"

section \<open>Fields as sets of bits\<close>

definition field_ok :: "field \<Rightarrow> bool" where
  "field_ok f \<longleftrightarrow> fld_pos f + fld_len f \<le> 32 \<and> fld_len f < 32"

definition field_bits :: "field \<Rightarrow> nat set" where
  "field_bits f = {fld_pos f ..< fld_pos f + fld_len f}"

lemma field_mask_eq: "field_ok f \<Longrightarrow> field_mask f = mask (fld_len f)"
  by (simp add: field_mask_def mask_eq_decr_exp push_bit_eq_mult)

lemma field_get_eq: "field_ok f \<Longrightarrow> field_get f w = unat (take_bit (fld_len f) (drop_bit (fld_pos f) w))"
  by (simp add: field_get_def field_mask_eq take_bit_eq_mask)

lemma bit_field_get: "field_ok f \<Longrightarrow> bit (field_get f w) i \<longleftrightarrow> i < fld_len f \<and> bit w (fld_pos f + i)"
  by (auto simp: field_get_eq bit_unsigned_iff bit_simps field_ok_def dest: bit_imp_le_length)

lemma field_get_less: "field_ok f \<Longrightarrow> field_get f w < 2 ^ fld_len f"
proof -
  assume "field_ok f"
  then have "unat (take_bit (fld_len f) x) < 2 ^ fld_len f" for x :: u32
    by (simp add: unsigned_take_bit_eq field_ok_def)
  with \<open>field_ok f\<close> show ?thesis by (simp add: field_get_eq)
qed

lemma field_get_cong:
  assumes "field_ok f" and "\<And>i. i \<in> field_bits f \<Longrightarrow> bit w i = bit w' i"
  shows "field_get f w = field_get f w'"
proof (rule bit_eqI)
  fix n
  show "bit (field_get f w) n = bit (field_get f w') n"
    using assms(2) [of "fld_pos f + n"] assms(1) by (auto simp: bit_field_get field_bits_def)
qed

lemma mask_of_nat_iff:
  assumes "field_ok f" and "v < 2 ^ 32"
  shows "of_nat v AND field_mask f = (of_nat v :: u32) \<longleftrightarrow> v < 2 ^ fld_len f"
proof -
  have u: "unat (of_nat v :: u32) = v" using assms(2) by (simp add: take_bit_nat_eq_self unsigned_of_nat)
  have "of_nat v AND field_mask f = (of_nat v :: u32) \<longleftrightarrow> take_bit (fld_len f) (of_nat v :: u32) = of_nat v"
    by (simp add: field_mask_eq [OF assms(1)] take_bit_eq_mask)
  also have "\<dots> \<longleftrightarrow> unat (take_bit (fld_len f) (of_nat v :: u32)) = unat (of_nat v :: u32)"
    by (simp add: word_unat_eq_iff)
  also have "\<dots> \<longleftrightarrow> take_bit (fld_len f) v = v"
    using assms(1) by (simp add: unsigned_take_bit_eq u field_ok_def)
  finally show ?thesis by (simp add: take_bit_nat_eq_self_iff)
qed

lemma bit_u32_imp_less: "bit (w :: u32) i \<Longrightarrow> i < 32"
  using bit_imp_le_length [of w i] by simp

lemma bit_of_nat_u32: "v < 2 ^ 32 \<Longrightarrow> bit (of_nat v :: u32) i \<longleftrightarrow> bit v i"
  using bit_unsigned_iff [of "of_nat v :: u32" i, where ?'a = nat]
  by (auto simp: unsigned_of_nat take_bit_nat_eq_self dest: bit_u32_imp_less)

lemma nat_bit_less: "v < 2 ^ n \<Longrightarrow> bit (v :: nat) i \<Longrightarrow> i < n"
  by (metis bit_take_bit_iff take_bit_nat_eq_self)

lemma field_set_InrD:
  assumes "field_ok f" and "field_set f w v = Inr w'"
  shows "field_get f w' = v" and "v < 2 ^ fld_len f"
    and "bit w' i \<longleftrightarrow> bit w i \<and> (i \<in> field_bits f \<longrightarrow> bit v (i - fld_pos f))"
proof -
  from assms(2) show get: "field_get f w' = v"
    by (auto simp: field_set_def Let_def split: if_splits)
  show v: "v < 2 ^ fld_len f" using field_get_less [OF assms(1), of w'] get by simp
  have "(2 :: nat) ^ fld_len f \<le> 2 ^ 32" using assms(1) by (intro power_increasing) (auto simp: field_ok_def)
  with v have v32: "v < 2 ^ 32" by linarith
  let ?m = "push_bit (fld_pos f) (field_mask f)"
  from assms(2) have w': "w' = w AND (NOT ?m OR push_bit (fld_pos f) (of_nat v))"
    by (auto simp: field_set_def Let_def split: if_splits)
  have m: "bit ?m i \<longleftrightarrow> i \<in> field_bits f" if "i < 32" for i
    using assms(1) that by (auto simp: bit_simps field_mask_eq field_bits_def field_ok_def)
  have s: "bit (push_bit (fld_pos f) (of_nat v :: u32)) i \<longleftrightarrow> fld_pos f \<le> i \<and> bit v (i - fld_pos f)"
    if "i < 32" for i
    using that by (auto simp: bit_simps bit_of_nat_u32 [OF v32])
  have small: "i \<in> field_bits f" if "fld_pos f \<le> i" "bit v (i - fld_pos f)"
    using nat_bit_less [OF v that(2)] that(1) by (auto simp: field_bits_def)
  show "bit w' i \<longleftrightarrow> bit w i \<and> (i \<in> field_bits f \<longrightarrow> bit v (i - fld_pos f))"
  proof (cases "i < 32")
    case True
    then show ?thesis using small
      by (auto simp: w' bit_and_iff bit_or_iff bit_not_iff m s field_bits_def)
  next
    case False
    then show ?thesis using bit_u32_imp_less by blast
  qed
qed

lemma field_set_InrI:
  assumes "field_ok f" and "v < 2 ^ fld_len f" and "\<And>i. i \<in> field_bits f \<Longrightarrow> bit w i"
  obtains w' where "field_set f w v = Inr w'"
proof -
  have "(2 :: nat) ^ fld_len f \<le> 2 ^ 32" using assms(1) by (intro power_increasing) (auto simp: field_ok_def)
  with assms(2) have v32: "v < 2 ^ 32" by linarith
  let ?w = "w AND (NOT (push_bit (fld_pos f) (field_mask f)) OR push_bit (fld_pos f) (of_nat v))"
  have "field_get f ?w = v"
  proof (rule bit_eqI)
    fix n
    have "\<not> bit v n" if "fld_len f \<le> n"
      using nat_bit_less [OF assms(2)] that by (meson linorder_not_le)
    moreover have "bit w (fld_pos f + n)" if "n < fld_len f"
      using assms(3) that by (simp add: field_bits_def)
    ultimately show "bit (field_get f ?w) n = bit v n"
      using assms(1) linorder_not_le
      by (fastforce simp: bit_field_get bit_simps field_mask_eq bit_of_nat_u32 [OF v32] field_ok_def)
  qed
  then have "field_set f w v = Inr ?w"
    using mask_of_nat_iff [OF assms(1) v32] assms(2) by (simp add: field_set_def Let_def)
  then show thesis by (rule that)
qed

lemma field_set_other:
  assumes "field_ok f" and "field_ok g" and "field_set f w v = Inr w'" and "field_bits f \<inter> field_bits g = {}"
  shows "field_get g w' = field_get g w"
  using assms field_set_InrD(3) [OF assms(1,3)] by (intro field_get_cong) auto

lemma field_set_AND:
  assumes "field_ok f" and "field_set f w v = Inr w'"
  shows "w' AND w = w'"
  using field_set_InrD(3) [OF assms] by (intro bit_word_eqI) (auto simp: bit_and_iff)

section \<open>Checksums\<close>

definition zeros_outside :: "field \<Rightarrow> u32 \<Rightarrow> nat" where
  "zeros_outside f w = card {i. i < 32 \<and> i \<notin> field_bits f \<and> \<not> bit w i}"

lemma length_filter_upt: "length (filter P [0..<n]) = card {i. i < n \<and> P i}"
  using distinct_length_filter [of "[0..<n]" P] by (simp add: Collect_conj_eq Int_commute lessThan_def atLeast0LessThan)

lemma count_zeros_split:
  fixes w :: u32
  assumes "field_ok f"
  shows "count_zeros w = zeros_outside f w + card {i \<in> field_bits f. \<not> bit w i}"
proof -
  have "{i. i < 32 \<and> \<not> bit w i} = {i. i < 32 \<and> i \<notin> field_bits f \<and> \<not> bit w i} \<union> {i \<in> field_bits f. \<not> bit w i}"
    using assms by (auto simp: field_bits_def field_ok_def)
  moreover have "card (\<dots>) = zeros_outside f w + card {i \<in> field_bits f. \<not> bit w i}"
    unfolding zeros_outside_def by (rule card_Un_disjoint) (auto simp: field_bits_def)
  ultimately show ?thesis by (simp add: count_zeros_def length_filter_upt)
qed

lemma card_filter_split: "finite A \<Longrightarrow> card A = card {i \<in> A. P i} + card {i \<in> A. \<not> P i}"
  by (subst card_Un_disjoint [symmetric]) (auto intro: arg_cong [where f = card])

lemma count_ones_field:
  assumes "field_ok f"
  shows "fld_len f - count_ones (of_nat (field_get f w) :: u32) = card {i \<in> field_bits f. \<not> bit w i}"
proof -
  have "field_get f w < 2 ^ 32"
    using field_get_less [OF assms, of w] power_increasing [of "fld_len f" 32 "2 :: nat"] assms
    by (simp add: field_ok_def)
  then have "count_ones (of_nat (field_get f w) :: u32) = card {i. i < 32 \<and> bit (field_get f w) i}"
    by (simp add: count_ones_def length_filter_upt bit_of_nat_u32)
  also have "{i. i < 32 \<and> bit (field_get f w) i} = {i. i < fld_len f \<and> bit w (fld_pos f + i)}"
    using assms by (auto simp: bit_field_get field_ok_def)
  also have "card \<dots> = card ((+) (fld_pos f) ` {i. i < fld_len f \<and> bit w (fld_pos f + i)})"
    by (rule card_image [symmetric]) simp
  also have "(+) (fld_pos f) ` {i. i < fld_len f \<and> bit w (fld_pos f + i)} = {i \<in> field_bits f. bit w i}"
  proof (intro set_eqI iffI)
    fix x assume "x \<in> {i \<in> field_bits f. bit w i}"
    then have "x = fld_pos f + (x - fld_pos f)" "x - fld_pos f < fld_len f" "bit w x"
      by (auto simp: field_bits_def)
    then show "x \<in> (+) (fld_pos f) ` {i. i < fld_len f \<and> bit w (fld_pos f + i)}"
      by (intro image_eqI [of _ _ "x - fld_pos f"]) auto
  qed (auto simp: field_bits_def)
  finally have ones: "count_ones (of_nat (field_get f w) :: u32) = card {i \<in> field_bits f. bit w i}" .
  have "fld_len f = card {i \<in> field_bits f. bit w i} + card {i \<in> field_bits f. \<not> bit w i}"
    using card_filter_split [of "field_bits f" "bit w"] by (simp add: field_bits_def)
  with ones show ?thesis by simp
qed

lemma checksum_get_eq:
  assumes "field_ok f"
  shows "checksum_get f w =
    (if zeros_outside f w \<le> field_get f w then Inr (field_get f w - zeros_outside f w) else Inl InvalidStorage)"
  using assms by (simp add: checksum_get_def Let_def count_ones_field count_zeros_split)

lemma zeros_outside_cong:
  assumes "\<And>i. i \<notin> field_bits f \<Longrightarrow> bit w i = bit w' i"
  shows "zeros_outside f w = zeros_outside f w'"
  unfolding zeros_outside_def by (rule arg_cong [where f = card]) (use assms in auto)

lemma checksum_set_InrD:
  assumes "field_ok f" and "\<And>i. i \<in> field_bits f \<Longrightarrow> bit w i" and "checksum_set f w v = Inr w'"
  shows "checksum_get f w' = Inr v"
    and "i \<notin> field_bits f \<Longrightarrow> bit w' i = bit w i"
proof -
  have none: "{i \<in> field_bits f. \<not> bit w i} = {}" using assms(2) by auto
  have cz: "count_zeros w = zeros_outside f w" unfolding count_zeros_split [OF assms(1), of w] none by simp
  note set = field_set_InrD [OF assms(1) assms(3) [unfolded checksum_set_def]]
  from set(3) show "i \<notin> field_bits f \<Longrightarrow> bit w' i = bit w i" by simp
  have "zeros_outside f w' = zeros_outside f w" by (rule zeros_outside_cong) (simp add: set(3))
  with set(1) cz show "checksum_get f w' = Inr v" by (simp add: checksum_get_eq [OF assms(1)])
qed

lemma zeros_outside_le: "zeros_outside f w \<le> 32 - fld_len f" if "field_ok f"
proof -
  have "zeros_outside f w \<le> card ({..<32} - field_bits f)"
    unfolding zeros_outside_def by (rule card_mono) auto
  also have "\<dots> = 32 - fld_len f"
    using that by (subst card_Diff_subset) (auto simp: field_bits_def field_ok_def)
  finally show ?thesis .
qed

text \<open>
  A partial write leaves some bits at one that the complete write clears. Every such bit makes the
  difference between checksum and zeros larger.
\<close>

definition partial_of :: "u32 \<Rightarrow> u32 \<Rightarrow> bool" where
  "partial_of u w \<longleftrightarrow> u AND w = w"

lemma partial_of_bit: "partial_of u w \<Longrightarrow> bit w i \<Longrightarrow> bit u i"
  unfolding partial_of_def by (metis bit_and_iff)

lemma nat_and_le: "(a :: nat) AND b \<le> b"
  using AND_upper2 [of "int b" "int a"] by (simp flip: of_nat_and_eq)

lemma field_get_mono:
  assumes "field_ok f" and "partial_of u w"
  shows "field_get f w \<le> field_get f u"
proof -
  have "field_get f w AND field_get f u = field_get f w"
    using assms by (intro bit_eqI) (auto simp: bit_and_iff bit_field_get dest: partial_of_bit)
  then show ?thesis by (metis nat_and_le)
qed

lemma checksum_partial:
  assumes "field_ok f" and "partial_of u w" and "checksum_get f w = Inr v"
  shows "\<exists>d. checksum_get f u = Inr (v + d) \<and> (d = 0 \<longleftrightarrow> u = w)"
proof -
  have fin: "finite {i. i < 32 \<and> i \<notin> field_bits f \<and> \<not> bit w i}" by simp
  have sub: "{i. i < 32 \<and> i \<notin> field_bits f \<and> \<not> bit u i} \<subseteq> {i. i < 32 \<and> i \<notin> field_bits f \<and> \<not> bit w i}"
    using assms(2) by (auto dest: partial_of_bit)
  have zeros: "zeros_outside f u \<le> zeros_outside f w"
    unfolding zeros_outside_def by (rule card_mono [OF fin sub])
  note get = field_get_mono [OF assms(1,2)]
  from assms(3) have v: "zeros_outside f w \<le> field_get f w" "v = field_get f w - zeros_outside f w"
    by (auto simp: checksum_get_eq [OF assms(1)] split: if_splits)
  let ?d = "(field_get f u - field_get f w) + (zeros_outside f w - zeros_outside f u)"
  have "checksum_get f u = Inr (v + ?d)" using zeros get v by (simp add: checksum_get_eq [OF assms(1)])
  moreover have "?d = 0 \<longleftrightarrow> u = w"
  proof
    assume d: "?d = 0"
    with zeros have "zeros_outside f u = zeros_outside f w" by simp
    then have eq: "{i. i < 32 \<and> i \<notin> field_bits f \<and> \<not> bit u i} = {i. i < 32 \<and> i \<notin> field_bits f \<and> \<not> bit w i}"
      unfolding zeros_outside_def by (intro card_subset_eq [OF fin sub]) simp
    have "field_get f u = field_get f w" using d get by simp
    then have inside: "bit u i = bit w i" if "i \<in> field_bits f" for i
      using that bit_field_get [OF assms(1), of u "i - fld_pos f"] bit_field_get [OF assms(1), of w "i - fld_pos f"]
      by (auto simp: field_bits_def)
    have outside: "bit u i = bit w i" if "i \<notin> field_bits f" "i < 32" for i
      using eq that by blast
    show "u = w"
    proof (rule bit_word_eqI)
      fix n
      assume "n < LENGTH(32)"
      then have "n < 32" by simp
      then show "bit u n = bit w n" using inside outside by blast
    qed
  qed simp
  ultimately show ?thesis by (intro exI conjI)
qed

end
