(* ===== verification/Storage.thy ===== *)
theory Storage
  imports Bitfield Effects
begin

text \<open>
  The storage interface of the store (\<open>libraries/persistent_store/src/storage.rs\<close>): indices,
  errors, and the trait \<open>Storage\<close> as a record of operations over a state \<open>'s\<close>. An operation
  that changes the storage returns it with its result; \<open>Panic\<close> stands for a failed assertion or
  \<open>unwrap\<close>. The locale \<open>flash\<close> states what the store relies on.
\<close>

record storage_index =
  si_page :: nat
  si_byte :: nat

datatype storage_error = NotAligned | OutOfBounds | CustomError

record 's storage_ops =
  sto_word_size :: "'s \<Rightarrow> nat"
  sto_page_size :: "'s \<Rightarrow> nat"
  sto_num_pages :: "'s \<Rightarrow> nat"
  sto_max_word_writes :: "'s \<Rightarrow> nat"
  sto_max_page_erases :: "'s \<Rightarrow> nat"
  sto_read_slice :: "'s \<Rightarrow> storage_index \<Rightarrow> nat \<Rightarrow> (storage_error, bytes) outcome"
  sto_write_slice :: "'s \<Rightarrow> storage_index \<Rightarrow> bytes \<Rightarrow> (storage_error, unit) outcome \<times> 's"
  sto_erase_page :: "'s \<Rightarrow> nat \<Rightarrow> (storage_error, unit) outcome \<times> 's"

definition index_is_valid :: "storage_index \<Rightarrow> nat \<Rightarrow> nat \<Rightarrow> nat \<Rightarrow> bool" where
  "index_is_valid i len page_size num_pages \<longleftrightarrow>
     si_page i < num_pages \<and> len \<le> page_size \<and> si_byte i \<le> page_size - len"

text \<open>A range is its start and its length.\<close>

definition index_range :: "storage_index \<Rightarrow> nat \<Rightarrow> nat \<Rightarrow> nat \<Rightarrow> storage_error + nat" where
  "index_range i len page_size num_pages =
     (if index_is_valid i len page_size num_pages then Inr (si_page i * page_size + si_byte i)
      else Inl OutOfBounds)"

definition is_erased :: "bytes \<Rightarrow> bool" where
  "is_erased bs \<longleftrightarrow> (\<forall>x \<in> set bs. x = 0xff)"

section \<open>What the store relies on\<close>

text \<open>
  The content of a page is a list of bytes. Reading from an index in a page returns it (an empty slice at the end of
  the last page is an error for the embedded flash only); an aligned write inside a page
  that only clears bits, and an erasure of a page of the storage, either succeed and change
  exactly the bytes they name, or fail with an error of the implementation. Neither changes the
  dimensions of the storage.
\<close>

locale flash =
  fixes ops :: "'s storage_ops"
    and inv :: "'s \<Rightarrow> bool"
    and content :: "'s \<Rightarrow> nat \<Rightarrow> bytes"
    and word_size page_size num_pages :: nat
  assumes dims: "inv s \<Longrightarrow> sto_word_size ops s = word_size \<and> sto_page_size ops s = page_size \<and> sto_num_pages ops s = num_pages"
    and content_length: "inv s \<Longrightarrow> p < num_pages \<Longrightarrow> length (content s p) = page_size"
    and read_slice: "inv s \<Longrightarrow> index_is_valid i len page_size num_pages \<Longrightarrow> si_byte i < page_size \<Longrightarrow>
      sto_read_slice ops s i len = Ok (take len (drop (si_byte i) (content s (si_page i))))"
    and write_slice: "inv s \<Longrightarrow> index_is_valid i (length v) page_size num_pages \<Longrightarrow> si_byte i < page_size \<Longrightarrow>
      word_size dvd si_byte i \<Longrightarrow> word_size dvd length v \<Longrightarrow>
      list_all2 (\<lambda>old new. old AND new = new) (take (length v) (drop (si_byte i) (content s (si_page i)))) v \<Longrightarrow>
      sto_write_slice ops s i v = (r, s') \<Longrightarrow>
      r = Ok () \<Longrightarrow> inv s' \<and> content s' = (content s)(si_page i :=
        take (si_byte i) (content s (si_page i)) @ v @ drop (si_byte i + length v) (content s (si_page i)))"
    and erase_page: "inv s \<Longrightarrow> p < num_pages \<Longrightarrow> sto_erase_page ops s p = (r, s') \<Longrightarrow>
      r = Ok () \<Longrightarrow> inv s' \<and> content s' = (content s)(p := replicate page_size 0xff)"

end
