(* ===== verification/Store_Format.thy ===== *)
theory Store_Format
  imports Storage
begin

text \<open>
  The layout of the store in flash (\<open>libraries/persistent_store/src/format.rs\<close>): the constants and
  bit fields, the helpers of a storage configuration, the encoding and decoding of the words that
  carry meta data, positions in the virtual storage, and the validity and the capacity of a
  transaction. \<open>Nat\<close> and \<open>Position\<close> are \<open>u32\<close> in the sources, documented to be used without
  overflow; they are \<open>nat\<close> here, and \<open>no_overflow\<close> below shows that the values do fit.
\<close>

named_theorems format_consts \<open>constants and bit fields of the format\<close>

definition div_ceil :: "nat \<Rightarrow> nat \<Rightarrow> nat" where
  "div_ceil x m = (x + m - 1) div m"

definition WORD_SIZE :: nat where [format_consts]: "WORD_SIZE = 4"
definition MIN_NUM_WORDS_PER_PAGE :: nat where [format_consts]: "MIN_NUM_WORDS_PER_PAGE = 8"
definition MAX_PAGE_SIZE :: nat where [format_consts]: "MAX_PAGE_SIZE = 4096"
definition MAX_ERASE_CYCLE :: nat where [format_consts]: "MAX_ERASE_CYCLE = 65535"
definition MIN_NUM_PAGES :: nat where [format_consts]: "MIN_NUM_PAGES = 3"
definition MAX_PAGE_INDEX :: nat where [format_consts]: "MAX_PAGE_INDEX = 63"
definition MAX_KEY_INDEX :: nat where [format_consts]: "MAX_KEY_INDEX = 4095"
definition MAX_VALUE_LEN :: nat where [format_consts]: "MAX_VALUE_LEN = 1023"
definition MAX_UPDATES :: nat where [format_consts]: "MAX_UPDATES = 31"
definition INIT_WORD :: nat where [format_consts]: "INIT_WORD = 0"
definition COMPACT_WORD :: nat where [format_consts]: "COMPACT_WORD = 1"
definition CONTENT_WORD :: nat where [format_consts]: "CONTENT_WORD = 2"
definition MAX_VIRT_PAGE_SIZE :: nat where [format_consts]:
  "MAX_VIRT_PAGE_SIZE = div_ceil MAX_PAGE_SIZE WORD_SIZE - CONTENT_WORD"
definition ERASED_WORD :: u32 where "ERASED_WORD = NOT 0"

text \<open>\<open>Word::from_slice\<close> and \<open>Word::as_slice\<close>: little-endian bytes.\<close>

definition word_from_slice :: "bytes \<Rightarrow> u32" where
  "word_from_slice bs = of_nat (be_val (rev bs))"

definition word_as_slice :: "u32 \<Rightarrow> bytes" where
  "word_as_slice w = rev (be_enc 4 (unat w))"

section \<open>Bit fields\<close>

text \<open>
  The macro \<open>bitfield!\<close> lays its fields out from bit 0 upwards; the bits of a constant field are
  written with the lowest first.
\<close>

definition after :: "field \<Rightarrow> nat \<Rightarrow> field" where
  "after f n = \<lparr>fld_pos = fld_pos f + fld_len f, fld_len = n\<rparr>"

definition const_bits :: "nat list \<Rightarrow> const_field" where
  "const_bits bs = \<lparr>cf_field = \<lparr>fld_pos = 0, fld_len = length bs\<rparr>, cf_value = foldr (\<lambda>b v. v * 2 + b) bs 0\<rparr>"

definition WORD_CHECKSUM :: field where "WORD_CHECKSUM = \<lparr>fld_pos = 27, fld_len = 5\<rparr>"

definition INIT_CYCLE :: field where "INIT_CYCLE = \<lparr>fld_pos = 0, fld_len = num_bits MAX_ERASE_CYCLE\<rparr>"
definition INIT_PREFIX :: field where "INIT_PREFIX = after INIT_CYCLE (num_bits (div_ceil MAX_VALUE_LEN WORD_SIZE))"

definition COMPACT_TAIL :: field where
  "COMPACT_TAIL = \<lparr>fld_pos = 0, fld_len = num_bits (MAX_VIRT_PAGE_SIZE * MAX_PAGE_INDEX)\<rparr>"

definition ID_PADDING :: const_field where "ID_PADDING = const_bits [0]"

definition ID_HEADER :: const_field where "ID_HEADER = const_bits [1, 0]"
definition HEADER_DELETED :: nat where "HEADER_DELETED = fld_pos (after (cf_field ID_HEADER) 1)"
definition HEADER_FLIPPED :: nat where "HEADER_FLIPPED = HEADER_DELETED + 1"
definition HEADER_LENGTH :: field where
  "HEADER_LENGTH = \<lparr>fld_pos = HEADER_FLIPPED + 1, fld_len = num_bits MAX_VALUE_LEN\<rparr>"
definition HEADER_KEY :: field where "HEADER_KEY = after HEADER_LENGTH (num_bits MAX_KEY_INDEX)"
definition HEADER_CHECKSUM :: field where "HEADER_CHECKSUM = after HEADER_KEY (num_bits 58)"

definition ID_ERASE :: const_field where "ID_ERASE = const_bits [1, 1, 0, 0, 0]"
definition ERASE_PAGE :: field where "ERASE_PAGE = after (cf_field ID_ERASE) (num_bits MAX_PAGE_INDEX)"
definition ID_CLEAR :: const_field where "ID_CLEAR = const_bits [1, 1, 0, 0, 1]"
definition CLEAR_MIN_KEY :: field where "CLEAR_MIN_KEY = after (cf_field ID_CLEAR) (num_bits MAX_KEY_INDEX)"
definition ID_MARKER :: const_field where "ID_MARKER = const_bits [1, 1, 0, 1, 0]"
definition MARKER_COUNT :: field where "MARKER_COUNT = after (cf_field ID_MARKER) (num_bits MAX_UPDATES)"
definition ID_REMOVE :: const_field where "ID_REMOVE = const_bits [1, 1, 0, 1, 1]"
definition REMOVE_KEY :: field where "REMOVE_KEY = after (cf_field ID_REMOVE) (num_bits MAX_KEY_INDEX)"

lemma field_layout [simp]:
  "INIT_CYCLE = \<lparr>fld_pos = 0, fld_len = 16\<rparr>"
  "INIT_PREFIX = \<lparr>fld_pos = 16, fld_len = 9\<rparr>"
  "COMPACT_TAIL = \<lparr>fld_pos = 0, fld_len = 16\<rparr>"
  "HEADER_DELETED = 2"
  "HEADER_FLIPPED = 3"
  "HEADER_LENGTH = \<lparr>fld_pos = 4, fld_len = 10\<rparr>"
  "HEADER_KEY = \<lparr>fld_pos = 14, fld_len = 12\<rparr>"
  "HEADER_CHECKSUM = \<lparr>fld_pos = 26, fld_len = 6\<rparr>"
  "ERASE_PAGE = \<lparr>fld_pos = 5, fld_len = 6\<rparr>"
  "CLEAR_MIN_KEY = \<lparr>fld_pos = 5, fld_len = 12\<rparr>"
  "MARKER_COUNT = \<lparr>fld_pos = 5, fld_len = 5\<rparr>"
  "REMOVE_KEY = \<lparr>fld_pos = 5, fld_len = 12\<rparr>"
  by (simp_all add: INIT_CYCLE_def INIT_PREFIX_def COMPACT_TAIL_def HEADER_DELETED_def HEADER_FLIPPED_def
      HEADER_LENGTH_def HEADER_KEY_def HEADER_CHECKSUM_def ERASE_PAGE_def CLEAR_MIN_KEY_def MARKER_COUNT_def
      REMOVE_KEY_def ID_HEADER_def ID_ERASE_def ID_CLEAR_def ID_MARKER_def ID_REMOVE_def after_def
      const_bits_def div_ceil_def num_bits.simps format_consts)

lemma id_layout [simp]:
  "ID_PADDING = \<lparr>cf_field = \<lparr>fld_pos = 0, fld_len = 1\<rparr>, cf_value = 0\<rparr>"
  "ID_HEADER = \<lparr>cf_field = \<lparr>fld_pos = 0, fld_len = 2\<rparr>, cf_value = 1\<rparr>"
  "ID_ERASE = \<lparr>cf_field = \<lparr>fld_pos = 0, fld_len = 5\<rparr>, cf_value = 3\<rparr>"
  "ID_CLEAR = \<lparr>cf_field = \<lparr>fld_pos = 0, fld_len = 5\<rparr>, cf_value = 19\<rparr>"
  "ID_MARKER = \<lparr>cf_field = \<lparr>fld_pos = 0, fld_len = 5\<rparr>, cf_value = 11\<rparr>"
  "ID_REMOVE = \<lparr>cf_field = \<lparr>fld_pos = 0, fld_len = 5\<rparr>, cf_value = 27\<rparr>"
  by (simp_all add: ID_PADDING_def ID_HEADER_def ID_ERASE_def ID_CLEAR_def ID_MARKER_def ID_REMOVE_def const_bits_def)

section \<open>Storage configurations\<close>

record format =
  fmt_page_size :: nat
  fmt_num_pages :: nat
  fmt_max_page_erases :: nat

definition is_storage_supported :: "'s storage_ops \<Rightarrow> 's \<Rightarrow> bool" where
  "is_storage_supported ops s \<longleftrightarrow>
     (let word_size = sto_word_size ops s; page_size = sto_page_size ops s; num_pages = sto_num_pages ops s in
      word_size = WORD_SIZE
      \<and> page_size mod word_size = 0
      \<and> (MIN_NUM_WORDS_PER_PAGE * word_size \<le> page_size \<and> page_size \<le> MAX_PAGE_SIZE)
      \<and> (MIN_NUM_PAGES \<le> num_pages \<and> num_pages \<le> MAX_PAGE_INDEX + 1)
      \<and> sto_max_word_writes ops s \<ge> 2
      \<and> sto_max_page_erases ops s \<le> MAX_ERASE_CYCLE)"

definition format_new :: "'s storage_ops \<Rightarrow> 's \<Rightarrow> format option" where
  "format_new ops s =
     (if is_storage_supported ops s
      then Some \<lparr>fmt_page_size = sto_page_size ops s, fmt_num_pages = sto_num_pages ops s,
                 fmt_max_page_erases = sto_max_page_erases ops s\<rparr>
      else None)"

definition fmt_word_size :: "format \<Rightarrow> nat" where "fmt_word_size fmt = WORD_SIZE"
definition max_page :: "format \<Rightarrow> nat" where "max_page fmt = fmt_num_pages fmt - 1"
definition max_key :: "format \<Rightarrow> nat" where "max_key fmt = MAX_KEY_INDEX"
definition max_updates :: "format \<Rightarrow> nat" where "max_updates fmt = MAX_UPDATES"

definition virt_page_size :: "format \<Rightarrow> nat" where
  "virt_page_size fmt = fmt_page_size fmt div fmt_word_size fmt - CONTENT_WORD"

definition max_value_len :: "format \<Rightarrow> nat" where
  "max_value_len fmt = min ((virt_page_size fmt - 1) * fmt_word_size fmt) MAX_VALUE_LEN"

definition bytes_to_words :: "format \<Rightarrow> nat \<Rightarrow> nat" where
  "bytes_to_words fmt n = div_ceil n (fmt_word_size fmt)"

definition max_prefix_len :: "format \<Rightarrow> nat" where
  "max_prefix_len fmt = bytes_to_words fmt (max_value_len fmt)"

definition virt_size :: "format \<Rightarrow> nat" where
  "virt_size fmt = (fmt_num_pages fmt - 1) * (virt_page_size fmt - 1) - max_prefix_len fmt"

definition total_capacity :: "format \<Rightarrow> nat" where
  "total_capacity fmt = virt_size fmt - fmt_num_pages fmt"

section \<open>Positions\<close>

type_synonym position = nat

definition position_new :: "format \<Rightarrow> nat \<Rightarrow> nat \<Rightarrow> nat \<Rightarrow> position" where
  "position_new fmt cycle page w = (cycle * fmt_num_pages fmt + page) * virt_page_size fmt + w"

definition pos_page_begin :: "format \<Rightarrow> position \<Rightarrow> position" where
  "pos_page_begin fmt p = (p div virt_page_size fmt) * virt_page_size fmt"

definition pos_next_page :: "format \<Rightarrow> position \<Rightarrow> position" where
  "pos_next_page fmt p = (p div virt_page_size fmt + 1) * virt_page_size fmt"

definition pos_cycle :: "format \<Rightarrow> position \<Rightarrow> nat" where
  "pos_cycle fmt p = (p div virt_page_size fmt) div fmt_num_pages fmt"

definition pos_page :: "format \<Rightarrow> position \<Rightarrow> nat" where
  "pos_page fmt p = (p div virt_page_size fmt) mod fmt_num_pages fmt"

definition pos_word :: "format \<Rightarrow> position \<Rightarrow> nat" where
  "pos_word fmt p = p mod virt_page_size fmt"

definition pos_index :: "format \<Rightarrow> position \<Rightarrow> storage_index" where
  "pos_index fmt p =
     (let page = pos_page fmt p; w = CONTENT_WORD + pos_word fmt p; byte = w * fmt_word_size fmt
      in \<lparr>si_page = page, si_byte = byte\<rparr>)"

definition total_lifetime :: "format \<Rightarrow> position" where
  "total_lifetime fmt = position_new fmt (fmt_max_page_erases fmt) (fmt_num_pages fmt - 1) 0"

section \<open>Words with meta data\<close>

datatype 'a word_state = Erased | Partial | Valid 'a

record init_info =
  init_cycle :: nat
  init_prefix :: nat

record compact_info =
  compact_tail :: nat

record header =
  hdr_flipped :: bool
  hdr_length :: nat
  hdr_key :: nat
  hdr_checksum :: nat

datatype internal_entry =
    EraseEntry nat
  | ClearEntry nat
  | MarkerEntry nat
  | RemoveEntry nat

datatype parsed_word =
    PaddingWord nat
  | HeaderWord header
  | InternalWord internal_entry

definition header_check :: "header \<Rightarrow> bytes option \<Rightarrow> bool" where
  "header_check h footer \<longleftrightarrow>
     (case footer of None \<Rightarrow> 0 | Some bs \<Rightarrow> slice_count_zeros bs) = hdr_checksum h"

definition page_head :: "format \<Rightarrow> init_info \<Rightarrow> nat \<Rightarrow> position" where
  "page_head fmt init page = position_new fmt (init_cycle init) page (init_prefix init)"

definition index_init :: "format \<Rightarrow> nat \<Rightarrow> storage_index" where
  "index_init fmt page = \<lparr>si_page = page, si_byte = INIT_WORD * fmt_word_size fmt\<rparr>"

definition parse_init :: "format \<Rightarrow> u32 \<Rightarrow> store_error + init_info word_state" where
  "parse_init fmt w =
     (if w = ERASED_WORD then Inr Erased
      else rbind (checksum_get WORD_CHECKSUM w) (\<lambda>c.
        if c \<noteq> 0 then Inr Partial
        else
          (let cycle = field_get INIT_CYCLE w; prefix = field_get INIT_PREFIX w in
           if cycle > fmt_max_page_erases fmt \<or> prefix > max_prefix_len fmt then Inl InvalidStorage
           else Inr (Valid \<lparr>init_cycle = cycle, init_prefix = prefix\<rparr>))))"

definition build_init :: "format \<Rightarrow> init_info \<Rightarrow> store_error + bytes" where
  "build_init fmt init =
     rbind (field_set INIT_CYCLE ERASED_WORD (init_cycle init)) (\<lambda>w.
     rbind (field_set INIT_PREFIX w (init_prefix init)) (\<lambda>w.
     rbind (checksum_set WORD_CHECKSUM w 0) (\<lambda>w. Inr (word_as_slice w))))"

definition index_compact :: "format \<Rightarrow> nat \<Rightarrow> storage_index" where
  "index_compact fmt page = \<lparr>si_page = page, si_byte = COMPACT_WORD * fmt_word_size fmt\<rparr>"

definition parse_compact :: "format \<Rightarrow> u32 \<Rightarrow> store_error + compact_info word_state" where
  "parse_compact fmt w =
     (if w = ERASED_WORD then Inr Erased
      else rbind (checksum_get WORD_CHECKSUM w) (\<lambda>c.
        if c \<noteq> 0 then Inr Partial
        else
          (let tail = field_get COMPACT_TAIL w in
           if tail > virt_size fmt + max_prefix_len fmt then Inl InvalidStorage
           else Inr (Valid \<lparr>compact_tail = tail\<rparr>))))"

definition build_compact :: "format \<Rightarrow> compact_info \<Rightarrow> store_error + bytes" where
  "build_compact fmt compact =
     rbind (field_set COMPACT_TAIL ERASED_WORD (compact_tail compact)) (\<lambda>w.
     rbind (checksum_set WORD_CHECKSUM w 0) (\<lambda>w. Inr (word_as_slice w)))"

fun internal_fields :: "internal_entry \<Rightarrow> const_field \<times> field \<times> nat" where
  "internal_fields (EraseEntry page) = (ID_ERASE, ERASE_PAGE, page)"
| "internal_fields (ClearEntry min_key) = (ID_CLEAR, CLEAR_MIN_KEY, min_key)"
| "internal_fields (MarkerEntry count) = (ID_MARKER, MARKER_COUNT, count)"
| "internal_fields (RemoveEntry key) = (ID_REMOVE, REMOVE_KEY, key)"

definition build_internal :: "format \<Rightarrow> internal_entry \<Rightarrow> store_error + bytes" where
  "build_internal fmt internal =
     (case internal_fields internal of (ident, f, value) \<Rightarrow>
        rbind (const_set ident ERASED_WORD) (\<lambda>w.
        rbind (field_set f w value) (\<lambda>w.
        rbind (checksum_set WORD_CHECKSUM w 0) (\<lambda>w. Inr (word_as_slice w)))))"

fun internal_invalid :: "format \<Rightarrow> internal_entry \<Rightarrow> bool" where
  "internal_invalid fmt (EraseEntry page) \<longleftrightarrow> page > max_page fmt"
| "internal_invalid fmt (ClearEntry min_key) \<longleftrightarrow> min_key > max_key fmt"
| "internal_invalid fmt (MarkerEntry count) \<longleftrightarrow> count > MAX_UPDATES"
| "internal_invalid fmt (RemoveEntry key) \<longleftrightarrow> key > max_key fmt"

definition parse_internal :: "format \<Rightarrow> u32 \<Rightarrow> internal_entry \<Rightarrow> store_error + parsed_word word_state" where
  "parse_internal fmt w internal =
     rbind (checksum_get WORD_CHECKSUM w) (\<lambda>c.
       if c \<noteq> 0 then Inr Partial
       else if internal_invalid fmt internal then Inl InvalidStorage
       else Inr (Valid (InternalWord internal)))"

definition parse_word :: "format \<Rightarrow> u32 \<Rightarrow> store_error + parsed_word word_state" where
  "parse_word fmt w =
     (if const_check ID_PADDING w then Inr (Valid (PaddingWord 0))
      else if const_check ID_HEADER w then
        (if bit_get HEADER_DELETED w then
           (let len = field_get HEADER_LENGTH w in
            if len > max_value_len fmt then Inl InvalidStorage
            else Inr (Valid (PaddingWord (bytes_to_words fmt len))))
         else
           rbind (checksum_get HEADER_CHECKSUM w) (\<lambda>checksum.
             Inr (Valid (HeaderWord \<lparr>hdr_flipped = bit_get HEADER_FLIPPED w, hdr_length = field_get HEADER_LENGTH w,
               hdr_key = field_get HEADER_KEY w, hdr_checksum = checksum\<rparr>))))
      else if const_check ID_ERASE w then parse_internal fmt w (EraseEntry (field_get ERASE_PAGE w))
      else if const_check ID_CLEAR w then parse_internal fmt w (ClearEntry (field_get CLEAR_MIN_KEY w))
      else if const_check ID_MARKER w then parse_internal fmt w (MarkerEntry (field_get MARKER_COUNT w))
      else if const_check ID_REMOVE w then parse_internal fmt w (RemoveEntry (field_get REMOVE_KEY w))
      else if w = ERASED_WORD then Inr Erased
      else Inr Partial)"

definition build_user :: "format \<Rightarrow> nat \<Rightarrow> bytes \<Rightarrow> store_error + bytes" where
  "build_user fmt key value =
     (let len = length value;
          word_size = fmt_word_size fmt;
          footer = bytes_to_words fmt len;
          result = replicate word_size 0xff @ value @ replicate (footer * word_size - len) 0xff;
          flipped = footer > 0 \<and> is_erased (drop (footer * word_size) result);
          result = (if flipped then result[length result - 1 := 0x7f] else result)
      in
      rbind (const_set ID_HEADER ERASED_WORD) (\<lambda>w.
        (let w = (if flipped then bit_set HEADER_FLIPPED w else w) in
         rbind (field_set HEADER_LENGTH w len) (\<lambda>w.
         rbind (field_set HEADER_KEY w key) (\<lambda>w.
         rbind (checksum_set HEADER_CHECKSUM w (slice_count_zeros (drop (footer * word_size) result))) (\<lambda>w.
           Inr (word_as_slice w @ drop word_size result)))))))"

definition fmt_set_padding :: "format \<Rightarrow> u32 \<Rightarrow> store_error + u32" where
  "fmt_set_padding fmt w = const_set ID_PADDING w"

definition fmt_set_deleted :: "format \<Rightarrow> u32 \<Rightarrow> u32" where
  "fmt_set_deleted fmt w = bit_set HEADER_DELETED w"

section \<open>Transactions\<close>

datatype store_update =
    Insert nat bytes
  | Remove nat

fun update_key :: "store_update \<Rightarrow> nat" where
  "update_key (Insert key value) = key"
| "update_key (Remove key) = key"

fun update_value :: "store_update \<Rightarrow> bytes option" where
  "update_value (Insert key value) = Some value"
| "update_value (Remove key) = None"

definition entry_size :: "format \<Rightarrow> bytes \<Rightarrow> nat" where
  "entry_size fmt value = 1 + bytes_to_words fmt (length value)"

fun update_capacity :: "format \<Rightarrow> store_update \<Rightarrow> nat" where
  "update_capacity fmt (Insert key value) = entry_size fmt value"
| "update_capacity fmt (Remove key) = 1"

fun transaction_capacity :: "format \<Rightarrow> store_update list \<Rightarrow> nat" where
  "transaction_capacity fmt [] = 0"
| "transaction_capacity fmt [Insert key value] = entry_size fmt value"
| "transaction_capacity fmt [Remove key] = 0"
| "transaction_capacity fmt updates = 1 + sum_list (map (update_capacity fmt) updates)"

text \<open>\<open>binary_search\<close> on a sorted slice: the position of the key, or where it would go.\<close>

definition binary_search :: "nat list \<Rightarrow> nat \<Rightarrow> nat + nat" where
  "binary_search ks k =
     (let i = length (takeWhile (\<lambda>x. x < k) ks) in if i < length ks \<and> ks ! i = k then Inr i else Inl i)"

definition insert_at :: "nat \<Rightarrow> 'a \<Rightarrow> 'a list \<Rightarrow> 'a list" where
  "insert_at i x xs = take i xs @ x # drop i xs"

fun sorted_keys_loop :: "format \<Rightarrow> store_update list \<Rightarrow> nat list \<Rightarrow> nat list option" where
  "sorted_keys_loop fmt [] sorted_keys = Some sorted_keys"
| "sorted_keys_loop fmt (update # updates) sorted_keys =
     (let key = update_key update in
      if key > max_key fmt then None
      else if (case update_value update of Some value \<Rightarrow> length value > max_value_len fmt | None \<Rightarrow> False) then None
      else (case binary_search sorted_keys key of
              Inr _ \<Rightarrow> None
            | Inl i \<Rightarrow> sorted_keys_loop fmt updates (insert_at i key sorted_keys)))"

definition transaction_valid :: "format \<Rightarrow> store_update list \<Rightarrow> nat list option" where
  "transaction_valid fmt updates =
     (if length updates > max_updates fmt then None else sorted_keys_loop fmt updates [])"

end
