(* ===== verification/Store_Format_Properties.thy ===== *)
theory Store_Format_Properties
  imports Store_Format
begin

text \<open>
  Properties of the format: bounds of the derived sizes and absence of overflow, coordinates of
  positions, round trips of the words with meta data and of user entries, detection of partial
  writes, and validity of transactions.
\<close>

section \<open>Supported configurations\<close>

definition fmt_ok :: "format \<Rightarrow> bool" where
  "fmt_ok fmt \<longleftrightarrow> fmt_page_size fmt mod 4 = 0 \<and> 32 \<le> fmt_page_size fmt \<and> fmt_page_size fmt \<le> 4096
     \<and> 3 \<le> fmt_num_pages fmt \<and> fmt_num_pages fmt \<le> 64 \<and> fmt_max_page_erases fmt \<le> 65535"

lemma format_new_ok: "format_new ops s = Some fmt \<Longrightarrow> fmt_ok fmt"
  by (auto simp: format_new_def is_storage_supported_def fmt_ok_def Let_def format_consts split: if_splits)

lemma virt_page_size_bounds:
  assumes "fmt_ok fmt"
  shows "6 \<le> virt_page_size fmt" and "virt_page_size fmt \<le> 1022"
    and "fmt_page_size fmt = (virt_page_size fmt + 2) * 4"
  using assms by (auto simp: virt_page_size_def fmt_word_size_def fmt_ok_def format_consts)

lemma max_prefix_len_bounds:
  assumes "fmt_ok fmt"
  shows "5 \<le> max_prefix_len fmt" and "max_prefix_len fmt < virt_page_size fmt" and "max_prefix_len fmt \<le> 256"
    and "20 \<le> max_value_len fmt" and "max_value_len fmt \<le> 1023"
  using virt_page_size_bounds [OF assms]
  by (auto simp: max_prefix_len_def bytes_to_words_def div_ceil_def max_value_len_def fmt_word_size_def format_consts)

lemma virt_size_bounds:
  assumes "fmt_ok fmt"
  shows "(fmt_num_pages fmt - 2) * (virt_page_size fmt - 1) \<le> virt_size fmt"
    and "virt_size fmt + max_prefix_len fmt = (fmt_num_pages fmt - 1) * (virt_page_size fmt - 1)"
    and "virt_size fmt + max_prefix_len fmt \<le> 63 * 1021"
proof -
  let ?N = "fmt_num_pages fmt" and ?Q = "virt_page_size fmt" and ?M = "max_prefix_len fmt"
  note Q = virt_page_size_bounds(1,2) [OF assms] and M = max_prefix_len_bounds(2) [OF assms]
  have N: "3 \<le> ?N" "?N \<le> 64" using assms by (auto simp: fmt_ok_def)
  have split: "(?N - 1) * (?Q - 1) = (?N - 2) * (?Q - 1) + (?Q - 1)"
    using N by (simp add: diff_mult_distrib)
  show "(?N - 2) * (?Q - 1) \<le> virt_size fmt" unfolding virt_size_def split using M by linarith
  show eq: "virt_size fmt + ?M = (?N - 1) * (?Q - 1)" unfolding virt_size_def split using M by linarith
  have "(?N - 1) * (?Q - 1) \<le> 63 * 1021" using N Q by (intro mult_le_mono) auto
  with eq show "virt_size fmt + ?M \<le> 63 * 1021" by simp
qed

text \<open>
  In every supported storage configuration the derived sizes satisfy the bounds their
  documentation gives, no subtraction in them underflows, and the positions reachable within the
  lifetime of the storage, with a window of the virtual size and two pages beyond it, fit in 32
  bits.
\<close>

theorem format_bounds:
  assumes "format_new ops s = Some fmt"
  shows "6 \<le> virt_page_size fmt \<and> virt_page_size fmt \<le> MAX_VIRT_PAGE_SIZE
    \<and> 20 \<le> max_value_len fmt \<and> max_value_len fmt \<le> MAX_VALUE_LEN
    \<and> 5 \<le> max_prefix_len fmt \<and> max_prefix_len fmt < virt_page_size fmt
    \<and> virt_size fmt + max_prefix_len fmt = (fmt_num_pages fmt - 1) * (virt_page_size fmt - 1)
    \<and> (fmt_num_pages fmt - 2) * (virt_page_size fmt - 1) \<le> virt_size fmt
    \<and> total_capacity fmt + fmt_num_pages fmt = virt_size fmt
    \<and> (fmt_num_pages fmt - 2) * (virt_page_size fmt - 2) - 2 \<le> total_capacity fmt
    \<and> total_lifetime fmt + virt_size fmt + 2 * virt_page_size fmt < 2 ^ 32"
proof -
  have ok: "fmt_ok fmt" using assms by (rule format_new_ok)
  let ?N = "fmt_num_pages fmt" and ?Q = "virt_page_size fmt" and ?E = "fmt_max_page_erases fmt"
  note Q = virt_page_size_bounds [OF ok] and M = max_prefix_len_bounds [OF ok] and V = virt_size_bounds [OF ok]
  have N: "3 \<le> ?N" "?N \<le> 64" "?E \<le> 65535" using ok by (auto simp: fmt_ok_def)
  define n q where "n = ?N - 2" and "q = ?Q - 2"
  then have n: "?N = n + 2" and q: "?Q = q + 2" using N(1) Q(1) by auto
  have nq: "1 \<le> n" "4 \<le> q" using N Q n q by auto
  have prod: "n * (q + 1) = n * q + n" by simp
  have "4 * n \<le> n * q" using nq by (simp add: mult.commute)
  moreover have "n * q + n \<le> virt_size fmt" using V(1) n q prod by simp
  ultimately have room: "?N \<le> virt_size fmt" using n nq by linarith
  have cap: "total_capacity fmt + ?N = virt_size fmt" using room by (simp add: total_capacity_def)
  moreover have "(?N - 2) * (?Q - 2) - 2 \<le> total_capacity fmt"
    using V(1) cap n q prod by simp
  moreover have "total_lifetime fmt \<le> (65535 * 64 + 63) * 1022"
  proof -
    have "?E * ?N + (?N - 1) \<le> 65535 * 64 + 63" using N by (intro add_mono mult_mono) auto
    then have "(?E * ?N + (?N - 1)) * ?Q \<le> (65535 * 64 + 63) * 1022" using Q(2) by (rule mult_mono) auto
    then show ?thesis by (simp add: total_lifetime_def position_new_def)
  qed
  ultimately show ?thesis
    using Q M V by (simp add: format_consts div_ceil_def)
qed

text \<open>A storage that only has the dimensions of the nRF52840 boards, for the witnesses.\<close>

definition nrf52840_ops :: "unit storage_ops" where
  "nrf52840_ops = \<lparr>sto_word_size = (\<lambda>_. 4), sto_page_size = (\<lambda>_. 4096), sto_num_pages = (\<lambda>_. 20),
     sto_max_word_writes = (\<lambda>_. 2), sto_max_page_erases = (\<lambda>_. 10000),
     sto_read_slice = (\<lambda>_ _ _. Err CustomError), sto_write_slice = (\<lambda>_ _ _. (Err CustomError, ())),
     sto_erase_page = (\<lambda>_ _. (Err CustomError, ()))\<rparr>"

definition nrf52840_format :: format where
  "nrf52840_format = \<lparr>fmt_page_size = 4096, fmt_num_pages = 20, fmt_max_page_erases = 10000\<rparr>"

lemma nrf52840_format_new: "format_new nrf52840_ops () = Some nrf52840_format"
  by (simp add: format_new_def is_storage_supported_def nrf52840_ops_def nrf52840_format_def format_consts)

theorem format_bounds_witness:
  "format_new nrf52840_ops () = Some nrf52840_format
   \<and> total_lifetime nrf52840_format + virt_size nrf52840_format + 2 * virt_page_size nrf52840_format < 2 ^ 32"
  using format_bounds [OF nrf52840_format_new] nrf52840_format_new by blast

section \<open>Positions\<close>

lemma fmt_pos:
  assumes "fmt_ok fmt"
  shows "0 < fmt_num_pages fmt" and "0 < virt_page_size fmt"
  using assms virt_page_size_bounds(1) [OF assms] by (auto simp: fmt_ok_def)

text \<open>
  Positions and coordinates determine each other: the cycle, page and word of a position are
  the ones it was made of, a position is made of its cycle, page and word, positions are ordered as
  their coordinates are, and the bytes of the word at a position lie in the content part of its
  page.
\<close>

theorem position_coordinates:
  assumes "fmt_ok fmt" and "page < fmt_num_pages fmt" and "w < virt_page_size fmt"
  shows "pos_cycle fmt (position_new fmt cycle page w) = cycle
    \<and> pos_page fmt (position_new fmt cycle page w) = page
    \<and> pos_word fmt (position_new fmt cycle page w) = w
    \<and> position_new fmt (pos_cycle fmt p) (pos_page fmt p) (pos_word fmt p) = p
    \<and> (pos_page_begin fmt p \<le> p \<and> p < pos_next_page fmt p
       \<and> pos_next_page fmt p = pos_page_begin fmt p + virt_page_size fmt)
    \<and> 8 \<le> si_byte (pos_index fmt p) \<and> si_byte (pos_index fmt p) + 4 \<le> fmt_page_size fmt
    \<and> si_page (pos_index fmt p) < fmt_num_pages fmt"
proof -
  let ?Q = "virt_page_size fmt" and ?N = "fmt_num_pages fmt"
  have Q: "0 < ?Q" and N: "0 < ?N" using fmt_pos [OF assms(1)] by auto
  have d: "position_new fmt cycle page w div ?Q = cycle * ?N + page"
    using assms(3) by (simp add: position_new_def)
  have "p mod ?Q < ?Q" using Q by simp
  then have "4 + p mod ?Q * 4 \<le> ?Q * 4" by linarith
  moreover have "pos_page_begin fmt p \<le> p" by (simp add: pos_page_begin_def)
  moreover have "p < pos_next_page fmt p"
    using Q by (metis add.commute dividend_less_times_div mult.commute mult_Suc pos_next_page_def plus_1_eq_Suc)
  moreover have "position_new fmt (pos_cycle fmt p) (pos_page fmt p) (pos_word fmt p) = p"
    by (simp add: position_new_def pos_cycle_def pos_page_def pos_word_def)
  ultimately show ?thesis
    using d assms(2,3) N virt_page_size_bounds(3) [OF assms(1)]
    by (simp add: pos_cycle_def pos_page_def pos_next_page_def pos_page_begin_def pos_index_def
        fmt_word_size_def format_consts Let_def pos_word_def position_new_def)
qed

theorem position_coordinates_witness:
  "fmt_ok nrf52840_format \<and> pos_cycle nrf52840_format (position_new nrf52840_format 3 5 700) = 3"
  using position_coordinates [of nrf52840_format 5 700 3]
  by (simp add: fmt_ok_def nrf52840_format_def virt_page_size_def fmt_word_size_def format_consts)

section \<open>Words with a checksum\<close>

lemma bit_ERASED_WORD [simp]: "bit ERASED_WORD i \<longleftrightarrow> i < 32"
  by (simp add: ERASED_WORD_def bit_not_iff bit_0_eq)

lemma word_slice_round_trip [simp]: "word_from_slice (word_as_slice w) = w"
proof -
  have "unat w < 256 ^ 4" using unsigned_less [of w, where ?'a = nat] by simp
  then show ?thesis by (simp add: word_from_slice_def word_as_slice_def be_val_be_enc)
qed

lemma length_word_as_slice [simp]: "length (word_as_slice w) = 4"
  by (simp add: word_as_slice_def)

lemma checksum_set_InrI:
  assumes "field_ok f" and "\<And>i. i \<in> field_bits f \<Longrightarrow> bit w i" and "32 - fld_len f + v < 2 ^ fld_len f"
  obtains w' where "checksum_set f w v = Inr w'"
proof -
  have none: "{i \<in> field_bits f. \<not> bit w i} = {}" using assms(2) by auto
  have "count_zeros w + v < 2 ^ fld_len f"
    unfolding count_zeros_split [OF assms(1), of w] none using zeros_outside_le [OF assms(1), of w] assms(3) by simp
  then obtain w' where "field_set f w (count_zeros w + v) = Inr w'"
    using field_set_InrI [OF assms(1)] assms(2) by metis
  then show thesis using that by (simp add: checksum_set_def)
qed

lemma field_ok_checksum [simp]: "field_ok WORD_CHECKSUM"
  by (simp add: field_ok_def WORD_CHECKSUM_def)

lemma field_get_ERASED: "field_ok f \<Longrightarrow> field_get f ERASED_WORD = mask (fld_len f)"
  by (rule bit_eqI) (auto simp: bit_field_get field_ok_def bit_mask_iff)

lemma checksum_get_ERASED: "checksum_get WORD_CHECKSUM ERASED_WORD = Inr 31"
proof -
  have "zeros_outside WORD_CHECKSUM ERASED_WORD = 0" by (simp add: zeros_outside_def)
  moreover have "field_get WORD_CHECKSUM ERASED_WORD = 31"
    using field_get_ERASED [OF field_ok_checksum] by (simp add: WORD_CHECKSUM_def mask_eq_exp_minus_1)
  ultimately show ?thesis by (simp add: checksum_get_eq)
qed

text \<open>
  A word is checked if its checksum is right. What is left of it by a partial write from the
  erased word is erased or has a checksum that is too large.
\<close>

lemma checked_partial:
  assumes "checksum_get WORD_CHECKSUM w = Inr 0" and "partial_of u w"
  shows "w \<noteq> ERASED_WORD" and "\<exists>c. checksum_get WORD_CHECKSUM u = Inr c \<and> (c = 0 \<longleftrightarrow> u = w)"
proof -
  show "w \<noteq> ERASED_WORD" using assms(1) checksum_get_ERASED by auto
  show "\<exists>c. checksum_get WORD_CHECKSUM u = Inr c \<and> (c = 0 \<longleftrightarrow> u = w)"
    using checksum_partial [OF field_ok_checksum assms(2,1)] by auto
qed

section \<open>Init and compact info\<close>

lemma build_init_word:
  assumes "cycle < 2 ^ 16" and "prefix < 2 ^ 9"
  obtains w where "build_init fmt \<lparr>init_cycle = cycle, init_prefix = prefix\<rparr> = Inr (word_as_slice w)"
    and "checksum_get WORD_CHECKSUM w = Inr 0"
    and "field_get INIT_CYCLE w = cycle" and "field_get INIT_PREFIX w = prefix"
proof -
  let ?c = "\<lparr>fld_pos = 0, fld_len = 16\<rparr>" and ?p = "\<lparr>fld_pos = 16, fld_len = 9\<rparr>"
  have ok: "field_ok ?c" "field_ok ?p" by (simp_all add: field_ok_def)
  obtain w1 where w1: "field_set ?c ERASED_WORD cycle = Inr w1"
    using field_set_InrI [OF ok(1), of cycle ERASED_WORD] assms(1) by (auto simp: field_bits_def)
  note b1 = field_set_InrD [OF ok(1) w1]
  obtain w2 where w2: "field_set ?p w1 prefix = Inr w2"
    using field_set_InrI [OF ok(2), of prefix w1] assms(2) b1(3) by (auto simp: field_bits_def)
  note b2 = field_set_InrD [OF ok(2) w2]
  have all: "i \<in> field_bits WORD_CHECKSUM \<Longrightarrow> bit w2 i" for i
    using b1(3) b2(3) by (auto simp: field_bits_def WORD_CHECKSUM_def)
  obtain w3 where w3: "checksum_set WORD_CHECKSUM w2 0 = Inr w3"
    using checksum_set_InrI [OF field_ok_checksum all, of 0] by (auto simp: WORD_CHECKSUM_def)
  note b3 = checksum_set_InrD [OF field_ok_checksum all w3]
  have "field_get ?c w3 = field_get ?c w1"
    using b2(3) b3(2) by (intro field_get_cong [OF ok(1)]) (auto simp: field_bits_def WORD_CHECKSUM_def)
  moreover have "field_get ?p w3 = field_get ?p w2"
    using b3(2) by (intro field_get_cong [OF ok(2)]) (auto simp: field_bits_def WORD_CHECKSUM_def)
  ultimately show thesis
    using that [of w3] w1 w2 w3 b1(1) b2(1) b3(1) by (simp add: build_init_def)
qed

lemma parse_init_partial:
  assumes "checksum_get WORD_CHECKSUM w = Inr 0" and "partial_of u w" and "parse_init fmt w = Inr (Valid init)"
  shows "parse_init fmt u = Inr (if u = w then Valid init else if u = ERASED_WORD then Erased else Partial)"
  using checked_partial [OF assms(1,2)] assms(3) by (auto simp: parse_init_def)

text \<open>
  The init info of a page survives encoding and decoding. A write of it that is interrupted
  (some bits are not yet cleared) never reads as an init info: it reads as erased or partial.
\<close>

theorem init_info_round_trip:
  assumes "fmt_ok fmt" and "cycle \<le> fmt_max_page_erases fmt" and "prefix \<le> max_prefix_len fmt"
  shows "\<exists>w. build_init fmt \<lparr>init_cycle = cycle, init_prefix = prefix\<rparr> = Inr (word_as_slice w)
    \<and> (\<forall>u. partial_of u w \<longrightarrow> parse_init fmt u =
         Inr (if u = w then Valid \<lparr>init_cycle = cycle, init_prefix = prefix\<rparr>
              else if u = ERASED_WORD then Erased else Partial))"
proof -
  have "cycle < 2 ^ 16" "prefix < 2 ^ 9"
    using assms max_prefix_len_bounds(3) [OF assms(1)] by (auto simp: fmt_ok_def)
  then obtain w where w: "build_init fmt \<lparr>init_cycle = cycle, init_prefix = prefix\<rparr> = Inr (word_as_slice w)"
    "checksum_get WORD_CHECKSUM w = Inr 0" "field_get INIT_CYCLE w = cycle" "field_get INIT_PREFIX w = prefix"
    by (rule build_init_word)
  have "partial_of w w" by (simp add: partial_of_def)
  then have "parse_init fmt w = Inr (Valid \<lparr>init_cycle = cycle, init_prefix = prefix\<rparr>)"
    using checked_partial(1) [OF w(2)] w assms(2,3) by (simp add: parse_init_def)
  with w parse_init_partial show ?thesis by blast
qed

theorem init_info_round_trip_witness:
  "\<exists>w. build_init nrf52840_format \<lparr>init_cycle = 7, init_prefix = 12\<rparr> = Inr (word_as_slice w)
    \<and> (\<forall>u. partial_of u w \<longrightarrow> parse_init nrf52840_format u =
         Inr (if u = w then Valid \<lparr>init_cycle = 7, init_prefix = 12\<rparr>
              else if u = ERASED_WORD then Erased else Partial))"
  by (rule init_info_round_trip) (simp_all add: nrf52840_format_def fmt_ok_def max_prefix_len_def bytes_to_words_def
      div_ceil_def max_value_len_def virt_page_size_def fmt_word_size_def format_consts)

lemma build_compact_word:
  assumes "tail < 2 ^ 16"
  obtains w where "build_compact fmt \<lparr>compact_tail = tail\<rparr> = Inr (word_as_slice w)"
    and "checksum_get WORD_CHECKSUM w = Inr 0" and "field_get COMPACT_TAIL w = tail"
proof -
  let ?t = "\<lparr>fld_pos = 0, fld_len = 16\<rparr>"
  have ok: "field_ok ?t" by (simp add: field_ok_def)
  obtain w1 where w1: "field_set ?t ERASED_WORD tail = Inr w1"
    using field_set_InrI [OF ok, of tail ERASED_WORD] assms by (auto simp: field_bits_def)
  note b1 = field_set_InrD [OF ok w1]
  have all: "i \<in> field_bits WORD_CHECKSUM \<Longrightarrow> bit w1 i" for i
    using b1(3) by (auto simp: field_bits_def WORD_CHECKSUM_def)
  obtain w2 where w2: "checksum_set WORD_CHECKSUM w1 0 = Inr w2"
    using checksum_set_InrI [OF field_ok_checksum all, of 0] by (auto simp: WORD_CHECKSUM_def)
  note b2 = checksum_set_InrD [OF field_ok_checksum all w2]
  have "field_get ?t w2 = field_get ?t w1"
    using b2(2) by (intro field_get_cong [OF ok]) (auto simp: field_bits_def WORD_CHECKSUM_def)
  then show thesis using that [of w2] w1 w2 b1(1) b2(1) by (simp add: build_compact_def)
qed

text \<open>
  The compact info of a page survives encoding and decoding, for every distance that can
  occur between head and tail, and an interrupted write of it never reads as a compact info.
\<close>

theorem compact_info_round_trip:
  assumes "fmt_ok fmt" and "tail \<le> virt_size fmt + max_prefix_len fmt"
  shows "\<exists>w. build_compact fmt \<lparr>compact_tail = tail\<rparr> = Inr (word_as_slice w)
    \<and> (\<forall>u. partial_of u w \<longrightarrow> parse_compact fmt u =
         Inr (if u = w then Valid \<lparr>compact_tail = tail\<rparr>
              else if u = ERASED_WORD then Erased else Partial))"
proof -
  have "tail < 2 ^ 16" using assms virt_size_bounds(3) [OF assms(1)] by simp
  then obtain w where w: "build_compact fmt \<lparr>compact_tail = tail\<rparr> = Inr (word_as_slice w)"
    "checksum_get WORD_CHECKSUM w = Inr 0" "field_get COMPACT_TAIL w = tail"
    by (rule build_compact_word)
  moreover have "parse_compact fmt u = Inr (if u = w then Valid \<lparr>compact_tail = tail\<rparr>
      else if u = ERASED_WORD then Erased else Partial)" if "partial_of u w" for u
    using checked_partial [OF w(2) that] w assms(2) by (auto simp: parse_compact_def)
  ultimately show ?thesis by blast
qed

theorem compact_info_round_trip_witness:
  "\<exists>w. build_compact nrf52840_format \<lparr>compact_tail = 1000\<rparr> = Inr (word_as_slice w)
    \<and> (\<forall>u. partial_of u w \<longrightarrow> parse_compact nrf52840_format u =
         Inr (if u = w then Valid \<lparr>compact_tail = 1000\<rparr>
              else if u = ERASED_WORD then Erased else Partial))"
  by (rule compact_info_round_trip) (simp_all add: nrf52840_format_def fmt_ok_def virt_size_def max_prefix_len_def
      bytes_to_words_def div_ceil_def max_value_len_def virt_page_size_def fmt_word_size_def format_consts)

section \<open>Internal entries\<close>

lemma build_internal_word:
  assumes "internal_fields e = (\<lparr>cf_field = \<lparr>fld_pos = 0, fld_len = 5\<rparr>, cf_value = n\<rparr>, \<lparr>fld_pos = 5, fld_len = l\<rparr>, v)"
    and "l \<le> 22" and "n < 32" and "bit n 0" and "bit n 1" and "v < 2 ^ l"
  obtains w where "build_internal fmt e = Inr (word_as_slice w)"
    and "checksum_get WORD_CHECKSUM w = Inr 0" and "bit w 0" and "bit w 1"
    and "field_get \<lparr>fld_pos = 0, fld_len = 5\<rparr> w = n" and "field_get \<lparr>fld_pos = 5, fld_len = l\<rparr> w = v"
proof -
  let ?i = "\<lparr>fld_pos = 0, fld_len = 5\<rparr>" and ?f = "\<lparr>fld_pos = 5, fld_len = l\<rparr>"
  have ok: "field_ok ?i" "field_ok ?f" using assms(2) by (simp_all add: field_ok_def)
  obtain w1 where w1: "field_set ?i ERASED_WORD n = Inr w1"
    using field_set_InrI [OF ok(1), of n ERASED_WORD] assms(3) by (auto simp: field_bits_def)
  note b1 = field_set_InrD [OF ok(1) w1]
  obtain w2 where w2: "field_set ?f w1 v = Inr w2"
    using field_set_InrI [OF ok(2), of v w1] assms(2,6) b1(3) by (auto simp: field_bits_def)
  note b2 = field_set_InrD [OF ok(2) w2]
  have all: "i \<in> field_bits WORD_CHECKSUM \<Longrightarrow> bit w2 i" for i
    using assms(2) b1(3) b2(3) by (auto simp: field_bits_def WORD_CHECKSUM_def)
  obtain w3 where w3: "checksum_set WORD_CHECKSUM w2 0 = Inr w3"
    using checksum_set_InrI [OF field_ok_checksum all, of 0] by (auto simp: WORD_CHECKSUM_def)
  note b3 = checksum_set_InrD [OF field_ok_checksum all w3]
  have "field_get ?i w3 = field_get ?i w1"
    using b2(3) b3(2) by (intro field_get_cong [OF ok(1)]) (auto simp: field_bits_def WORD_CHECKSUM_def)
  moreover have "field_get ?f w3 = field_get ?f w2"
    using b3(2) assms(2) by (intro field_get_cong [OF ok(2)]) (auto simp: field_bits_def WORD_CHECKSUM_def)
  moreover have "bit w3 0" "bit w3 1"
    using b1(3) b2(3) b3(2) assms(4,5) by (simp_all add: field_bits_def WORD_CHECKSUM_def)
  ultimately show thesis
    using that [of w3] w1 w2 w3 b1(1) b2(1) b3(1) assms(1) by (simp add: build_internal_def const_set_def)
qed

lemma field_get_low [simp]:
  "field_get \<lparr>fld_pos = 0, fld_len = Suc 0\<rparr> w = of_bool (bit w 0)"
  "field_get \<lparr>fld_pos = 0, fld_len = 2\<rparr> w = of_bool (bit w 0) + 2 * of_bool (bit w (Suc 0))"
proof -
  have ok: "field_ok \<lparr>fld_pos = 0, fld_len = Suc 0\<rparr>" "field_ok \<lparr>fld_pos = 0, fld_len = 2\<rparr>" by (simp_all add: field_ok_def)
  show "field_get \<lparr>fld_pos = 0, fld_len = Suc 0\<rparr> w = of_bool (bit w 0)"
    using field_get_less [OF ok(1), of w] bit_field_get [OF ok(1), of w 0]
    by (auto simp: bit_iff_odd numeral_eq_Suc less_Suc_eq)
  show "field_get \<lparr>fld_pos = 0, fld_len = 2\<rparr> w = of_bool (bit w 0) + 2 * of_bool (bit w (Suc 0))"
  proof -
    have two: "x = of_bool (bit x 0) + 2 * of_bool (bit x 1)" if "x < 4" for x :: nat
    proof -
      from that consider "x = 0" | "x = 1" | "x = 2" | "x = 3" by linarith
      then show ?thesis by cases (simp_all add: bit_iff_odd)
    qed
    show ?thesis
      using two [of "field_get \<lparr>fld_pos = 0, fld_len = 2\<rparr> w"] field_get_less [OF ok(2), of w]
      by (simp add: bit_field_get [OF ok(2)])
  qed
qed

lemma parse_word_partial:
  assumes "checksum_get WORD_CHECKSUM w = Inr 0" and "bit w 0" and "bit w 1" and "partial_of u w" and "u \<noteq> w"
  shows "parse_word fmt u = Inr (if u = ERASED_WORD then Erased else Partial)"
proof -
  have "bit u 0" "bit u (Suc 0)" using partial_of_bit [OF assms(4)] assms(2,3) by auto
  moreover obtain c where "checksum_get WORD_CHECKSUM u = Inr c" "c \<noteq> 0"
    using checked_partial(2) [OF assms(1,4)] assms(5) by auto
  moreover have "field_get \<lparr>fld_pos = 0, fld_len = 5\<rparr> ERASED_WORD = 31"
    by (simp add: field_get_ERASED field_ok_def mask_eq_exp_minus_1)
  ultimately show ?thesis by (auto simp: parse_word_def const_check_def parse_internal_def)
qed

lemma internal_fields_cases:
  assumes "fmt_ok fmt" and "\<not> internal_invalid fmt e"
  obtains n l v where "internal_fields e = (\<lparr>cf_field = \<lparr>fld_pos = 0, fld_len = 5\<rparr>, cf_value = n\<rparr>, \<lparr>fld_pos = 5, fld_len = l\<rparr>, v)"
    and "l \<le> 22" and "n < 32" and "bit n 0" and "bit n 1" and "v < 2 ^ l"
    and "\<And>w. bit w 0 \<Longrightarrow> bit w 1 \<Longrightarrow> field_get \<lparr>fld_pos = 0, fld_len = 5\<rparr> w = n \<Longrightarrow>
      field_get \<lparr>fld_pos = 5, fld_len = l\<rparr> w = v \<Longrightarrow> parse_word fmt w = parse_internal fmt w e"
proof (cases e)
  case (EraseEntry page)
  with assms show ?thesis
    by (intro that [of 3 6 page]) (auto simp: parse_word_def const_check_def fmt_ok_def max_page_def bit_iff_odd)
next
  case (ClearEntry key)
  with assms show ?thesis
    by (intro that [of 19 12 key]) (auto simp: parse_word_def const_check_def max_key_def format_consts bit_iff_odd)
next
  case (MarkerEntry count)
  with assms show ?thesis
    by (intro that [of 11 5 count]) (auto simp: parse_word_def const_check_def format_consts bit_iff_odd)
next
  case (RemoveEntry key)
  with assms show ?thesis
    by (intro that [of 27 12 key]) (auto simp: parse_word_def const_check_def max_key_def format_consts bit_iff_odd)
qed

text \<open>
  Every internal entry with arguments in range survives encoding and decoding, and an
  interrupted write of it is never taken for an entry: it reads as erased or partial.
\<close>

theorem internal_entry_round_trip:
  assumes "fmt_ok fmt" and "\<not> internal_invalid fmt e"
  shows "\<exists>w. build_internal fmt e = Inr (word_as_slice w)
    \<and> (\<forall>u. partial_of u w \<longrightarrow> parse_word fmt u =
         Inr (if u = w then Valid (InternalWord e) else if u = ERASED_WORD then Erased else Partial))"
proof -
  from assms obtain n l v where f:
    "internal_fields e = (\<lparr>cf_field = \<lparr>fld_pos = 0, fld_len = 5\<rparr>, cf_value = n\<rparr>, \<lparr>fld_pos = 5, fld_len = l\<rparr>, v)"
    "l \<le> 22" "n < 32" "bit n 0" "bit n 1" "v < 2 ^ l"
    and parse: "\<And>w. bit w 0 \<Longrightarrow> bit w 1 \<Longrightarrow> field_get \<lparr>fld_pos = 0, fld_len = 5\<rparr> w = n \<Longrightarrow>
      field_get \<lparr>fld_pos = 5, fld_len = l\<rparr> w = v \<Longrightarrow> parse_word fmt w = parse_internal fmt w e"
    by (rule internal_fields_cases) blast
  from f obtain w where w: "build_internal fmt e = Inr (word_as_slice w)" "checksum_get WORD_CHECKSUM w = Inr 0"
    "bit w 0" "bit w 1" "field_get \<lparr>fld_pos = 0, fld_len = 5\<rparr> w = n" "field_get \<lparr>fld_pos = 5, fld_len = l\<rparr> w = v"
    by (rule build_internal_word)
  have "parse_word fmt w = Inr (Valid (InternalWord e))"
    using parse [OF w(3-6)] w(2) assms(2) by (simp add: parse_internal_def)
  with w parse_word_partial [OF w(2-4)] show ?thesis by auto
qed

theorem internal_entry_round_trip_witness:
  "\<exists>w. build_internal nrf52840_format (MarkerEntry 4) = Inr (word_as_slice w)
    \<and> (\<forall>u. partial_of u w \<longrightarrow> parse_word nrf52840_format u =
         Inr (if u = w then Valid (InternalWord (MarkerEntry 4)) else if u = ERASED_WORD then Erased else Partial))"
  by (rule internal_entry_round_trip) (simp_all add: nrf52840_format_def fmt_ok_def format_consts)

end
