(* ===== verification/Store_Entries.thy ===== *)
theory Store_Entries
  imports Store_Format_Properties "HOL-Library.Multiset"
begin

text \<open>
  User entries of the store and transactions: an entry is its header word followed by the value,
  padded to words. The last bit of an entry whose last word would be erased is flipped, so that a
  complete entry never ends in an erased word.
\<close>

lemma count_zeros_u8_le: "count_zeros (b :: u8) \<le> 8"
  unfolding count_zeros_def using length_filter_le [of "\<lambda>i. \<not> bit b i" "[0..<LENGTH(8)]"] by simp

lemma count_zeros_ff: "count_zeros (0xff :: u8) = 0"
proof -
  have ff: "(0xff :: u8) = - 1" by simp
  have "bit (0xff :: u8) i" if "i < 8" for i unfolding ff using that by (simp add: bit_minus_1_iff)
  then show ?thesis by (simp add: count_zeros_def filter_empty_conv)
qed

lemma slice_count_zeros_le: "slice_count_zeros bs \<le> 8 * length bs"
  by (induction bs) (auto simp: slice_count_zeros_def intro: add_mono count_zeros_u8_le)

lemma bytes_to_words_bounds:
  "n \<le> bytes_to_words fmt n * 4" "bytes_to_words fmt n * 4 < n + 4" "bytes_to_words fmt n = 0 \<longleftrightarrow> n = 0"
  by (auto simp: bytes_to_words_def div_ceil_def fmt_word_size_def format_consts)

text \<open>The bytes of an entry after its header.\<close>

definition user_payload :: "format \<Rightarrow> bytes \<Rightarrow> bool \<times> bytes" where
  "user_payload fmt value =
     (let n = bytes_to_words fmt (length value) * 4; body = value @ replicate (n - length value) 0xff in
      if n > 0 \<and> is_erased (drop (n - 4) body) then (True, body[n - 1 := 0x7f]) else (False, body))"

definition last_word :: "bytes \<Rightarrow> bytes option" where
  "last_word payload = (if payload = [] then None else Some (drop (length payload - 4) payload))"

lemma length_user_payload: "length (snd (user_payload fmt value)) = bytes_to_words fmt (length value) * 4"
  using bytes_to_words_bounds [where n = "length value" and fmt = fmt] by (simp add: user_payload_def Let_def)

lemma build_user_payload:
  "build_user fmt key value =
     (case user_payload fmt value of (flipped, payload) \<Rightarrow>
        rbind (const_set ID_HEADER ERASED_WORD) (\<lambda>w.
          (let w = (if flipped then bit_set HEADER_FLIPPED w else w) in
           rbind (field_set HEADER_LENGTH w (length value)) (\<lambda>w.
           rbind (field_set HEADER_KEY w key) (\<lambda>w.
           rbind (checksum_set HEADER_CHECKSUM w
             (case last_word payload of None \<Rightarrow> 0 | Some bs \<Rightarrow> slice_count_zeros bs)) (\<lambda>w.
             Inr (word_as_slice w @ payload)))))))"
proof -
  let ?n = "bytes_to_words fmt (length value) * 4"
  let ?body = "value @ replicate (?n - length value) 0xff"
  let ?h = "replicate 4 0xff :: bytes"
  have len: "length ?body = ?n" using bytes_to_words_bounds(1) [where n = "length value" and fmt = fmt] by simp
  show ?thesis
  proof (cases "?n = 0")
    case True
    then have "value = []" using bytes_to_words_bounds(3) [where n = "length value" and fmt = fmt] by simp
    moreover have "slice_count_zeros ?h = 0"
      by (simp add: slice_count_zeros_def count_zeros_ff sum_list_replicate)
    ultimately show ?thesis
      by (simp add: build_user_def user_payload_def last_word_def fmt_word_size_def format_consts
          bytes_to_words_def div_ceil_def Let_def)
  next
    case False
    then have n4: "4 \<le> ?n" by simp
    have d: "drop ?n (?h @ b) = drop (?n - 4) b" for b :: bytes using n4 by simp
    have upd: "(?h @ ?body)[length (?h @ ?body) - 1 := 0x7f] = ?h @ ?body[?n - 1 := 0x7f]"
      using n4 len by (simp add: list_update_append)
    have pos: "0 < bytes_to_words fmt (length value)" using False by simp
    show ?thesis
      using upd d [of ?body] d [of "?body[?n - 1 := 0x7f]"] len n4 pos False
      by (auto simp: build_user_def user_payload_def last_word_def fmt_word_size_def format_consts Let_def)
  qed
qed

lemma user_payload_value:
  assumes "user_payload fmt value = (flipped, payload)"
  shows "value = (let r = take (length value) payload in if flipped then r[length r - 1 := 0xff] else r)"
proof -
  let ?n = "bytes_to_words fmt (length value) * 4"
  let ?body = "value @ replicate (?n - length value) 0xff"
  note bounds = bytes_to_words_bounds [where n = "length value" and fmt = fmt]
  show ?thesis
  proof (cases "?n > 0 \<and> is_erased (drop (?n - 4) ?body)")
    case True
    then have v: "flipped" "payload = ?body[?n - 1 := 0x7f]" using assms by (auto simp: user_payload_def Let_def)
    have k: "0 < length value" using True bounds(3) by auto
    have "?body ! (length value - 1) \<in> set (drop (?n - 4) ?body)"
    proof -
      have "?body ! (length value - 1) = drop (?n - 4) ?body ! (length value - 1 - (?n - 4))"
        using bounds k True by (subst nth_drop) auto
      moreover have "length value - 1 - (?n - 4) < length (drop (?n - 4) ?body)" using bounds k True by auto
      ultimately show ?thesis by (metis nth_mem)
    qed
    then have "?body ! (length value - 1) = 0xff" using True unfolding is_erased_def by blast
    then have last: "value ! (length value - 1) = 0xff" using k by (simp add: nth_append)
    have "take (length value) payload = (if ?n = length value then value[length value - 1 := 0x7f] else value)"
      using bounds v(2) k by (auto simp: list_update_append)
    moreover have "value[length value - 1 := 0xff] = value" using list_update_id [of "value" "length value - 1"] last by metis
    ultimately show ?thesis using k v(1) by (auto simp: Let_def)
  next
    case False
    then have "\<not> flipped" "payload = ?body" using assms by (auto simp: user_payload_def Let_def split: if_splits)
    then show ?thesis by simp
  qed
qed

lemma last_word_zeros: "(case last_word payload of None \<Rightarrow> 0 | Some bs \<Rightarrow> slice_count_zeros bs) \<le> 32"
proof (cases "last_word payload")
  case (Some bs)
  then have "length bs \<le> 4" by (auto simp: last_word_def split: if_splits)
  with slice_count_zeros_le [of bs] Some show ?thesis by simp
qed simp

lemma bit_bit_set: "bit (bit_set p w) i \<longleftrightarrow> bit w i \<and> i \<noteq> p"
  using bit_u32_imp_less [of w i] by (auto simp: bit_set_def bit_simps)

lemma bit_get_iff: "p < 32 \<Longrightarrow> bit_get p w \<longleftrightarrow> \<not> bit w p"
proof -
  assume "p < 32"
  have "w AND push_bit p 1 = 0 \<longleftrightarrow> \<not> bit w p"
    by (metis \<open>p < 32\<close> and_exp_eq_0_iff_not_bit push_bit_of_1)
  then show ?thesis by (simp add: bit_get_def)
qed

lemma set_padding_parse:
  obtains w' where "fmt_set_padding fmt w = Inr w'" and "parse_word fmt w' = Inr (Valid (PaddingWord 0))"
proof -
  let ?f = "\<lparr>fld_pos = 0, fld_len = Suc 0\<rparr>"
  have ok: "field_ok ?f" by (simp add: field_ok_def)
  have m: "field_mask ?f = 1" by (simp add: field_mask_def)
  have "\<not> bit (w AND NOT 1) 0" by (simp add: bit_simps)
  then have "fmt_set_padding fmt w = Inr (w AND NOT 1)"
    by (simp add: fmt_set_padding_def const_set_def field_set_def m Let_def)
  moreover have "parse_word fmt (w AND NOT 1) = Inr (Valid (PaddingWord 0))"
    using \<open>\<not> bit (w AND NOT 1) 0\<close> by (simp add: parse_word_def const_check_def)
  ultimately show thesis by (rule that)
qed

lemma last_word_not_erased:
  assumes "user_payload fmt value = (flipped, payload)" and "last_word payload = Some f"
  shows "\<not> is_erased f"
proof -
  let ?n = "bytes_to_words fmt (length value) * 4"
  let ?body = "value @ replicate (?n - length value) 0xff"
  have len: "length payload = ?n" using length_user_payload [of fmt "value"] assms(1) by simp
  have f: "f = drop (?n - 4) payload" "0 < ?n"
    using assms(2) len length_greater_0_conv [of payload] by (auto simp: last_word_def simp del: length_greater_0_conv split: if_splits)
  show ?thesis
  proof (cases flipped)
    case True
    then have p: "payload = ?body[?n - 1 := 0x7f]" using assms(1) by (auto simp: user_payload_def Let_def split: if_splits)
    have "payload ! (?n - 1) = 0x7f" using p len f(2) by simp
    then have "f ! 3 = 0x7f" "3 < length f" using f len by (auto simp: nth_drop)
    then have "0x7f \<in> set f" by (metis nth_mem)
    then show ?thesis by (force simp: is_erased_def)
  next
    case False
    then show ?thesis using assms(1) f by (auto simp: user_payload_def Let_def split: if_splits)
  qed
qed

lemma build_header_word:
  assumes "len < 2 ^ 10" and "key < 2 ^ 12" and "z \<le> 32"
  obtains w where "rbind (const_set ID_HEADER ERASED_WORD) (\<lambda>w.
      (let w = (if flipped then bit_set HEADER_FLIPPED w else w) in
       rbind (field_set HEADER_LENGTH w len) (\<lambda>w.
       rbind (field_set HEADER_KEY w key) (\<lambda>w.
       rbind (checksum_set HEADER_CHECKSUM w z) (\<lambda>w. Inr (word_as_slice w @ payload))))))
     = (Inr (word_as_slice w @ payload) :: store_error + bytes)"
    and "bit w 0" and "\<not> bit w 1" and "bit w 2" and "bit w 3 \<longleftrightarrow> \<not> flipped"
    and "field_get HEADER_LENGTH w = len" and "field_get HEADER_KEY w = key"
    and "checksum_get HEADER_CHECKSUM w = Inr z"
proof -
  let ?i = "\<lparr>fld_pos = 0, fld_len = 2\<rparr>" and ?l = "\<lparr>fld_pos = 4, fld_len = 10\<rparr>"
    and ?k = "\<lparr>fld_pos = 14, fld_len = 12\<rparr>" and ?c = "\<lparr>fld_pos = 26, fld_len = 6\<rparr>"
  have ok: "field_ok ?i" "field_ok ?l" "field_ok ?k" "field_ok ?c" by (simp_all add: field_ok_def)
  obtain w1 where w1: "field_set ?i ERASED_WORD 1 = Inr w1"
    using field_set_InrI [OF ok(1), of 1 ERASED_WORD] by (auto simp: field_bits_def)
  note b1 = field_set_InrD [OF ok(1) w1]
  define w1' where "w1' = (if flipped then bit_set HEADER_FLIPPED w1 else w1)"
  have b1': "bit w1' i \<longleftrightarrow> i < 32 \<and> i \<noteq> 1 \<and> (flipped \<longrightarrow> i \<noteq> 3)" for i
    using b1(3) [of i] bit_1_iff [of i, where ?'a = nat]
    by (auto simp: w1'_def bit_bit_set field_bits_def less_Suc_eq numeral_2_eq_2)
  obtain w2 where w2: "field_set ?l w1' len = Inr w2"
    using field_set_InrI [OF ok(2), of len w1'] assms(1) b1' by (auto simp: field_bits_def)
  note b2 = field_set_InrD [OF ok(2) w2]
  obtain w3 where w3: "field_set ?k w2 key = Inr w3"
    using field_set_InrI [OF ok(3), of key w2] assms(2) b1' b2(3) by (auto simp: field_bits_def)
  note b3 = field_set_InrD [OF ok(3) w3]
  have all: "i \<in> field_bits ?c \<Longrightarrow> bit w3 i" for i using b1' b2(3) b3(3) by (auto simp: field_bits_def)
  obtain w4 where w4: "checksum_set ?c w3 z = Inr w4"
    using checksum_set_InrI [OF ok(4) all, of z] assms(3) by auto
  note b4 = checksum_set_InrD [OF ok(4) all w4]
  have "field_get ?l w4 = field_get ?l w2" "field_get ?k w4 = field_get ?k w3"
    using b3(3) b4(2) ok by (auto intro!: field_get_cong simp: field_bits_def)
  moreover have "bit w4 0" "\<not> bit w4 1" "bit w4 2" "bit w4 3 \<longleftrightarrow> \<not> flipped"
    using b1' b2(3) b3(3) b4(2) by (auto simp: field_bits_def)
  ultimately show thesis
    using that [of w4] w1 w2 w3 w4 b2(1) b3(1) b4(1) by (simp add: const_set_def w1'_def [symmetric])
qed

text \<open>
  C26. A user entry survives encoding and decoding: for every key and value in range the entry has
  the documented size, its header parses to the key and the length, the checksum agrees with its
  last word, the value read back from the bytes after the header is the value written, and the
  last word of an entry with a value is never erased. Marking the header as deleted or as padding
  turns the entry into padding.
\<close>

theorem user_entry_round_trip:
  assumes "fmt_ok fmt" and "key \<le> max_key fmt" and "length value \<le> max_value_len fmt"
  shows "\<exists>w h payload. build_user fmt key value = Inr (word_as_slice w @ payload)
    \<and> length (word_as_slice w @ payload) = entry_size fmt value * WORD_SIZE
    \<and> parse_word fmt w = Inr (Valid (HeaderWord h))
    \<and> hdr_key h = key \<and> hdr_length h = length value
    \<and> header_check h (last_word payload)
    \<and> (let r = take (hdr_length h) payload in if hdr_flipped h then r[length r - 1 := 0xff] else r) = value
    \<and> (\<forall>f. last_word payload = Some f \<longrightarrow> \<not> is_erased f)
    \<and> parse_word fmt (fmt_set_deleted fmt w) = Inr (Valid (PaddingWord (bytes_to_words fmt (length value))))
    \<and> (\<exists>w'. fmt_set_padding fmt w = Inr w' \<and> parse_word fmt w' = Inr (Valid (PaddingWord 0)))"
proof -
  obtain flipped payload where up: "user_payload fmt value = (flipped, payload)" by (cases "user_payload fmt value")
  let ?z = "case last_word payload of None \<Rightarrow> 0 | Some bs \<Rightarrow> slice_count_zeros bs"
  have len: "length value < 2 ^ 10" and key: "key < 2 ^ 12"
    using assms max_prefix_len_bounds(5) [OF assms(1)] by (auto simp: max_key_def format_consts)
  obtain w where w: "build_user fmt key value = Inr (word_as_slice w @ payload)"
      "bit w 0" "\<not> bit w 1" "bit w 2" "bit w 3 \<longleftrightarrow> \<not> flipped"
      "field_get HEADER_LENGTH w = length value" "field_get HEADER_KEY w = key"
      "checksum_get HEADER_CHECKSUM w = Inr ?z"
    using build_header_word [OF len key last_word_zeros, of flipped payload payload]
    by (auto simp: build_user_payload up)
  let ?h = "\<lparr>hdr_flipped = flipped, hdr_length = length value, hdr_key = key, hdr_checksum = ?z\<rparr>"
  have "parse_word fmt w = Inr (Valid (HeaderWord ?h))"
    using w(2-8) by (simp add: parse_word_def const_check_def bit_get_iff)
  moreover have "header_check ?h (last_word payload)" by (simp add: header_check_def)
  moreover have "value = (let r = take (length value) payload in if flipped then r[length r - 1 := 0xff] else r)"
    using up by (rule user_payload_value)
  moreover have "length payload = bytes_to_words fmt (length value) * 4"
    using length_user_payload [of fmt "value"] up by simp
  moreover have "\<not> is_erased f" if "last_word payload = Some f" for f
    using up that by (rule last_word_not_erased)
  moreover have "parse_word fmt (fmt_set_deleted fmt w) = Inr (Valid (PaddingWord (bytes_to_words fmt (length value))))"
  proof -
    have "field_get HEADER_LENGTH (bit_set 2 w) = field_get HEADER_LENGTH w"
      by (intro field_get_cong) (auto simp: field_ok_def field_bits_def bit_bit_set)
    with w(2,3,6) assms(3) show ?thesis
      by (simp add: fmt_set_deleted_def parse_word_def const_check_def bit_get_iff bit_bit_set)
  qed
  moreover obtain w' where "fmt_set_padding fmt w = Inr w'" "parse_word fmt w' = Inr (Valid (PaddingWord 0))"
    by (rule set_padding_parse)
  ultimately show ?thesis using w(1)
    by (intro exI [of _ w] exI [of _ ?h] exI [of _ payload]) (auto simp: entry_size_def format_consts)
qed

theorem user_entry_round_trip_witness:
  "\<exists>w h payload. build_user nrf52840_format 5 [0xff, 0xff, 0xff, 0xff, 0xff] = Inr (word_as_slice w @ payload)
    \<and> length (word_as_slice w @ payload) = entry_size nrf52840_format [0xff, 0xff, 0xff, 0xff, 0xff] * WORD_SIZE
    \<and> parse_word nrf52840_format w = Inr (Valid (HeaderWord h))
    \<and> hdr_key h = 5 \<and> hdr_length h = length [0xff, 0xff, 0xff, 0xff, 0xff :: u8]
    \<and> header_check h (last_word payload)
    \<and> (let r = take (hdr_length h) payload in if hdr_flipped h then r[length r - 1 := 0xff] else r)
        = [0xff, 0xff, 0xff, 0xff, 0xff]
    \<and> (\<forall>f. last_word payload = Some f \<longrightarrow> \<not> is_erased f)
    \<and> parse_word nrf52840_format (fmt_set_deleted nrf52840_format w)
        = Inr (Valid (PaddingWord (bytes_to_words nrf52840_format (length [0xff, 0xff, 0xff, 0xff, 0xff :: u8]))))
    \<and> (\<exists>w'. fmt_set_padding nrf52840_format w = Inr w' \<and> parse_word nrf52840_format w' = Inr (Valid (PaddingWord 0)))"
  by (rule user_entry_round_trip)
     (simp_all add: nrf52840_format_def fmt_ok_def max_key_def max_value_len_def virt_page_size_def
        fmt_word_size_def format_consts)

section \<open>Transactions\<close>

lemma takeWhile_sorted:
  assumes "sorted ks"
  shows "k \<in> set ks \<longleftrightarrow> (let i = length (takeWhile (\<lambda>x. x < k) ks) in i < length ks \<and> ks ! i = (k :: nat))"
  using assms by (induction ks) (auto simp: Let_def)

lemma insert_at_takeWhile:
  assumes "sorted ks"
  shows "insert_at (length (takeWhile (\<lambda>x. x < k) ks)) k ks = insort (k :: nat) ks"
  using assms by (induction ks) (auto simp: insert_at_def)

lemma binary_search_sorted:
  assumes "sorted ks"
  shows "k \<in> set ks \<Longrightarrow> \<exists>i. binary_search ks k = Inr i"
    and "k \<notin> set ks \<Longrightarrow> \<exists>i. binary_search ks k = Inl i \<and> insert_at i k ks = insort k ks"
  using takeWhile_sorted [OF assms, of k] insert_at_takeWhile [OF assms, of k]
  by (auto simp: binary_search_def Let_def)

lemma sorted_keys_loop_eq:
  assumes "sorted ks" and "distinct ks"
  shows "sorted_keys_loop fmt us ks =
    (if (\<forall>u \<in> set us. update_key u \<le> max_key fmt
           \<and> (\<forall>v. update_value u = Some v \<longrightarrow> length v \<le> max_value_len fmt))
        \<and> distinct (map update_key us @ ks)
     then Some (sort (map update_key us @ ks)) else None)"
  using assms
proof (induction us arbitrary: ks)
  case Nil
  then show ?case by (simp add: sort_key_id_if_sorted)
next
  case (Cons u us)
  let ?k = "update_key u"
  show ?case
  proof (cases "?k \<in> set ks")
    case True
    then obtain i where "binary_search ks ?k = Inr i" using binary_search_sorted(1) [OF Cons.prems(1)] by blast
    with True show ?thesis by (auto simp: Let_def split: option.splits)
  next
    case False
    then obtain i where i: "binary_search ks ?k = Inl i" "insert_at i ?k ks = insort ?k ks"
      using binary_search_sorted(2) [OF Cons.prems(1)] by blast
    have "sorted (insort ?k ks)" "distinct (insort ?k ks)"
      using Cons.prems False by (auto simp: sorted_insort distinct_insort)
    note IH = Cons.IH [OF this]
    have "sort (map update_key us @ insort ?k ks) = sort (map update_key (u # us) @ ks)"
      by (rule properties_for_sort) (auto simp: ac_simps sorted_insort)
    then show ?thesis
      using False i IH by (auto simp: Let_def distinct_insort set_insort_key split: option.splits)
  qed
qed

lemma transaction_valid_Some:
  "transaction_valid fmt updates = Some keys \<longleftrightarrow>
     length updates \<le> 31
     \<and> (\<forall>u \<in> set updates. update_key u \<le> max_key fmt)
     \<and> (\<forall>k v. Insert k v \<in> set updates \<longrightarrow> length v \<le> max_value_len fmt)
     \<and> distinct (map update_key updates)
     \<and> keys = sort (map update_key updates)"
proof -
  have "(\<forall>u \<in> set updates. \<forall>v. update_value u = Some v \<longrightarrow> length v \<le> max_value_len fmt)
    \<longleftrightarrow> (\<forall>k v. Insert k v \<in> set updates \<longrightarrow> length v \<le> max_value_len fmt)"
    by (metis update_value.elims update_value.simps(1) option.inject option.distinct(1))
  then show ?thesis
    by (auto simp: transaction_valid_def sorted_keys_loop_eq max_updates_def MAX_UPDATES_def)
qed

lemma transaction_valid_bounds:
  assumes "transaction_valid fmt updates = Some keys"
  shows "u \<in> set updates \<Longrightarrow> update_key u \<le> max_key fmt"
    and "Insert k v \<in> set updates \<Longrightarrow> length v \<le> max_value_len fmt"
    and "distinct (map update_key updates)"
  using assms unfolding transaction_valid_Some by auto

text \<open>
  A transaction is valid exactly if it has at most 31 updates, its keys and the lengths of its
  values are in range and no key occurs twice; the keys are then returned in increasing order.
\<close>

theorem transaction_valid_iff:
  "transaction_valid fmt updates = Some keys \<longleftrightarrow>
     length updates \<le> 31
     \<and> (\<forall>u \<in> set updates. update_key u \<le> max_key fmt)
     \<and> (\<forall>k v. Insert k v \<in> set updates \<longrightarrow> length v \<le> max_value_len fmt)
     \<and> distinct (map update_key updates)
     \<and> keys = sort (map update_key updates)"
  by (rule transaction_valid_Some)

theorem transaction_valid_iff_witness:
  "transaction_valid nrf52840_format [Insert 7 [1, 2], Remove 3] = Some [3, 7]"
  by (simp add: transaction_valid_iff max_key_def max_value_len_def virt_page_size_def fmt_word_size_def
      nrf52840_format_def format_consts)

end
