(* ===== verification/Store_Model.thy ===== *)
theory Store_Model
  imports Store_Entries
begin

text \<open>
  The abstract model of the store (\<open>libraries/persistent_store/src/model.rs\<close>): a map from keys to
  values with the capacity of a storage configuration. The \<open>HashMap\<close> is kept as a list of
  entries in increasing order of their keys; the code only inserts, removes, filters and sums.
\<close>

record store_ratio =
  ratio_used :: nat
  ratio_total :: nat

definition ratio_remaining :: "store_ratio \<Rightarrow> nat" where
  "ratio_remaining r = ratio_total r - ratio_used r"

record store_model =
  model_content :: "(nat, bytes) btree"
  model_format :: format

datatype store_operation =
    Transaction "store_update list"
  | Clear nat
  | Prepare nat

definition model_new :: "format \<Rightarrow> store_model" where
  "model_new fmt = \<lparr>model_content = [], model_format = fmt\<rparr>"

definition model_capacity :: "store_model \<Rightarrow> store_ratio" where
  "model_capacity m =
     \<lparr>ratio_used = sum_list (map (\<lambda>(k, v). entry_size (model_format m) v) (model_content m)),
      ratio_total = total_capacity (model_format m)\<rparr>"

fun apply_update :: "store_update \<Rightarrow> (nat, bytes) btree \<Rightarrow> (nat, bytes) btree" where
  "apply_update (Insert key value) content = btree_insert key value content"
| "apply_update (Remove key) content = filter (\<lambda>(k, v). k \<noteq> key) content"

definition model_transaction :: "store_update list \<Rightarrow> store_model \<Rightarrow> (store_error + unit) \<times> store_model" where
  "model_transaction updates m =
     (if transaction_valid (model_format m) updates = None then (Inl InvalidArgument, m)
      else if ratio_remaining (model_capacity m) < transaction_capacity (model_format m) updates
      then (Inl NoCapacity, m)
      else (Inr (), m\<lparr>model_content := fold apply_update updates (model_content m)\<rparr>))"

definition model_clear :: "nat \<Rightarrow> store_model \<Rightarrow> (store_error + unit) \<times> store_model" where
  "model_clear min_key m =
     (if min_key > max_key (model_format m) then (Inl InvalidArgument, m)
      else (Inr (), m\<lparr>model_content := filter (\<lambda>(k, v). k < min_key) (model_content m)\<rparr>))"

definition model_prepare :: "nat \<Rightarrow> store_model \<Rightarrow> (store_error + unit) \<times> store_model" where
  "model_prepare len m =
     (if ratio_remaining (model_capacity m) < len then (Inl NoCapacity, m) else (Inr (), m))"

fun model_apply :: "store_operation \<Rightarrow> store_model \<Rightarrow> (store_error + unit) \<times> store_model" where
  "model_apply (Transaction updates) m = model_transaction updates m"
| "model_apply (Clear min_key) m = model_clear min_key m"
| "model_apply (Prepare len) m = model_prepare len m"

section \<open>Invariant\<close>

definition model_ok :: "store_model \<Rightarrow> bool" where
  "model_ok m \<longleftrightarrow> btree_ok (model_content m)
     \<and> (\<forall>(k, v) \<in> set (model_content m). k \<le> max_key (model_format m) \<and> length v \<le> max_value_len (model_format m))
     \<and> ratio_used (model_capacity m) \<le> ratio_total (model_capacity m)"

abbreviation words_used :: "format \<Rightarrow> (nat, bytes) btree \<Rightarrow> nat" where
  "words_used fmt content \<equiv> sum_list (map (\<lambda>(k, v). entry_size fmt v) content)"

lemma words_used_insert: "words_used fmt (btree_insert k v c) \<le> words_used fmt c + entry_size fmt v"
  by (induction c) auto

lemma words_used_filter: "words_used fmt (filter P c) \<le> words_used fmt c"
  by (induction c) auto

lemma words_used_update: "words_used fmt (apply_update u c) \<le> words_used fmt c + update_capacity fmt u"
proof (cases u)
  case (Remove key)
  then show ?thesis using words_used_filter [of fmt "\<lambda>(k, v). k \<noteq> key" c] by simp
qed (simp add: words_used_insert)

lemma words_used_fold:
  "words_used fmt (fold apply_update us c) \<le> words_used fmt c + sum_list (map (update_capacity fmt) us)"
proof (induction us arbitrary: c)
  case (Cons u us)
  have "words_used fmt (fold apply_update us (apply_update u c))
      \<le> words_used fmt (apply_update u c) + sum_list (map (update_capacity fmt) us)"
    by (rule Cons.IH)
  also have "\<dots> \<le> words_used fmt c + update_capacity fmt u + sum_list (map (update_capacity fmt) us)"
    using words_used_update by simp
  finally show ?case by (simp add: ac_simps)
qed simp

lemma words_used_transaction:
  "words_used fmt (fold apply_update us c) \<le> words_used fmt c + transaction_capacity fmt us"
proof (cases "(fmt, us)" rule: transaction_capacity.cases)
  case (3 fmt key)
  then show ?thesis using words_used_filter [of fmt "\<lambda>(k, v). k \<noteq> key" c] by simp
qed (use words_used_fold [of fmt us c] in auto)

lemma btree_ok_filter: "btree_ok c \<Longrightarrow> btree_ok (filter P c)"
  by (simp add: btree_ok_def sorted_wrt_map sorted_wrt_filter)

lemma btree_ok_update: "btree_ok c \<Longrightarrow> btree_ok (apply_update u c)"
  by (cases u) (simp_all add: btree_ok_insert btree_ok_filter)

lemma btree_ok_fold: "btree_ok c \<Longrightarrow> btree_ok (fold apply_update us c)"
  by (induction us arbitrary: c) (simp_all add: btree_ok_update)

lemma set_btree_insert: "set (btree_insert k v c) \<subseteq> insert (k, v) (set c)"
  by (induction c) (auto split: if_splits)

lemma set_fold_update:
  "set (fold apply_update us c) \<subseteq> set c \<union> {(k, v). Insert k v \<in> set us}"
proof (induction us arbitrary: c)
  case (Cons u us)
  have "set (apply_update u c) \<subseteq> set c \<union> {(k, v). Insert k v = u}"
    using set_btree_insert by (cases u) fastforce+
  with Cons.IH [of "apply_update u c"] show ?case by auto
qed simp

lemma map_of_filter_key: "map_of (filter (\<lambda>(k, v). P k) c) k = (if P k then map_of c k else None)"
  by (induction c) auto

lemma map_of_update:
  "btree_ok c \<Longrightarrow> map_of (apply_update u c) k = (if k = update_key u then update_value u else map_of c k)"
  by (cases u) (simp_all add: map_of_btree_insert map_of_filter_key)

lemma map_of_fold:
  assumes "btree_ok c" and "distinct (map update_key us)"
  shows "map_of (fold apply_update us c) k
    = (case find (\<lambda>u. update_key u = k) us of Some u \<Rightarrow> update_value u | None \<Rightarrow> map_of c k)"
  using assms
proof (induction us arbitrary: c)
  case (Cons u us)
  have "find (\<lambda>u. update_key u = k) us = None" if "update_key u = k"
    using Cons.prems(2) that by (auto simp: find_None_iff image_iff)
  then show ?case
    using Cons.IH [OF btree_ok_update [OF Cons.prems(1)]] Cons.prems
    by (auto simp: map_of_update split: option.splits)
qed simp

lemma model_transaction_ok:
  assumes "model_ok m"
  shows "model_ok (snd (model_transaction us m))"
proof (cases "transaction_valid (model_format m) us = None
    \<or> ratio_remaining (model_capacity m) < transaction_capacity (model_format m) us")
  case True
  with assms show ?thesis by (auto simp: model_transaction_def)
next
  case False
  then obtain keys where keys: "transaction_valid (model_format m) us = Some keys" by auto
  let ?c = "fold apply_update us (model_content m)" and ?f = "model_format m"
  have "words_used ?f ?c \<le> words_used ?f (model_content m) + transaction_capacity ?f us"
    by (rule words_used_transaction)
  then have "words_used ?f ?c \<le> total_capacity ?f"
    using False assms unfolding ratio_remaining_def model_capacity_def model_ok_def by auto
  moreover have "k \<le> max_key ?f \<and> length v \<le> max_value_len ?f" if "(k, v) \<in> set ?c" for k v
  proof -
    from that set_fold_update [of us "model_content m"]
    consider "(k, v) \<in> set (model_content m)" | "Insert k v \<in> set us" by blast
    then show ?thesis
    proof cases
      case 1
      with assms show ?thesis by (auto simp: model_ok_def)
    next
      case 2
      then show ?thesis using transaction_valid_bounds [OF keys] by fastforce
    qed
  qed
  ultimately show ?thesis
    using False assms btree_ok_fold [of "model_content m" us]
    by (auto simp: model_transaction_def model_ok_def model_capacity_def)
qed

lemma model_clear_ok: "model_ok m \<Longrightarrow> model_ok (snd (model_clear k m))"
  using words_used_filter [of "model_format m" "\<lambda>(j, v). j < k" "model_content m"]
  by (auto simp: model_clear_def model_ok_def model_capacity_def btree_ok_filter)

text \<open>
  C27. Every operation of the abstract store keeps its invariant, also when it fails: keys and
  values in range, no key twice, and never more words used than the capacity. An operation that
  fails leaves the content as it was.
\<close>

theorem model_apply_invariant:
  assumes "model_ok m"
  shows "model_ok (snd (model_apply op m))
    \<and> (\<forall>e. fst (model_apply op m) = Inl e \<longrightarrow> snd (model_apply op m) = m)"
proof (cases op)
  case (Transaction us)
  with model_transaction_ok [OF assms] show ?thesis by (simp add: model_transaction_def)
next
  case (Clear k)
  with model_clear_ok [OF assms] show ?thesis by (simp add: model_clear_def)
next
  case (Prepare n)
  with assms show ?thesis by (simp add: model_prepare_def)
qed

theorem model_apply_invariant_witness:
  "model_ok (snd (model_apply (Transaction [Insert 1 [2], Insert 3 [4]]) (model_new nrf52840_format)))"
proof -
  have "model_ok (model_new nrf52840_format)" by (simp add: model_ok_def model_new_def model_capacity_def)
  from model_apply_invariant [OF this] show ?thesis by blast
qed

text \<open>
  C28. A transaction that succeeds acts as all its updates at once: a key it inserts holds the
  inserted value, a key it removes is absent, every other key is as before; clearing removes
  exactly the keys from the given one on.
\<close>

theorem model_apply_lookup:
  assumes "model_ok m"
  shows "(fst (model_apply (Transaction us) m) = Inr () \<longrightarrow>
      map_of (model_content (snd (model_apply (Transaction us) m))) k
      = (case find (\<lambda>u. update_key u = k) us of
           Some (Insert _ v) \<Rightarrow> Some v | Some (Remove _) \<Rightarrow> None | None \<Rightarrow> map_of (model_content m) k))
    \<and> (fst (model_apply (Clear min_key) m) = Inr () \<longrightarrow>
      map_of (model_content (snd (model_apply (Clear min_key) m))) k
      = (if k < min_key then map_of (model_content m) k else None))"
proof (intro conjI impI)
  assume a: "fst (model_apply (Transaction us) m) = Inr ()"
  then obtain keys where "transaction_valid (model_format m) us = Some keys"
    by (auto simp: model_transaction_def split: if_splits)
  then have "distinct (map update_key us)" by (rule transaction_valid_bounds(3))
  from map_of_fold [OF _ this, of "model_content m" k] a assms
  show "map_of (model_content (snd (model_apply (Transaction us) m))) k
      = (case find (\<lambda>u. update_key u = k) us of
           Some (Insert _ v) \<Rightarrow> Some v | Some (Remove _) \<Rightarrow> None | None \<Rightarrow> map_of (model_content m) k)"
    by (auto simp: model_transaction_def model_ok_def split: if_splits option.splits store_update.splits)
next
  assume "fst (model_apply (Clear min_key) m) = Inr ()"
  then show "map_of (model_content (snd (model_apply (Clear min_key) m))) k
      = (if k < min_key then map_of (model_content m) k else None)"
    by (auto simp: model_clear_def map_of_filter_key split: if_splits)
qed

theorem model_apply_lookup_witness:
  "fst (model_apply (Transaction [Insert 1 [2], Remove 3]) (model_new nrf52840_format)) = Inr ()
   \<and> map_of (model_content (snd (model_apply (Transaction [Insert 1 [2], Remove 3]) (model_new nrf52840_format)))) 1
      = Some [2]"
proof -
  have ok: "model_ok (model_new nrf52840_format)" by (simp add: model_ok_def model_new_def model_capacity_def)
  have "transaction_valid nrf52840_format [Insert 1 [2], Remove 3] = Some [1, 3]"
    by (simp add: transaction_valid_Some max_key_def max_value_len_def virt_page_size_def fmt_word_size_def
        nrf52840_format_def format_consts)
  then have run: "fst (model_apply (Transaction [Insert 1 [2], Remove 3]) (model_new nrf52840_format)) = Inr ()"
    by (simp add: model_transaction_def model_new_def model_capacity_def ratio_remaining_def total_capacity_def
        virt_size_def max_prefix_len_def bytes_to_words_def div_ceil_def max_value_len_def virt_page_size_def
        fmt_word_size_def nrf52840_format_def format_consts entry_size_def)
  with model_apply_lookup [OF ok, of "[Insert 1 [2], Remove 3]" 1 0] show ?thesis by simp
qed

end
