(* ===== verification/Store_Read.thy ===== *)
theory Store_Read
  imports Store_Model
begin

text \<open>
  The read-only part of the store (\<open>libraries/persistent_store/src/store.rs\<close>): reading the
  storage, parsing entries, finding head and tail, capacity, lifetime, iteration and lookup. Every
  function takes the operations of the storage, the format and the state of the storage; a result
  \<open>Panic\<close> is a failed \<open>unwrap\<close> or an \<open>unreachable!\<close>.
\<close>

text \<open>\<open>From<StorageError> for StoreError\<close>.\<close>

fun from_storage :: "(storage_error, 'a) outcome \<Rightarrow> (store_error, 'a) outcome" where
  "from_storage (Ok x) = Ok x"
| "from_storage (Err CustomError) = Err StorageFailure"
| "from_storage (Err NotAligned) = Panic"
| "from_storage (Err OutOfBounds) = Panic"
| "from_storage Panic = Panic"

section \<open>Reading\<close>

definition storage_read_slice :: "'s storage_ops \<Rightarrow> 's \<Rightarrow> storage_index \<Rightarrow> nat \<Rightarrow> (store_error, bytes) outcome" where
  "storage_read_slice ops s index len =
     (case sto_read_slice ops s index len of Ok bs \<Rightarrow> Ok bs | Err _ \<Rightarrow> Panic | Panic \<Rightarrow> Panic)"

definition read_page :: "'s storage_ops \<Rightarrow> format \<Rightarrow> 's \<Rightarrow> nat \<Rightarrow> (store_error, bytes) outcome" where
  "read_page ops fmt s page = storage_read_slice ops s \<lparr>si_page = page, si_byte = 0\<rparr> (fmt_page_size fmt)"

definition read_word :: "'s storage_ops \<Rightarrow> format \<Rightarrow> 's \<Rightarrow> position \<Rightarrow> (store_error, bytes) outcome" where
  "read_word ops fmt s pos = storage_read_slice ops s (pos_index fmt pos) (fmt_word_size fmt)"

definition read_slice :: "'s storage_ops \<Rightarrow> format \<Rightarrow> 's \<Rightarrow> position \<Rightarrow> nat \<Rightarrow> (store_error, bytes) outcome" where
  "read_slice ops fmt s pos len =
     (let index = pos_index fmt pos; max_length = fmt_page_size fmt - si_byte index in
      obind (storage_read_slice ops s index (min len max_length)) (\<lambda>result.
        if len > max_length then
          obind (storage_read_slice ops s (pos_index fmt (pos_next_page fmt pos)) (len - max_length)) (\<lambda>rest.
            Ok (result @ rest))
        else Ok result))"

definition store_parse_init :: "'s storage_ops \<Rightarrow> format \<Rightarrow> 's \<Rightarrow> nat \<Rightarrow> (store_error, init_info word_state) outcome" where
  "store_parse_init ops fmt s page =
     obind (storage_read_slice ops s (index_init fmt page) (fmt_word_size fmt)) (\<lambda>w.
       lift (parse_init fmt (word_from_slice w)))"

definition store_parse_compact :: "'s storage_ops \<Rightarrow> format \<Rightarrow> 's \<Rightarrow> nat \<Rightarrow> (store_error, compact_info word_state) outcome" where
  "store_parse_compact ops fmt s page =
     obind (storage_read_slice ops s (index_compact fmt page) (fmt_word_size fmt)) (\<lambda>w.
       lift (parse_compact fmt (word_from_slice w)))"

definition store_parse_word :: "'s storage_ops \<Rightarrow> format \<Rightarrow> 's \<Rightarrow> position \<Rightarrow> (store_error, parsed_word word_state) outcome" where
  "store_parse_word ops fmt s pos =
     obind (read_word ops fmt s pos) (\<lambda>w. lift (parse_word fmt (word_from_slice w)))"

section \<open>Entries\<close>

datatype parsed_entry =
    PaddingEntry
  | UserEntry header
  | InternalEntry internal_entry
  | PartialUserEntry
  | PartialEntry
  | TailEntry

fun partial_loop :: "'s storage_ops \<Rightarrow> format \<Rightarrow> 's \<Rightarrow> position \<Rightarrow> nat list \<Rightarrow> nat option \<Rightarrow> (store_error, nat option) outcome" where
  "partial_loop ops fmt s pos [] len = Ok len"
| "partial_loop ops fmt s pos (i # is) len =
     obind (read_word ops fmt s (pos + i)) (\<lambda>w.
       partial_loop ops fmt s pos is (if \<not> is_erased w then Some i else len))"

definition parse_partial :: "'s storage_ops \<Rightarrow> format \<Rightarrow> 's \<Rightarrow> position \<Rightarrow> (store_error, parsed_entry \<times> position) outcome" where
  "parse_partial ops fmt s pos =
     obind (partial_loop ops fmt s pos [0..<max_prefix_len fmt] None) (\<lambda>len.
       case len of
         None \<Rightarrow> Ok (TailEntry, pos)
       | Some len \<Rightarrow> Ok (PartialEntry, pos + 1 + len))"

definition parse_user :: "'s storage_ops \<Rightarrow> format \<Rightarrow> 's \<Rightarrow> position \<Rightarrow> header \<Rightarrow> (store_error, parsed_entry \<times> position) outcome" where
  "parse_user ops fmt s pos h =
     (if hdr_length h > max_value_len fmt then parse_partial ops fmt s pos
      else
        (let len = bytes_to_words fmt (hdr_length h) in
         obind (if len = 0 then Ok None else obind (read_word ops fmt s (pos + len)) (\<lambda>w. Ok (Some w))) (\<lambda>footer.
           if header_check h footer then
             (if hdr_key h > max_key fmt then Err InvalidStorage else Ok (UserEntry h, pos + 1 + len))
           else if (case footer of None \<Rightarrow> True | Some x \<Rightarrow> is_erased x) then parse_partial ops fmt s pos
           else Ok (PartialUserEntry, pos + 1 + len))))"

definition parse_entry :: "'s storage_ops \<Rightarrow> format \<Rightarrow> 's \<Rightarrow> position \<Rightarrow> (store_error, parsed_entry \<times> position) outcome" where
  "parse_entry ops fmt s pos =
     obind (store_parse_word ops fmt s pos) (\<lambda>state.
       case state of
         Erased \<Rightarrow> parse_partial ops fmt s pos
       | Partial \<Rightarrow> parse_partial ops fmt s pos
       | Valid (PaddingWord len) \<Rightarrow> Ok (PaddingEntry, pos + 1 + len)
       | Valid (HeaderWord h) \<Rightarrow> parse_user ops fmt s pos h
       | Valid (InternalWord internal) \<Rightarrow> Ok (InternalEntry internal, pos + 1))"

lemma parse_partial_progress:
  "parse_partial ops fmt s pos = Ok (e, pos') \<Longrightarrow> e \<noteq> TailEntry \<Longrightarrow> pos < pos'"
  by (auto simp: parse_partial_def obind_eq_Ok split: option.splits)

lemma parse_user_progress:
  assumes "parse_user ops fmt s pos h = Ok (e, pos')" and "e \<noteq> TailEntry"
  shows "pos < pos'"
proof (cases "parse_partial ops fmt s pos = Ok (e, pos')")
  case True
  then show ?thesis using assms(2) by (rule parse_partial_progress)
next
  case False
  with assms(1) show ?thesis
    by (auto simp: parse_user_def obind_eq_Ok Let_def split: if_splits)
qed

lemma parse_entry_progress:
  assumes "parse_entry ops fmt s pos = Ok (e, pos')" and "e \<noteq> TailEntry"
  shows "pos < pos'"
proof -
  from assms(1) obtain w where w: "store_parse_word ops fmt s pos = Ok w" by (auto simp: parse_entry_def obind_eq_Ok)
  show ?thesis
  proof (cases w)
    case (Valid pw)
    with w assms parse_user_progress show ?thesis by (cases pw) (auto simp: parse_entry_def)
  qed (use w assms parse_partial_progress in \<open>auto simp: parse_entry_def\<close>)
qed

section \<open>Head and tail\<close>

fun extremum_loop :: "'s storage_ops \<Rightarrow> format \<Rightarrow> 's \<Rightarrow> ordering \<Rightarrow> nat list \<Rightarrow> position option \<Rightarrow> (store_error, position option) outcome" where
  "extremum_loop ops fmt s ord [] best = Ok best"
| "extremum_loop ops fmt s ord (page # pages) best =
     obind (store_parse_init ops fmt s page) (\<lambda>state.
       case state of
         Valid init \<Rightarrow>
           (let pos = page_head fmt init page in
            extremum_loop ops fmt s ord pages
              (if (case best of None \<Rightarrow> True | Some x \<Rightarrow> lin_cmp pos x = ord) then Some pos else best))
       | _ \<Rightarrow> extremum_loop ops fmt s ord pages best)"

definition get_extremum_page_head :: "'s storage_ops \<Rightarrow> format \<Rightarrow> 's \<Rightarrow> ordering \<Rightarrow> (store_error, position) outcome" where
  "get_extremum_page_head ops fmt s ord =
     obind (extremum_loop ops fmt s ord [0..<fmt_num_pages fmt] None) (\<lambda>best.
       case best of None \<Rightarrow> Err InvalidStorage | Some pos \<Rightarrow> Ok pos)"

definition head :: "'s storage_ops \<Rightarrow> format \<Rightarrow> 's \<Rightarrow> (store_error, position) outcome" where
  "head ops fmt s = get_extremum_page_head ops fmt s Less"

function tail_loop :: "'s storage_ops \<Rightarrow> format \<Rightarrow> 's \<Rightarrow> position \<Rightarrow> position \<Rightarrow> (store_error, position) outcome" where
  "tail_loop ops fmt s pos end_pos =
     (if pos < end_pos then
        (case parse_entry ops fmt s pos of
           Ok (e, pos') \<Rightarrow> if e = TailEntry then Ok pos' else tail_loop ops fmt s pos' end_pos
         | Err e \<Rightarrow> Err e
         | Panic \<Rightarrow> Panic)
      else Ok pos)"
  by pat_completeness auto
termination
  by (relation "measure (\<lambda>(ops, fmt, s, pos, end_pos). end_pos - pos)") (auto dest: parse_entry_progress)

declare tail_loop.simps [simp del]

definition tail :: "'s storage_ops \<Rightarrow> format \<Rightarrow> 's \<Rightarrow> (store_error, position) outcome" where
  "tail ops fmt s =
     obind (get_extremum_page_head ops fmt s Greater) (\<lambda>pos.
       tail_loop ops fmt s pos (pos_next_page fmt pos))"

definition immediate_capacity :: "'s storage_ops \<Rightarrow> format \<Rightarrow> 's \<Rightarrow> (store_error, nat) outcome" where
  "immediate_capacity ops fmt s =
     obind (tail ops fmt s) (\<lambda>tail.
     obind (head ops fmt s) (\<lambda>head.
       Ok (head + virt_size fmt - tail)))"

section \<open>Capacity and lifetime\<close>

function capacity_loop :: "'s storage_ops \<Rightarrow> format \<Rightarrow> 's \<Rightarrow> position \<Rightarrow> position \<Rightarrow> nat \<Rightarrow> (store_error, nat) outcome" where
  "capacity_loop ops fmt s pos end_pos used =
     (if pos < end_pos then
        (case parse_entry ops fmt s pos of
           Ok (e, pos') \<Rightarrow>
             if e = TailEntry then Ok used
             else (case e of
                     PaddingEntry \<Rightarrow> capacity_loop ops fmt s pos' end_pos used
                   | UserEntry _ \<Rightarrow> capacity_loop ops fmt s pos' end_pos (used + (pos' - pos))
                   | _ \<Rightarrow> Err InvalidStorage)
         | Err e \<Rightarrow> Err e
         | Panic \<Rightarrow> Panic)
      else Ok used)"
  by pat_completeness auto
termination
  by (relation "measure (\<lambda>(ops, fmt, s, pos, end_pos, used). end_pos - pos)") (auto dest: parse_entry_progress)

declare capacity_loop.simps [simp del]

definition capacity :: "'s storage_ops \<Rightarrow> format \<Rightarrow> 's \<Rightarrow> (store_error, store_ratio) outcome" where
  "capacity ops fmt s =
     obind (head ops fmt s) (\<lambda>pos.
     obind (capacity_loop ops fmt s pos (pos + virt_size fmt) 0) (\<lambda>used.
       Ok \<lparr>ratio_used = used, ratio_total = total_capacity fmt\<rparr>))"

definition lifetime :: "'s storage_ops \<Rightarrow> format \<Rightarrow> 's \<Rightarrow> (store_error, store_ratio) outcome" where
  "lifetime ops fmt s =
     obind (tail ops fmt s) (\<lambda>used.
       Ok \<lparr>ratio_used = used, ratio_total = total_lifetime fmt\<rparr>)"

section \<open>Iteration and lookup\<close>

record store_handle =
  sh_key :: nat
  sh_pos :: position
  sh_len :: nat

record store_iter =
  iter_pos :: position
  iter_end :: position

definition iter_new :: "'s storage_ops \<Rightarrow> format \<Rightarrow> 's \<Rightarrow> (store_error, store_iter) outcome" where
  "iter_new ops fmt s =
     obind (head ops fmt s) (\<lambda>pos. Ok \<lparr>iter_pos = pos, iter_end = pos + virt_size fmt\<rparr>)"

function transposed_next :: "'s storage_ops \<Rightarrow> format \<Rightarrow> 's \<Rightarrow> position \<Rightarrow> position \<Rightarrow> (store_error, store_handle option \<times> position) outcome" where
  "transposed_next ops fmt s pos end_pos =
     (if pos < end_pos then
        (case parse_entry ops fmt s pos of
           Ok (e, pos') \<Rightarrow>
             if e = TailEntry then Ok (None, end_pos)
             else (case e of
                     PaddingEntry \<Rightarrow> transposed_next ops fmt s pos' end_pos
                   | UserEntry h \<Rightarrow>
                       Ok (Some \<lparr>sh_key = hdr_key h, sh_pos = pos, sh_len = hdr_length h\<rparr>, pos')
                   | _ \<Rightarrow> Err InvalidStorage)
         | Err e \<Rightarrow> Err e
         | Panic \<Rightarrow> Panic)
      else Ok (None, end_pos))"
  by pat_completeness auto
termination
  by (relation "measure (\<lambda>(ops, fmt, s, pos, end_pos). end_pos - pos)") (auto dest: parse_entry_progress)

declare transposed_next.simps [simp del]

lemma transposed_next_progress:
  "transposed_next ops fmt s pos end_pos = Ok (Some h, pos') \<Longrightarrow> pos < pos' \<and> pos < end_pos"
proof (induction ops fmt s pos end_pos rule: transposed_next.induct)
  case (1 ops fmt s pos end_pos)
  from "1.prems" have less: "pos < end_pos" by (auto simp: transposed_next.simps [of ops fmt s pos] split: if_splits)
  with "1.prems" obtain e p where p: "parse_entry ops fmt s pos = Ok (e, p)" "e \<noteq> TailEntry"
    by (auto simp: transposed_next.simps [of ops fmt s pos] split: outcome.splits if_splits)
  with "1.prems" less "1.IH" [OF less p(1) refl p(2)] parse_entry_progress [OF p] show ?case
    by (auto simp: transposed_next.simps [of ops fmt s pos] split: parsed_entry.splits)
qed

text \<open>All handles the iterator yields, and the first error.\<close>

function iter_loop :: "'s storage_ops \<Rightarrow> format \<Rightarrow> 's \<Rightarrow> position \<Rightarrow> position \<Rightarrow> (store_error, store_handle list) outcome" where
  "iter_loop ops fmt s pos end_pos =
     (case transposed_next ops fmt s pos end_pos of
        Ok (Some h, pos') \<Rightarrow> obind (iter_loop ops fmt s pos' end_pos) (\<lambda>hs. Ok (h # hs))
      | Ok (None, pos') \<Rightarrow> Ok []
      | Err e \<Rightarrow> Err e
      | Panic \<Rightarrow> Panic)"
  by pat_completeness auto
termination
  by (relation "measure (\<lambda>(ops, fmt, s, pos, end_pos). end_pos - pos)") (auto dest: transposed_next_progress)

declare iter_loop.simps [simp del]

function find_loop :: "'s storage_ops \<Rightarrow> format \<Rightarrow> 's \<Rightarrow> nat \<Rightarrow> position \<Rightarrow> position \<Rightarrow> (store_error, store_handle option) outcome" where
  "find_loop ops fmt s key pos end_pos =
     (case transposed_next ops fmt s pos end_pos of
        Ok (Some h, pos') \<Rightarrow> if sh_key h = key then Ok (Some h) else find_loop ops fmt s key pos' end_pos
      | Ok (None, pos') \<Rightarrow> Ok None
      | Err e \<Rightarrow> Err e
      | Panic \<Rightarrow> Panic)"
  by pat_completeness auto
termination
  by (relation "measure (\<lambda>(ops, fmt, s, key, pos, end_pos). end_pos - pos)") (auto dest: transposed_next_progress)

declare find_loop.simps [simp del]

definition find_handle :: "'s storage_ops \<Rightarrow> format \<Rightarrow> 's \<Rightarrow> nat \<Rightarrow> (store_error, store_handle option) outcome" where
  "find_handle ops fmt s key =
     obind (iter_new ops fmt s) (\<lambda>it. find_loop ops fmt s key (iter_pos it) (iter_end it))"

definition check_handle :: "'s storage_ops \<Rightarrow> format \<Rightarrow> 's \<Rightarrow> store_handle \<Rightarrow> (store_error, unit) outcome" where
  "check_handle ops fmt s h =
     obind (head ops fmt s) (\<lambda>head. if sh_pos h < head then Err InvalidArgument else Ok ())"

definition get_value :: "'s storage_ops \<Rightarrow> format \<Rightarrow> 's \<Rightarrow> store_handle \<Rightarrow> (store_error, bytes) outcome" where
  "get_value ops fmt s h =
     obind (check_handle ops fmt s h) (\<lambda>_.
     obind (parse_entry ops fmt s (sh_pos h)) (\<lambda>(e, _).
       case e of
         UserEntry hdr \<Rightarrow>
           obind (read_slice ops fmt s (sh_pos h + 1) (hdr_length hdr)) (\<lambda>result.
             if hdr_flipped hdr then
               (if result = [] then Panic else Ok (result[length result - 1 := 0xff]))
             else Ok result)
       | PaddingEntry \<Rightarrow> Err InvalidArgument
       | _ \<Rightarrow> Err InvalidStorage))"

definition store_find :: "'s storage_ops \<Rightarrow> format \<Rightarrow> 's \<Rightarrow> nat \<Rightarrow> (store_error, bytes option) outcome" where
  "store_find ops fmt s key =
     obind (find_handle ops fmt s key) (\<lambda>h.
       case h of
         None \<Rightarrow> Ok None
       | Some h \<Rightarrow> obind (get_value ops fmt s h) (\<lambda>v. Ok (Some v)))"

end
