(* ===== verification/Buffer_Storage.thy ===== *)
theory Buffer_Storage
  imports Storage
begin

text \<open>
  The storage simulated in memory (\<open>libraries/persistent_store/src/buffer.rs\<close>): it counts word
  writes and page erasures, checks in strict mode that bits are only cleared, and can interrupt an
  operation and apply it in part. It is shown to be a \<open>flash\<close> in the sense of the storage
  interface. A failed assertion is \<^const>\<open>None\<close> or \<open>Panic\<close>.
\<close>

record buffer_options =
  bo_word_size :: nat
  bo_page_size :: nat
  bo_max_word_writes :: nat
  bo_max_page_erases :: nat
  bo_strict_mode :: bool

datatype buffer_operation =
    BufferWrite storage_index bytes
  | BufferErase nat

datatype interruption = Ready | Armed nat | Saved buffer_operation

record buffer_storage =
  buf_storage :: bytes
  buf_options :: buffer_options
  buf_word_writes :: "nat list"
  buf_page_erases :: "nat list"
  buf_interruption :: interruption

fun interruption_arm :: "nat \<Rightarrow> interruption \<Rightarrow> interruption option" where
  "interruption_arm delay Ready = Some (Armed delay)"
| "interruption_arm delay _ = None"

text \<open>\<open>get\<close> always leaves \<open>Ready\<close>; its result is the saved operation or the delay.\<close>

fun interruption_get :: "interruption \<Rightarrow> (nat + buffer_operation) option" where
  "interruption_get (Armed delay) = Some (Inl delay)"
| "interruption_get (Saved operation) = Some (Inr operation)"
| "interruption_get Ready = None"

fun interruption_tick :: "buffer_operation \<Rightarrow> interruption \<Rightarrow> (storage_error, unit) outcome \<times> interruption" where
  "interruption_tick operation Ready = (Ok (), Ready)"
| "interruption_tick operation (Armed delay) =
     (if delay = 0 then (Err CustomError, Saved operation) else (Ok (), Armed (delay - 1)))"
| "interruption_tick operation (Saved saved) = (Panic, Saved saved)"

definition buf_num_pages :: "buffer_storage \<Rightarrow> nat" where
  "buf_num_pages b = length (buf_storage b) div bo_page_size (buf_options b)"

definition is_word_aligned :: "buffer_storage \<Rightarrow> nat \<Rightarrow> bool" where
  "is_word_aligned b x \<longleftrightarrow> x AND (bo_word_size (buf_options b) - 1) = 0"

definition is_page_aligned :: "buffer_storage \<Rightarrow> nat \<Rightarrow> bool" where
  "is_page_aligned b x \<longleftrightarrow> x AND (bo_page_size (buf_options b) - 1) = 0"

definition is_power_of_two :: "nat \<Rightarrow> bool" where
  "is_power_of_two n \<longleftrightarrow> n > 0 \<and> n AND (n - 1) = 0"

definition buffer_new :: "bytes \<Rightarrow> buffer_options \<Rightarrow> buffer_storage option" where
  "buffer_new storage options =
     (if \<not> is_power_of_two (bo_word_size options) \<or> \<not> is_power_of_two (bo_page_size options) then None
      else
        (let num_words = length storage div bo_word_size options;
             num_pages = length storage div bo_page_size options;
             buffer = \<lparr>buf_storage = storage, buf_options = options, buf_word_writes = replicate num_words 0,
                       buf_page_erases = replicate num_pages 0, buf_interruption = Ready\<rparr>
         in if is_word_aligned buffer (bo_page_size options) \<and> is_page_aligned buffer (length storage)
            then Some buffer else None))"

definition buffer_range :: "buffer_storage \<Rightarrow> buffer_operation \<Rightarrow> storage_error + nat" where
  "buffer_range b operation =
     (case operation of
        BufferWrite index bs \<Rightarrow> index_range index (length bs) (bo_page_size (buf_options b)) (buf_num_pages b)
      | BufferErase page \<Rightarrow>
          index_range \<lparr>si_page = page, si_byte = 0\<rparr> (bo_page_size (buf_options b))
            (bo_page_size (buf_options b)) (buf_num_pages b))"

definition buffer_read_slice :: "buffer_storage \<Rightarrow> storage_index \<Rightarrow> nat \<Rightarrow> (storage_error, bytes) outcome" where
  "buffer_read_slice b index len =
     (case index_range index len (bo_page_size (buf_options b)) (buf_num_pages b) of
        Inl e \<Rightarrow> Err e
      | Inr start \<Rightarrow> Ok (take len (drop start (buf_storage b))))"

definition word_at :: "nat \<Rightarrow> bytes \<Rightarrow> nat \<Rightarrow> bytes" where
  "word_at word_size bs i = take word_size (drop (i * word_size) bs)"

definition incr_word_write :: "buffer_storage \<Rightarrow> nat \<Rightarrow> bytes \<Rightarrow> bytes \<Rightarrow> nat \<Rightarrow> nat list \<Rightarrow> nat list option" where
  "incr_word_write b index val complete i word_writes =
     (let ws = bo_word_size (buf_options b) in
      if word_at ws val i \<noteq> word_at ws complete i then Some word_writes
      else if word_at ws val i = word_at ws (drop index (buf_storage b)) i then Some word_writes
      else
        (let w = index div ws + i in
         if bo_strict_mode (buf_options b) \<and> \<not> word_writes ! w < bo_max_word_writes (buf_options b) then None
         else Some (word_writes[w := word_writes ! w + 1])))"

fun incr_word_writes_loop :: "buffer_storage \<Rightarrow> nat \<Rightarrow> bytes \<Rightarrow> bytes \<Rightarrow> nat list \<Rightarrow> nat list \<Rightarrow> nat list option" where
  "incr_word_writes_loop b index val complete [] word_writes = Some word_writes"
| "incr_word_writes_loop b index val complete (i # is) word_writes =
     Option.bind (incr_word_write b index val complete i word_writes)
       (incr_word_writes_loop b index val complete is)"

definition incr_word_writes :: "nat \<Rightarrow> bytes \<Rightarrow> bytes \<Rightarrow> buffer_storage \<Rightarrow> buffer_storage option" where
  "incr_word_writes index val complete b =
     map_option (\<lambda>ww. b\<lparr>buf_word_writes := ww\<rparr>)
       (incr_word_writes_loop b index val complete [0..<length val div bo_word_size (buf_options b)]
          (buf_word_writes b))"

definition incr_page_erases :: "nat \<Rightarrow> buffer_storage \<Rightarrow> buffer_storage option" where
  "incr_page_erases page b =
     (if bo_strict_mode (buf_options b) \<and> \<not> buf_page_erases b ! page < bo_max_page_erases (buf_options b)
      then None
      else
        (let num_words = bo_page_size (buf_options b) div bo_word_size (buf_options b) in
         Some (b\<lparr>buf_page_erases := (buf_page_erases b)[page := buf_page_erases b ! page + 1],
                 buf_word_writes := fold (\<lambda>w ww. ww[page * num_words + w := 0]) [0..<num_words] (buf_word_writes b)\<rparr>)))"

definition copy_at :: "nat \<Rightarrow> bytes \<Rightarrow> bytes \<Rightarrow> bytes" where
  "copy_at start bs storage = take start storage @ bs @ drop (start + length bs) storage"

definition buffer_write_slice :: "buffer_storage \<Rightarrow> storage_index \<Rightarrow> bytes \<Rightarrow> (storage_error, unit) outcome \<times> buffer_storage" where
  "buffer_write_slice b index val =
     (if \<not> is_word_aligned b (si_byte index) \<or> \<not> is_word_aligned b (length val) then (Err NotAligned, b)
      else (case buffer_range b (BufferWrite index val) of
        Inl e \<Rightarrow> (Err e, b)
      | Inr start \<Rightarrow>
          (case interruption_tick (BufferWrite index val) (buf_interruption b) of
             (Err e, i) \<Rightarrow> (Err e, b\<lparr>buf_interruption := i\<rparr>)
           | (Panic, i) \<Rightarrow> (Panic, b\<lparr>buf_interruption := i\<rparr>)
           | (Ok _, i) \<Rightarrow>
               (case incr_word_writes start val val (b\<lparr>buf_interruption := i\<rparr>) of
                  None \<Rightarrow> (Panic, b)
                | Some b' \<Rightarrow>
                    if bo_strict_mode (buf_options b)
                       \<and> \<not> list_all2 (\<lambda>old new. old AND new = new) (take (length val) (drop start (buf_storage b))) val
                    then (Panic, b')
                    else (Ok (), b'\<lparr>buf_storage := copy_at start val (buf_storage b')\<rparr>)))))"

definition buffer_erase_page :: "buffer_storage \<Rightarrow> nat \<Rightarrow> (storage_error, unit) outcome \<times> buffer_storage" where
  "buffer_erase_page b page =
     (case buffer_range b (BufferErase page) of
        Inl e \<Rightarrow> (Err e, b)
      | Inr start \<Rightarrow>
          (case interruption_tick (BufferErase page) (buf_interruption b) of
             (Err e, i) \<Rightarrow> (Err e, b\<lparr>buf_interruption := i\<rparr>)
           | (Panic, i) \<Rightarrow> (Panic, b\<lparr>buf_interruption := i\<rparr>)
           | (Ok _, i) \<Rightarrow>
               (case incr_page_erases page (b\<lparr>buf_interruption := i\<rparr>) of
                  None \<Rightarrow> (Panic, b)
                | Some b' \<Rightarrow>
                    (Ok (), b'\<lparr>buf_storage := copy_at start (replicate (bo_page_size (buf_options b)) 0xff) (buf_storage b')\<rparr>))))"

text \<open>
  \<open>corrupt_operation\<close> applies an interrupted operation in part; \<open>corrupt before after\<close> is what the
  corruption function makes of the bytes before, given the bytes after.
\<close>

definition corrupt_operation :: "(bytes \<Rightarrow> bytes \<Rightarrow> bytes) \<Rightarrow> buffer_storage \<Rightarrow> buffer_storage option" where
  "corrupt_operation corrupt b =
     (case interruption_get (buf_interruption b) of
        Some (Inr operation) \<Rightarrow>
          (let b = b\<lparr>buf_interruption := Ready\<rparr> in
           case buffer_range b operation of
             Inl _ \<Rightarrow> None
           | Inr start \<Rightarrow>
               (case operation of
                  BufferWrite index after \<Rightarrow>
                    (let before = corrupt (take (length after) (drop start (buf_storage b))) after in
                     map_option (\<lambda>b. b\<lparr>buf_storage := copy_at start before (buf_storage b)\<rparr>)
                       (incr_word_writes start before after b))
                | BufferErase page \<Rightarrow>
                    (let after = replicate (bo_page_size (buf_options b)) 0xff;
                         before = corrupt (take (length after) (drop start (buf_storage b))) after in
                     map_option (\<lambda>b. b\<lparr>buf_storage := copy_at start before (buf_storage b)\<rparr>)
                       (if before = after then incr_page_erases page b else Some b))))
      | _ \<Rightarrow> None)"

definition buffer_ops :: "buffer_storage storage_ops" where
  "buffer_ops = \<lparr>sto_word_size = (\<lambda>b. bo_word_size (buf_options b)),
     sto_page_size = (\<lambda>b. bo_page_size (buf_options b)),
     sto_num_pages = buf_num_pages,
     sto_max_word_writes = (\<lambda>b. bo_max_word_writes (buf_options b)),
     sto_max_page_erases = (\<lambda>b. bo_max_page_erases (buf_options b)),
     sto_read_slice = buffer_read_slice,
     sto_write_slice = buffer_write_slice,
     sto_erase_page = buffer_erase_page\<rparr>"

section \<open>The buffer is a flash storage\<close>

definition buffer_inv :: "nat \<Rightarrow> nat \<Rightarrow> nat \<Rightarrow> buffer_storage \<Rightarrow> bool" where
  "buffer_inv ws ps n b \<longleftrightarrow> bo_word_size (buf_options b) = ws \<and> bo_page_size (buf_options b) = ps \<and> 0 < ps
     \<and> length (buf_storage b) = n * ps"

definition buffer_content :: "nat \<Rightarrow> buffer_storage \<Rightarrow> nat \<Rightarrow> bytes" where
  "buffer_content ps b p = take ps (drop (p * ps) (buf_storage b))"

lemma buf_num_pages_inv [simp]: "buffer_inv ws ps n b \<Longrightarrow> buf_num_pages b = n"
  by (auto simp: buffer_inv_def buf_num_pages_def)

lemma page_room: "p < n \<Longrightarrow> (p :: nat) * ps + ps \<le> n * ps"
  by (metis add.commute mult_Suc mult_le_mono1 Suc_leI)

lemma index_valid_bounds:
  "index_is_valid i len ps n \<Longrightarrow> si_page i < n \<and> si_byte i + len \<le> ps \<and> si_page i * ps + si_byte i + len \<le> n * ps"
  using page_room [of "si_page i" n ps] by (auto simp: index_is_valid_def)

lemma content_copy_at:
  assumes "length storage = n * ps" and "i < n" and "byte + length v \<le> ps"
  shows "take ps (drop (p * ps) (copy_at (i * ps + byte) v storage)) =
    (if p = i then take byte (take ps (drop (i * ps) storage)) @ v
        @ drop (byte + length v) (take ps (drop (i * ps) storage))
     else take ps (drop (p * ps) storage))"
proof -
  let ?s = "i * ps + byte"
  have room: "i * ps + ps \<le> n * ps" using assms(2) by (rule page_room)
  then have s: "?s + length v \<le> length storage" using assms by simp
  consider "p = i" | "p < i" | "i < p" by linarith
  then show ?thesis
  proof cases
    case 1
    have "drop (i * ps) (copy_at ?s v storage) = take byte (drop (i * ps) storage) @ v @ drop (?s + length v) storage"
      using s by (simp add: copy_at_def drop_take)
    moreover have "length (take byte (drop (i * ps) storage)) = byte" using assms(1,3) room by simp
    moreover have "take byte (take ps (drop (i * ps) storage)) = take byte (drop (i * ps) storage)"
      using assms(3) by (simp add: min_absorb1)
    moreover have "drop (byte + length v) (take ps (drop (i * ps) storage))
        = take (ps - (byte + length v)) (drop (?s + length v) storage)"
      by (simp add: drop_take ac_simps)
    ultimately show ?thesis using 1 assms(3) by (simp add: diff_diff_left)
  next
    case 2
    then have "p * ps + ps \<le> i * ps" by (rule page_room)
    then have "p * ps + ps \<le> ?s" by simp
    moreover have "length (take ?s storage) = ?s" using s by simp
    ultimately have "take ps (drop (p * ps) (copy_at ?s v storage)) = take ps (drop (p * ps) (take ?s storage))"
      by (simp add: copy_at_def)
    also have "\<dots> = take ps (drop (p * ps) storage)" using \<open>p * ps + ps \<le> ?s\<close> by (simp add: drop_take min_absorb1)
    finally show ?thesis using 2 by simp
  next
    case 3
    then have "i * ps + ps \<le> p * ps" by (rule page_room)
    then have "drop (p * ps) (copy_at ?s v storage) = drop (p * ps) storage"
      using s assms(3) by (simp add: copy_at_def min_def)
    then show ?thesis using 3 by simp
  qed
qed

lemma length_copy_at: "start + length v \<le> length storage \<Longrightarrow> length (copy_at start v storage) = length storage"
  by (simp add: copy_at_def)

lemma incr_word_writes_frame:
  "incr_word_writes index v c b = Some b' \<Longrightarrow>
     buf_storage b' = buf_storage b \<and> buf_options b' = buf_options b \<and> buf_interruption b' = buf_interruption b"
  by (auto simp: incr_word_writes_def)

lemma incr_page_erases_frame:
  "incr_page_erases page b = Some b' \<Longrightarrow>
     buf_storage b' = buf_storage b \<and> buf_options b' = buf_options b \<and> buf_interruption b' = buf_interruption b"
  by (auto simp: incr_page_erases_def Let_def split: if_splits)

lemma buffer_write_slice_Ok:
  assumes "buffer_write_slice b i v = (Ok (), b')"
  obtains start where "buffer_range b (BufferWrite i v) = Inr start"
    and "buf_storage b' = copy_at start v (buf_storage b)" and "buf_options b' = buf_options b"
proof -
  from assms have aligned: "is_word_aligned b (si_byte i)" "is_word_aligned b (length v)"
    by (auto simp: buffer_write_slice_def split: if_splits)
  with assms obtain start where start: "buffer_range b (BufferWrite i v) = Inr start"
    by (cases "buffer_range b (BufferWrite i v)") (simp_all add: buffer_write_slice_def)
  obtain r j where tick: "interruption_tick (BufferWrite i v) (buf_interruption b) = (r, j)"
    by (cases "interruption_tick (BufferWrite i v) (buf_interruption b)")
  with assms aligned start have r: "r = Ok ()" by (cases r) (simp_all add: buffer_write_slice_def)
  with assms aligned start tick obtain b'' where b'': "incr_word_writes start v v (b\<lparr>buf_interruption := j\<rparr>) = Some b''"
    by (cases "incr_word_writes start v v (b\<lparr>buf_interruption := j\<rparr>)") (simp_all add: buffer_write_slice_def)
  have "b' = b''\<lparr>buf_storage := copy_at start v (buf_storage b'')\<rparr>"
    using assms aligned start tick r b'' by (simp add: buffer_write_slice_def split: if_splits)
  with incr_word_writes_frame [OF b''] start show thesis by (intro that) simp_all
qed

lemma buffer_erase_page_Ok:
  assumes "buffer_erase_page b p = (Ok (), b')"
  obtains start where "buffer_range b (BufferErase p) = Inr start"
    and "buf_storage b' = copy_at start (replicate (bo_page_size (buf_options b)) 0xff) (buf_storage b)"
    and "buf_options b' = buf_options b"
proof -
  from assms obtain start where start: "buffer_range b (BufferErase p) = Inr start"
    by (cases "buffer_range b (BufferErase p)") (simp_all add: buffer_erase_page_def)
  obtain r j where tick: "interruption_tick (BufferErase p) (buf_interruption b) = (r, j)"
    by (cases "interruption_tick (BufferErase p) (buf_interruption b)")
  with assms start have r: "r = Ok ()" by (cases r) (simp_all add: buffer_erase_page_def)
  with assms start tick obtain b'' where b'': "incr_page_erases p (b\<lparr>buf_interruption := j\<rparr>) = Some b''"
    by (cases "incr_page_erases p (b\<lparr>buf_interruption := j\<rparr>)") (simp_all add: buffer_erase_page_def)
  from assms start tick r b'' have
    "b' = b''\<lparr>buf_storage := copy_at start (replicate (bo_page_size (buf_options b)) 0xff) (buf_storage b'')\<rparr>"
    by (simp add: buffer_erase_page_def)
  with incr_page_erases_frame [OF b''] start show thesis by (intro that) simp_all
qed

lemma buffer_flash: "flash buffer_ops (buffer_inv ws ps n) (buffer_content ps) ws ps n"
proof
  fix b :: buffer_storage
  assume inv: "buffer_inv ws ps n b"
  then have len: "length (buf_storage b) = n * ps" and pos: "0 < ps" and size: "bo_page_size (buf_options b) = ps"
    by (simp_all add: buffer_inv_def)
  show "sto_word_size buffer_ops b = ws \<and> sto_page_size buffer_ops b = ps \<and> sto_num_pages buffer_ops b = n"
    using inv by (simp add: buffer_ops_def) (simp add: buffer_inv_def)
  show "length (buffer_content ps b p) = ps" if "p < n" for p
    using page_room [OF that, of ps] len by (simp add: buffer_content_def)
  show "sto_read_slice buffer_ops b i k = Ok (take k (drop (si_byte i) (buffer_content ps b (si_page i))))"
    if "index_is_valid i k ps n" for i k
  proof -
    have "k \<le> ps - si_byte i" using index_valid_bounds [OF that] by linarith
    then have "min k (ps - si_byte i) = k" by (rule min_absorb1)
    with that inv show ?thesis
      by (simp add: buffer_ops_def buffer_read_slice_def index_range_def size buffer_content_def drop_take add.commute)
  qed
  show "buffer_inv ws ps n b' \<and> buffer_content ps b' = (buffer_content ps b)(si_page i :=
        take (si_byte i) (buffer_content ps b (si_page i)) @ v @
        drop (si_byte i + length v) (buffer_content ps b (si_page i)))"
    if "index_is_valid i (length v) ps n" and "sto_write_slice buffer_ops b i v = (r, b')" and "r = Ok ()" for i v r b'
  proof -
    from that(2,3) have "buffer_write_slice b i v = (Ok (), b')" by (simp add: buffer_ops_def)
    then obtain start where st: "buffer_range b (BufferWrite i v) = Inr start"
      "buf_storage b' = copy_at start v (buf_storage b)" "buf_options b' = buf_options b"
      by (rule buffer_write_slice_Ok)
    have start: "start = si_page i * ps + si_byte i"
      using st(1) inv that(1) by (simp add: buffer_range_def index_range_def size)
    note bounds = index_valid_bounds [OF that(1)]
    show ?thesis
      using inv bounds content_copy_at [OF len, of "si_page i" "si_byte i" v]
      by (auto simp: buffer_inv_def buffer_content_def st start length_copy_at len fun_eq_iff)
  qed
  show "buffer_inv ws ps n b' \<and> buffer_content ps b' = (buffer_content ps b)(p := replicate ps 0xff)"
    if "p < n" and "sto_erase_page buffer_ops b p = (r, b')" and "r = Ok ()" for p r b'
  proof -
    from that(2,3) have "buffer_erase_page b p = (Ok (), b')" by (simp add: buffer_ops_def)
    then obtain start where st: "buffer_range b (BufferErase p) = Inr start"
      "buf_storage b' = copy_at start (replicate (bo_page_size (buf_options b)) 0xff) (buf_storage b)"
      "buf_options b' = buf_options b"
      by (rule buffer_erase_page_Ok)
    have start: "start = p * ps"
      using st(1) inv that(1) by (simp add: buffer_range_def index_range_def index_is_valid_def size)
    show ?thesis
      using inv page_room [OF that(1), of ps] content_copy_at [OF len that(1), of 0 "replicate ps 0xff"]
      by (auto simp: buffer_inv_def buffer_content_def st start length_copy_at len fun_eq_iff size)
  qed
qed

interpretation buffer: flash buffer_ops "buffer_inv ws ps n" "buffer_content ps" ws ps n for ws ps n
  by (rule buffer_flash)

section \<open>Strict mode\<close>

definition counters_ok :: "buffer_storage \<Rightarrow> bool" where
  "counters_ok b \<longleftrightarrow> (\<forall>c \<in> set (buf_word_writes b). c \<le> bo_max_word_writes (buf_options b))
     \<and> (\<forall>c \<in> set (buf_page_erases b). c \<le> bo_max_page_erases (buf_options b))"

lemma list_update_bound: "\<forall>c \<in> set xs. c \<le> (m :: nat) \<Longrightarrow> v \<le> m \<Longrightarrow> \<forall>c \<in> set (xs[i := v]). c \<le> m"
  using set_update_subset_insert [of xs i v] by blast

lemma incr_word_writes_loop_bound:
  "incr_word_writes_loop b index v c is ww = Some ww' \<Longrightarrow> bo_strict_mode (buf_options b) \<Longrightarrow>
     \<forall>x \<in> set ww. x \<le> bo_max_word_writes (buf_options b) \<Longrightarrow> \<forall>x \<in> set ww'. x \<le> bo_max_word_writes (buf_options b)"
proof (induction "is" arbitrary: ww)
  case (Cons i "is")
  from Cons.prems(1) obtain w1 where w1: "incr_word_write b index v c i ww = Some w1"
    "incr_word_writes_loop b index v c is w1 = Some ww'"
    by (auto simp: bind_eq_Some_conv)
  have "\<forall>x \<in> set w1. x \<le> bo_max_word_writes (buf_options b)"
  proof -
    define w where "w = index div bo_word_size (buf_options b) + i"
    from w1(1) Cons.prems(2) have "w1 = ww \<or> w1 = ww[w := ww ! w + 1] \<and> ww ! w + 1 \<le> bo_max_word_writes (buf_options b)"
      by (simp add: incr_word_write_def Let_def w_def [symmetric] split: if_splits)
    with list_update_bound [OF Cons.prems(3), of "ww ! w + 1" w] Cons.prems(3) show ?thesis by blast
  qed
  with Cons.IH [OF w1(2) Cons.prems(2)] show ?case .
qed simp

lemma incr_word_writes_counters:
  "incr_word_writes index v c b = Some b' \<Longrightarrow> bo_strict_mode (buf_options b) \<Longrightarrow> counters_ok b \<Longrightarrow> counters_ok b'"
  by (auto simp: incr_word_writes_def counters_ok_def dest: incr_word_writes_loop_bound)

lemma reset_words_bound:
  "\<forall>c \<in> set ww. c \<le> (m :: nat) \<Longrightarrow> \<forall>c \<in> set (fold (\<lambda>w ww. ww[f w := 0]) ws ww). c \<le> m"
proof (induction ws arbitrary: ww)
  case (Cons w ws)
  then show ?case using Cons.IH [OF list_update_bound [OF Cons.prems, of 0 "f w"]] by simp
qed simp

lemma incr_page_erases_counters:
  assumes "incr_page_erases page b = Some b'" and "bo_strict_mode (buf_options b)" and "counters_ok b"
  shows "counters_ok b'"
proof -
  let ?n = "bo_page_size (buf_options b) div bo_word_size (buf_options b)"
  from assms(1,2) have b': "b' = b\<lparr>buf_page_erases := (buf_page_erases b)[page := buf_page_erases b ! page + 1],
      buf_word_writes := fold (\<lambda>w ww. ww[page * ?n + w := 0]) [0..<?n] (buf_word_writes b)\<rparr>"
    and less: "buf_page_erases b ! page + 1 \<le> bo_max_page_erases (buf_options b)"
    by (auto simp: incr_page_erases_def Let_def split: if_splits)
  have "\<forall>c \<in> set (buf_word_writes b). c \<le> bo_max_word_writes (buf_options b)"
    "\<forall>c \<in> set (buf_page_erases b). c \<le> bo_max_page_erases (buf_options b)"
    using assms(3) by (auto simp: counters_ok_def)
  from reset_words_bound [OF this(1), of "\<lambda>w. page * ?n + w" "[0..<?n]"] list_update_bound [OF this(2) less, of page]
  show ?thesis by (simp add: b' counters_ok_def)
qed

lemma copy_counters [simp]:
  "counters_ok (b\<lparr>buf_storage := st\<rparr>) = counters_ok b" "counters_ok (b\<lparr>buf_interruption := i\<rparr>) = counters_ok b"
  by (simp_all add: counters_ok_def)

lemma buffer_write_slice_strict:
  assumes "buffer_write_slice b i v = (Ok (), b')" and "bo_strict_mode (buf_options b)" and "counters_ok b"
  shows "counters_ok b'"
    and "buffer_range b (BufferWrite i v) = Inr start \<Longrightarrow>
      list_all2 (\<lambda>old new. old AND new = new) (take (length v) (drop start (buf_storage b))) v"
proof -
  from assms(1) have aligned: "is_word_aligned b (si_byte i)" "is_word_aligned b (length v)"
    by (auto simp: buffer_write_slice_def split: if_splits)
  with assms(1) obtain start' where start: "buffer_range b (BufferWrite i v) = Inr start'"
    by (cases "buffer_range b (BufferWrite i v)") (simp_all add: buffer_write_slice_def)
  obtain r j where tick: "interruption_tick (BufferWrite i v) (buf_interruption b) = (r, j)"
    by (cases "interruption_tick (BufferWrite i v) (buf_interruption b)")
  with assms(1) aligned start have r: "r = Ok ()" by (cases r) (simp_all add: buffer_write_slice_def)
  with assms(1) aligned start tick obtain b'' where b'': "incr_word_writes start' v v (b\<lparr>buf_interruption := j\<rparr>) = Some b''"
    by (cases "incr_word_writes start' v v (b\<lparr>buf_interruption := j\<rparr>)") (simp_all add: buffer_write_slice_def)
  from incr_word_writes_counters [OF b''] assms(2,3) have "counters_ok b''" by simp
  then show "counters_ok b'" "buffer_range b (BufferWrite i v) = Inr start \<Longrightarrow>
      list_all2 (\<lambda>old new. old AND new = new) (take (length v) (drop start (buf_storage b))) v"
    using assms(1,2) aligned start tick r b'' by (auto simp: buffer_write_slice_def split: if_splits)
qed

lemma buffer_erase_page_strict:
  assumes "buffer_erase_page b p = (Ok (), b')" and "bo_strict_mode (buf_options b)" and "counters_ok b"
  shows "counters_ok b'"
proof -
  from assms obtain start where start: "buffer_range b (BufferErase p) = Inr start"
    by (cases "buffer_range b (BufferErase p)") (simp_all add: buffer_erase_page_def)
  obtain r j where tick: "interruption_tick (BufferErase p) (buf_interruption b) = (r, j)"
    by (cases "interruption_tick (BufferErase p) (buf_interruption b)")
  with assms(1) start have r: "r = Ok ()" by (cases r) (simp_all add: buffer_erase_page_def)
  with assms(1) start tick obtain b'' where b'': "incr_page_erases p (b\<lparr>buf_interruption := j\<rparr>) = Some b''"
    by (cases "incr_page_erases p (b\<lparr>buf_interruption := j\<rparr>)") (simp_all add: buffer_erase_page_def)
  from incr_page_erases_counters [OF b''] assms(2,3) have "counters_ok b''" by simp
  with assms(1) start tick r b'' show ?thesis by (auto simp: buffer_erase_page_def)
qed

lemma corrupt_operation_strict:
  assumes "corrupt_operation f b = Some b'" and "bo_strict_mode (buf_options b)" and "counters_ok b"
  shows "counters_ok b' \<and> buf_interruption b' = Ready"
proof -
  let ?b = "b\<lparr>buf_interruption := Ready\<rparr>"
  from assms(1) obtain op where op: "interruption_get (buf_interruption b) = Some (Inr op)"
    by (auto simp: corrupt_operation_def split: option.splits sum.splits)
  with assms(1) obtain start where start: "buffer_range ?b op = Inr start"
    by (cases "buffer_range ?b op") (simp_all add: corrupt_operation_def Let_def)
  show ?thesis
    using assms op start
    by (cases op) (auto simp: corrupt_operation_def Let_def
      dest: incr_word_writes_counters incr_word_writes_frame incr_page_erases_counters incr_page_erases_frame
      split: if_splits)
qed


definition small_buffer :: buffer_storage where
  "small_buffer = \<lparr>buf_storage = replicate 32 0xff,
     buf_options = \<lparr>bo_word_size = 4, bo_page_size = 16, bo_max_word_writes = 2, bo_max_page_erases = 3, bo_strict_mode = True\<rparr>,
     buf_word_writes = replicate 8 0, buf_page_erases = replicate 2 0, buf_interruption = Ready\<rparr>"


end
