(* ===== verification/Store.thy ===== *)
theory Store
  imports Store_Read Buffer_Storage
begin

text \<open>
  The operations of the store that change the storage
  (\<open>libraries/persistent_store/src/store.rs\<close>): writing, deleting, compaction, transactions and
  recovery. An operation maps the storage to its result and the storage it leaves behind, also
  when it fails: what was written before an error stays written. Loops over entries terminate,
  because every entry but the tail advances the position. The loops that compact until there is
  room are bounded by the number of page erasures the storage can take, since every compaction
  erases a page and none is done beyond the lifetime of the pages; a run that would exceed the
  bound is \<open>Panic\<close>.
\<close>

type_synonym ('s, 'a) store_op = "('s, store_error, 'a) op"

section \<open>Writing\<close>

fun is_write_needed :: "(u8 \<times> u8) list \<Rightarrow> store_error + bool" where
  "is_write_needed [] = Inr False"
| "is_write_needed ((source, target) # rest) =
     (if source AND target \<noteq> target then Inl InvalidStorage
      else if source \<noteq> target then Inr True
      else is_write_needed rest)"

text \<open>The first word of a slice that has to be written, if any; \<open>starts\<close> are the word offsets.\<close>

fun write_start :: "nat \<Rightarrow> bytes \<Rightarrow> bytes \<Rightarrow> nat list \<Rightarrow> store_error + nat option" where
  "write_start word_size old new [] = Inr None"
| "write_start word_size old new (start # starts) =
     rbind (is_write_needed (zip (take word_size (drop start old)) (take word_size (drop start new)))) (\<lambda>needed.
       if needed then Inr (Some start) else write_start word_size old new starts)"

definition storage_write_slice :: "'s storage_ops \<Rightarrow> format \<Rightarrow> storage_index \<Rightarrow> bytes \<Rightarrow> ('s, unit) store_op" where
  "storage_write_slice ops fmt index val =
     (let word_size = fmt_word_size fmt in
      sbind (sread (\<lambda>s. from_storage (sto_read_slice ops s index (length val)))) (\<lambda>old.
      sbind (slift (write_start word_size old val (map (\<lambda>i. i * word_size) [0..<length val div word_size]))) (\<lambda>start.
        case start of
          None \<Rightarrow> sret ()
        | Some start \<Rightarrow>
            (\<lambda>s. case sto_write_slice ops s \<lparr>si_page = si_page index, si_byte = si_byte index + start\<rparr> (drop start val) of
                   (r, s') \<Rightarrow> (from_storage r, s')))))"

definition storage_erase_page :: "'s storage_ops \<Rightarrow> format \<Rightarrow> nat \<Rightarrow> ('s, unit) store_op" where
  "storage_erase_page ops fmt page =
     sbind (sread (\<lambda>s. read_page ops fmt s page)) (\<lambda>bs.
       if \<not> is_erased bs
       then (\<lambda>s. case sto_erase_page ops s page of (r, s') \<Rightarrow> (from_storage r, s'))
       else sret ())"

definition write_slice :: "'s storage_ops \<Rightarrow> format \<Rightarrow> position \<Rightarrow> bytes \<Rightarrow> ('s, unit) store_op" where
  "write_slice ops fmt pos val =
     (let index = pos_index fmt pos; max_length = fmt_page_size fmt - si_byte index in
      sbind (storage_write_slice ops fmt index (take (min (length val) max_length) val)) (\<lambda>_.
        if length val > max_length
        then storage_write_slice ops fmt (pos_index fmt (pos_next_page fmt pos)) (drop max_length val)
        else sret ()))"

definition wipe_span :: "'s storage_ops \<Rightarrow> format \<Rightarrow> position \<Rightarrow> nat \<Rightarrow> ('s, unit) store_op" where
  "wipe_span ops fmt pos len = write_slice ops fmt pos (replicate (len * fmt_word_size fmt) 0)"

definition set_deleted :: "'s storage_ops \<Rightarrow> format \<Rightarrow> position \<Rightarrow> ('s, unit) store_op" where
  "set_deleted ops fmt pos =
     sbind (sread (\<lambda>s. read_word ops fmt s pos)) (\<lambda>w.
       write_slice ops fmt pos (word_as_slice (fmt_set_deleted fmt (word_from_slice w))))"

definition set_padding :: "'s storage_ops \<Rightarrow> format \<Rightarrow> position \<Rightarrow> ('s, unit) store_op" where
  "set_padding ops fmt pos =
     sbind (sread (\<lambda>s. read_word ops fmt s pos)) (\<lambda>w.
     sbind (slift (fmt_set_padding fmt (word_from_slice w))) (\<lambda>w.
       write_slice ops fmt pos (word_as_slice w)))"

definition init_page :: "'s storage_ops \<Rightarrow> format \<Rightarrow> position \<Rightarrow> position \<Rightarrow> ('s, unit) store_op" where
  "init_page ops fmt first final =
     (if pos_word fmt first \<noteq> 0 \<and> pos_page fmt first = pos_page fmt final then sret ()
      else
        (let new_first = (if pos_word fmt first = 0 then first else final + 1); page = pos_page fmt new_first in
         sbind (sread (\<lambda>s. store_parse_init ops fmt s page)) (\<lambda>state.
           case state of
             Valid _ \<Rightarrow> sret ()
           | _ \<Rightarrow>
               sbind (slift (build_init fmt \<lparr>init_cycle = pos_cycle fmt new_first, init_prefix = pos_word fmt new_first\<rparr>))
                 (\<lambda>info. storage_write_slice ops fmt (index_init fmt page) info))))"

section \<open>Deleting\<close>

definition delete_pos :: "'s storage_ops \<Rightarrow> format \<Rightarrow> position \<Rightarrow> nat \<Rightarrow> ('s, unit) store_op" where
  "delete_pos ops fmt pos len =
     sbind (set_deleted ops fmt pos) (\<lambda>_. wipe_span ops fmt (pos + 1) len)"

function delete_keys_loop :: "'s storage_ops \<Rightarrow> format \<Rightarrow> nat list \<Rightarrow> position \<Rightarrow> position \<Rightarrow> ('s, unit) store_op" where
  "delete_keys_loop ops fmt sorted_keys end_pos pos s =
     (if pos < end_pos then
        (case parse_entry ops fmt s pos of
           Ok (e, pos') \<Rightarrow>
             if e = TailEntry then (Ok (), s)
             else (case e of
                     UserEntry h \<Rightarrow>
                       if (case binary_search sorted_keys (hdr_key h) of Inr _ \<Rightarrow> True | Inl _ \<Rightarrow> False) then
                         (case delete_pos ops fmt pos (pos' - pos - 1) s of
                            (Ok _, s') \<Rightarrow> delete_keys_loop ops fmt sorted_keys end_pos pos' s'
                          | (Err e, s') \<Rightarrow> (Err e, s')
                          | (Panic, s') \<Rightarrow> (Panic, s'))
                       else delete_keys_loop ops fmt sorted_keys end_pos pos' s
                   | PaddingEntry \<Rightarrow> delete_keys_loop ops fmt sorted_keys end_pos pos' s
                   | _ \<Rightarrow> (Err InvalidStorage, s))
         | Err e \<Rightarrow> (Err e, s)
         | Panic \<Rightarrow> (Panic, s))
      else (Ok (), s))"
  by pat_completeness auto
termination
  by (relation "measure (\<lambda>(ops, fmt, ks, end_pos, pos, s). end_pos - pos)") (auto dest: parse_entry_progress)

declare delete_keys_loop.simps [simp del]

definition delete_keys :: "'s storage_ops \<Rightarrow> format \<Rightarrow> nat list \<Rightarrow> position \<Rightarrow> ('s, unit) store_op" where
  "delete_keys ops fmt sorted_keys end_pos =
     sbind (sread (head ops fmt)) (\<lambda>pos. delete_keys_loop ops fmt sorted_keys end_pos pos)"

definition insert_init :: "'s storage_ops \<Rightarrow> format \<Rightarrow> position \<Rightarrow> nat \<Rightarrow> nat \<Rightarrow> ('s, unit) store_op" where
  "insert_init ops fmt pos len key =
     sbind (init_page ops fmt pos (pos + len)) (\<lambda>_. delete_keys ops fmt [key] pos)"

section \<open>Compaction\<close>

definition compact_erase :: "'s storage_ops \<Rightarrow> format \<Rightarrow> position \<Rightarrow> ('s, unit) store_op" where
  "compact_erase ops fmt erase =
     sbind (sread (\<lambda>s. parse_entry ops fmt s erase)) (\<lambda>(e, _).
       case e of
         InternalEntry (EraseEntry page) \<Rightarrow>
           sbind (storage_erase_page ops fmt page) (\<lambda>_.
           sbind (sread (head ops fmt)) (\<lambda>head.
             (let pos = pos_page_begin fmt head in
              sbind (wipe_span ops fmt pos (head - pos)) (\<lambda>_.
                set_padding ops fmt erase))))
       | _ \<Rightarrow> sfail InvalidStorage)"

function compact_copy_loop :: "'s storage_ops \<Rightarrow> format \<Rightarrow> position \<Rightarrow> position \<Rightarrow> position \<Rightarrow> ('s, position) store_op" where
  "compact_copy_loop ops fmt end_pos pos dst s =
     (if pos < end_pos then
        (case parse_entry ops fmt s pos of
           Ok (e, pos') \<Rightarrow>
             if e = TailEntry then (Ok dst, s)
             else (case e of
                     UserEntry _ \<Rightarrow>
                       (let len = pos' - pos in
                        case sbind (sread (\<lambda>s. read_slice ops fmt s pos (len * fmt_word_size fmt))) (\<lambda>entry.
                               sbind (write_slice ops fmt dst entry) (\<lambda>_.
                                 init_page ops fmt dst (dst + (len - 1)))) s of
                          (Ok _, s') \<Rightarrow> compact_copy_loop ops fmt end_pos pos' (dst + len) s'
                        | (Err e, s') \<Rightarrow> (Err e, s')
                        | (Panic, s') \<Rightarrow> (Panic, s'))
                   | _ \<Rightarrow> compact_copy_loop ops fmt end_pos pos' dst s)
         | Err e \<Rightarrow> (Err e, s)
         | Panic \<Rightarrow> (Panic, s))
      else (Ok dst, s))"
  by pat_completeness auto
termination
  by (relation "measure (\<lambda>(ops, fmt, end_pos, pos, dst, s). end_pos - pos)") (auto dest: parse_entry_progress)

declare compact_copy_loop.simps [simp del]

definition compact_copy :: "'s storage_ops \<Rightarrow> format \<Rightarrow> ('s, unit) store_op" where
  "compact_copy ops fmt =
     sbind (sread (head ops fmt)) (\<lambda>head.
       (let page = pos_page fmt head; end_pos = pos_next_page fmt head in
        sbind (sread (\<lambda>s. store_parse_compact ops fmt s page)) (\<lambda>state.
          case state of
            Valid info \<Rightarrow>
              (let tail = head + compact_tail info in
               if tail < end_pos then sfail InvalidStorage
               else
                 sbind (compact_copy_loop ops fmt end_pos head tail) (\<lambda>tail.
                 sbind (slift (build_internal fmt (EraseEntry page))) (\<lambda>erase.
                 sbind (write_slice ops fmt tail erase) (\<lambda>_.
                 sbind (init_page ops fmt tail tail) (\<lambda>_.
                   compact_erase ops fmt tail)))))
          | _ \<Rightarrow> sfail InvalidStorage)))"

definition compact :: "'s storage_ops \<Rightarrow> format \<Rightarrow> ('s, unit) store_op" where
  "compact ops fmt =
     sbind (sread (head ops fmt)) (\<lambda>head.
       if pos_cycle fmt head \<ge> fmt_max_page_erases fmt then sfail NoLifetime
       else
         sbind (sread (tail ops fmt)) (\<lambda>tail.
           (let tail = max tail (pos_next_page fmt head) in
            sbind (slift (build_compact fmt \<lparr>compact_tail = tail - head\<rparr>)) (\<lambda>info.
            sbind (storage_write_slice ops fmt (index_compact fmt (pos_page fmt head)) info) (\<lambda>_.
              compact_copy ops fmt)))))"

fun compact_until :: "nat \<Rightarrow> 's storage_ops \<Rightarrow> format \<Rightarrow> nat \<Rightarrow> ('s, unit) store_op" where
  "compact_until 0 ops fmt len = (\<lambda>s. (Panic, s))"
| "compact_until (Suc n) ops fmt len =
     sbind (sread (immediate_capacity ops fmt)) (\<lambda>c.
       if c < len then sbind (compact ops fmt) (\<lambda>_. compact_until n ops fmt len) else sret ())"

definition max_compactions :: "format \<Rightarrow> nat" where
  "max_compactions fmt = (fmt_max_page_erases fmt + 1) * fmt_num_pages fmt + 1"

definition reserve :: "'s storage_ops \<Rightarrow> format \<Rightarrow> nat \<Rightarrow> ('s, unit) store_op" where
  "reserve ops fmt len =
     sbind (sread (capacity ops fmt)) (\<lambda>c.
       if ratio_remaining c < len then sfail NoCapacity
       else compact_until (max_compactions fmt) ops fmt len)"

definition prepare :: "'s storage_ops \<Rightarrow> format \<Rightarrow> nat \<Rightarrow> ('s, unit) store_op" where
  "prepare ops fmt len =
     sbind (sread (capacity ops fmt)) (\<lambda>c.
       if ratio_remaining c < len then sfail NoCapacity
       else
         sbind (sread (immediate_capacity ops fmt)) (\<lambda>c.
           if c < len then compact ops fmt else sret ()))"

section \<open>Insert, remove, clear\<close>

definition write_entry :: "'s storage_ops \<Rightarrow> format \<Rightarrow> position \<Rightarrow> bytes \<Rightarrow> ('s, nat) store_op" where
  "write_entry ops fmt pos entry =
     (let word_size = fmt_word_size fmt; footer = length entry div word_size - 1 in
      sbind (write_slice ops fmt pos (take (footer * word_size) entry)) (\<lambda>_.
      sbind (write_slice ops fmt (pos + footer) (drop (footer * word_size) entry)) (\<lambda>_.
        sret footer)))"

definition insert_entry :: "'s storage_ops \<Rightarrow> format \<Rightarrow> nat \<Rightarrow> bytes \<Rightarrow> ('s, unit) store_op" where
  "insert_entry ops fmt key val =
     (if key > max_key fmt \<or> length val > max_value_len fmt then sfail InvalidArgument
      else
        sbind (slift (build_user fmt key val)) (\<lambda>entry.
        sbind (reserve ops fmt (length entry div fmt_word_size fmt)) (\<lambda>_.
        sbind (sread (tail ops fmt)) (\<lambda>tail.
        sbind (write_entry ops fmt tail entry) (\<lambda>footer.
          insert_init ops fmt tail footer key)))))"

definition remove_entry :: "'s storage_ops \<Rightarrow> format \<Rightarrow> nat \<Rightarrow> ('s, unit) store_op" where
  "remove_entry ops fmt key =
     (if key > max_key fmt then sfail InvalidArgument
      else sbind (sread (tail ops fmt)) (\<lambda>tail. delete_keys ops fmt [key] tail))"

definition remove_handle :: "'s storage_ops \<Rightarrow> format \<Rightarrow> store_handle \<Rightarrow> ('s, unit) store_op" where
  "remove_handle ops fmt h =
     sbind (sread (\<lambda>s. check_handle ops fmt s h)) (\<lambda>_.
       delete_pos ops fmt (sh_pos h) (bytes_to_words fmt (sh_len h)))"

function clear_loop :: "'s storage_ops \<Rightarrow> format \<Rightarrow> nat \<Rightarrow> position \<Rightarrow> position \<Rightarrow> position \<Rightarrow> ('s, unit) store_op" where
  "clear_loop ops fmt min_key clear_pos end_pos pos s =
     (if pos < end_pos then
        (case parse_entry ops fmt s pos of
           Ok (e, pos') \<Rightarrow>
             if e = TailEntry then (Err InvalidStorage, s)
             else if (case e of InternalEntry (ClearEntry _) \<Rightarrow> True | _ \<Rightarrow> False) \<and> pos = clear_pos then (Ok (), s)
             else (case e of
                     UserEntry h \<Rightarrow>
                       if hdr_key h \<ge> min_key then
                         (case delete_pos ops fmt pos (pos' - pos - 1) s of
                            (Ok _, s') \<Rightarrow> clear_loop ops fmt min_key clear_pos end_pos pos' s'
                          | (Err e, s') \<Rightarrow> (Err e, s')
                          | (Panic, s') \<Rightarrow> (Panic, s'))
                       else clear_loop ops fmt min_key clear_pos end_pos pos' s
                   | PaddingEntry \<Rightarrow> clear_loop ops fmt min_key clear_pos end_pos pos' s
                   | _ \<Rightarrow> (Err InvalidStorage, s))
         | Err e \<Rightarrow> (Err e, s)
         | Panic \<Rightarrow> (Panic, s))
      else (Ok (), s))"
  by pat_completeness auto
termination
  by (relation "measure (\<lambda>(ops, fmt, k, c, end_pos, pos, s). end_pos - pos)") (auto dest: parse_entry_progress)

declare clear_loop.simps [simp del]

definition clear_delete :: "'s storage_ops \<Rightarrow> format \<Rightarrow> position \<Rightarrow> ('s, unit) store_op" where
  "clear_delete ops fmt clear_pos =
     sbind (init_page ops fmt clear_pos clear_pos) (\<lambda>_.
     sbind (sread (\<lambda>s. parse_entry ops fmt s clear_pos)) (\<lambda>(e, _).
       case e of
         InternalEntry (ClearEntry min_key) \<Rightarrow>
           sbind (sread (head ops fmt)) (\<lambda>pos.
           sbind (clear_loop ops fmt min_key clear_pos (pos + virt_size fmt) pos) (\<lambda>_.
             set_padding ops fmt clear_pos))
       | _ \<Rightarrow> sfail InvalidStorage))"

definition store_clear :: "'s storage_ops \<Rightarrow> format \<Rightarrow> nat \<Rightarrow> ('s, unit) store_op" where
  "store_clear ops fmt min_key =
     (if min_key > max_key fmt then sfail InvalidArgument
      else
        sbind (slift (build_internal fmt (ClearEntry min_key))) (\<lambda>clear.
        sbind (compact_until (max_compactions fmt) ops fmt 1) (\<lambda>_.
        sbind (sread (tail ops fmt)) (\<lambda>tail.
        sbind (write_slice ops fmt tail clear) (\<lambda>_.
          clear_delete ops fmt tail)))))"

section \<open>Transactions\<close>

function apply_loop :: "'s storage_ops \<Rightarrow> format \<Rightarrow> position \<Rightarrow> position \<Rightarrow> ('s, unit) store_op" where
  "apply_loop ops fmt end_pos pos s =
     (if pos < end_pos then
        (case parse_entry ops fmt s pos of
           Ok (e, pos') \<Rightarrow>
             if e = TailEntry then (Ok (), s)
             else (case e of
                     UserEntry _ \<Rightarrow> apply_loop ops fmt end_pos pos' s
                   | InternalEntry (RemoveEntry _) \<Rightarrow>
                       (case set_padding ops fmt pos s of
                          (Ok _, s') \<Rightarrow> apply_loop ops fmt end_pos pos' s'
                        | (Err e, s') \<Rightarrow> (Err e, s')
                        | (Panic, s') \<Rightarrow> (Panic, s'))
                   | _ \<Rightarrow> (Err InvalidStorage, s))
         | Err e \<Rightarrow> (Err e, s)
         | Panic \<Rightarrow> (Panic, s))
      else (Ok (), s))"
  by pat_completeness auto
termination
  by (relation "measure (\<lambda>(ops, fmt, end_pos, pos, s). end_pos - pos)") (auto dest: parse_entry_progress)

declare apply_loop.simps [simp del]

definition transaction_apply :: "'s storage_ops \<Rightarrow> format \<Rightarrow> nat list \<Rightarrow> position \<Rightarrow> ('s, unit) store_op" where
  "transaction_apply ops fmt sorted_keys marker =
     sbind (delete_keys ops fmt sorted_keys marker) (\<lambda>_.
     sbind (set_padding ops fmt marker) (\<lambda>_.
     sbind (sread (head ops fmt)) (\<lambda>head.
       apply_loop ops fmt (head + virt_size fmt) (marker + 1))))"

fun write_update :: "'s storage_ops \<Rightarrow> format \<Rightarrow> position \<Rightarrow> store_update \<Rightarrow> ('s, nat) store_op" where
  "write_update ops fmt pos (Insert key val) =
     sbind (slift (build_user fmt key val)) (\<lambda>entry. write_entry ops fmt pos entry)"
| "write_update ops fmt pos (Remove key) =
     sbind (slift (build_internal fmt (RemoveEntry key))) (\<lambda>remove.
     sbind (write_slice ops fmt pos remove) (\<lambda>_. sret 0))"

fun write_updates :: "'s storage_ops \<Rightarrow> format \<Rightarrow> position \<Rightarrow> store_update list \<Rightarrow> ('s, unit) store_op" where
  "write_updates ops fmt pos [] = sret ()"
| "write_updates ops fmt pos (update # updates) =
     sbind (write_update ops fmt pos update) (\<lambda>len.
     sbind (init_page ops fmt pos (pos + len)) (\<lambda>_.
       write_updates ops fmt (pos + 1 + len) updates))"

definition store_transaction :: "'s storage_ops \<Rightarrow> format \<Rightarrow> store_update list \<Rightarrow> ('s, unit) store_op" where
  "store_transaction ops fmt updates =
     (case updates of
        [] \<Rightarrow> sret ()
      | [Insert key val] \<Rightarrow> insert_entry ops fmt key val
      | [Remove key] \<Rightarrow> remove_entry ops fmt key
      | _ \<Rightarrow>
          (case transaction_valid fmt updates of
             None \<Rightarrow> sfail InvalidArgument
           | Some sorted_keys \<Rightarrow>
               sbind (reserve ops fmt (transaction_capacity fmt updates)) (\<lambda>_.
               sbind (sread (tail ops fmt)) (\<lambda>marker.
               sbind (slift (build_internal fmt (MarkerEntry (length updates)))) (\<lambda>entry.
               sbind (write_slice ops fmt marker entry) (\<lambda>_.
               sbind (init_page ops fmt marker marker) (\<lambda>_.
               sbind (write_updates ops fmt (marker + 1) updates) (\<lambda>_.
                 transaction_apply ops fmt sorted_keys marker))))))))"

section \<open>Recovery\<close>

fun all_pages_blank :: "'s storage_ops \<Rightarrow> format \<Rightarrow> 's \<Rightarrow> nat list \<Rightarrow> (store_error, bool) outcome" where
  "all_pages_blank ops fmt s [] = Ok True"
| "all_pages_blank ops fmt s (page # pages) =
     obind (read_page ops fmt s page) (\<lambda>bs.
       (let init = take (fmt_word_size fmt) bs; rest = drop (fmt_word_size fmt) bs in
        if (page > 0 \<and> \<not> is_erased init) \<or> \<not> is_erased rest then Ok False
        else all_pages_blank ops fmt s pages))"

definition recover_initialize :: "'s storage_ops \<Rightarrow> format \<Rightarrow> ('s, unit) store_op" where
  "recover_initialize ops fmt =
     sbind (sread (\<lambda>s. all_pages_blank ops fmt s [0..<fmt_num_pages fmt])) (\<lambda>blank.
       if \<not> blank then sret ()
       else
         sbind (slift (build_init fmt \<lparr>init_cycle = 0, init_prefix = 0\<rparr>)) (\<lambda>info.
           storage_write_slice ops fmt (index_init fmt 0) info))"

function recover_erase_loop :: "'s storage_ops \<Rightarrow> format \<Rightarrow> position \<Rightarrow> position \<Rightarrow> ('s, unit) store_op" where
  "recover_erase_loop ops fmt end_pos pos s =
     (if pos < end_pos then
        (case parse_entry ops fmt s pos of
           Ok (e, pos') \<Rightarrow>
             if e = TailEntry then (Ok (), s)
             else (case e of
                     InternalEntry (EraseEntry _) \<Rightarrow> compact_erase ops fmt pos s
                   | PaddingEntry \<Rightarrow> recover_erase_loop ops fmt end_pos pos' s
                   | UserEntry _ \<Rightarrow> recover_erase_loop ops fmt end_pos pos' s
                   | _ \<Rightarrow> (Ok (), s))
         | Err e \<Rightarrow> (Err e, s)
         | Panic \<Rightarrow> (Panic, s))
      else (Ok (), s))"
  by pat_completeness auto
termination
  by (relation "measure (\<lambda>(ops, fmt, end_pos, pos, s). end_pos - pos)") (auto dest: parse_entry_progress)

declare recover_erase_loop.simps [simp del]

definition recover_erase :: "'s storage_ops \<Rightarrow> format \<Rightarrow> ('s, unit) store_op" where
  "recover_erase ops fmt =
     sbind (sread (\<lambda>s. get_extremum_page_head ops fmt s Greater)) (\<lambda>pos.
       recover_erase_loop ops fmt (pos_next_page fmt pos) pos)"

definition recover_compaction :: "'s storage_ops \<Rightarrow> format \<Rightarrow> ('s, unit) store_op" where
  "recover_compaction ops fmt =
     sbind (sread (head ops fmt)) (\<lambda>head.
     sbind (sread (\<lambda>s. store_parse_compact ops fmt s (pos_page fmt head))) (\<lambda>state.
       case state of
         Erased \<Rightarrow> sret ()
       | Partial \<Rightarrow> compact ops fmt
       | Valid _ \<Rightarrow> compact_copy ops fmt))"

definition recover_wipe_partial :: "'s storage_ops \<Rightarrow> format \<Rightarrow> position \<Rightarrow> nat \<Rightarrow> ('s, unit) store_op" where
  "recover_wipe_partial ops fmt pos len =
     sbind (wipe_span ops fmt (pos + 1) len) (\<lambda>_.
     sbind (init_page ops fmt pos (pos + len)) (\<lambda>_.
       set_padding ops fmt pos))"

definition recover_delete_user :: "'s storage_ops \<Rightarrow> format \<Rightarrow> position \<Rightarrow> nat \<Rightarrow> ('s, unit) store_op" where
  "recover_delete_user ops fmt pos len =
     sbind (init_page ops fmt pos (pos + len)) (\<lambda>_. delete_pos ops fmt pos len)"

text \<open>The scan of \<open>recover_transaction_keys\<close>: the keys and the position of the last update.\<close>

function transaction_keys_loop :: "'s storage_ops \<Rightarrow> format \<Rightarrow> 's \<Rightarrow> position \<Rightarrow> position \<Rightarrow> position \<Rightarrow> nat list \<Rightarrow> (store_error, nat list \<times> position) outcome" where
  "transaction_keys_loop ops fmt s end_pos pos prev_pos sorted_keys =
     (if pos < end_pos then
        (case parse_entry ops fmt s pos of
           Ok (e, pos') \<Rightarrow>
             if e = TailEntry then Ok (sorted_keys, prev_pos)
             else
               (let next = (\<lambda>key.
                    case binary_search sorted_keys key of
                      Inr _ \<Rightarrow> Err InvalidStorage
                    | Inl i \<Rightarrow> transaction_keys_loop ops fmt s end_pos pos' pos (insert_at i key sorted_keys))
                in case e of
                     UserEntry h \<Rightarrow> next (hdr_key h)
                   | InternalEntry (RemoveEntry key) \<Rightarrow> next key
                   | InternalEntry _ \<Rightarrow> Err InvalidStorage
                   | _ \<Rightarrow> Ok (sorted_keys, prev_pos))
         | Err e \<Rightarrow> Err e
         | Panic \<Rightarrow> Panic)
      else Ok (sorted_keys, prev_pos))"
  by pat_completeness auto
termination
  by (relation "measure (\<lambda>(ops, fmt, s, end_pos, pos, prev, ks). end_pos - pos)") (auto dest: parse_entry_progress)

declare transaction_keys_loop.simps [simp del]

definition recover_transaction_keys :: "'s storage_ops \<Rightarrow> format \<Rightarrow> position \<Rightarrow> position \<Rightarrow> ('s, nat list) store_op" where
  "recover_transaction_keys ops fmt pos end_pos =
     sbind (sread (\<lambda>s. transaction_keys_loop ops fmt s end_pos pos pos [])) (\<lambda>(sorted_keys, prev_pos).
     sbind (sread (\<lambda>s. parse_entry ops fmt s prev_pos)) (\<lambda>(e, pos).
       sbind
         (case e of
            UserEntry _ \<Rightarrow> init_page ops fmt prev_pos (prev_pos + (pos - prev_pos - 1))
          | InternalEntry (RemoveEntry _) \<Rightarrow> init_page ops fmt prev_pos (prev_pos + (pos - prev_pos - 1))
          | _ \<Rightarrow> sret ())
         (\<lambda>_. sret sorted_keys)))"

function rollback_loop :: "'s storage_ops \<Rightarrow> format \<Rightarrow> position \<Rightarrow> position \<Rightarrow> ('s, unit) store_op" where
  "rollback_loop ops fmt end_pos pos s =
     (if pos < end_pos then
        (case parse_entry ops fmt s pos of
           Ok (e, pos') \<Rightarrow>
             if e = TailEntry then (Ok (), s)
             else (case e of
                     PaddingEntry \<Rightarrow> rollback_loop ops fmt end_pos pos' s
                   | UserEntry _ \<Rightarrow>
                       (case delete_pos ops fmt pos (pos' - pos - 1) s of
                          (Ok _, s') \<Rightarrow> rollback_loop ops fmt end_pos pos' s'
                        | (Err e, s') \<Rightarrow> (Err e, s')
                        | (Panic, s') \<Rightarrow> (Panic, s'))
                   | InternalEntry (RemoveEntry _) \<Rightarrow>
                       (case set_padding ops fmt pos s of
                          (Ok _, s') \<Rightarrow> rollback_loop ops fmt end_pos pos' s'
                        | (Err e, s') \<Rightarrow> (Err e, s')
                        | (Panic, s') \<Rightarrow> (Panic, s'))
                   | PartialEntry \<Rightarrow> recover_wipe_partial ops fmt pos (pos' - pos - 1) s
                   | PartialUserEntry \<Rightarrow> recover_delete_user ops fmt pos (pos' - pos - 1) s
                   | _ \<Rightarrow> (Err InvalidStorage, s))
         | Err e \<Rightarrow> (Err e, s)
         | Panic \<Rightarrow> (Panic, s))
      else (Ok (), s))"
  by pat_completeness auto
termination
  by (relation "measure (\<lambda>(ops, fmt, end_pos, pos, s). end_pos - pos)") (auto dest: parse_entry_progress)

declare rollback_loop.simps [simp del]

definition recover_transaction :: "'s storage_ops \<Rightarrow> format \<Rightarrow> position \<Rightarrow> position \<Rightarrow> ('s, unit) store_op" where
  "recover_transaction ops fmt marker end_pos =
     sbind (sread (\<lambda>s. parse_entry ops fmt s marker)) (\<lambda>(e, pos).
       case e of
         InternalEntry (MarkerEntry n) \<Rightarrow>
           sbind (recover_transaction_keys ops fmt pos end_pos) (\<lambda>sorted_keys.
             if length sorted_keys = n then transaction_apply ops fmt sorted_keys marker
             else if length sorted_keys > n then sfail InvalidStorage
             else
               sbind (rollback_loop ops fmt end_pos pos) (\<lambda>_.
               sbind (init_page ops fmt marker marker) (\<lambda>_.
                 set_padding ops fmt marker)))
       | _ \<Rightarrow> sfail InvalidStorage)"

text \<open>
  The scan of \<open>recover_operation\<close>. Its result is the position of the last entry if the scan ran
  to the end, or \<^const>\<open>None\<close> if an interrupted operation was found and completed.
\<close>

function recover_loop :: "'s storage_ops \<Rightarrow> format \<Rightarrow> position \<Rightarrow> position \<Rightarrow> position \<Rightarrow> ('s, position option) store_op" where
  "recover_loop ops fmt end_pos pos prev_pos s =
     (if pos < end_pos then
        (case parse_entry ops fmt s pos of
           Ok (e, pos') \<Rightarrow>
             if e = TailEntry then (Ok (Some prev_pos), s)
             else (case e of
                     UserEntry _ \<Rightarrow> recover_loop ops fmt end_pos pos' pos s
                   | PaddingEntry \<Rightarrow>
                       (case wipe_span ops fmt (pos + 1) (pos' - pos - 1) s of
                          (Ok _, s') \<Rightarrow> recover_loop ops fmt end_pos pos' pos s'
                        | (Err e, s') \<Rightarrow> (Err e, s')
                        | (Panic, s') \<Rightarrow> (Panic, s'))
                   | InternalEntry (EraseEntry _) \<Rightarrow> (Err InvalidStorage, s)
                   | InternalEntry (ClearEntry _) \<Rightarrow> sbind (clear_delete ops fmt pos) (\<lambda>_. sret None) s
                   | InternalEntry (MarkerEntry _) \<Rightarrow> sbind (recover_transaction ops fmt pos end_pos) (\<lambda>_. sret None) s
                   | InternalEntry (RemoveEntry _) \<Rightarrow>
                       (case set_padding ops fmt pos s of
                          (Ok _, s') \<Rightarrow> recover_loop ops fmt end_pos pos' pos s'
                        | (Err e, s') \<Rightarrow> (Err e, s')
                        | (Panic, s') \<Rightarrow> (Panic, s'))
                   | PartialEntry \<Rightarrow> sbind (recover_wipe_partial ops fmt pos (pos' - pos - 1)) (\<lambda>_. sret None) s
                   | PartialUserEntry \<Rightarrow> sbind (recover_delete_user ops fmt pos (pos' - pos - 1)) (\<lambda>_. sret None) s)
         | Err e \<Rightarrow> (Err e, s)
         | Panic \<Rightarrow> (Panic, s))
      else (Ok (Some prev_pos), s))"
  by pat_completeness auto
termination
  by (relation "measure (\<lambda>(ops, fmt, end_pos, pos, prev, s). end_pos - pos)") (auto dest: parse_entry_progress)

declare recover_loop.simps [simp del]

definition recover_operation :: "'s storage_ops \<Rightarrow> format \<Rightarrow> ('s, unit) store_op" where
  "recover_operation ops fmt =
     sbind (sread (head ops fmt)) (\<lambda>head.
     sbind (recover_loop ops fmt (head + virt_size fmt) head head) (\<lambda>prev.
       case prev of
         None \<Rightarrow> sret ()
       | Some prev_pos \<Rightarrow>
           sbind (sread (\<lambda>s. parse_entry ops fmt s prev_pos)) (\<lambda>(e, pos).
             case e of
               UserEntry h \<Rightarrow> insert_init ops fmt prev_pos (pos - prev_pos - 1) (hdr_key h)
             | _ \<Rightarrow> sret ())))"

definition recover :: "'s storage_ops \<Rightarrow> format \<Rightarrow> ('s, unit) store_op" where
  "recover ops fmt =
     sbind (recover_initialize ops fmt) (\<lambda>_.
     sbind (recover_erase ops fmt) (\<lambda>_.
     sbind (recover_compaction ops fmt) (\<lambda>_.
       recover_operation ops fmt)))"

text \<open>The format and the storage of a new store; on an error the storage is handed back.\<close>

definition store_new :: "'s storage_ops \<Rightarrow> 's \<Rightarrow> (store_error, format) outcome \<times> 's" where
  "store_new ops s =
     (case format_new ops s of
        None \<Rightarrow> (Err InvalidArgument, s)
      | Some fmt \<Rightarrow> sbind (recover ops fmt) (\<lambda>_. sret fmt) s)"

end
