(* ===== verification/Int256.thy ===== *)
theory Int256
  imports Effects
begin

text \<open>
  Integers of 256 bits (\<open>libraries/crypto/src/ec/int256.rs\<close>): eight 32-bit digits, the least
  significant first. The loops over the digits carry a \<open>u64\<close>, here a 64-bit word, or an
  \<open>i64\<close> borrow, here an \<open>int\<close> that every operation wraps to 64 bits; the constant-time
  \<open>Choice\<close> is a boolean and \<open>conditional_select\<close> a conditional.
\<close>

definition BITS_PER_DIGIT :: nat where "BITS_PER_DIGIT = 32"
definition NDIGITS :: nat where "NDIGITS = 8"
definition NBYTES :: nat where "NBYTES = 32"

type_synonym int256 = "u32 list"

definition i64_wrap :: "int \<Rightarrow> int" where
  "i64_wrap i = signed_take_bit 63 i"

definition int256_N :: int256 where
  "int256_N = [0xfc632551, 0xf3b9cac2, 0xa7179e84, 0xbce6faad, 0xffffffff, 0xffffffff, 0x00000000, 0xffffffff]"

definition int256_N_MIN_2 :: int256 where
  "int256_N_MIN_2 = [0xfc63254f, 0xf3b9cac2, 0xa7179e84, 0xbce6faad, 0xffffffff, 0xffffffff, 0x00000000, 0xffffffff]"

definition int256_P :: int256 where
  "int256_P = [0xffffffff, 0xffffffff, 0xffffffff, 0x00000000, 0x00000000, 0x00000000, 0x00000001, 0xffffffff]"

definition int256_B :: int256 where
  "int256_B = [0x27d2604b, 0x3bce3c3e, 0xcc53b0f6, 0x651d06b0, 0x769886bc, 0xb3ebbd55, 0xaa3a93e7, 0x5ac635d8]"

definition int256_R :: int256 where
  "int256_R = [0x00000002, 0x00000000, 0x00000000, 0xfffffffe, 0xffffffff, 0xffffffff, 0xfffffffd, 0x00000001]"

definition int256_R_INV :: int256 where
  "int256_R_INV = [0x80000000, 0x00000001, 0xffffffff, 0x00000000, 0x80000001, 0xfffffffe, 0x00000001, 0x7fffffff]"

definition int256_ZERO :: int256 where "int256_ZERO = replicate 8 0"
definition int256_ONE :: int256 where "int256_ONE = 1 # replicate 7 0"

section \<open>Serialization\<close>

text \<open>\<open>BigEndian::read_u32\<close> and \<open>write_u32\<close>.\<close>

definition be_read_u32 :: "bytes \<Rightarrow> u32" where
  "be_read_u32 bs = of_nat (be_val bs)"

definition be_write_u32 :: "u32 \<Rightarrow> bytes" where
  "be_write_u32 w = be_enc 4 (unat w)"

definition from_bin :: "bytes \<Rightarrow> int256" where
  "from_bin src = rev (map (\<lambda>i. be_read_u32 (take 4 (drop (4 * i) src))) [0..<NDIGITS])"

definition to_bin :: "int256 \<Rightarrow> bytes" where
  "to_bin x = concat (map (\<lambda>i. be_write_u32 (x ! (NDIGITS - 1 - i))) [0..<NDIGITS])"

definition to_minimal_encoding :: "int256 \<Rightarrow> bytes" where
  "to_minimal_encoding x =
     (let bytes_buffer = to_bin x in
      case dropWhile (\<lambda>b. b = 0) bytes_buffer of
        [] \<Rightarrow> [0]
      | b # bs \<Rightarrow> (if b AND 0x80 = 0x80 then [0] else []) @ b # bs)"

section \<open>Getters and shifts\<close>

definition int256_bit :: "int256 \<Rightarrow> nat \<Rightarrow> u32" where
  "int256_bit x i = drop_bit (i mod BITS_PER_DIGIT) (x ! (i div BITS_PER_DIGIT)) AND 1"

definition int256_is_zero :: "int256 \<Rightarrow> bool" where
  "int256_is_zero x = fold (\<lambda>d acc. acc \<and> d = 0) x True"

definition int256_shl :: "int256 \<Rightarrow> nat \<Rightarrow> int256 \<times> u32" where
  "int256_shl x n =
     (map2 (\<lambda>d low. push_bit n d OR drop_bit (BITS_PER_DIGIT - n) low) x (0 # butlast x),
      drop_bit (BITS_PER_DIGIT - n) (List.last x))"

definition int256_shr :: "int256 \<Rightarrow> nat \<Rightarrow> int256" where
  "int256_shr x n =
     map2 (\<lambda>d high. drop_bit n d OR push_bit (BITS_PER_DIGIT - n) high) x (drop 1 x @ [0])"

section \<open>Addition and subtraction\<close>

text \<open>The loop of the additions: the digits of the summed and the carry.\<close>

fun add_loop :: "u64 \<Rightarrow> u32 list \<Rightarrow> u32 list \<Rightarrow> u32 list \<times> u64" where
  "add_loop carry (d # ds) (e # es) =
     (let carry = carry + (ucast d + ucast e);
          (rest, tp) = add_loop (drop_bit BITS_PER_DIGIT carry) ds es
      in (ucast carry # rest, tp))"
| "add_loop carry _ _ = ([], carry)"

text \<open>The loop of the subtractions: the digits of the difference and the borrow.\<close>

fun sub_loop :: "int \<Rightarrow> u32 list \<Rightarrow> u32 list \<Rightarrow> u32 list \<times> int" where
  "sub_loop borrow (d # ds) (e # es) =
     (let borrow = i64_wrap (borrow + (uint d - uint e));
          (rest, tp) = sub_loop (drop_bit BITS_PER_DIGIT borrow) ds es
      in (of_int borrow # rest, tp))"
| "sub_loop borrow _ _ = ([], borrow)"

definition int256_add :: "int256 \<Rightarrow> int256 \<Rightarrow> int256 \<times> u32" where
  "int256_add a b = (case add_loop 0 a b of (digits, carry) \<Rightarrow> (digits, ucast carry))"

definition int256_add_digit :: "int256 \<Rightarrow> u32 \<Rightarrow> int256 \<times> u32" where
  "int256_add_digit a digit = (case add_loop (ucast digit) a (replicate NDIGITS 0) of (digits, carry) \<Rightarrow> (digits, ucast carry))"

definition int256_sub :: "int256 \<Rightarrow> int256 \<Rightarrow> int256 \<times> u32" where
  "int256_sub a b = (case sub_loop 0 a b of (digits, borrow) \<Rightarrow> (digits, of_int borrow))"

definition conditional_digits :: "int256 \<Rightarrow> bool \<Rightarrow> int256" where
  "conditional_digits m choice = map (\<lambda>d. if choice then d else 0) m"

definition add_conditional :: "u32 list \<Rightarrow> int256 \<Rightarrow> u32 \<Rightarrow> bool \<Rightarrow> u32 list \<times> u32" where
  "add_conditional dst modd tp choice =
     (case add_loop 0 dst (conditional_digits modd choice) of (digits, carry) \<Rightarrow> (digits, ucast carry + tp))"

definition sub_conditional :: "u32 list \<Rightarrow> int256 \<Rightarrow> u32 \<Rightarrow> bool \<Rightarrow> u32 list \<times> bool" where
  "sub_conditional dst modd tp choice =
     (case sub_loop 0 dst (conditional_digits modd choice) of
        (digits, borrow) \<Rightarrow> (digits, (of_int (i64_wrap (borrow + uint tp)) :: u32) = NOT 0))"

text \<open>\<open>ct_lt\<close> only keeps the borrow.\<close>

definition ct_lt :: "int256 \<Rightarrow> int256 \<Rightarrow> bool" where
  "ct_lt a b = (case sub_loop 0 a b of (_, borrow) \<Rightarrow> borrow AND 1 = 1)"

section \<open>Modular arithmetic\<close>

definition int256_modd :: "int256 \<Rightarrow> int256 \<Rightarrow> int256" where
  "int256_modd x modd =
     (case sub_conditional x modd 0 True of (digits, choice) \<Rightarrow> fst (add_conditional digits modd 0 choice))"

definition modsub_vartime :: "int256 \<Rightarrow> int256 \<Rightarrow> int256 \<Rightarrow> int256" where
  "modsub_vartime a b modd =
     (case int256_sub a b of (diff, borrow) \<Rightarrow> if borrow \<noteq> 0 then fst (int256_add diff modd) else diff)"

definition modadd_vartime :: "int256 \<Rightarrow> int256 \<Rightarrow> int256 \<Rightarrow> int256" where
  "modadd_vartime a b modd =
     (case int256_add a b of (summed, carry) \<Rightarrow>
      (let tmp = (if carry \<noteq> 0 then fst (int256_sub summed modd) else summed) in modsub_vartime tmp modd modd))"

fun mul_add_loop :: "u64 \<Rightarrow> u32 list \<Rightarrow> u32 list \<Rightarrow> u32 \<Rightarrow> u32 list \<times> u64" where
  "mul_add_loop carry (d # ds) (s # ss) factor =
     (let carry = carry + ucast d + ucast s * ucast factor;
          (rest, tp) = mul_add_loop (drop_bit BITS_PER_DIGIT carry) ds ss factor
      in (ucast carry # rest, tp))"
| "mul_add_loop carry _ _ factor = ([], carry)"

definition mul_add :: "u32 list \<Rightarrow> int256 \<Rightarrow> u32 \<Rightarrow> u32 list \<times> u32" where
  "mul_add dst src factor = (case mul_add_loop 0 dst src factor of (digits, carry) \<Rightarrow> (digits, ucast carry))"

definition sub_top :: "u32 list \<Rightarrow> int256 \<Rightarrow> u32 \<Rightarrow> u32 \<Rightarrow> u32 list \<times> u32" where
  "sub_top dst src tp src_top =
     (case sub_loop 0 dst src of
        (digits, borrow) \<Rightarrow> (digits, of_int (i64_wrap (i64_wrap (borrow + uint tp) - uint src_top))))"

text \<open>A function on the eight digits of \<open>tmp\<close> from \<open>i\<close> on (\<open>array_mut_ref![tmp, i, NDIGITS]\<close>).\<close>

definition on_window :: "nat \<Rightarrow> (u32 list \<Rightarrow> u32 list \<times> 'a) \<Rightarrow> u32 list \<Rightarrow> u32 list \<times> 'a" where
  "on_window i f tmp =
     (case f (take NDIGITS (drop i tmp)) of (w, r) \<Rightarrow> (take i tmp @ w @ drop (i + NDIGITS) tmp, r))"

fun mul_loop :: "int256 \<Rightarrow> int256 \<Rightarrow> nat list \<Rightarrow> u32 list \<Rightarrow> u32 \<Rightarrow> u32 list \<times> u32" where
  "mul_loop a b [] tmp tp = (tmp, tp)"
| "mul_loop a b (i # is) tmp tp =
     (let tmp = (if i \<noteq> 0 then tmp[i + NDIGITS - 1 := tp] else tmp);
          (tmp, tp) = on_window i (\<lambda>w. mul_add w a (b ! i)) tmp
      in mul_loop a b is tmp tp)"

fun reduce_loop :: "int256 \<Rightarrow> nat list \<Rightarrow> u32 list \<Rightarrow> u32 \<Rightarrow> u32 list \<times> u32" where
  "reduce_loop modd [] tmp tp = (tmp, tp)"
| "reduce_loop modd (j # js) tmp tp =
     (let i = NDIGITS - j;
          (reducer, top_reducer) = mul_add int256_ZERO modd tp;
          (tmp, tp) = on_window i (\<lambda>w. sub_top w reducer tp top_reducer) tmp;
          (tmp, _) = on_window i (\<lambda>w. sub_conditional w modd tp (tp = 1)) tmp
      in reduce_loop modd js tmp (tmp ! (i + NDIGITS - 1)))"

definition modmul_top :: "int256 \<Rightarrow> int256 \<Rightarrow> u32 \<Rightarrow> int256 \<Rightarrow> int256" where
  "modmul_top a b tp_b modd =
     (let (tmp, tp) = mul_loop a b [0..<NDIGITS] (replicate (NDIGITS * 2 + 1) 0) 0;
          tmp = tmp[2 * NDIGITS - 1 := tp];
          (tmp, tp) = on_window NDIGITS (\<lambda>w. mul_add w a tp_b) tmp;
          (tmp, _) = reduce_loop modd [0..<Suc NDIGITS] tmp tp;
          (tmp, choice) = on_window 0 (\<lambda>w. sub_conditional w modd 0 True) tmp;
          (tmp, _) = on_window 0 (\<lambda>w. add_conditional w modd 0 choice) tmp
      in take NDIGITS tmp)"

definition modmul :: "int256 \<Rightarrow> int256 \<Rightarrow> int256 \<Rightarrow> int256" where
  "modmul a b modd = modmul_top a b 0 modd"

text \<open>The constant-time table lookup: the last matching index wins.\<close>

definition set_zero_to_idx :: "int256 list \<Rightarrow> u32 \<Rightarrow> int256" where
  "set_zero_to_idx tbl idx =
     fold (\<lambda>i tbl0. if of_nat i = idx then tbl ! (i - 1) else tbl0) [1..<16] int256_ONE"

fun power_table :: "int256 \<Rightarrow> int256 \<Rightarrow> int256 list \<Rightarrow> nat \<Rightarrow> int256 list" where
  "power_table x modd tbl 0 = tbl"
| "power_table x modd tbl (Suc n) = power_table x modd (tbl @ [modmul (List.last tbl) x modd]) n"

definition power_idx :: "int256 \<Rightarrow> nat \<Rightarrow> u32" where
  "power_idx pwr i =
     push_bit 3 (int256_bit pwr (i - 1)) OR push_bit 2 (int256_bit pwr (i - 2))
       OR push_bit 1 (int256_bit pwr (i - 3)) OR int256_bit pwr (i - 4)"

definition modpow_step :: "int256 list \<Rightarrow> int256 \<Rightarrow> int256 \<Rightarrow> nat \<Rightarrow> int256 \<Rightarrow> int256" where
  "modpow_step tbl pwr modd j result =
     (let i = 256 - j;
          result = modmul result result modd;
          result = modmul result result modd;
          result = modmul result result modd;
          result = modmul result result modd;
          idx = power_idx pwr i;
          tbl0 = set_zero_to_idx tbl idx;
          tbl0 = modmul tbl0 result modd
      in if idx \<noteq> 0 then tbl0 else result)"

definition modpow :: "int256 \<Rightarrow> int256 \<Rightarrow> int256 \<Rightarrow> int256" where
  "modpow x pwr modd =
     (let tbl = power_table x modd [x] 14
      in fold (modpow_step tbl pwr modd) (map (\<lambda>k. 4 * k) [0..<64]) int256_ONE)"

section \<open>Values\<close>

fun digits_val :: "u32 list \<Rightarrow> nat" where
  "digits_val [] = 0"
| "digits_val (d # ds) = unat d + 2 ^ 32 * digits_val ds"

definition int256_ok :: "int256 \<Rightarrow> bool" where
  "int256_ok x \<longleftrightarrow> length x = NDIGITS"

end
