(* ===== verification/Int256_Correct.thy ===== *)
theory Int256_Correct
  imports Int256
begin

text \<open>
  The arithmetic of 256-bit integers against natural numbers. Every loop over digits satisfies an
  equation on the values of its digits, with the carry or borrow as the digit that leaves at the
  top; none of the intermediate results overflows its machine type.
\<close>

abbreviation base :: nat where "base \<equiv> 2 ^ 32"

section \<open>Digits\<close>

lemma unat_u32_less: "unat (d :: u32) < base"
  using unsigned_less [of d] by simp

lemma unat_ucast_u32_u64 [simp]: "unat (ucast (d :: u32) :: u64) = unat d"
  by (simp add: unsigned_ucast_eq take_bit_eq_mod less_trans [OF unat_u32_less])

lemma unat_ucast_u64_u32 [simp]: "unat (ucast (c :: u64) :: u32) = unat c mod base"
  by (simp add: unsigned_ucast_eq take_bit_eq_mod)

lemma unat_of_int_u32: "int (unat (of_int i :: u32)) = i mod int base"
  by (simp add: unsigned_of_int take_bit_eq_mod)

lemma digits_val_less: "digits_val ds < base ^ length ds"
proof (induction ds)
  case (Cons d ds)
  have "unat d + base * digits_val ds < base * Suc (digits_val ds)"
    using unat_u32_less [of d] by simp
  also have "\<dots> \<le> base * base ^ length ds" using Cons.IH by (intro mult_le_mono2) simp
  finally show ?case by simp
qed simp

lemma digits_val_append: "digits_val (xs @ ys) = digits_val xs + base ^ length xs * digits_val ys"
  by (induction xs) (simp_all add: algebra_simps)

lemma digit_unique:
  assumes "a + base * x = b + base * y" and "a < base" and "b < base"
  shows "a = b \<and> x = y"
proof -
  have "(a + base * x) mod base = a" "(b + base * y) mod base = b"
    "(a + base * x) div base = x" "(b + base * y) div base = y"
    using assms(2,3) by simp_all
  with assms(1) show ?thesis by metis
qed

lemma digits_val_inject: "length xs = length ys \<Longrightarrow> digits_val xs = digits_val ys \<Longrightarrow> xs = ys"
proof (induction xs ys rule: list_induct2)
  case (Cons x xs y ys)
  with digit_unique [OF _ unat_u32_less unat_u32_less, of x "digits_val xs" y "digits_val ys"]
  show ?case by (simp add: unsigned_word_eqI)
qed simp

lemma digits_val_replicate_0 [simp]: "digits_val (replicate n 0) = 0"
  by (induction n) simp_all

section \<open>The loops\<close>

lemma digit_step:
  assumes "A + base ^ n * c = v div base + s + t"
  shows "v mod base + base * A + base ^ Suc n * c = v + base * s + base * t"
proof -
  have "v mod base + base * A + base ^ Suc n * c = v mod base + base * (A + base ^ n * c)"
    by (simp add: algebra_simps)
  also have "\<dots> = v mod base + base * (v div base) + base * s + base * t"
    unfolding assms by (simp add: algebra_simps)
  finally show ?thesis by simp
qed

lemma add_loop_val:
  assumes "length ds = length es" and "unat carry < base" and "add_loop carry ds es = (r, c)"
  shows "length r = length ds \<and> unat c < base
    \<and> digits_val r + base ^ length ds * unat c = unat carry + digits_val ds + digits_val es"
  using assms
proof (induction carry ds es arbitrary: r c rule: add_loop.induct)
  case (1 carry d ds e es)
  define v where "v = carry + (ucast d + ucast e)"
  have v: "unat v = unat carry + unat d + unat e"
    using 1(3) unat_u32_less [of d] unat_u32_less [of e]
    by (simp add: v_def unat_word_ariths)
  have small: "unat (drop_bit BITS_PER_DIGIT v) < base"
    using v 1(3) unat_u32_less [of d] unat_u32_less [of e] by (simp add: BITS_PER_DIGIT_def unat_drop_bit)
  obtain rest where rest: "add_loop (drop_bit BITS_PER_DIGIT v) ds es = (rest, c)" "r = ucast v # rest"
    using 1(4) by (auto simp: v_def Let_def split: prod.splits)
  from 1(1) [OF v_def _ small rest(1)] 1(2)
  have IH: "length rest = length ds" "unat c < base"
    "digits_val rest + base ^ length ds * unat c = unat v div base + digits_val ds + digits_val es"
    by (simp_all add: BITS_PER_DIGIT_def unat_drop_bit)
  show ?case using IH(1,2) digit_step [OF IH(3)] by (simp add: rest(2) v)
qed simp_all

lemma mul_add_loop_val:
  assumes "length ds = length ss" and "unat carry < base" and "mul_add_loop carry ds ss f = (r, c)"
  shows "length r = length ds \<and> unat c < base
    \<and> digits_val r + base ^ length ds * unat c = unat carry + digits_val ds + digits_val ss * unat f"
  using assms
proof (induction carry ds ss f arbitrary: r c rule: mul_add_loop.induct)
  case (1 carry d ds s ss f)
  define v where "v = carry + ucast d + ucast s * ucast f"
  have prod: "unat s * unat f \<le> (base - 1) * (base - 1)"
    using unat_u32_less [of s] unat_u32_less [of f] by (intro mult_le_mono) simp_all
  have v: "unat v = unat carry + unat d + unat s * unat f"
    using 1(3) unat_u32_less [of d] prod by (simp add: v_def unat_word_ariths)
  have small: "unat (drop_bit BITS_PER_DIGIT v) < base"
    using v 1(3) unat_u32_less [of d] prod by (simp add: BITS_PER_DIGIT_def unat_drop_bit)
  obtain rest where rest: "mul_add_loop (drop_bit BITS_PER_DIGIT v) ds ss f = (rest, c)" "r = ucast v # rest"
    using 1(4) by (auto simp: v_def Let_def split: prod.splits)
  from 1(1) [OF v_def _ small rest(1)] 1(2)
  have IH: "length rest = length ds" "unat c < base"
    "digits_val rest + base ^ length ds * unat c = unat v div base + digits_val ds + digits_val ss * unat f"
    by (simp_all add: BITS_PER_DIGIT_def unat_drop_bit)
  show ?case using IH(1,2) digit_step [OF IH(3)] by (simp add: rest(2) v algebra_simps)
qed simp_all

lemma uint_u32_range: "0 \<le> uint (d :: u32)" "uint (d :: u32) < 4294967296"
  using uint_lt2p [of d] by simp_all

lemma i64_wrap_small: "- (2 ^ 63) \<le> i \<Longrightarrow> i < 2 ^ 63 \<Longrightarrow> i64_wrap i = i"
  unfolding i64_wrap_def by (simp add: signed_take_bit_int_eq_self)

lemma i64_wrap_borrow: "b = 0 \<or> b = - 1 \<Longrightarrow> i64_wrap (b + uint (tp :: u32)) = b + uint tp"
proof -
  assume "b = 0 \<or> b = - 1"
  then have "- 9223372036854775808 \<le> b + uint tp" "b + uint tp < 9223372036854775808"
    using uint_u32_range [of tp] by linarith+
  then show ?thesis by (intro i64_wrap_small) simp_all
qed

lemma div_borrow:
  assumes "- int base \<le> v" and "v < int base"
  shows "v div int base = 0 \<or> v div int base = - 1"
proof (cases "v < 0")
  case True
  with assms have "(v + int base) div int base = 0" by (intro div_pos_pos_trivial) simp_all
  then show ?thesis by (simp add: div_add_self2)
qed (use assms in simp)

lemma sub_loop_val:
  assumes "length ds = length es" and "borrow = 0 \<or> borrow = - 1" and "sub_loop borrow ds es = (r, c)"
  shows "length r = length ds \<and> (c = 0 \<or> c = - 1)
    \<and> int (digits_val r) + int base ^ length ds * c = borrow + int (digits_val ds) - int (digits_val es)"
  using assms
proof (induction borrow ds es arbitrary: r c rule: sub_loop.induct)
  case (1 borrow d ds e es)
  define v where "v = i64_wrap (borrow + (uint d - uint e))"
  have v: "v = borrow + int (unat d) - int (unat e)"
  proof -
    have "- 9223372036854775808 \<le> borrow + (uint d - uint e)" "borrow + (uint d - uint e) < 9223372036854775808"
      using 1(3) uint_u32_range [of d] uint_u32_range [of e] by linarith+
    then have "v = borrow + (uint d - uint e)" unfolding v_def by (intro i64_wrap_small) simp_all
    then show ?thesis by simp
  qed
  have "v = borrow + uint d - uint e" using v by simp
  then have "- 4294967296 \<le> v" "v < 4294967296"
    using 1(3) uint_u32_range [of d] uint_u32_range [of e] by linarith+
  then have small: "drop_bit BITS_PER_DIGIT v = v div int base" "v div int base = 0 \<or> v div int base = - 1"
    using div_borrow [of v] by (simp_all add: BITS_PER_DIGIT_def drop_bit_eq_div)
  obtain rest where rest: "sub_loop (v div int base) ds es = (rest, c)" "r = of_int v # rest"
    using 1(4) by (auto simp: small(1) Let_def split: prod.splits simp flip: v_def)
  from 1(1) [OF v_def, unfolded small(1), OF _ small(2) rest(1)] 1(2)
  have IH: "length rest = length ds" "c = 0 \<or> c = - 1"
    "int (digits_val rest) + int base ^ length ds * c = v div int base + int (digits_val ds) - int (digits_val es)"
    by simp_all
  have "int (digits_val r) + int base ^ length (d # ds) * c
      = v mod int base + int base * (int (digits_val rest) + int base ^ length ds * c)"
    by (simp add: rest(2) unsigned_of_int take_bit_eq_mod algebra_simps)
  also have "\<dots> = v mod int base + int base * (v div int base) + int base * (int (digits_val ds) - int (digits_val es))"
    unfolding IH(3) by (simp add: algebra_simps)
  finally show ?case using IH(1,2) by (simp add: rest(2) v algebra_simps)
qed simp_all

section \<open>Addition, subtraction and comparison\<close>

abbreviation top256 :: nat where "top256 \<equiv> 2 ^ 256"

lemma base_pow_8: "base ^ 8 = top256"
  by (simp flip: power_mult)

lemma int256_less: "int256_ok x \<Longrightarrow> digits_val x < top256"
  using digits_val_less [of x] by (simp add: int256_ok_def NDIGITS_def flip: base_pow_8)

lemma int256_add_loop:
  assumes "int256_ok a" and "int256_ok b" and "unat carry < base" and "add_loop carry a b = (r, c)"
  shows "int256_ok r" and "unat c < base"
    and "digits_val r + top256 * unat c = unat carry + digits_val a + digits_val b"
  using add_loop_val [OF _ assms(3,4)] assms(1,2)
  by (simp_all add: int256_ok_def NDIGITS_def base_pow_8)

lemma int256_sub_loop:
  assumes "int256_ok a" and "int256_ok b" and "sub_loop 0 a b = (r, c)"
  shows "int256_ok r" and "c = (if digits_val a < digits_val b then - 1 else 0)"
    and "digits_val r + digits_val b = digits_val a + (if digits_val a < digits_val b then top256 else 0)"
proof -
  have *: "length r = 8 \<and> (c = 0 \<or> c = - 1)
      \<and> int (digits_val r) + int top256 * c = int (digits_val a) - int (digits_val b)"
    using sub_loop_val [OF _ _ assms(3)] assms(1,2) base_pow_8
    by (simp add: int256_ok_def NDIGITS_def flip: of_nat_power)
  then show ok: "int256_ok r" by (simp add: int256_ok_def NDIGITS_def)
  show c: "c = (if digits_val a < digits_val b then - 1 else 0)"
    using * int256_less [OF ok] by auto
  show "digits_val r + digits_val b = digits_val a + (if digits_val a < digits_val b then top256 else 0)"
    using * c by (auto split: if_splits)
qed

lemma int256_add_val:
  assumes "int256_ok a" and "int256_ok b"
  obtains s c where "int256_add a b = (s, c)" and "int256_ok s" and "unat c \<le> 1"
    and "digits_val s + top256 * unat c = digits_val a + digits_val b"
proof -
  obtain s c where l: "add_loop 0 a b = (s, c)" by fastforce
  note * = int256_add_loop [OF assms _ l, simplified]
  have "unat c \<le> 1" using *(3) int256_less [OF assms(1)] int256_less [OF assms(2)] by simp
  with * l that [of s "ucast c"] show thesis by (simp add: int256_add_def)
qed

lemma int256_sub_val:
  assumes "int256_ok a" and "int256_ok b"
  obtains d where "int256_sub a b = (d, if digits_val a < digits_val b then - 1 else 0)" and "int256_ok d"
    and "digits_val d + digits_val b = digits_val a + (if digits_val a < digits_val b then top256 else 0)"
proof -
  obtain d c where l: "sub_loop 0 a b = (d, c)" by fastforce
  with int256_sub_loop [OF assms l] that [of d] show thesis by (simp add: int256_sub_def)
qed

lemma ct_lt_iff:
  assumes "int256_ok a" and "int256_ok b"
  shows "ct_lt a b \<longleftrightarrow> digits_val a < digits_val b"
proof -
  obtain d c where l: "sub_loop 0 a b = (d, c)" by fastforce
  with int256_sub_loop [OF assms l] show ?thesis by (simp add: ct_lt_def)
qed

lemma int256_is_zero_iff: "int256_is_zero x \<longleftrightarrow> digits_val x = 0"
proof -
  have "fold (\<lambda>d acc. acc \<and> d = 0) x b \<longleftrightarrow> b \<and> digits_val x = 0" for b
    by (induction x arbitrary: b) (auto simp: unat_eq_0)
  then show ?thesis by (simp add: int256_is_zero_def)
qed

lemma conditional_digits [simp]:
  "int256_ok m \<Longrightarrow> int256_ok (conditional_digits m c)"
  "digits_val (conditional_digits m c) = (if c then digits_val m else 0)"
proof -
  show "int256_ok m \<Longrightarrow> int256_ok (conditional_digits m c)"
    by (simp add: int256_ok_def conditional_digits_def)
  show "digits_val (conditional_digits m c) = (if c then digits_val m else 0)"
    by (cases c) (induction m; simp add: conditional_digits_def)+
qed

lemma add_conditional_val:
  assumes "int256_ok d" and "int256_ok m"
  obtains r c where "add_conditional d m tp choice = (r, c + tp)" and "int256_ok r" and "unat c \<le> 1"
    and "digits_val r + top256 * unat c = digits_val d + (if choice then digits_val m else 0)"
proof -
  obtain r c where l: "add_loop 0 d (conditional_digits m choice) = (r, c)" by fastforce
  note * = int256_add_loop [OF assms(1) conditional_digits(1) [OF assms(2)] _ l, simplified]
  have "unat c \<le> 1"
    using *(3) int256_less [OF assms(1)] int256_less [OF assms(2)] by (cases choice) auto
  with * l that [of r "ucast c"] show thesis by (simp add: add_conditional_def)
qed

text \<open>The result of a conditional subtraction, and when it underflows.\<close>

lemma sub_conditional_val:
  assumes "int256_ok d" and "int256_ok m"
  obtains r where "sub_conditional d m tp choice =
      (r, (if digits_val d < (if choice then digits_val m else 0) then - 1 + tp else tp) = - 1)" and "int256_ok r"
    and "digits_val r + (if choice then digits_val m else 0)
      = digits_val d + (if digits_val d < (if choice then digits_val m else 0) then top256 else 0)"
proof -
  obtain r b where l: "sub_loop 0 d (conditional_digits m choice) = (r, b)" by fastforce
  note * = int256_sub_loop [OF assms(1) conditional_digits(1) [OF assms(2)] l, unfolded conditional_digits(2)]
  have w: "i64_wrap (b + uint tp) = b + uint tp"
    using *(2) by (intro i64_wrap_borrow) (simp split: if_splits)
  show thesis
    by (rule that [OF _ *(1) *(3)], unfold sub_conditional_def l prod.case w) (simp add: *(2))
qed

section \<open>Modular addition and subtraction\<close>

lemma int256_modd_val:
  assumes "int256_ok x" and "int256_ok m" and "digits_val x < 2 * digits_val m"
  shows "int256_ok (int256_modd x m) \<and> digits_val (int256_modd x m) = digits_val x mod digits_val m"
proof -
  obtain r where r: "sub_conditional x m 0 True = (r, (if digits_val x < digits_val m then - 1 + 0 else 0) = (- 1 :: u32))"
    "int256_ok r" "digits_val r + digits_val m = digits_val x + (if digits_val x < digits_val m then top256 else 0)"
    using sub_conditional_val [OF assms(1,2), of 0 True] by (auto split: if_splits)
  obtain q c where q: "add_conditional r m 0 (digits_val x < digits_val m) = (q, c + 0)" "int256_ok q" "unat c \<le> 1"
    "digits_val q + top256 * unat c = digits_val r + (if digits_val x < digits_val m then digits_val m else 0)"
    by (rule add_conditional_val [OF r(2) assms(2)])
  have "int256_modd x m = q"
    using r(1) q(1) by (simp add: int256_modd_def split: if_splits)
  moreover have "digits_val q = (if digits_val x < digits_val m then digits_val x else digits_val x - digits_val m)"
    using r(3) q(3,4) int256_less [OF q(2)] int256_less [OF assms(1)]
    by (cases "unat c") (auto split: if_splits)
  moreover have "digits_val x mod digits_val m = (if digits_val x < digits_val m then digits_val x else digits_val x - digits_val m)"
    using assms(3) by (simp add: mod_if)
  ultimately show ?thesis using q(2) by simp
qed

lemma modsub_vartime_val:
  assumes "int256_ok a" and "int256_ok b" and "int256_ok m"
    and "digits_val b \<le> digits_val m" and "digits_val a < digits_val b + digits_val m"
  shows "int256_ok (modsub_vartime a b m)
    \<and> int (digits_val (modsub_vartime a b m)) = (int (digits_val a) - int (digits_val b)) mod int (digits_val m)"
proof -
  obtain d where d: "int256_sub a b = (d, if digits_val a < digits_val b then - 1 else 0)" "int256_ok d"
    "digits_val d + digits_val b = digits_val a + (if digits_val a < digits_val b then top256 else 0)"
    by (rule int256_sub_val [OF assms(1,2)])
  obtain s c where s: "int256_add d m = (s, c)" "int256_ok s" "unat c \<le> 1"
    "digits_val s + top256 * unat c = digits_val d + digits_val m"
    by (rule int256_add_val [OF d(2) assms(3)])
  show ?thesis
  proof (cases "digits_val a < digits_val b")
    case True
    then have "modsub_vartime a b m = s" using d(1) s(1) by (simp add: modsub_vartime_def)
    moreover have "digits_val s + digits_val b = digits_val a + digits_val m"
      using True d(3) s(3,4) int256_less [OF s(2)] assms(4) int256_less [OF assms(3)] by (cases "unat c") auto
    then have "int (digits_val s) = int (digits_val a) - int (digits_val b) + int (digits_val m)" by linarith
    moreover have "(int (digits_val a) - int (digits_val b)) mod int (digits_val m)
        = int (digits_val a) - int (digits_val b) + int (digits_val m)"
      using True assms(4) mod_pos_pos_trivial [of "int (digits_val a) - int (digits_val b) + int (digits_val m)" "int (digits_val m)"]
      by simp
    ultimately show ?thesis using s(2) by simp
  next
    case False
    then have "modsub_vartime a b m = d" "digits_val d + digits_val b = digits_val a"
      using d by (simp_all add: modsub_vartime_def)
    then show ?thesis using d(2) False assms(5) by (auto simp: mod_pos_pos_trivial)
  qed
qed

lemma modadd_vartime_val:
  assumes "int256_ok a" and "int256_ok b" and "int256_ok m"
    and "digits_val a < digits_val m" and "digits_val b < digits_val m"
  shows "int256_ok (modadd_vartime a b m)
    \<and> digits_val (modadd_vartime a b m) = (digits_val a + digits_val b) mod digits_val m"
proof -
  obtain s c where s: "int256_add a b = (s, c)" "int256_ok s" "unat c \<le> 1"
    "digits_val s + top256 * unat c = digits_val a + digits_val b"
    by (rule int256_add_val [OF assms(1,2)])
  obtain d where d: "int256_sub s m = (d, if digits_val s < digits_val m then - 1 else 0)" "int256_ok d"
    "digits_val d + digits_val m = digits_val s + (if digits_val s < digits_val m then top256 else 0)"
    by (rule int256_sub_val [OF s(2) assms(3)])
  define t where "t = (if c \<noteq> 0 then d else s)"
  have t: "modadd_vartime a b m = modsub_vartime t m m" "int256_ok t"
    using s(1,2) d(1,2) by (simp_all add: modadd_vartime_def t_def)
  have val: "digits_val t + (if c \<noteq> 0 then digits_val m else 0) = digits_val a + digits_val b"
    using s(3,4) d(3) assms(4,5) int256_less [OF d(2)] int256_less [OF assms(3)]
    by (cases "unat c") (auto simp: t_def unat_eq_0 split: if_splits)
  have "digits_val t < digits_val m + digits_val m" using val assms(4,5) by (auto split: if_splits)
  from modsub_vartime_val [OF t(2) assms(3,3) le_refl this]
  have "int256_ok (modadd_vartime a b m)"
    "int (digits_val (modadd_vartime a b m)) = int (digits_val t) mod int (digits_val m)"
    by (simp_all add: t(1))
  moreover have "digits_val t mod digits_val m = (digits_val a + digits_val b) mod digits_val m"
    unfolding val [symmetric] by simp
  ultimately show ?thesis by (metis of_nat_eq_iff of_nat_mod)
qed

section \<open>Modular multiplication\<close>

lemma mul_add_val:
  assumes "int256_ok d" and "int256_ok s"
  obtains r c where "mul_add d s f = (r, c)" and "int256_ok r"
    and "digits_val r + top256 * unat c = digits_val d + digits_val s * unat f"
proof -
  obtain r c where l: "mul_add_loop 0 d s f = (r, c)" by fastforce
  have "length d = length s" using assms by (simp add: int256_ok_def)
  from mul_add_loop_val [OF this _ l] assms(1) that [of r "ucast c"] l show thesis
    by (simp add: mul_add_def int256_ok_def NDIGITS_def base_pow_8)
qed

text \<open>The moduli of the library have a most significant digit of \<open>0xffffffff\<close>.\<close>

definition modulus_ok :: "int256 \<Rightarrow> bool" where
  "modulus_ok m \<longleftrightarrow> int256_ok m \<and> List.last m = 0xffffffff"

lemma modulus_bound:
  assumes "modulus_ok m"
  shows "(base - 1) * base ^ 7 \<le> digits_val m" and "digits_val m < top256" and "int256_ok m"
proof -
  have m: "m \<noteq> []" "length (butlast m) = 7" using assms by (auto simp: modulus_ok_def int256_ok_def NDIGITS_def)
  have "digits_val m = digits_val (butlast m) + base ^ 7 * unat (List.last m)"
    using digits_val_append [of "butlast m" "[List.last m]"] m by simp
  then show "(base - 1) * base ^ 7 \<le> digits_val m" using assms by (simp add: modulus_ok_def)
  show "int256_ok m" using assms by (simp add: modulus_ok_def)
  then show "digits_val m < top256" by (rule int256_less)
qed

lemma top256_base: "top256 = base * base ^ 7"
  by (simp flip: base_pow_8)

text \<open>
  One reduction step on a window of eight digits and the digit above it: subtracting the top digit
  times the modulus leaves at most one in the top digit, and then one more subtraction clears it.
\<close>

lemma reduce_window:
  assumes "modulus_ok m" and "int256_ok w"
    and "mul_add int256_ZERO m tp = (reducer, top_reducer)"
    and "sub_top w reducer tp top_reducer = (w1, tp1)"
    and "sub_conditional w1 m tp1 (tp1 = 1) = (w2, x)"
  shows "int256_ok w2 \<and> (\<exists>k. digits_val w + top256 * unat tp = digits_val w2 + k * digits_val m)"
proof -
  note m = modulus_bound [OF assms(1)]
  define t where "t = int (unat tp)"
  define M where "M = int (digits_val m)"
  have ok0: "int256_ok int256_ZERO" "digits_val int256_ZERO = 0"
    by (simp_all add: int256_ZERO_def int256_ok_def NDIGITS_def)
  obtain "int256_ok reducer" and red: "int (digits_val reducer) + int top256 * int (unat top_reducer) = M * t"
    using mul_add_val [OF ok0(1) m(3), of tp] assms(3) ok0(2)
    by (metis M_def add_0 fst_conv of_nat_add of_nat_mult snd_conv t_def)
  obtain b where l: "sub_loop 0 w reducer = (w1, b)"
    using assms(4) by (auto simp: sub_top_def split: prod.splits)
  note sub = int256_sub_loop [OF assms(2) \<open>int256_ok reducer\<close> l]
  define Z where "Z = int (digits_val w) + int top256 * t - M * t"
  define D where "D = b + t - int (unat top_reducer)"
  have Z: "Z = int (digits_val w1) + int top256 * D"
    using sub(2,3) red by (simp add: Z_def D_def algebra_simps split: if_splits)
  have t: "0 \<le> t" "t \<le> int base - 1" using uint_u32_range [of tp] by (simp_all add: t_def)
  have M: "int top256 - int base ^ 7 \<le> M" "M < int top256"
    using m(1,2) by (simp_all add: M_def)
  have "(int top256 - M) * t \<le> int base ^ 7 * (int base - 1)"
    using M t by (intro mult_mono) simp_all
  moreover have "0 \<le> (int top256 - M) * t" using M t by (intro mult_nonneg_nonneg) simp_all
  ultimately have slack: "0 \<le> int top256 * t - M * t" "int top256 * t - M * t \<le> int top256 - int base ^ 7"
    by (simp_all add: algebra_simps)
  have w: "int (digits_val w) < int top256" "int (digits_val w1) < int top256"
    using int256_less [OF assms(2)] int256_less [OF sub(1)] by simp_all
  have range: "0 \<le> Z" "Z < 2 * int top256 - int base ^ 7" using slack w(1) by (simp_all add: Z_def)
  then have "- 1 < D" "D < 2" using Z w(2) by simp_all
  then have D: "D = 0 \<or> D = 1" by auto
  have "i64_wrap (i64_wrap (b + uint tp) - uint top_reducer) = D"
    using sub(2) D by (subst i64_wrap_borrow) (auto simp: D_def t_def i64_wrap_small)
  then have tp1: "tp1 = of_int D" using assms(4) by (simp add: sub_top_def l)
  obtain r where r: "w2 = r" "int256_ok r"
    "digits_val r + (if tp1 = 1 then digits_val m else 0) =
      digits_val w1 + (if digits_val w1 < (if tp1 = 1 then digits_val m else 0) then top256 else 0)"
    using sub_conditional_val [OF sub(1) m(3), of tp1 "tp1 = 1"] assms(5) by (metis fst_conv)
  have "int (digits_val w2) = Z - D * M"
  proof (cases "D = 0")
    case True
    then show ?thesis using r(1,3) tp1 Z by simp
  next
    case False
    then have "D = 1" using D by simp
    moreover from this have "digits_val w1 < digits_val m" using Z range M by (simp add: M_def)
    ultimately show ?thesis using r(1,3) tp1 Z by (simp add: M_def)
  qed
  then have "int (digits_val w + top256 * unat tp) = int (digits_val w2 + nat (t + D) * digits_val m)"
    using t(1) D by (auto simp: Z_def M_def algebra_simps t_def)
  then show ?thesis using r(1,2) of_nat_eq_iff by blast
qed

text \<open>The value of the first digits after a change of a window.\<close>

lemma on_window_split:
  assumes "on_window i f tmp = (tmp', r)" and "i + 8 \<le> length tmp"
    and "\<And>w w'. int256_ok w \<Longrightarrow> f w = (w', r) \<Longrightarrow> int256_ok w'"
  obtains w w' where "f w = (w', r)" and "int256_ok w" and "int256_ok w'" and "length tmp' = length tmp"
    and "digits_val (take (i + 8) tmp) = digits_val (take i tmp) + base ^ i * digits_val w"
    and "digits_val (take (i + 8) tmp') = digits_val (take i tmp) + base ^ i * digits_val w'"
    and "drop (i + 8) tmp' = drop (i + 8) tmp"
proof -
  define w where "w = take NDIGITS (drop i tmp)"
  obtain w' where w': "f w = (w', r)" "tmp' = take i tmp @ w' @ drop (i + 8) tmp"
    using assms(1) by (auto simp: on_window_def w_def NDIGITS_def split: prod.splits)
  have ok: "int256_ok w" using assms(2) by (simp add: w_def int256_ok_def NDIGITS_def)
  note ok' = assms(3) [OF ok w'(1)]
  have len: "length (take i tmp) = i" "length w' = 8" using assms(2) ok' by (simp_all add: int256_ok_def NDIGITS_def)
  have "take (i + 8) tmp = take i tmp @ w" by (simp add: w_def NDIGITS_def take_add)
  moreover have "take (i + 8) tmp' = take i tmp @ w'" "drop (i + 8) tmp' = drop (i + 8) tmp"
    using len by (simp_all add: w'(2))
  moreover have "length tmp' = length tmp" using len assms(2) by (simp add: w'(2))
  ultimately show thesis
    using that [OF w'(1) ok ok'] len(1) by (simp add: digits_val_append)
qed

lemma take_snoc_val:
  "n < length tmp \<Longrightarrow> digits_val (take (Suc n) tmp) = digits_val (take n tmp) + base ^ n * unat (tmp ! n)"
  by (simp add: take_Suc_conv_app_nth digits_val_append)

lemma mul_window:
  assumes "on_window i (\<lambda>w. mul_add w a f) tmp = (tmp', c)" and "i + 8 \<le> length tmp" and "int256_ok a"
  shows "length tmp' = length tmp"
    and "digits_val (take (i + 8) tmp') + base ^ (i + 8) * unat c
      = digits_val (take (i + 8) tmp) + base ^ i * (digits_val a * unat f)"
proof -
  have "int256_ok w'" if "int256_ok w" "mul_add w a f = (w', c)" for w w'
    using mul_add_val [OF that(1) assms(3), of f] that(2) by (metis fst_conv)
  then obtain w w' where w: "mul_add w a f = (w', c)" "int256_ok w" "length tmp' = length tmp"
    and v: "digits_val (take (i + 8) tmp) = digits_val (take i tmp) + base ^ i * digits_val w"
    "digits_val (take (i + 8) tmp') = digits_val (take i tmp) + base ^ i * digits_val w'"
    using on_window_split [OF assms(1,2)] by metis
  have "digits_val w' + top256 * unat c = digits_val w + digits_val a * unat f"
    using mul_add_val [OF w(2) assms(3), of f] w(1) by (metis fst_conv snd_conv)
  then have "base ^ i * (digits_val w' + base ^ 8 * unat c) = base ^ i * (digits_val w + digits_val a * unat f)"
    by (simp only: base_pow_8)
  then show "digits_val (take (i + 8) tmp') + base ^ (i + 8) * unat c
      = digits_val (take (i + 8) tmp) + base ^ i * (digits_val a * unat f)"
    unfolding v by (simp only: power_add algebra_simps)
  show "length tmp' = length tmp" by (rule w(3))
qed

definition mul_inv :: "int256 \<Rightarrow> int256 \<Rightarrow> nat \<Rightarrow> u32 list \<Rightarrow> u32 \<Rightarrow> bool" where
  "mul_inv a b i tmp tp \<longleftrightarrow> length tmp = 17 \<and> (i = 0 \<longrightarrow> tmp ! 7 = tp)
     \<and> digits_val (take (i + 7) tmp) + base ^ (i + 7) * unat tp = digits_val a * digits_val (take i b)"

lemma mul_loop_inv:
  assumes "int256_ok a" and "int256_ok b" and "i \<le> 8" and "mul_inv a b i tmp tp"
    and "mul_loop a b [i..<8] tmp tp = (tmp', tp')"
  shows "mul_inv a b 8 tmp' tp'"
  using assms(3-)
proof (induction "8 - i" arbitrary: i tmp tp)
  case (Suc n)
  then have i: "i < 8" by simp
  define t1 where "t1 = (if i \<noteq> 0 then tmp[i + 7 := tp] else tmp)"
  obtain t2 tp2 where t2: "on_window i (\<lambda>w. mul_add w a (b ! i)) t1 = (t2, tp2)" by fastforce
  have t1: "length t1 = 17" "digits_val (take (i + 8) t1) = digits_val a * digits_val (take i b)"
    using Suc.prems(2) i take_snoc_val [of "i + 7" t1] by (auto simp: mul_inv_def t1_def add.commute [of 8 i])
  have "i + 8 \<le> length t1" using t1(1) i by simp
  note step = mul_window [OF t2 this assms(1)]
  have "digits_val (take (Suc i) b) = digits_val (take i b) + base ^ i * unat (b ! i)"
    using i assms(2) by (intro take_snoc_val) (simp add: int256_ok_def NDIGITS_def)
  with step t1 have "mul_inv a b (Suc i) t2 tp2" by (simp add: mul_inv_def algebra_simps)
  moreover have "mul_loop a b [Suc i..<8] t2 tp2 = (tmp', tp')"
    using Suc.prems(3) i t2 by (simp add: upt_conv_Cons t1_def Let_def NDIGITS_def add.commute [of 7 i] cong: if_cong)
  moreover have "n = 8 - Suc i" "Suc i \<le> 8" using Suc.hyps(2) i by simp_all
  ultimately show ?case by (intro Suc.hyps(1))
qed simp

lemma reduce_step:
  assumes "modulus_ok m" and "i + 8 \<le> length tmp"
    and "mul_add int256_ZERO m tp = (reducer, top_reducer)"
    and "on_window i (\<lambda>w. sub_top w reducer tp top_reducer) tmp = (t1, tp1)"
    and "on_window i (\<lambda>w. sub_conditional w m tp1 (tp1 = 1)) t1 = (t2, x)"
  shows "length t2 = length tmp"
    and "\<exists>k. digits_val (take (i + 8) tmp) + base ^ (i + 8) * unat tp
      = digits_val (take (i + 8) t2) + k * digits_val m"
proof -
  note m = modulus_bound [OF assms(1)]
  define w where "w = take 8 (drop i tmp)"
  obtain w1 where w1: "sub_top w reducer tp top_reducer = (w1, tp1)" "t1 = take i tmp @ w1 @ drop (i + 8) tmp"
    using assms(4) by (auto simp: on_window_def w_def NDIGITS_def split: prod.splits)
  have w: "int256_ok w" using assms(2) by (simp add: w_def int256_ok_def NDIGITS_def)
  have "int256_ok reducer"
    using mul_add_val [of int256_ZERO m tp] m(3) assms(3)
    by (metis fst_conv int256_ZERO_def int256_ok_def NDIGITS_def length_replicate)
  then have "length w1 = 8"
    using w1(1) int256_sub_loop(1) [OF w] by (auto simp: sub_top_def int256_ok_def NDIGITS_def split: prod.splits)
  then have t1: "take i t1 = take i tmp" "take 8 (drop i t1) = w1" "drop (i + 8) t1 = drop (i + 8) tmp"
    using assms(2) by (simp_all add: w1(2))
  obtain w2 where w2: "sub_conditional w1 m tp1 (tp1 = 1) = (w2, x)" "t2 = take i tmp @ w2 @ drop (i + 8) tmp"
    using assms(5) t1 by (auto simp: on_window_def NDIGITS_def split: prod.splits)
  obtain k where k: "int256_ok w2" "digits_val w + top256 * unat tp = digits_val w2 + k * digits_val m"
    using reduce_window [OF assms(1) w assms(3) w1(1) w2(1)] by blast
  have len: "length (take i tmp) = i" "length w2 = 8" using assms(2) k(1) by (simp_all add: int256_ok_def NDIGITS_def)
  show "length t2 = length tmp" using len assms(2) by (simp add: w2(2))
  have v: "digits_val (take (i + 8) tmp) = digits_val (take i tmp) + base ^ i * digits_val w"
    "digits_val (take (i + 8) t2) = digits_val (take i tmp) + base ^ i * digits_val w2"
    using len by (simp_all add: w2(2) w_def take_add digits_val_append)
  have "base ^ i * (digits_val w + base ^ 8 * unat tp) = base ^ i * (digits_val w2 + k * digits_val m)"
    unfolding base_pow_8 k(2) ..
  then have "digits_val (take (i + 8) tmp) + base ^ (i + 8) * unat tp
      = digits_val (take (i + 8) t2) + (base ^ i * k) * digits_val m"
    unfolding v by (simp only: power_add algebra_simps)
  then show "\<exists>k. digits_val (take (i + 8) tmp) + base ^ (i + 8) * unat tp
      = digits_val (take (i + 8) t2) + k * digits_val m" ..
qed

text \<open>The number that is left after the reduction of the digits from \<open>i + 8\<close> on.\<close>

lemma reduce_loop_val:
  assumes "modulus_ok m" and "j \<le> 9" and "length tmp = 17" and "j = 9 \<longrightarrow> tp = tmp ! 7"
    and "reduce_loop m [j..<9] tmp tp = (tmp', x)"
  shows "length tmp' = 17 \<and> (digits_val (take (16 - j) tmp) + base ^ (16 - j) * unat tp) mod digits_val m
    = digits_val (take 8 tmp') mod digits_val m"
  using assms(2-)
proof (induction "9 - j" arbitrary: j tmp tp)
  case 0
  then show ?case using take_snoc_val [of 7 tmp] by simp
next
  case (Suc n)
  define i where "i = 8 - j"
  have i: "j + i = 8" "16 - j = i + 8" "16 - Suc j = i + 7" using Suc.hyps(2) by (simp_all add: i_def)
  obtain reducer tr where mul: "mul_add int256_ZERO m tp = (reducer, tr)" by fastforce
  obtain t1 tp1 where t1: "on_window i (\<lambda>w. sub_top w reducer tp tr) tmp = (t1, tp1)" by fastforce
  obtain t2 y where t2: "on_window i (\<lambda>w. sub_conditional w m tp1 (tp1 = 1)) t1 = (t2, y)" by fastforce
  have "i + 8 \<le> length tmp" using i Suc.prems(2) by simp
  note step = reduce_step [OF assms(1) this mul t1 t2]
  have "reduce_loop m [Suc j..<9] t2 (t2 ! (i + 7)) = (tmp', x)"
    using Suc.prems(4) i(1) mul t1 t2
    by (simp add: upt_conv_Cons Let_def NDIGITS_def i_def)
  moreover have "n = 9 - Suc j" "Suc j \<le> 9" "Suc j = 9 \<longrightarrow> t2 ! (i + 7) = t2 ! 7" "length t2 = 17"
    using Suc.hyps(2) Suc.prems(2) step(1) i(1) by auto
  ultimately
  have "length tmp' = 17 \<and> (digits_val (take (i + 7) t2) + base ^ (i + 7) * unat (t2 ! (i + 7))) mod digits_val m
      = digits_val (take 8 tmp') mod digits_val m"
    using Suc.hyps(1) [of "Suc j" t2 "t2 ! (i + 7)"] unfolding i(3) by blast
  moreover have "digits_val (take (i + 8) t2) = digits_val (take (i + 7) t2) + base ^ (i + 7) * unat (t2 ! (i + 7))"
    using take_snoc_val [of "i + 7" t2] step(1) Suc.prems(2) i by (simp add: add.commute [of 8 i])
  moreover obtain k where "digits_val (take (i + 8) tmp) + base ^ (i + 8) * unat tp
      = digits_val (take (i + 8) t2) + k * digits_val m" using step(2) by blast
  ultimately show ?case unfolding i(2) by simp
qed

text \<open>The last conditional subtraction brings the result below the modulus.\<close>

lemma int256_modd_window:
  assumes "length tmp = 17"
    and "on_window 0 (\<lambda>w. sub_conditional w m 0 True) tmp = (t1, choice)"
    and "on_window 0 (\<lambda>w. add_conditional w m 0 choice) t1 = (t2, x)" and "int256_ok m"
  shows "take 8 t2 = int256_modd (take 8 tmp) m"
proof -
  obtain r where r: "sub_conditional (take 8 tmp) m 0 True = (r, choice)" "t1 = r @ drop 8 tmp"
    using assms(2) by (auto simp: on_window_def NDIGITS_def split: prod.splits)
  have w: "int256_ok (take 8 tmp)" using assms(1) by (simp add: int256_ok_def NDIGITS_def)
  have "int256_ok r" using sub_conditional_val [OF w assms(4), of 0 True] r(1) by (metis fst_conv)
  then have t1: "take 8 t1 = r" by (simp add: r(2) int256_ok_def NDIGITS_def)
  obtain q where q: "add_conditional r m 0 choice = (q, x)" "t2 = q @ drop 8 t1"
    using assms(3) t1 by (auto simp: on_window_def NDIGITS_def split: prod.splits)
  have "int256_ok q" using add_conditional_val [OF \<open>int256_ok r\<close> assms(4), of 0 choice] q(1) by (metis fst_conv)
  then show ?thesis by (simp add: q(2) int256_modd_def r(1) q(1) int256_ok_def NDIGITS_def)
qed

lemma modmul_top_val:
  assumes "int256_ok a" and "int256_ok b" and "modulus_ok m"
  shows "int256_ok (modmul_top a b tp_b m) \<and> digits_val (modmul_top a b tp_b m)
    = digits_val a * (digits_val b + top256 * unat tp_b) mod digits_val m"
proof -
  note m = modulus_bound [OF assms(3)]
  obtain t1 p1 where t1: "mul_loop a b [0..<8] (replicate 17 0) 0 = (t1, p1)" by fastforce
  have "mul_inv a b 0 (replicate 17 0) 0" by (simp add: mul_inv_def)
  with mul_loop_inv [OF assms(1,2) _ this t1] assms(2)
  have inv: "length t1 = 17" "digits_val (take 15 t1) + base ^ 15 * unat p1 = digits_val a * digits_val b"
    by (simp_all add: mul_inv_def int256_ok_def NDIGITS_def)
  define t2 where "t2 = t1[15 := p1]"
  have t2: "length t2 = 17" "digits_val (take 16 t2) = digits_val a * digits_val b"
    using inv take_snoc_val [of 15 t2] by (simp_all add: t2_def)
  obtain t3 p3 where t3: "on_window 8 (\<lambda>w. mul_add w a tp_b) t2 = (t3, p3)" by fastforce
  have "length t3 = 17" and v3: "digits_val (take 16 t3) + base ^ 16 * unat p3
      = digits_val a * digits_val b + base ^ 8 * (digits_val a * unat tp_b)"
    using mul_window [OF t3 _ assms(1)] t2 by simp_all
  obtain t4 p4 where t4: "reduce_loop m [0..<9] t3 p3 = (t4, p4)" by fastforce
  from reduce_loop_val [OF assms(3) _ \<open>length t3 = 17\<close> _ t4]
  have v4: "length t4 = 17" "(digits_val (take 16 t3) + base ^ 16 * unat p3) mod digits_val m = digits_val (take 8 t4) mod digits_val m"
    by simp_all
  obtain t5 c where t5: "on_window 0 (\<lambda>w. sub_conditional w m 0 True) t4 = (t5, c)" by fastforce
  obtain t6 d where t6: "on_window 0 (\<lambda>w. add_conditional w m 0 c) t5 = (t6, d)" by fastforce
  have res: "modmul_top a b tp_b m = int256_modd (take 8 t4) m"
    using t1 t3 t4 t5 t6 int256_modd_window [OF v4(1) t5 t6 m(3)]
    by (simp add: modmul_top_def NDIGITS_def t2_def [symmetric])
  have ok: "int256_ok (take 8 t4)" using v4(1) by (simp add: int256_ok_def NDIGITS_def)
  have "digits_val (take 8 t4) < 2 * digits_val m" using int256_less [OF ok] m(1) by simp
  from int256_modd_val [OF ok m(3) this] v3 v4(2) show ?thesis
    unfolding res base_pow_8 by (simp add: algebra_simps)
qed

lemma modmul_val:
  assumes "int256_ok a" and "int256_ok b" and "modulus_ok m"
  shows "int256_ok (modmul a b m)" and "digits_val (modmul a b m) = digits_val a * digits_val b mod digits_val m"
  using modmul_top_val [OF assms, of 0] by (simp_all add: modmul_def)

section \<open>Modular exponentiation\<close>

lemma bit_digits_val:
  "i div 32 < length x \<Longrightarrow> bit (digits_val x) i \<longleftrightarrow> bit (x ! (i div 32)) (i mod 32)"
proof (induction x arbitrary: i)
  case (Cons d x)
  have split: "digits_val (d # x) = unat d + push_bit 32 (digits_val x)" by (simp add: push_bit_eq_mult)
  have low: "take_bit 32 (digits_val (d # x)) = unat d" "drop_bit 32 (digits_val (d # x)) = digits_val x"
    using unat_u32_less [of d] by (simp_all add: take_bit_eq_mod drop_bit_eq_div)
  show ?case
  proof (cases "i < 32")
    case True
    then have "bit (digits_val (d # x)) i \<longleftrightarrow> bit (take_bit 32 (digits_val (d # x))) i" by (simp add: bit_take_bit_iff)
    with True show ?thesis unfolding low(1) by (simp add: bit_unsigned_iff)
  next
    case False
    then have i: "i div 32 = Suc ((i - 32) div 32)" "(i - 32) mod 32 = i mod 32" by (simp_all add: div_if le_mod_geq)
    have "bit (digits_val (d # x)) i \<longleftrightarrow> bit (drop_bit 32 (digits_val (d # x))) (i - 32)"
      using False by (simp add: bit_drop_bit_eq)
    with Cons.IH [of "i - 32"] Cons.prems i show ?thesis unfolding low(2) by simp
  qed
qed simp

lemma int256_bit_val:
  assumes "int256_ok x" and "i < 256"
  shows "int256_bit x i = of_bool (bit (digits_val x) i)"
proof -
  have "i div 32 < length x" using assms by (simp add: int256_ok_def NDIGITS_def less_mult_imp_div_less)
  then show ?thesis
    by (simp add: int256_bit_def BITS_PER_DIGIT_def bit_digits_val and_one_eq mod_2_eq_odd bit_iff_odd_drop_bit [of "x ! _"])
qed

text \<open>Four bits of the exponent.\<close>

lemma nibble_val: "take_bit 4 (n :: nat) = 8 * of_bool (bit n 3) + 4 * of_bool (bit n 2) + 2 * of_bool (bit n 1) + of_bool (bit n 0)"
proof -
  have "take_bit 4 n = take_bit (Suc (Suc (Suc (Suc 0)))) n" by (simp add: numeral_eq_Suc)
  also have "\<dots> = 8 * of_bool (bit n 3) + 4 * of_bool (bit n 2) + 2 * of_bool (bit n 1) + of_bool (bit n 0)"
    by (simp only: take_bit_Suc_from_most take_bit_0) (simp add: numeral_eq_Suc)
  finally show ?thesis .
qed

lemma power_idx_val:
  assumes "int256_ok p" and "4 \<le> i" and "i \<le> 256"
  shows "unat (power_idx p i) = digits_val p div 2 ^ (i - 4) mod 16"
proof -
  define v where "v = digits_val p div 2 ^ (i - 4)"
  have v: "bit v k \<longleftrightarrow> bit (digits_val p) (i - 4 + k)" for k
    by (simp add: v_def bit_drop_bit_eq flip: drop_bit_eq_div)
  have j: "i - 1 = i - 4 + 3" "i - 2 = i - 4 + 2" "i - 3 = i - 4 + 1" using assms(2) by simp_all
  have bits: "int256_bit p (i - 1) = of_bool (bit v 3)" "int256_bit p (i - 2) = of_bool (bit v 2)"
    "int256_bit p (i - 3) = of_bool (bit v 1)" "int256_bit p (i - 4) = of_bool (bit v 0)"
    using assms by (simp_all add: int256_bit_val v j)
  have "unat (power_idx p i) = take_bit 4 v"
    unfolding power_idx_def bits nibble_val
    by (cases "bit v 3"; cases "bit v 2"; cases "bit v 1"; cases "bit v 0"; simp)
  then show ?thesis by (simp add: v_def take_bit_eq_mod)
qed

lemma fold_select:
  "k \<in> set xs \<Longrightarrow> (\<And>i. i \<in> set xs \<Longrightarrow> P i \<longleftrightarrow> i = k) \<Longrightarrow> fold (\<lambda>i r. if P i then f i else r) xs r = f k"
proof (induction xs arbitrary: r)
  case (Cons x xs)
  show ?case
  proof (cases "k \<in> set xs")
    case False
    then have "x = k" using Cons.prems(1) by simp
    moreover from False Cons.prems(2) have "fold (\<lambda>i r. if P i then f i else r) xs r' = r'" for r'
      by (induction xs arbitrary: r') auto
    ultimately show ?thesis using Cons.prems(2) by simp
  qed (use Cons in auto)
qed simp

lemma set_zero_to_idx_val:
  assumes "idx \<noteq> 0" and "unat idx < 16"
  shows "set_zero_to_idx tbl idx = tbl ! (unat idx - 1)"
proof -
  have "of_nat i = idx \<longleftrightarrow> i = unat idx" if "i \<in> set [1..<16]" for i
    using that by (auto simp: unat_of_nat take_bit_eq_mod)
  moreover have "unat idx \<in> set [1..<16]" using assms by (simp add: Suc_le_eq unat_gt_0)
  ultimately show ?thesis
    unfolding set_zero_to_idx_def by (intro fold_select [where f = "\<lambda>i. tbl ! (i - 1)"]) auto
qed

definition table_inv :: "nat \<Rightarrow> nat \<Rightarrow> int256 list \<Rightarrow> bool" where
  "table_inv x m tbl \<longleftrightarrow> tbl \<noteq> []
     \<and> (\<forall>k < length tbl. int256_ok (tbl ! k) \<and> digits_val (tbl ! k) mod m = x ^ Suc k mod m)"

lemma power_table_inv:
  assumes "modulus_ok m" and "int256_ok x" and "table_inv (digits_val x) (digits_val m) tbl"
  shows "table_inv (digits_val x) (digits_val m) (power_table x m tbl n)
    \<and> length (power_table x m tbl n) = length tbl + n"
  using assms(3)
proof (induction n arbitrary: tbl)
  case (Suc n)
  define e where "e = tbl ! (length tbl - 1)"
  have ne: "Suc (length tbl - 1) = length tbl" "List.last tbl = e"
    using Suc.prems by (auto simp: table_inv_def e_def last_conv_nth)
  have "length tbl - 1 < length tbl" using ne(1) by simp
  with Suc.prems have e: "int256_ok e" "digits_val e mod digits_val m = digits_val x ^ length tbl mod digits_val m"
    unfolding table_inv_def e_def using ne(1) by metis+
  have "digits_val (modmul e x m) mod digits_val m = digits_val x ^ Suc (length tbl) mod digits_val m"
    using modmul_val(2) [OF e(1) assms(2,1)] e(2)
    by (simp add: mult.commute [of _ "digits_val x"]) (metis mod_mult_right_eq)
  then have "table_inv (digits_val x) (digits_val m) (tbl @ [modmul e x m])"
    using Suc.prems modmul_val(1) [OF e(1) assms(2,1)] by (auto simp: table_inv_def nth_append less_Suc_eq)
  from Suc.IH [OF this] show ?case by (simp add: ne(2))
qed simp

lemma power_2_4: "(2 :: nat) ^ 4 = 16"
  by simp

lemma modpow_step_val:
  assumes "modulus_ok m" and "int256_ok p" and "table_inv x (digits_val m) tbl" and "length tbl = 15"
    and "int256_ok r" and "digits_val r = x ^ (digits_val p div 2 ^ (256 - j)) mod digits_val m" and "j \<le> 252"
  shows "int256_ok (modpow_step tbl p m j r)
    \<and> digits_val (modpow_step tbl p m j r) = x ^ (digits_val p div 2 ^ (252 - j)) mod digits_val m"
proof -
  define M where "M = digits_val m"
  define e where "e = digits_val p div 2 ^ (256 - j)"
  define idx where "idx = power_idx p (256 - j)"
  note sq = modmul_val [OF _ _ assms(1), folded M_def]
  define r1 where "r1 = modmul r r m"
  define r2 where "r2 = modmul r1 r1 m"
  define r3 where "r3 = modmul r2 r2 m"
  define r4 where "r4 = modmul r3 r3 m"
  have ok: "int256_ok r1" "int256_ok r2" "int256_ok r3" "int256_ok r4"
    using assms(5) sq(1) by (simp_all add: r1_def r2_def r3_def r4_def)
  have square: "x ^ a mod M * (x ^ a mod M) mod M = x ^ (2 * a) mod M" for a
    by (simp add: mod_mult_eq power_mult power2_eq_square power_mult_distrib)
  have v0: "digits_val r = x ^ e mod M" using assms(6) by (simp add: e_def M_def)
  have v1: "digits_val r1 = x ^ (2 * e) mod M" unfolding r1_def sq(2) [OF assms(5,5)] v0 by (rule square)
  have v2: "digits_val r2 = x ^ (2 * (2 * e)) mod M" unfolding r2_def sq(2) [OF ok(1,1)] v1 by (rule square)
  have v3: "digits_val r3 = x ^ (2 * (2 * (2 * e))) mod M" unfolding r3_def sq(2) [OF ok(2,2)] v2 by (rule square)
  have "digits_val r4 = x ^ (2 * (2 * (2 * (2 * e)))) mod M" unfolding r4_def sq(2) [OF ok(3,3)] v3 by (rule square)
  then have v4: "digits_val r4 = x ^ (16 * e) mod M" by simp
  have idx: "unat idx = digits_val p div 2 ^ (252 - j) mod 16" "unat idx < 16"
  proof -
    have "256 - j - 4 = 252 - j" by simp
    with power_idx_val [OF assms(2), of "256 - j"] assms(7)
    show "unat idx = digits_val p div 2 ^ (252 - j) mod 16" by (simp add: idx_def del: power_numeral)
    then show "unat idx < 16" by (simp del: power_numeral)
  qed
  have "e = digits_val p div 2 ^ (252 - j) div 16"
  proof -
    have "256 - j = 252 - j + 4" using assms(7) by simp
    then have "(2 :: nat) ^ (256 - j) = 2 ^ (252 - j) * 2 ^ 4" by (simp only: power_add)
    then have "(2 :: nat) ^ (256 - j) = 2 ^ (252 - j) * 16" by (simp only: power_2_4)
    then show ?thesis by (simp only: e_def div_mult2_eq)
  qed
  then have e': "digits_val p div 2 ^ (252 - j) = 16 * e + unat idx"
    using idx(1) mult_div_mod_eq [of 16 "digits_val p div 2 ^ (252 - j)"] by metis
  have step: "modpow_step tbl p m j r = (if idx \<noteq> 0 then modmul (set_zero_to_idx tbl idx) r4 m else r4)"
    by (simp add: modpow_step_def Let_def r1_def r2_def r3_def r4_def idx_def)
  show ?thesis
  proof (cases "idx = 0")
    case True
    then show ?thesis using ok(4) v4 e' by (simp add: step M_def)
  next
    case False
    then have pos: "0 < unat idx" by (simp add: unat_gt_0)
    define t where "t = tbl ! (unat idx - 1)"
    have "unat idx - 1 < length tbl" "Suc (unat idx - 1) = unat idx" using idx(2) pos assms(4) by simp_all
    with assms(3) have t: "set_zero_to_idx tbl idx = t" "int256_ok t" "digits_val t mod M = x ^ unat idx mod M"
      using set_zero_to_idx_val [OF False idx(2)] unfolding table_inv_def t_def M_def by metis+
    have "digits_val (modmul t r4 m) = x ^ unat idx * x ^ (16 * e) mod M"
      unfolding sq(2) [OF t(2) ok(4)] v4 using t(3) by (metis mod_mult_eq mod_mod_trivial)
    then show ?thesis using False t sq(1) [OF t(2) ok(4)] e' by (simp add: step M_def power_add mult.commute)
  qed
qed

lemma modpow_val:
  assumes "int256_ok x" and "int256_ok p" and "modulus_ok m"
  shows "int256_ok (modpow x p m) \<and> digits_val (modpow x p m) = digits_val x ^ digits_val p mod digits_val m"
proof -
  define tbl where "tbl = power_table x m [x] 14"
  have "table_inv (digits_val x) (digits_val m) [x]" using assms(1) by (simp add: table_inv_def)
  then have tbl: "table_inv (digits_val x) (digits_val m) tbl" "length tbl = 15"
    using power_table_inv [OF assms(3,1), of "[x]" 14] by (simp_all add: tbl_def)
  have "n \<le> 64 \<Longrightarrow> int256_ok (fold (modpow_step tbl p m) (map (\<lambda>k. 4 * k) [0..<n]) int256_ONE)
      \<and> digits_val (fold (modpow_step tbl p m) (map (\<lambda>k. 4 * k) [0..<n]) int256_ONE)
        = digits_val x ^ (digits_val p div 2 ^ (256 - 4 * n)) mod digits_val m" for n
  proof (induction n)
    case 0
    have "digits_val p div 2 ^ 256 = 0" using int256_less [OF assms(2)] by simp
    moreover have "1 < digits_val m" using modulus_bound(1) [OF assms(3)] by simp
    ultimately show ?case by (simp add: int256_ONE_def int256_ok_def NDIGITS_def)
  next
    case (Suc n)
    then show ?case
      using modpow_step_val [OF assms(3,2) tbl, of "fold (modpow_step tbl p m) (map (\<lambda>k. 4 * k) [0..<n]) int256_ONE" "4 * n"]
      by simp
  qed
  from this [of 64] show ?thesis by (simp add: modpow_def tbl_def)
qed

section \<open>Serialization\<close>

lemma be_val_append: "be_val (xs @ ys) = be_val xs * 256 ^ length ys + be_val ys"
proof (induction ys rule: rev_induct)
  case (snoc y ys)
  have "be_val (xs @ ys @ [y]) = be_val (xs @ ys) * 256 + unat y"
    using be_val_snoc [of "xs @ ys" y] by simp
  with snoc show ?case by (simp add: algebra_simps)
qed simp

lemma be_read_u32_val: "length bs = 4 \<Longrightarrow> unat (be_read_u32 bs) = be_val bs"
  using be_val_less [of bs] by (simp add: be_read_u32_def unat_of_nat take_bit_eq_mod)

lemma digits_val_chunks:
  "length bs = 4 * n \<Longrightarrow>
    digits_val (rev (map (\<lambda>i. be_read_u32 (take 4 (drop (4 * i) bs))) [0..<n])) = be_val bs"
proof (induction n arbitrary: bs)
  case (Suc n)
  define h where "h = take (4 * n) bs"
  define l where "l = drop (4 * n) bs"
  have bs: "bs = h @ l" "length h = 4 * n" "length l = 4" using Suc.prems by (simp_all add: h_def l_def)
  have "map (\<lambda>i. be_read_u32 (take 4 (drop (4 * i) bs))) [0..<n] = map (\<lambda>i. be_read_u32 (take 4 (drop (4 * i) h))) [0..<n]"
    using bs by (intro map_cong) simp_all
  moreover have "take 4 (drop (4 * n) bs) = l" using bs by simp
  ultimately have "digits_val (rev (map (\<lambda>i. be_read_u32 (take 4 (drop (4 * i) bs))) [0..<Suc n])) = be_val l + base * be_val h"
    using Suc.IH [OF bs(2)] be_read_u32_val [OF bs(3)] by (simp del: take_append drop_append map_eq_conv)
  with bs(3) show ?case by (simp add: bs(1) be_val_append)
qed simp

lemma from_bin_val:
  "length bs = 32 \<Longrightarrow> int256_ok (from_bin bs) \<and> digits_val (from_bin bs) = be_val bs"
  using digits_val_chunks [of bs 8] by (simp add: from_bin_def int256_ok_def NDIGITS_def)

lemma be_enc_add: "be_enc (m + n) v = be_enc m (v div 256 ^ n) @ be_enc n v"
  by (induction n arbitrary: v) (simp_all add: div_mult2_eq)

lemma be_enc_mod: "be_enc n (v mod 256 ^ n) = be_enc n v"
proof -
  have "be_enc (length (be_enc n v)) (be_val (be_enc n v)) = be_enc n v" by (rule be_enc_be_val)
  then show ?thesis by (simp add: be_val_be_enc)
qed

lemma concat_digits: "concat (map be_write_u32 (rev x)) = be_enc (4 * length x) (digits_val x)"
proof (induction x)
  case (Cons d x)
  have "be_enc (4 * length (d # x)) (digits_val (d # x)) = be_enc (4 * length x + 4) (unat d + base * digits_val x)"
    by (simp add: add.commute)
  also have "\<dots> = be_enc (4 * length x) ((unat d + base * digits_val x) div base) @ be_enc 4 ((unat d + base * digits_val x) mod base)"
    using be_enc_mod [of 4 "unat d + base * digits_val x"] by (simp add: be_enc_add)
  also have "\<dots> = be_enc (4 * length x) (digits_val x) @ be_enc 4 (unat d)"
    using unat_u32_less [of d] by simp
  finally show ?case using Cons.IH by (simp add: be_write_u32_def)
qed simp

lemma to_bin_enc: "int256_ok x \<Longrightarrow> to_bin x = be_enc 32 (digits_val x)"
proof -
  assume x: "int256_ok x"
  have "map (\<lambda>i. x ! (7 - i)) [0..<8] = rev x"
    using x by (intro nth_equalityI) (simp_all add: int256_ok_def NDIGITS_def rev_nth)
  then have "concat (map be_write_u32 (map (\<lambda>i. x ! (7 - i)) [0..<8])) = concat (map be_write_u32 (rev x))"
    by simp
  then have "to_bin x = concat (map be_write_u32 (rev x))"
    by (simp only: to_bin_def NDIGITS_def list.map_comp comp_def) simp
  with x show ?thesis by (simp add: concat_digits int256_ok_def NDIGITS_def)
qed

lemma to_bin_val: "int256_ok x \<Longrightarrow> length (to_bin x) = 32 \<and> be_val (to_bin x) = digits_val x"
  using int256_less [of x] by (simp add: to_bin_enc be_val_be_enc)

lemma to_bin_from_bin: "length bs = 32 \<Longrightarrow> to_bin (from_bin bs) = bs"
  using from_bin_val [of bs] to_bin_enc [of "from_bin bs"] be_enc_be_val [of bs] by simp

lemma from_bin_to_bin: "int256_ok x \<Longrightarrow> from_bin (to_bin x) = x"
  using from_bin_val [of "to_bin x"] to_bin_val [of x] digits_val_inject [of "from_bin (to_bin x)" x]
  by (simp add: int256_ok_def)

lemma be_val_dropWhile: "be_val (dropWhile (\<lambda>b. b = 0) bs) = be_val bs"
proof (induction bs)
  case (Cons b bs)
  show ?case using Cons be_val_append [of "[b]" bs] be_val_snoc [of "[]" b] by auto
qed simp

text \<open>A DER integer: not empty, with the sign bit clear and no superfluous leading byte.\<close>

definition der_integer :: "bytes \<Rightarrow> bool" where
  "der_integer bs \<longleftrightarrow> bs \<noteq> [] \<and> hd bs < 0x80 \<and> (length bs = 1 \<or> hd bs \<noteq> 0 \<or> 0x80 \<le> bs ! 1)"

lemma and_exp_word: "(b :: u8) AND 2 ^ n = (if bit b n then 2 ^ n else 0)"
  by (rule bit_eqI) (auto simp: bit_and_iff bit_exp_iff)

lemma u8_sign: "(b :: u8) AND 0x80 = 0x80 \<longleftrightarrow> 0x80 \<le> b"
proof -
  have "b AND 0x80 = 0x80 \<longleftrightarrow> bit b 7"
    using and_exp_word [of b 7] by simp
  also have "\<dots> \<longleftrightarrow> 128 \<le> unat b"
  proof -
    have "bit b 7 \<longleftrightarrow> odd (unat b div 2 ^ 7)"
      using bit_unsigned_iff [of b 7, where ?'a = nat] bit_iff_odd [of "unat b" 7] by simp
    moreover have "unat b div 2 ^ 7 < 2" using unat_u8_less [of b] by (simp add: div_less_iff_less_mult del: unat_u8_less)
    then have "odd (unat b div 2 ^ 7) \<longleftrightarrow> unat b div 2 ^ 7 = 1" by (auto simp: less_Suc_eq numeral_2_eq_2)
    moreover have "unat b div 2 ^ 7 = 1 \<longleftrightarrow> 128 \<le> unat b"
      using unat_u8_less [of b] by (auto simp del: unat_u8_less)
    ultimately show ?thesis by simp
  qed
  finally show ?thesis by (simp add: word_le_nat_alt)
qed

lemma to_minimal_encoding_val:
  assumes "int256_ok x"
  shows "der_integer (to_minimal_encoding x) \<and> be_val (to_minimal_encoding x) = digits_val x
    \<and> length (to_minimal_encoding x) \<le> 33"
proof -
  note bin = to_bin_val [OF assms]
  show ?thesis
  proof (cases "dropWhile (\<lambda>b. b = 0) (to_bin x)")
    case Nil
    then have "to_minimal_encoding x = [0]" by (simp only: to_minimal_encoding_def Let_def list.case)
    moreover have "digits_val x = 0" using bin be_val_dropWhile [of "to_bin x"] Nil by (simp only: be_val_Nil)
    ultimately show ?thesis using be_val_snoc [of "[]" 0] by (simp add: der_integer_def)
  next
    case (Cons b bs)
    then have b: "b \<noteq> 0" using hd_dropWhile [of "\<lambda>b. b = 0" "to_bin x"] by auto
    have len: "length (b # bs) \<le> 32" using length_dropWhile_le [of "\<lambda>b. b = 0" "to_bin x"] bin Cons by simp
    have val: "be_val (b # bs) = digits_val x" using be_val_dropWhile [of "to_bin x"] bin Cons by simp
    have "be_val (0 # b # bs) = be_val (b # bs)" using be_val_append [of "[0]" "b # bs"] be_val_snoc [of "[]" 0] by simp
    with b len val show ?thesis
      by (auto simp: to_minimal_encoding_def Cons u8_sign der_integer_def)
  qed
qed

section \<open>Properties\<close>

lemma library_moduli: "modulus_ok int256_N" "modulus_ok int256_P"
  by (simp_all add: modulus_ok_def int256_ok_def NDIGITS_def int256_N_def int256_P_def)

lemma constants_length:
  "length int256_N = NDIGITS" "length int256_P = NDIGITS" "length int256_B = NDIGITS"
  "length int256_R = NDIGITS" "length int256_N_MIN_2 = NDIGITS"
  by (simp_all add: NDIGITS_def int256_N_def int256_P_def int256_B_def int256_R_def int256_N_MIN_2_def)

lemma digits_val_N_MIN_2: "digits_val int256_N_MIN_2 + 2 = digits_val int256_N"
  by (simp add: int256_N_MIN_2_def int256_N_def)

text \<open>
  C31. Modular multiplication of eight-digit integers, with a ninth digit in the second factor,
  computes the product modulo the curve order or the field size exactly, for all inputs, reduced or
  not: the estimate of the reducer by the top digit and the conditional subtractions lose nothing.
\<close>

theorem modmul_top_correct:
  assumes "length a = NDIGITS" and "length b = NDIGITS" and "m = int256_N \<or> m = int256_P"
  shows "length (modmul_top a b tp m) = NDIGITS
    \<and> digits_val (modmul_top a b tp m) = digits_val a * (digits_val b + 2 ^ 256 * unat tp) mod digits_val m"
  using modmul_top_val [of a b m tp] assms library_moduli by (auto simp: int256_ok_def)

theorem modmul_top_correct_witness:
  "digits_val (modmul_top int256_P int256_N 5 int256_N)
     = digits_val int256_P * (digits_val int256_N + 2 ^ 256 * 5) mod digits_val int256_N"
  using modmul_top_correct [OF constants_length(2,1), of int256_N 5] by simp

text \<open>
  C32. The constant-time exponentiation with a table of 15 powers and windows of four bits computes
  the power modulo the curve order or the field size; the inverse of an exponent is its power
  \<open>N - 2\<close>.
\<close>

theorem modpow_correct:
  assumes "length x = NDIGITS" and "length e = NDIGITS" and "m = int256_N \<or> m = int256_P"
  shows "length (modpow x e m) = NDIGITS \<and> digits_val (modpow x e m) = digits_val x ^ digits_val e mod digits_val m
    \<and> digits_val (modpow x int256_N_MIN_2 m) = digits_val x ^ (digits_val int256_N - 2) mod digits_val m"
proof -
  have m: "modulus_ok m" using assms(3) library_moduli by blast
  show ?thesis
    using constants_length(5) modpow_val [of x e m] modpow_val [of x int256_N_MIN_2 m] assms(1,2) m digits_val_N_MIN_2
    by (metis add_diff_cancel_right' int256_ok_def)
qed

theorem modpow_correct_witness:
  "digits_val (modpow int256_B int256_R int256_P) = digits_val int256_B ^ digits_val int256_R mod digits_val int256_P"
  using modpow_correct [OF constants_length(3,4), of int256_P] by blast

text \<open>
  Modular addition and subtraction of reduced integers return the reduced sum and difference,
  and the constant-time comparison is the order of the values.
\<close>

theorem modadd_modsub_correct:
  assumes "length a = NDIGITS" and "length b = NDIGITS" and "length m = NDIGITS"
    and "digits_val a < digits_val m" and "digits_val b < digits_val m"
  shows "digits_val (modadd_vartime a b m) = (digits_val a + digits_val b) mod digits_val m
    \<and> int (digits_val (modsub_vartime a b m)) = (int (digits_val a) - int (digits_val b)) mod int (digits_val m)
    \<and> (ct_lt a b \<longleftrightarrow> digits_val a < digits_val b)"
  using modadd_vartime_val [of a b m] modsub_vartime_val [of a b m] ct_lt_iff [of a b] assms
  by (simp add: int256_ok_def)

theorem modadd_modsub_correct_witness:
  "digits_val (modadd_vartime int256_B int256_R int256_P)
     = (digits_val int256_B + digits_val int256_R) mod digits_val int256_P \<and> ct_lt int256_R int256_B"
proof -
  have less: "digits_val int256_R < digits_val int256_B" "digits_val int256_B < digits_val int256_P"
    by (simp_all add: int256_R_def int256_B_def int256_P_def)
  from modadd_modsub_correct [OF constants_length(3,4,2) less(2)] modadd_modsub_correct [OF constants_length(4,3,2) _ less(2)] less
  show ?thesis using less_trans by blast
qed

text \<open>
  Serialization of 256-bit integers: the big-endian bytes and the digits determine each other
  and have the same value, and the minimal encoding is a DER integer of that value, of at most 33
  bytes.
\<close>

theorem int256_serialization:
  assumes "length x = NDIGITS" and "length bs = NBYTES"
  shows "from_bin (to_bin x) = x \<and> to_bin (from_bin bs) = bs \<and> digits_val (from_bin bs) = be_val bs
    \<and> der_integer (to_minimal_encoding x) \<and> be_val (to_minimal_encoding x) = digits_val x
    \<and> length (to_minimal_encoding x) \<le> 33"
  using from_bin_to_bin [of x] to_bin_from_bin [of bs] from_bin_val [of bs] to_minimal_encoding_val [of x] assms
  by (simp add: int256_ok_def NBYTES_def)

theorem int256_serialization_witness:
  "from_bin (to_bin int256_N) = int256_N \<and> der_integer (to_minimal_encoding int256_N)"
  using int256_serialization [OF constants_length(1), of "replicate NBYTES 7"] by (simp only: length_replicate)

end
