(* ===== verification/Ec_Field.thy ===== *)
theory Ec_Field
  imports Int256_Correct
begin

text \<open>
  Exponents modulo the curve order (\<open>libraries/crypto/src/ec/exponent256.rs\<close>), field elements in
  their serialized form (\<open>ec/gfp256.rs\<close>) and the validation of points (\<open>ec/point.rs\<close>). The
  wrapper structures with one field are the integer itself; a \<open>CtOption\<close> is an option.
\<close>

section \<open>Exponents\<close>

type_synonym exponent = int256
type_synonym nz_exponent = int256

definition exponent_from_int_checked :: "int256 \<Rightarrow> exponent option" where
  "exponent_from_int_checked x = (if ct_lt x int256_N then Some x else None)"

definition modn :: "int256 \<Rightarrow> exponent" where
  "modn x = int256_modd x int256_N"

definition non_zero :: "exponent \<Rightarrow> nz_exponent option" where
  "non_zero e = (if \<not> int256_is_zero e then Some e else None)"

definition exponent_mul_top :: "exponent \<Rightarrow> int256 \<Rightarrow> u32 \<Rightarrow> exponent" where
  "exponent_mul_top e other other_top = modmul_top e other other_top int256_N"

definition exponent_mul :: "exponent \<Rightarrow> exponent \<Rightarrow> exponent" where
  "exponent_mul a b = modmul a b int256_N"

definition nz_from_int_checked :: "int256 \<Rightarrow> nz_exponent option" where
  "nz_from_int_checked x =
     Option.bind (exponent_from_int_checked x) (\<lambda>e. if \<not> int256_is_zero e then Some e else None)"

definition nz_inv :: "nz_exponent \<Rightarrow> nz_exponent" where
  "nz_inv e = modpow e int256_N_MIN_2 int256_N"

definition nz_mul :: "nz_exponent \<Rightarrow> nz_exponent \<Rightarrow> nz_exponent" where
  "nz_mul a b = exponent_mul a b"

text \<open>
  Rejection sampling. The generator of 256-bit integers (\<open>Rng256::gen_uniform_u32x8\<close>) is an argument
  over a state of its own; a run that rejects forever has the value \<^const>\<open>None\<close>.
\<close>

partial_function (option) gen_uniform :: "('r \<Rightarrow> int256 \<times> 'r) \<Rightarrow> 'r \<Rightarrow> (nz_exponent \<times> 'r) option" where
  "gen_uniform gen r =
     (case gen r of (x, r') \<Rightarrow>
        if ct_lt int256_N_MIN_2 x then gen_uniform gen r'
        else Some (fst (int256_add_digit x 1), r'))"

section \<open>Field elements and points\<close>

type_synonym gfp = int256

record point_p256 =
  pt_x :: gfp
  pt_y :: gfp

definition gfp_from_int_checked :: "int256 \<Rightarrow> gfp option" where
  "gfp_from_int_checked x = (if ct_lt x int256_P then Some x else None)"

definition gfp_mul_top :: "gfp \<Rightarrow> int256 \<Rightarrow> u32 \<Rightarrow> gfp" where
  "gfp_mul_top a other other_top = modmul_top a other other_top int256_P"

definition gfp_mul :: "gfp \<Rightarrow> gfp \<Rightarrow> gfp" where
  "gfp_mul a b = modmul a b int256_P"

definition gfp_add :: "gfp \<Rightarrow> gfp \<Rightarrow> gfp" where
  "gfp_add a b = modadd_vartime a b int256_P"

definition gfp_sub :: "gfp \<Rightarrow> gfp \<Rightarrow> gfp" where
  "gfp_sub a b = modsub_vartime a b int256_P"

definition is_valid_point_vartime :: "gfp \<Rightarrow> gfp \<Rightarrow> bool" where
  "is_valid_point_vartime x y =
     (if int256_is_zero x \<or> int256_is_zero y then False
      else
        (let y2 = gfp_mul y y;
             x2 = gfp_mul x x;
             x3 = gfp_mul x2 x;
             xx = x3;
             xx = gfp_sub xx x;
             xx = gfp_sub xx x;
             xx = gfp_sub xx x;
             xx = gfp_add xx int256_B
         in xx = y2))"

definition new_checked_vartime :: "int256 \<Rightarrow> int256 \<Rightarrow> point_p256 option" where
  "new_checked_vartime x y =
     Option.bind (gfp_from_int_checked x) (\<lambda>gfx.
     Option.bind (gfp_from_int_checked y) (\<lambda>gfy.
       if is_valid_point_vartime gfx gfy then Some \<lparr>pt_x = gfx, pt_y = gfy\<rparr> else None))"

definition from_bytes_uncompressed_vartime :: "bytes \<Rightarrow> point_p256 option" where
  "from_bytes_uncompressed_vartime bs =
     (if length bs \<noteq> 65 \<or> bs ! 0 \<noteq> 0x04 then None
      else new_checked_vartime (from_bin (take 32 (drop 1 bs))) (from_bin (take 32 (drop 33 bs))))"

section \<open>Exponents as numbers\<close>

abbreviation order_N :: nat where "order_N \<equiv> digits_val int256_N"
abbreviation prime_P :: nat where "prime_P \<equiv> digits_val int256_P"

lemma int256_ok_constants [simp]:
  "int256_ok int256_N" "int256_ok int256_P" "int256_ok int256_B" "int256_ok int256_N_MIN_2"
  using constants_length by (simp_all add: int256_ok_def)

definition exponent_ok :: "exponent \<Rightarrow> bool" where
  "exponent_ok e \<longleftrightarrow> int256_ok e \<and> digits_val e < order_N"

definition nz_exponent_ok :: "nz_exponent \<Rightarrow> bool" where
  "nz_exponent_ok e \<longleftrightarrow> exponent_ok e \<and> 0 < digits_val e"

lemma exponent_from_int_checked_iff:
  "int256_ok x \<Longrightarrow> exponent_from_int_checked x = Some e \<longleftrightarrow> e = x \<and> exponent_ok x"
  by (auto simp: exponent_from_int_checked_def ct_lt_iff exponent_ok_def)

lemma nz_from_int_checked_iff:
  "int256_ok x \<Longrightarrow> nz_from_int_checked x = Some e \<longleftrightarrow> e = x \<and> nz_exponent_ok x"
  by (auto simp: nz_from_int_checked_def exponent_from_int_checked_iff bind_eq_Some_conv
      int256_is_zero_iff nz_exponent_ok_def split: if_splits)

lemma order_N_large: "2 ^ 256 < 2 * order_N" "2 < order_N"
  by (simp_all add: int256_N_def)

lemma modn_val: "int256_ok x \<Longrightarrow> exponent_ok (modn x) \<and> digits_val (modn x) = digits_val x mod order_N"
  using int256_modd_val [of x int256_N] int256_less [of x] order_N_large
  by (simp add: modn_def exponent_ok_def)

lemma exponent_mul_val:
  assumes "int256_ok a" and "int256_ok b"
  shows "exponent_ok (exponent_mul_top a b t) \<and> digits_val (exponent_mul_top a b t)
      = digits_val a * (digits_val b + 2 ^ 256 * unat t) mod order_N"
    and "exponent_ok (exponent_mul a b) \<and> digits_val (exponent_mul a b) = digits_val a * digits_val b mod order_N"
  using modmul_top_val [OF assms library_moduli(1)] modmul_val [OF assms library_moduli(1)] order_N_large(2)
  by (simp_all add: exponent_mul_top_def exponent_mul_def exponent_ok_def)

lemma nz_inv_val:
  "int256_ok e \<Longrightarrow> exponent_ok (nz_inv e) \<and> digits_val (nz_inv e) = digits_val e ^ (order_N - 2) mod order_N"
  using modpow_val [of e int256_N_MIN_2 int256_N] library_moduli(1) order_N_large(2) digits_val_N_MIN_2
  by (simp add: nz_inv_def exponent_ok_def flip: digits_val_N_MIN_2)

section \<open>Sampling\<close>

lemma int256_add_digit_val:
  assumes "int256_ok x" and "digits_val x + unat d < 2 ^ 256"
  shows "int256_ok (fst (int256_add_digit x d)) \<and> digits_val (fst (int256_add_digit x d)) = digits_val x + unat d"
proof -
  obtain r c where l: "add_loop (ucast d) x (replicate NDIGITS 0) = (r, c)" by fastforce
  have "int256_ok (replicate NDIGITS 0)" by (simp add: int256_ok_def)
  from int256_add_loop [OF assms(1) this _ l] unat_u32_less [of d] assms(2) l show ?thesis
    by (cases "unat c") (auto simp: int256_add_digit_def)
qed

text \<open>The state of the generator after \<open>n\<close> draws, and the draw made then.\<close>

definition draw :: "('r \<Rightarrow> int256 \<times> 'r) \<Rightarrow> nat \<Rightarrow> 'r \<Rightarrow> int256" where
  "draw gen n r = fst (gen (((\<lambda>r. snd (gen r)) ^^ n) r))"

lemma draw_simps: "draw gen 0 r = fst (gen r)" "draw gen (Suc n) r = draw gen n (snd (gen r))"
  using funpow_swap1 [of "\<lambda>r. snd (gen r)" n r] by (simp_all add: draw_def)

lemma gen_uniform_first:
  assumes "\<And>k. k < n \<Longrightarrow> ct_lt int256_N_MIN_2 (draw gen k r)" and "\<not> ct_lt int256_N_MIN_2 (draw gen n r)"
  shows "gen_uniform gen r = Some (fst (int256_add_digit (draw gen n r) 1), ((\<lambda>r. snd (gen r)) ^^ Suc n) r)"
  using assms
proof (induction n arbitrary: r)
  case 0
  then show ?case by (cases "gen r", subst gen_uniform.simps) (simp add: draw_simps)
next
  case (Suc n)
  have "ct_lt int256_N_MIN_2 (fst (gen r))" using Suc.prems(1) [of 0] by (simp add: draw_simps)
  moreover have "gen_uniform gen (snd (gen r)) =
      Some (fst (int256_add_digit (draw gen n (snd (gen r))) 1), ((\<lambda>r. snd (gen r)) ^^ Suc n) (snd (gen r)))"
    using Suc.prems(1) [of "Suc _"] Suc.prems(2) by (intro Suc.IH) (simp_all add: draw_simps)
  ultimately show ?case
    using funpow_swap1 [of "\<lambda>r. snd (gen r)" n r]
    by (cases "gen r", subst gen_uniform.simps) (simp add: draw_simps)
qed

text \<open>
  C34. Sampling an exponent returns as soon as the generator draws a number of at most \<open>N - 2\<close>, with
  the first such draw plus one: a number between 1 and \<open>N - 1\<close>, and every such number is the
  result for exactly one accepted draw.
\<close>

theorem gen_uniform_returns:
  assumes "\<forall>r. length (fst (gen r)) = NDIGITS" and "digits_val (draw gen n r) \<le> order_N - 2"
  shows "\<exists>k e r'. gen_uniform gen r = Some (e, r') \<and> k \<le> n \<and> digits_val (draw gen k r) \<le> order_N - 2
    \<and> (\<forall>j < k. order_N - 2 < digits_val (draw gen j r)) \<and> digits_val e = digits_val (draw gen k r) + 1
    \<and> 0 < digits_val e \<and> digits_val e < order_N"
proof -
  have ok: "int256_ok (draw gen k r)" for k using assms(1) by (simp add: int256_ok_def draw_def)
  have lt: "ct_lt int256_N_MIN_2 (draw gen k r) \<longleftrightarrow> order_N - 2 < digits_val (draw gen k r)" for k
    using ok [of k] by (simp add: ct_lt_iff flip: digits_val_N_MIN_2)
  define k where "k = (LEAST k. digits_val (draw gen k r) \<le> order_N - 2)"
  have k: "digits_val (draw gen k r) \<le> order_N - 2" "k \<le> n" "\<And>j. j < k \<Longrightarrow> order_N - 2 < digits_val (draw gen j r)"
    unfolding k_def using assms(2) by (rule LeastI, rule Least_le) (meson not_le_imp_less not_less_Least)
  have "digits_val (draw gen k r) + 1 < order_N" using k(1) order_N_large(2) by linarith
  moreover from this have "digits_val (draw gen k r) + 1 < 2 ^ 256"
    using int256_less [OF int256_ok_constants(1)] by linarith
  ultimately have "digits_val (fst (int256_add_digit (draw gen k r) 1)) = digits_val (draw gen k r) + 1"
    "digits_val (draw gen k r) + 1 < order_N"
    using int256_add_digit_val [OF ok [of k], of 1] by simp_all
  moreover have "gen_uniform gen r = Some (fst (int256_add_digit (draw gen k r) 1), ((\<lambda>r. snd (gen r)) ^^ Suc k) r)"
    using k by (intro gen_uniform_first) (simp_all add: lt)
  ultimately show ?thesis using k by auto
qed

definition second_draw :: "nat \<Rightarrow> int256 \<times> nat" where
  "second_draw n = (if n = 0 then replicate NDIGITS 0xffffffff else int256_ONE, n + 1)"

theorem gen_uniform_returns_witness:
  "\<exists>k e r'. gen_uniform second_draw 0 = Some (e, r') \<and> k \<le> (1 :: nat) \<and> 0 < digits_val e"
proof -
  have "\<forall>r. length (fst (second_draw r)) = NDIGITS" by (simp add: second_draw_def int256_ONE_def NDIGITS_def)
  moreover have "digits_val (draw second_draw 1 0) \<le> order_N - 2"
    using order_N_large by (simp add: second_draw_def draw_def int256_ONE_def)
  ultimately show ?thesis using gen_uniform_returns [of second_draw 1 0] by blast
qed

section \<open>Validation of points\<close>

lemma gfp_arith_val:
  assumes "int256_ok a" and "int256_ok b" and "digits_val a < prime_P" and "digits_val b < prime_P"
  shows "int256_ok (gfp_mul a b) \<and> digits_val (gfp_mul a b) = digits_val a * digits_val b mod prime_P"
    and "int256_ok (gfp_add a b) \<and> digits_val (gfp_add a b) = (digits_val a + digits_val b) mod prime_P"
    and "int256_ok (gfp_sub a b) \<and> int (digits_val (gfp_sub a b)) = (int (digits_val a) - int (digits_val b)) mod int prime_P"
  using modmul_val [OF assms(1,2) library_moduli(2)] modadd_vartime_val [OF assms(1,2) int256_ok_constants(2) assms(3,4)]
    modsub_vartime_val [OF assms(1,2) int256_ok_constants(2)] assms(3,4)
  by (simp_all add: gfp_mul_def gfp_add_def gfp_sub_def)

text \<open>The equation of the curve: \<open>y\<^sup>2 = x\<^sup>3 - 3 x + b\<close> modulo \<open>p\<close>.\<close>

definition on_curve :: "nat \<Rightarrow> nat \<Rightarrow> bool" where
  "on_curve x y \<longleftrightarrow>
     int y ^ 2 mod int prime_P = (int x ^ 3 - 3 * int x + int (digits_val int256_B)) mod int prime_P"

lemma prime_P_large: "0 < prime_P" "digits_val int256_B < prime_P"
  by (simp_all add: int256_P_def int256_B_def)

lemma is_valid_point_vartime_iff:
  assumes "int256_ok x" and "int256_ok y" and "digits_val x < prime_P" and "digits_val y < prime_P"
  shows "is_valid_point_vartime x y \<longleftrightarrow> 0 < digits_val x \<and> 0 < digits_val y \<and> on_curve (digits_val x) (digits_val y)"
proof -
  define P where "P = int prime_P"
  have P: "0 < P" "\<And>n. int (n mod prime_P) = int n mod P" "\<And>n. int n < P \<Longrightarrow> n < prime_P"
    using prime_P_large by (simp_all add: P_def zmod_int)
  define y2 where "y2 = gfp_mul y y"
  define x2 where "x2 = gfp_mul x x"
  define x3 where "x3 = gfp_mul x2 x"
  define s1 where "s1 = gfp_sub x3 x"
  define s2 where "s2 = gfp_sub s1 x"
  define s3 where "s3 = gfp_sub s2 x"
  define xx where "xx = gfp_add s3 int256_B"
  have step: "int256_ok z \<Longrightarrow> int (digits_val z) = v mod P \<Longrightarrow> digits_val z < prime_P" for z v
    using P(1,3) pos_mod_bound [of P v] by simp
  have v: "int256_ok y2" "int (digits_val y2) = int (digits_val y) * int (digits_val y) mod P"
    "int256_ok x2" "int (digits_val x2) = int (digits_val x) * int (digits_val x) mod P"
    using gfp_arith_val(1) [OF assms(1,1,3,3)] gfp_arith_val(1) [OF assms(2,2,4,4)]
    by (simp_all add: y2_def x2_def P(2))
  have w: "int256_ok x3" "int (digits_val x3) = (int (digits_val x2) * int (digits_val x)) mod P"
    using gfp_arith_val(1) [OF v(3) assms(1) step [OF v(3,4)] assms(3)] by (simp_all add: x3_def P(2))
  have u1: "int256_ok s1" "int (digits_val s1) = (int (digits_val x3) - int (digits_val x)) mod P"
    using gfp_arith_val(3) [OF w(1) assms(1) step [OF w] assms(3)] by (simp_all add: s1_def P_def)
  have u2: "int256_ok s2" "int (digits_val s2) = (int (digits_val s1) - int (digits_val x)) mod P"
    using gfp_arith_val(3) [OF u1(1) assms(1) step [OF u1] assms(3)] by (simp_all add: s2_def P_def)
  have u3: "int256_ok s3" "int (digits_val s3) = (int (digits_val s2) - int (digits_val x)) mod P"
    using gfp_arith_val(3) [OF u2(1) assms(1) step [OF u2] assms(3)] by (simp_all add: s3_def P_def)
  have u4: "int256_ok xx" "int (digits_val xx) = (int (digits_val s3) + int (digits_val int256_B)) mod P"
    using gfp_arith_val(2) [OF u3(1) int256_ok_constants(3) step [OF u3] prime_P_large(2)]
    by (simp_all add: xx_def P(2))
  have "int (digits_val xx) = (int (digits_val x) ^ 3 - 3 * int (digits_val x) + int (digits_val int256_B)) mod P"
    unfolding u4 u3 u2 u1 w v by (simp add: mod_simps power3_eq_cube algebra_simps)
  moreover have "xx = y2 \<longleftrightarrow> int (digits_val xx) = int (digits_val y2)"
    using digits_val_inject [of xx y2] u4(1) v(1) by (auto simp: int256_ok_def)
  ultimately show ?thesis
    unfolding is_valid_point_vartime_def Let_def on_curve_def
    by (simp add: int256_is_zero_iff v(2) P_def power2_eq_square flip: y2_def x2_def x3_def s1_def s2_def s3_def xx_def)
      auto
qed

text \<open>
  C33. A pair of integers is accepted as a public key exactly if both are non-zero and below \<open>p\<close> and
  they satisfy the equation of the curve, and an uncompressed encoding exactly if it has 65 bytes,
  the marker 4, and such coordinates: no point off the curve enters the library.
\<close>

theorem point_validation:
  assumes "length x = NDIGITS" and "length y = NDIGITS"
  shows "(new_checked_vartime x y = Some p \<longleftrightarrow>
      p = \<lparr>pt_x = x, pt_y = y\<rparr> \<and> 0 < digits_val x \<and> digits_val x < prime_P \<and> 0 < digits_val y
      \<and> digits_val y < prime_P \<and> on_curve (digits_val x) (digits_val y))
    \<and> (from_bytes_uncompressed_vartime bs = Some q \<longrightarrow>
      bs = 0x04 # to_bin (pt_x q) @ to_bin (pt_y q) \<and> on_curve (digits_val (pt_x q)) (digits_val (pt_y q)))"
proof -
  have iff: "new_checked_vartime x y = Some p \<longleftrightarrow>
      p = \<lparr>pt_x = x, pt_y = y\<rparr> \<and> 0 < digits_val x \<and> digits_val x < prime_P \<and> 0 < digits_val y
      \<and> digits_val y < prime_P \<and> on_curve (digits_val x) (digits_val y)"
    if "int256_ok x" "int256_ok y" for x y p
    using that is_valid_point_vartime_iff [OF that]
    by (auto simp: new_checked_vartime_def gfp_from_int_checked_def ct_lt_iff bind_eq_Some_conv split: if_splits)
  have "bs = 0x04 # to_bin (pt_x q) @ to_bin (pt_y q) \<and> on_curve (digits_val (pt_x q)) (digits_val (pt_y q))"
    if "from_bytes_uncompressed_vartime bs = Some q"
  proof -
    from that have len: "length bs = 65" "bs ! 0 = 0x04"
      and new: "new_checked_vartime (from_bin (take 32 (drop 1 bs))) (from_bin (take 32 (drop 33 bs))) = Some q"
      by (auto simp: from_bytes_uncompressed_vartime_def split: if_splits)
    have l: "length (take 32 (drop 1 bs)) = 32" "length (take 32 (drop 33 bs)) = 32" using len by simp_all
    then have q: "pt_x q = from_bin (take 32 (drop 1 bs))" "pt_y q = from_bin (take 32 (drop 33 bs))"
      "on_curve (digits_val (pt_x q)) (digits_val (pt_y q))"
      using new iff from_bin_val [OF l(1)] from_bin_val [OF l(2)] by auto
    have "bs = bs ! 0 # take 32 (drop 1 bs) @ take 32 (drop 33 bs)"
      using len(1) by (cases bs) (simp_all add: append_take_drop_id [of 32, symmetric] flip: take_drop)
    then show ?thesis using q to_bin_from_bin [OF l(1)] to_bin_from_bin [OF l(2)] len(2) by simp
  qed
  then show ?thesis using iff assms by (auto simp: int256_ok_def)
qed

definition base_x :: int256 where
  "base_x = [0xd898c296, 0xf4a13945, 0x2deb33a0, 0x77037d81, 0x63a440f2, 0xf8bce6e5, 0xe12c4247, 0x6b17d1f2]"

definition base_y :: int256 where
  "base_y = [0x37bf51f5, 0xcbb64068, 0x6b315ece, 0x2bce3357, 0x7c0f9e16, 0x8ee7eb4a, 0xfe1a7f9b, 0x4fe342e2]"

lemma base_point_on_curve: "on_curve (digits_val base_x) (digits_val base_y)"
proof -
  have "int (digits_val base_x) ^ 3 - 3 * int (digits_val base_x) + int (digits_val int256_B)
      = int (digits_val base_y) ^ 2 + 0x12bdd1ad23dfc833dccf5f6141d6bb4a1f365dc1430b0e600b52dd851938d2d6933106a72efbf035fdaf43963b37fd5456e90c6581a8fb7a0d8a46a3629f0458 * int prime_P"
    by (simp add: base_x_def base_y_def int256_P_def int256_B_def)
  then show ?thesis by (simp only: on_curve_def mod_mult_self1)
qed

theorem point_validation_witness:
  "new_checked_vartime base_x base_y = Some \<lparr>pt_x = base_x, pt_y = base_y\<rparr>"
proof -
  have len: "length base_x = NDIGITS" "length base_y = NDIGITS" by (simp_all add: base_x_def base_y_def NDIGITS_def)
  have "0 < digits_val base_x" "digits_val base_x < prime_P" "0 < digits_val base_y" "digits_val base_y < prime_P"
    by (simp_all add: base_x_def base_y_def int256_P_def)
  with point_validation [OF len, of "\<lparr>pt_x = base_x, pt_y = base_y\<rparr>"] base_point_on_curve show ?thesis by blast
qed

end
