(* ===== verification/Sha256.thy ===== *)
theory Sha256
  imports Int256_Correct
begin

text \<open>
  SHA-256 and HMAC (\<open>libraries/crypto/src/sha256.rs\<close>, \<open>hmac.rs\<close>, the trait \<open>Hash256\<close> of \<open>lib.rs\<close>). The
  hash is computed incrementally: a state of eight 32-bit words, a block that is being filled, and
  the number of bytes so far. \<open>Wrapping<u32>\<close> is a 32-bit word.
\<close>

definition BLOCK_SIZE :: nat where "BLOCK_SIZE = 64"

record sha256 =
  sha_state :: "u32 list"
  sha_block :: bytes
  total_len :: nat

definition SHA_H :: "u32 list" where
  "SHA_H = [0x6a09e667, 0xbb67ae85, 0x3c6ef372, 0xa54ff53a, 0x510e527f, 0x9b05688c, 0x1f83d9ab, 0x5be0cd19]"

definition SHA_K :: "u32 list" where
  "SHA_K =
     [0x428a2f98, 0x71374491, 0xb5c0fbcf, 0xe9b5dba5, 0x3956c25b, 0x59f111f1, 0x923f82a4, 0xab1c5ed5]
     @ [0xd807aa98, 0x12835b01, 0x243185be, 0x550c7dc3, 0x72be5d74, 0x80deb1fe, 0x9bdc06a7, 0xc19bf174]
     @ [0xe49b69c1, 0xefbe4786, 0x0fc19dc6, 0x240ca1cc, 0x2de92c6f, 0x4a7484aa, 0x5cb0a9dc, 0x76f988da]
     @ [0x983e5152, 0xa831c66d, 0xb00327c8, 0xbf597fc7, 0xc6e00bf3, 0xd5a79147, 0x06ca6351, 0x14292967]
     @ [0x27b70a85, 0x2e1b2138, 0x4d2c6dfc, 0x53380d13, 0x650a7354, 0x766a0abb, 0x81c2c92e, 0x92722c85]
     @ [0xa2bfe8a1, 0xa81a664b, 0xc24b8b70, 0xc76c51a3, 0xd192e819, 0xd6990624, 0xf40e3585, 0x106aa070]
     @ [0x19a4c116, 0x1e376c08, 0x2748774c, 0x34b0bcb5, 0x391c0cb3, 0x4ed8aa4a, 0x5b9cca4f, 0x682e6ff3]
     @ [0x748f82ee, 0x78a5636f, 0x84c87814, 0x8cc70208, 0x90befffa, 0xa4506ceb, 0xbef9a3f7, 0xc67178f2]"

definition choice :: "u32 \<Rightarrow> u32 \<Rightarrow> u32 \<Rightarrow> u32" where
  "choice e f g = (e AND f) XOR (NOT e AND g)"

definition majority :: "u32 \<Rightarrow> u32 \<Rightarrow> u32 \<Rightarrow> u32" where
  "majority a b c = (a AND b) XOR (a AND c) XOR (b AND c)"

definition bsig0 :: "u32 \<Rightarrow> u32" where
  "bsig0 x = word_rotr 2 x XOR word_rotr 13 x XOR word_rotr 22 x"

definition bsig1 :: "u32 \<Rightarrow> u32" where
  "bsig1 x = word_rotr 6 x XOR word_rotr 11 x XOR word_rotr 25 x"

definition ssig0 :: "u32 \<Rightarrow> u32" where
  "ssig0 x = word_rotr 7 x XOR word_rotr 18 x XOR drop_bit 3 x"

definition ssig1 :: "u32 \<Rightarrow> u32" where
  "ssig1 x = word_rotr 17 x XOR word_rotr 19 x XOR drop_bit 10 x"

text \<open>The message schedule: 16 words of the block, then 48 derived ones.\<close>

definition schedule_start :: "bytes \<Rightarrow> u32 list" where
  "schedule_start block = map (\<lambda>i. be_read_u32 (take 4 (drop (4 * i) block))) [0..<16]"

fun schedule_loop :: "nat list \<Rightarrow> u32 list \<Rightarrow> u32 list" where
  "schedule_loop [] w = w"
| "schedule_loop (i # is) w =
     schedule_loop is (w @ [w ! (i - 16) + ssig0 (w ! (i - 15)) + w ! (i - 7) + ssig1 (w ! (i - 2))])"

type_synonym sha_vars = "u32 \<times> u32 \<times> u32 \<times> u32 \<times> u32 \<times> u32 \<times> u32 \<times> u32"

fun sha_round :: "u32 \<times> u32 \<Rightarrow> sha_vars \<Rightarrow> sha_vars" where
  "sha_round (k, item) (a, b, c, d, e, f, g, h) =
     (let tmp1 = h + bsig1 e + choice e f g + k + item;
          tmp2 = bsig0 a + majority a b c
      in (tmp1 + tmp2, a, b, c, d + tmp1, e, f, g))"

definition hash_block :: "u32 list \<Rightarrow> bytes \<Rightarrow> u32 list" where
  "hash_block state block =
     (let w = schedule_loop [16..<64] (schedule_start block);
          (a, b, c, d, e, f, g, h) =
            fold sha_round (zip SHA_K w)
              (state ! 0, state ! 1, state ! 2, state ! 3, state ! 4, state ! 5, state ! 6, state ! 7)
      in [state ! 0 + a, state ! 1 + b, state ! 2 + c, state ! 3 + d,
          state ! 4 + e, state ! 5 + f, state ! 6 + g, state ! 7 + h])"

definition sha256_new :: sha256 where
  "sha256_new = \<lparr>sha_state = SHA_H, sha_block = replicate BLOCK_SIZE 0, total_len = 0\<rparr>"

function full_blocks :: "u32 list \<Rightarrow> bytes \<Rightarrow> u32 list \<times> bytes" where
  "full_blocks state contents =
     (if length contents \<ge> 64 then full_blocks (hash_block state (take 64 contents)) (drop 64 contents)
      else (state, contents))"
  by pat_completeness auto
termination
  by (relation "measure (\<lambda>(_, contents). length contents)") auto

declare full_blocks.simps [simp del]

definition sha256_update :: "sha256 \<Rightarrow> bytes \<Rightarrow> sha256" where
  "sha256_update h contents =
     (let cursor_in_block = total_len h mod BLOCK_SIZE;
          left_in_block = BLOCK_SIZE - cursor_in_block;
          h = h\<lparr>total_len := total_len h + length contents\<rparr>
      in if length contents < left_in_block
         then h\<lparr>sha_block := copy_into cursor_in_block contents (sha_block h)\<rparr>
         else
           (let block = copy_into cursor_in_block (take left_in_block contents) (sha_block h);
                (state, contents) = full_blocks (hash_block (sha_state h) block) (drop left_in_block contents)
            in h\<lparr>sha_state := state, sha_block := copy_into 0 contents block\<rparr>))"

definition sha256_finalize :: "sha256 \<Rightarrow> bytes" where
  "sha256_finalize h =
     (let cursor_in_block = total_len h mod BLOCK_SIZE;
          block = take cursor_in_block (sha_block h) @ 0x80 # replicate (BLOCK_SIZE - cursor_in_block - 1) 0;
          (state, block) =
            (if cursor_in_block \<ge> 56 then (hash_block (sha_state h) block, replicate BLOCK_SIZE 0)
             else (sha_state h, block));
          block = copy_into 56 (be_enc 8 (total_len h * 8)) block;
          state = hash_block state block
      in concat (map (\<lambda>i. be_write_u32 (state ! i)) [0..<8]))"

definition sha256_hash :: "bytes \<Rightarrow> bytes" where
  "sha256_hash contents = sha256_finalize (sha256_update sha256_new contents)"

section \<open>HMAC\<close>

definition HASH_SIZE :: nat where "HASH_SIZE = 32"

text \<open>The loop over the key changes both pads; a key longer than the block would be out of range.\<close>

definition xor_pads :: "bytes \<Rightarrow> bytes \<Rightarrow> bytes \<Rightarrow> bytes \<times> bytes" where
  "xor_pads ipad opad key =
     fold (\<lambda>(i, k) (ipad, opad). (ipad[i := ipad ! i XOR k], opad[i := opad ! i XOR k]))
       (zip [0..<length key] key) (ipad, opad)"

definition hmac_256 :: "bytes \<Rightarrow> bytes \<Rightarrow> bytes" where
  "hmac_256 key contents =
     (let ipad = replicate BLOCK_SIZE 0x36;
          opad = replicate BLOCK_SIZE 0x5c;
          (ipad, opad) =
            (if length key \<le> BLOCK_SIZE then xor_pads ipad opad key
             else xor_pads ipad opad (sha256_hash key));
          ihasher = sha256_update (sha256_update sha256_new ipad) contents;
          ihash = sha256_finalize ihasher;
          ohasher = sha256_update (sha256_update sha256_new opad) ihash
      in sha256_finalize ohasher)"

text \<open>The constant-time comparisons are equality.\<close>

definition verify_hmac_256 :: "bytes \<Rightarrow> bytes \<Rightarrow> bytes \<Rightarrow> bool" where
  "verify_hmac_256 key contents mac \<longleftrightarrow> hmac_256 key contents = mac"

definition verify_hmac_256_first_128bits :: "bytes \<Rightarrow> bytes \<Rightarrow> bytes \<Rightarrow> bool" where
  "verify_hmac_256_first_128bits key contents pin \<longleftrightarrow> take 16 (hmac_256 key contents) = pin"

section \<open>Hashing at once\<close>

declare schedule_loop.simps [simp del]

text \<open>
  The hash of a whole message: pad it to a multiple of 64 bytes, with its length in bits at the end,
  and hash the blocks in turn.
\<close>

definition sha256_pad :: "bytes \<Rightarrow> bytes" where
  "sha256_pad m = m @ 0x80 # replicate ((119 - length m mod 64) mod 64) 0 @ be_enc 8 (length m * 8)"

definition sha256_spec :: "bytes \<Rightarrow> bytes" where
  "sha256_spec m = concat (map be_write_u32 (fst (full_blocks SHA_H (sha256_pad m))))"

lemma full_blocks_short: "length bs < 64 \<Longrightarrow> full_blocks st bs = (st, bs)"
  by (simp add: full_blocks.simps)

lemma full_blocks_step: "length b = 64 \<Longrightarrow> full_blocks st (b @ bs) = full_blocks (hash_block st b) bs"
  by (subst full_blocks.simps) simp

lemma full_blocks_append:
  "full_blocks st (xs @ ys) = full_blocks (fst (full_blocks st xs)) (snd (full_blocks st xs) @ ys)"
proof (induction st xs rule: full_blocks.induct)
  case (1 st xs)
  show ?case
  proof (cases "length xs \<ge> 64")
    case True
    then have "full_blocks st (xs @ ys) = full_blocks (hash_block st (take 64 xs)) (drop 64 xs @ ys)"
      "full_blocks st xs = full_blocks (hash_block st (take 64 xs)) (drop 64 xs)"
      by (subst full_blocks.simps, simp)+
    then show ?thesis using 1 [OF True] by simp
  qed (simp add: full_blocks_short)
qed

lemma length_full_blocks: "length (snd (full_blocks st xs)) = length xs mod 64"
proof (induction st xs rule: full_blocks.induct)
  case (1 st xs)
  show ?case
    using 1 by (subst full_blocks.simps) (auto simp: le_mod_geq)
qed

lemma length_hash_block [simp]: "length (hash_block st b) = 8"
  unfolding hash_block_def Let_def by (simp only: prod.case_eq_if list.size)

lemma length_full_blocks_state: "length st = 8 \<Longrightarrow> length (fst (full_blocks st xs)) = 8"
proof (induction st xs rule: full_blocks.induct)
  case (1 st xs)
  then show ?case by (subst full_blocks.simps) auto
qed

lemma length_copy_into [simp]: "start + length c \<le> length b \<Longrightarrow> length (copy_into start c b) = length b"
  by (simp add: copy_into_def)

definition sha_inv :: "sha256 \<Rightarrow> bytes \<Rightarrow> bool" where
  "sha_inv h m \<longleftrightarrow> total_len h = length m \<and> length (sha_block h) = 64
     \<and> full_blocks SHA_H m = (sha_state h, take (length m mod 64) (sha_block h))"

lemma sha_inv_new: "sha_inv sha256_new []"
  by (simp add: sha_inv_def sha256_new_def BLOCK_SIZE_def full_blocks_short)

lemma sha_inv_update:
  assumes "sha_inv h m"
  shows "sha_inv (sha256_update h c) (m @ c)"
proof -
  define cur where "cur = length m mod 64"
  define p where "p = take cur (sha_block h)"
  have cur: "cur < 64" "total_len h mod 64 = cur" "length (sha_block h) = 64" "length p = cur" "total_len h = length m"
    using assms by (simp_all add: sha_inv_def cur_def p_def)
  have fb: "full_blocks SHA_H (m @ c) = full_blocks (sha_state h) (p @ c)"
    using assms full_blocks_append [of SHA_H m c] by (simp add: sha_inv_def cur_def p_def)
  show ?thesis
  proof (cases "length c < 64 - cur")
    case True
    then have mod: "(length m + length c) mod 64 = cur + length c"
    proof -
      have "(length m + length c) mod 64 = (cur + length c) mod 64" by (simp only: cur_def mod_add_left_eq)
      with True show ?thesis by simp
    qed
    then show ?thesis
      using True cur by (simp add: sha256_update_def Let_def BLOCK_SIZE_def sha_inv_def fb full_blocks_short copy_into_def p_def)
  next
    case False
    define d where "d = drop (64 - cur) c"
    have c: "c = take (64 - cur) c @ d" "length (take (64 - cur) c) = 64 - cur"
      using False by (simp_all add: d_def)
    define b where "b = copy_into cur (take (64 - cur) c) (sha_block h)"
    have b: "b = p @ take (64 - cur) c" "length b = 64" using cur c(2) by (simp_all add: b_def copy_into_def p_def)
    obtain st r where fr: "full_blocks (hash_block (sha_state h) b) d = (st, r)" by fastforce
    have r: "length r = (length m + length c) mod 64"
    proof -
      have "length r = length (p @ c) mod 64"
        using length_full_blocks [of "sha_state h" "p @ c"] full_blocks_step [OF b(2), of "sha_state h" d] fr b(1) c(1) by simp
      then show ?thesis using cur(4) by (simp add: cur_def mod_add_left_eq)
    qed
    have "full_blocks SHA_H (m @ c) = (st, r)"
      using full_blocks_step [OF b(2), of "sha_state h" d] fr b(1) c(1) fb by simp
    moreover have "length (copy_into 0 r b) = 64" "take (length r) (copy_into 0 r b) = r"
      using b(2) r by (simp_all add: copy_into_def)
    moreover have "sha256_update h c = h\<lparr>total_len := length m + length c, sha_state := st, sha_block := copy_into 0 r b\<rparr>"
      using False cur fr by (simp add: sha256_update_def Let_def BLOCK_SIZE_def b_def d_def)
    ultimately show ?thesis using r by (simp add: sha_inv_def)
  qed
qed

lemma sha_inv_finalize:
  assumes "sha_inv h m"
  shows "sha256_finalize h = sha256_spec m"
proof -
  define cur where "cur = length m mod 64"
  define p where "p = take cur (sha_block h)"
  define n where "n = be_enc 8 (length m * 8)"
  have cur: "cur < 64" "total_len h mod 64 = cur" "length (sha_block h) = 64" "length p = cur" "total_len h = length m"
    using assms by (simp_all add: sha_inv_def cur_def p_def)
  have n: "length n = 8" by (simp add: n_def)
  have fb: "full_blocks SHA_H (sha256_pad m) = full_blocks (sha_state h) (p @ 0x80 # replicate ((119 - cur) mod 64) 0 @ n)"
    using assms full_blocks_append [of SHA_H m] by (simp add: sha256_pad_def sha_inv_def cur_def p_def n_def)
  have st: "fst (full_blocks SHA_H (sha256_pad m)) =
      (if cur \<ge> 56 then hash_block (hash_block (sha_state h) (p @ 0x80 # replicate (63 - cur) 0)) (replicate 56 0 @ n)
       else hash_block (sha_state h) (p @ 0x80 # replicate (55 - cur) 0 @ n))"
  proof (cases "cur \<ge> 56")
    case True
    then have "(119 - cur) mod 64 = (63 - cur) + 56" using cur(1) by simp
    then have "p @ 0x80 # replicate ((119 - cur) mod 64) 0 @ n = (p @ 0x80 # replicate (63 - cur) 0) @ (replicate 56 0 @ n) @ []"
      by (simp only: replicate_add) simp
    then show ?thesis unfolding fb
      using full_blocks_step [of "p @ 0x80 # replicate (63 - cur) 0" "sha_state h" "(replicate 56 0 @ n) @ []"]
        full_blocks_step [of "replicate 56 0 @ n" _ "[]"] True cur n by (simp add: full_blocks_short)
  next
    case False
    then have "(119 - cur) mod 64 = 55 - cur" by (simp add: mod_if)
    then show ?thesis unfolding fb
      using full_blocks_step [of "p @ 0x80 # replicate (55 - cur) 0 @ n" "sha_state h" "[]"] False cur n
      by (simp add: full_blocks_short)
  qed
  have len: "length (fst (full_blocks SHA_H (sha256_pad m))) = 8" by (rule length_full_blocks_state) (simp add: SHA_H_def)
  have copy: "copy_into 56 n (replicate 64 0) = replicate 56 0 @ n"
    "cur < 56 \<Longrightarrow> copy_into 56 n (p @ 0x80 # replicate (63 - cur) 0) = p @ 0x80 # replicate (55 - cur) 0 @ n"
    using n cur(4) by (simp_all add: copy_into_def take_Cons' min_def)
  define g where "g = (\<lambda>st. concat (map (\<lambda>i. be_write_u32 (st ! i)) [0..<8]))"
  have fin: "sha256_finalize h =
      (if cur \<ge> 56 then g (hash_block (hash_block (sha_state h) (p @ 0x80 # replicate (64 - cur - 1) 0)) (copy_into 56 n (replicate 64 0)))
       else g (hash_block (sha_state h) (copy_into 56 n (p @ 0x80 # replicate (64 - cur - 1) 0))))"
    unfolding sha256_finalize_def Let_def BLOCK_SIZE_def cur(2) g_def [symmetric]
    by (cases "56 \<le> cur") (simp_all only: p_def n_def cur(5) if_True if_False prod.case)
  have "sha256_finalize h = concat (map (\<lambda>i. be_write_u32 (fst (full_blocks SHA_H (sha256_pad m)) ! i)) [0..<8])"
    unfolding fin st using copy by (simp add: g_def)
  also have "map (\<lambda>i. be_write_u32 (fst (full_blocks SHA_H (sha256_pad m)) ! i)) [0..<8]
      = map be_write_u32 (fst (full_blocks SHA_H (sha256_pad m)))"
    using len by (intro nth_equalityI) (simp_all del: upt_rec_numeral)
  finally show ?thesis by (simp add: sha256_spec_def)
qed

lemma sha_inv_updates: "sha_inv h m \<Longrightarrow> sha_inv (fold (\<lambda>c h. sha256_update h c) parts h) (m @ concat parts)"
  by (induction parts arbitrary: h m) (use sha_inv_update in force)+

lemma sha256_stream: "sha256_finalize (fold (\<lambda>c h. sha256_update h c) parts sha256_new) = sha256_spec (concat parts)"
  using sha_inv_finalize [OF sha_inv_updates [OF sha_inv_new]] by simp

lemma sha256_hash_spec: "sha256_hash m = sha256_spec m"
  using sha256_stream [of "[m]"] by (simp add: sha256_hash_def)

lemma concat_be_write_length: "length (concat (map be_write_u32 ws)) = 4 * length ws"
  by (induction ws) (simp_all add: be_write_u32_def)

lemma length_sha256_spec [simp]: "length (sha256_spec m) = 32"
  using length_full_blocks_state [of SHA_H "sha256_pad m"]
  by (simp add: sha256_spec_def concat_be_write_length SHA_H_def)

lemma length_sha256_hash [simp]: "length (sha256_hash m) = 32"
  by (simp add: sha256_hash_spec)

text \<open>HMAC with the hash of whole messages.\<close>

definition hmac_spec :: "bytes \<Rightarrow> bytes \<Rightarrow> bytes" where
  "hmac_spec key m =
     (let k = (if length key \<le> 64 then key else sha256_spec key);
          k0 = k @ replicate (64 - length k) 0
      in sha256_spec (map (\<lambda>b. 0x5c XOR b) k0 @ sha256_spec (map (\<lambda>b. 0x36 XOR b) k0 @ m)))"

lemma xor_pads_loop:
  assumes "i + length (key :: bytes) \<le> length ip" and "length op = length ip"
  shows "fold (\<lambda>(i, k) (ip, op). (ip[i := ip ! i XOR k], op[i := op ! i XOR k])) (zip [i..<i + length key] key) (ip, op)
    = (take i ip @ map2 (\<lambda>a b. a XOR b) (take (length key) (drop i ip)) key @ drop (i + length key) ip,
       take i op @ map2 (\<lambda>a b. a XOR b) (take (length key) (drop i op)) key @ drop (i + length key) op)"
  using assms
proof (induction key arbitrary: i ip op)
  case (Cons k key)
  have i: "i < length ip" "i < length op" using Cons.prems by simp_all
  have upd: "take (Suc i) (xs[i := y]) = take i xs @ [y]" if "i < length xs" for xs :: bytes and y
    using that by (simp add: take_Suc_conv_app_nth)
  have "[i..<i + length (k # key)] = i # [Suc i..<Suc i + length key]"
    using upt_conv_Cons [of i "i + length (k # key)"] by simp
  then show ?case
    using Cons.IH [of "Suc i" "ip[i := ip ! i XOR k]" "op[i := op ! i XOR k]"] Cons.prems
      upd [OF i(1)] upd [OF i(2)] Cons_nth_drop_Suc [OF i(1), symmetric] Cons_nth_drop_Suc [OF i(2), symmetric]
    by simp
qed simp

lemma xor_pads_val:
  assumes "length key \<le> 64"
  shows "xor_pads (replicate 64 a) (replicate 64 b) key
    = (map (\<lambda>k. a XOR k) (key @ replicate (64 - length key) 0), map (\<lambda>k. b XOR k) (key @ replicate (64 - length key) 0))"
proof -
  have "map2 (\<lambda>a b. a XOR b) (replicate (length key) c) key = map (\<lambda>k. c XOR k) key" for c :: u8
    by (induction key) simp_all
  then show ?thesis
    using xor_pads_loop [of 0 key "replicate 64 a" "replicate 64 b"] assms by (simp add: xor_pads_def min_def)
qed

lemma hmac_256_spec: "hmac_256 key m = hmac_spec key m"
proof -
  define k where "k = (if length key \<le> 64 then key else sha256_hash key)"
  have "length k \<le> 64" by (simp add: k_def)
  note pads = xor_pads_val [OF this]
  have two: "sha256_finalize (sha256_update (sha256_update sha256_new a) b) = sha256_spec (a @ b)" for a b
    using sha256_stream [of "[a, b]"] by simp
  have "hmac_256 key m = (case xor_pads (replicate 64 0x36) (replicate 64 0x5c) k of (ipad, opad) \<Rightarrow>
      sha256_spec (opad @ sha256_spec (ipad @ m)))"
    by (simp add: hmac_256_def Let_def BLOCK_SIZE_def k_def two)
  then show ?thesis unfolding pads by (simp add: hmac_spec_def Let_def k_def sha256_hash_spec)
qed


text \<open>
  HMAC is the hash of the outer padded key and the hash of the inner padded key and the
  contents, with keys longer than a block hashed first and shorter ones padded with zeros; the key
  is never out of the range of the pads.
\<close>

theorem hmac_256_correct: "hmac_256 key m = hmac_spec key m \<and> verify_hmac_256 key m (hmac_spec key m)"
  using hmac_256_spec by (simp add: verify_hmac_256_def)

end
