(* ===== verification/Aes256.thy ===== *)
theory Aes256
  imports Prelude
begin

text \<open>
  AES-256 in \<open>aes256.rs\<close>, the chaining of blocks in \<open>cbc.rs\<close> and \<open>xor_block_16\<close> of \<open>util.rs\<close>.
  A block is a list of 16 bytes, changed in place by the sources and returned here. What CBC needs of a
  block cipher is the locale \<open>block_cipher\<close>, interpreted on AES with the keys of 32 bytes.
\<close>

section \<open>Blocks\<close>

definition xor_block_16 :: "bytes \<Rightarrow> bytes \<Rightarrow> bytes" where
  "xor_block_16 block msk = fold (\<lambda>i block. block[i := block ! i XOR msk ! i]) [0..<16] block"

text \<open>\<open>block.swap(i, j)\<close>.\<close>

definition swap_at :: "nat \<Rightarrow> nat \<Rightarrow> bytes \<Rightarrow> bytes" where
  "swap_at i j block = block[i := block ! j, j := block ! i]"

section \<open>Constants\<close>

definition RCON :: bytes where
  "RCON = [0x01, 0x02, 0x04, 0x08, 0x10, 0x20, 0x40]"

definition SBOX :: bytes where
  "SBOX = [
    0x63, 0x7c, 0x77, 0x7b, 0xf2, 0x6b, 0x6f, 0xc5, 0x30, 0x01, 0x67, 0x2b, 0xfe, 0xd7, 0xab, 0x76,
    0xca, 0x82, 0xc9, 0x7d, 0xfa, 0x59, 0x47, 0xf0, 0xad, 0xd4, 0xa2, 0xaf, 0x9c, 0xa4, 0x72, 0xc0,
    0xb7, 0xfd, 0x93, 0x26, 0x36, 0x3f, 0xf7, 0xcc, 0x34, 0xa5, 0xe5, 0xf1, 0x71, 0xd8, 0x31, 0x15,
    0x04, 0xc7, 0x23, 0xc3, 0x18, 0x96, 0x05, 0x9a, 0x07, 0x12, 0x80, 0xe2, 0xeb, 0x27, 0xb2, 0x75,
    0x09, 0x83, 0x2c, 0x1a, 0x1b, 0x6e, 0x5a, 0xa0, 0x52, 0x3b, 0xd6, 0xb3, 0x29, 0xe3, 0x2f, 0x84,
    0x53, 0xd1, 0x00, 0xed, 0x20, 0xfc, 0xb1, 0x5b, 0x6a, 0xcb, 0xbe, 0x39, 0x4a, 0x4c, 0x58, 0xcf,
    0xd0, 0xef, 0xaa, 0xfb, 0x43, 0x4d, 0x33, 0x85, 0x45, 0xf9, 0x02, 0x7f, 0x50, 0x3c, 0x9f, 0xa8,
    0x51, 0xa3, 0x40, 0x8f, 0x92, 0x9d, 0x38, 0xf5, 0xbc, 0xb6, 0xda, 0x21, 0x10, 0xff, 0xf3, 0xd2,
    0xcd, 0x0c, 0x13, 0xec, 0x5f, 0x97, 0x44, 0x17, 0xc4, 0xa7, 0x7e, 0x3d, 0x64, 0x5d, 0x19, 0x73,
    0x60, 0x81, 0x4f, 0xdc, 0x22, 0x2a, 0x90, 0x88, 0x46, 0xee, 0xb8, 0x14, 0xde, 0x5e, 0x0b, 0xdb,
    0xe0, 0x32, 0x3a, 0x0a, 0x49, 0x06, 0x24, 0x5c, 0xc2, 0xd3, 0xac, 0x62, 0x91, 0x95, 0xe4, 0x79,
    0xe7, 0xc8, 0x37, 0x6d, 0x8d, 0xd5, 0x4e, 0xa9, 0x6c, 0x56, 0xf4, 0xea, 0x65, 0x7a, 0xae, 0x08,
    0xba, 0x78, 0x25, 0x2e, 0x1c, 0xa6, 0xb4, 0xc6, 0xe8, 0xdd, 0x74, 0x1f, 0x4b, 0xbd, 0x8b, 0x8a,
    0x70, 0x3e, 0xb5, 0x66, 0x48, 0x03, 0xf6, 0x0e, 0x61, 0x35, 0x57, 0xb9, 0x86, 0xc1, 0x1d, 0x9e,
    0xe1, 0xf8, 0x98, 0x11, 0x69, 0xd9, 0x8e, 0x94, 0x9b, 0x1e, 0x87, 0xe9, 0xce, 0x55, 0x28, 0xdf,
    0x8c, 0xa1, 0x89, 0x0d, 0xbf, 0xe6, 0x42, 0x68, 0x41, 0x99, 0x2d, 0x0f, 0xb0, 0x54, 0xbb, 0x16
  ]"

definition SBOX_INV :: bytes where
  "SBOX_INV = [
    0x52, 0x09, 0x6a, 0xd5, 0x30, 0x36, 0xa5, 0x38, 0xbf, 0x40, 0xa3, 0x9e, 0x81, 0xf3, 0xd7, 0xfb,
    0x7c, 0xe3, 0x39, 0x82, 0x9b, 0x2f, 0xff, 0x87, 0x34, 0x8e, 0x43, 0x44, 0xc4, 0xde, 0xe9, 0xcb,
    0x54, 0x7b, 0x94, 0x32, 0xa6, 0xc2, 0x23, 0x3d, 0xee, 0x4c, 0x95, 0x0b, 0x42, 0xfa, 0xc3, 0x4e,
    0x08, 0x2e, 0xa1, 0x66, 0x28, 0xd9, 0x24, 0xb2, 0x76, 0x5b, 0xa2, 0x49, 0x6d, 0x8b, 0xd1, 0x25,
    0x72, 0xf8, 0xf6, 0x64, 0x86, 0x68, 0x98, 0x16, 0xd4, 0xa4, 0x5c, 0xcc, 0x5d, 0x65, 0xb6, 0x92,
    0x6c, 0x70, 0x48, 0x50, 0xfd, 0xed, 0xb9, 0xda, 0x5e, 0x15, 0x46, 0x57, 0xa7, 0x8d, 0x9d, 0x84,
    0x90, 0xd8, 0xab, 0x00, 0x8c, 0xbc, 0xd3, 0x0a, 0xf7, 0xe4, 0x58, 0x05, 0xb8, 0xb3, 0x45, 0x06,
    0xd0, 0x2c, 0x1e, 0x8f, 0xca, 0x3f, 0x0f, 0x02, 0xc1, 0xaf, 0xbd, 0x03, 0x01, 0x13, 0x8a, 0x6b,
    0x3a, 0x91, 0x11, 0x41, 0x4f, 0x67, 0xdc, 0xea, 0x97, 0xf2, 0xcf, 0xce, 0xf0, 0xb4, 0xe6, 0x73,
    0x96, 0xac, 0x74, 0x22, 0xe7, 0xad, 0x35, 0x85, 0xe2, 0xf9, 0x37, 0xe8, 0x1c, 0x75, 0xdf, 0x6e,
    0x47, 0xf1, 0x1a, 0x71, 0x1d, 0x29, 0xc5, 0x89, 0x6f, 0xb7, 0x62, 0x0e, 0xaa, 0x18, 0xbe, 0x1b,
    0xfc, 0x56, 0x3e, 0x4b, 0xc6, 0xd2, 0x79, 0x20, 0x9a, 0xdb, 0xc0, 0xfe, 0x78, 0xcd, 0x5a, 0xf4,
    0x1f, 0xdd, 0xa8, 0x33, 0x88, 0x07, 0xc7, 0x31, 0xb1, 0x12, 0x10, 0x59, 0x27, 0x80, 0xec, 0x5f,
    0x60, 0x51, 0x7f, 0xa9, 0x19, 0xb5, 0x4a, 0x0d, 0x2d, 0xe5, 0x7a, 0x9f, 0x93, 0xc9, 0x9c, 0xef,
    0xa0, 0xe0, 0x3b, 0x4d, 0xae, 0x2a, 0xf5, 0xb0, 0xc8, 0xeb, 0xbb, 0x3c, 0x83, 0x53, 0x99, 0x61,
    0x17, 0x2b, 0x04, 0x7e, 0xba, 0x77, 0xd6, 0x26, 0xe1, 0x69, 0x14, 0x63, 0x55, 0x21, 0x0c, 0x7d
  ]"

section \<open>The key schedule\<close>

definition rotword :: "bytes \<Rightarrow> bytes" where
  "rotword word =
     (let tmp = word ! 0; word = word[0 := word ! 1]; word = word[1 := word ! 2]; word = word[2 := word ! 3]
      in word[3 := tmp])"

definition subword :: "bytes \<Rightarrow> bytes" where
  "subword word = map (\<lambda>byte. SBOX ! unat byte) word"

definition xorword :: "bytes \<Rightarrow> bytes \<Rightarrow> bytes" where
  "xorword word src = fold (\<lambda>i word. word[i := word ! i XOR src ! i]) [0..<4] word"

definition expand_word :: "nat \<Rightarrow> nat \<Rightarrow> bytes \<times> bytes list \<Rightarrow> bytes \<times> bytes list" where
  "expand_word i j = (\<lambda>(word, enc_round_keys).
     (let word = xorword word (take 4 (drop (4 * j) (enc_round_keys ! (i - 2))))
      in (word, enc_round_keys[i := copy_into (4 * j) word (enc_round_keys ! i)])))"

definition expand_round :: "nat \<Rightarrow> bytes \<times> bytes list \<Rightarrow> bytes \<times> bytes list" where
  "expand_round i = (\<lambda>(word, enc_round_keys).
     (let word =
            (if even i
             then (let word = subword (rotword word) in word[0 := word ! 0 XOR RCON ! (i div 2 - 1)])
             else subword word)
      in fold (expand_word i) [0..<4] (word, enc_round_keys)))"

record encryption_key =
  enc_round_keys :: "bytes list"

record decryption_key =
  dec_round_keys :: "bytes list"

definition encryption_key_new :: "bytes \<Rightarrow> encryption_key" where
  "encryption_key_new key =
     (let keys = (replicate 15 (replicate 16 0))[0 := take 16 key, 1 := take 16 (drop 16 key)];
          word = take 4 (drop 12 (keys ! 1));
          (word, keys) = fold expand_round [2..<15] (word, keys)
      in \<lparr>enc_round_keys = keys\<rparr>)"

section \<open>Rounds\<close>

definition sub_bytes :: "bytes \<Rightarrow> bytes" where
  "sub_bytes block = map (\<lambda>byte. SBOX ! unat byte) block"

definition inv_sub_bytes :: "bytes \<Rightarrow> bytes" where
  "inv_sub_bytes block = map (\<lambda>byte. SBOX_INV ! unat byte) block"

definition shift_rows :: "bytes \<Rightarrow> bytes" where
  "shift_rows block =
     (let tmp = block ! 1;
          block = block[1 := block ! 5];
          block = block[5 := block ! 9];
          block = block[9 := block ! 13];
          block = block[13 := tmp];
          block = swap_at 2 10 block;
          block = swap_at 6 14 block;
          tmp = block ! 3;
          block = block[3 := block ! 15];
          block = block[15 := block ! 11];
          block = block[11 := block ! 7]
      in block[7 := tmp])"

definition inv_shift_rows :: "bytes \<Rightarrow> bytes" where
  "inv_shift_rows block =
     (let tmp = block ! 7;
          block = block[7 := block ! 11];
          block = block[11 := block ! 15];
          block = block[15 := block ! 3];
          block = block[3 := tmp];
          block = swap_at 2 10 block;
          block = swap_at 6 14 block;
          tmp = block ! 13;
          block = block[13 := block ! 9];
          block = block[9 := block ! 5];
          block = block[5 := block ! 1]
      in block[1 := tmp])"

definition mul2 :: "u8 \<Rightarrow> u8" where
  "mul2 x = push_bit 1 x XOR ((drop_bit 7 x AND 1) * 0x1b)"

definition mul3 :: "u8 \<Rightarrow> u8" where
  "mul3 x = mul2 x XOR x"

definition mix_column :: "nat \<Rightarrow> bytes \<Rightarrow> bytes" where
  "mix_column i block =
     (let x0 = block ! (4 * i); x1 = block ! (4 * i + 1); x2 = block ! (4 * i + 2); x3 = block ! (4 * i + 3)
      in block[4 * i := mul2 x0 XOR mul3 x1 XOR x2 XOR x3,
               4 * i + 1 := x0 XOR mul2 x1 XOR mul3 x2 XOR x3,
               4 * i + 2 := x0 XOR x1 XOR mul2 x2 XOR mul3 x3,
               4 * i + 3 := mul3 x0 XOR x1 XOR x2 XOR mul2 x3])"

definition mix_columns :: "bytes \<Rightarrow> bytes" where
  "mix_columns block = fold mix_column [0..<4] block"

definition mul9 :: "u8 \<Rightarrow> u8" where
  "mul9 x = mul2 (mul2 (mul2 x)) XOR x"

definition mul11 :: "u8 \<Rightarrow> u8" where
  "mul11 x = mul2 (mul2 (mul2 x) XOR x) XOR x"

definition mul13 :: "u8 \<Rightarrow> u8" where
  "mul13 x = mul2 (mul2 (mul2 x XOR x)) XOR x"

definition mul14 :: "u8 \<Rightarrow> u8" where
  "mul14 x = mul2 (mul2 (mul2 x XOR x) XOR x)"

definition inv_mix_column :: "nat \<Rightarrow> bytes \<Rightarrow> bytes" where
  "inv_mix_column i block =
     (let x0 = block ! (4 * i); x1 = block ! (4 * i + 1); x2 = block ! (4 * i + 2); x3 = block ! (4 * i + 3)
      in block[4 * i := mul14 x0 XOR mul11 x1 XOR mul13 x2 XOR mul9 x3,
               4 * i + 1 := mul9 x0 XOR mul14 x1 XOR mul11 x2 XOR mul13 x3,
               4 * i + 2 := mul13 x0 XOR mul9 x1 XOR mul14 x2 XOR mul11 x3,
               4 * i + 3 := mul11 x0 XOR mul13 x1 XOR mul9 x2 XOR mul14 x3])"

definition inv_mix_columns :: "bytes \<Rightarrow> bytes" where
  "inv_mix_columns block = fold inv_mix_column [0..<4] block"

definition add_round_key :: "bytes \<Rightarrow> bytes \<Rightarrow> bytes" where
  "add_round_key block rkey = xor_block_16 block rkey"

definition aes_enc :: "bytes \<Rightarrow> bytes \<Rightarrow> bytes" where
  "aes_enc block rkey = add_round_key (mix_columns (shift_rows (sub_bytes block))) rkey"

definition aes_dec :: "bytes \<Rightarrow> bytes \<Rightarrow> bytes" where
  "aes_dec block rkey = add_round_key (inv_mix_columns (inv_sub_bytes (inv_shift_rows block))) rkey"

definition aes_enc_last :: "bytes \<Rightarrow> bytes \<Rightarrow> bytes" where
  "aes_enc_last block rkey = add_round_key (shift_rows (sub_bytes block)) rkey"

definition aes_dec_last :: "bytes \<Rightarrow> bytes \<Rightarrow> bytes" where
  "aes_dec_last block rkey = add_round_key (inv_sub_bytes (inv_shift_rows block)) rkey"

section \<open>Encryption and decryption\<close>

definition encrypt_block :: "encryption_key \<Rightarrow> bytes \<Rightarrow> bytes" where
  "encrypt_block key block =
     (let block = add_round_key block (enc_round_keys key ! 0);
          block = fold (\<lambda>i block. aes_enc block (enc_round_keys key ! i)) [1..<14] block
      in aes_enc_last block (enc_round_keys key ! 14))"

definition decryption_key_new :: "encryption_key \<Rightarrow> decryption_key" where
  "decryption_key_new key =
     (let keys = (replicate 15 (replicate 16 0))[0 := enc_round_keys key ! 14];
          keys = fold (\<lambda>i keys. keys[i := inv_mix_columns (enc_round_keys key ! (14 - i))]) [1..<14] keys;
          keys = keys[14 := enc_round_keys key ! 0]
      in \<lparr>dec_round_keys = keys\<rparr>)"

definition decrypt_block :: "decryption_key \<Rightarrow> bytes \<Rightarrow> bytes" where
  "decrypt_block key block =
     (let block = add_round_key block (dec_round_keys key ! 0);
          block = fold (\<lambda>i block. aes_dec block (dec_round_keys key ! i)) [1..<14] block
      in aes_dec_last block (dec_round_keys key ! 14))"

section \<open>Cipher block chaining\<close>

fun cbc_encrypt :: "('k \<Rightarrow> bytes \<Rightarrow> bytes) \<Rightarrow> 'k \<Rightarrow> bytes \<Rightarrow> bytes list \<Rightarrow> bytes list" where
  "cbc_encrypt enc key iv [] = []"
| "cbc_encrypt enc key iv (block # blocks) =
     (let block = enc key (xor_block_16 block iv) in block # cbc_encrypt enc key block blocks)"

fun cbc_decrypt :: "('k \<Rightarrow> bytes \<Rightarrow> bytes) \<Rightarrow> 'k \<Rightarrow> bytes \<Rightarrow> bytes list \<Rightarrow> bytes list" where
  "cbc_decrypt dec key iv [] = []"
| "cbc_decrypt dec key iv (block # blocks) =
     (let tmp = block; block = xor_block_16 (dec key block) iv in block # cbc_decrypt dec key tmp blocks)"

section \<open>Blocks of sixteen bytes\<close>

lemma xor_block_16_eq:
  assumes "length b = 16" and "length m = 16"
  shows "xor_block_16 b m = map2 (XOR) b m"
proof -
  have "length (fold (\<lambda>i b. b[i := b ! i XOR m ! i]) [0..<n] b) = 16
    \<and> (\<forall>j < 16. fold (\<lambda>i b. b[i := b ! i XOR m ! i]) [0..<n] b ! j = (if j < n then b ! j XOR m ! j else b ! j))"
    if "n \<le> 16" for n
    using that assms by (induction n) (auto simp: nth_list_update less_Suc_eq)
  from this [of 16] show ?thesis
    unfolding xor_block_16_def using assms by (intro nth_equalityI) simp_all
qed

lemma length_xor_block_16 [simp]: "length b = 16 \<Longrightarrow> length m = 16 \<Longrightarrow> length (xor_block_16 b m) = 16"
  by (simp add: xor_block_16_eq)

lemma xor_block_16_cancel:
  assumes "length b = 16" and "length m = 16"
  shows "xor_block_16 (xor_block_16 b m) m = b"
  using assms by (simp add: xor_block_16_eq) (rule nth_equalityI; simp add: xor.assoc)

lemma block_cases:
  assumes "length (b :: bytes) = 16"
  obtains b0 b1 b2 b3 b4 b5 b6 b7 b8 b9 b10 b11 b12 b13 b14 b15
  where "b = [b0, b1, b2, b3, b4, b5, b6, b7, b8, b9, b10, b11, b12, b13, b14, b15]"
  using assms by (auto simp: length_Suc_conv numeral_eq_Suc)

lemma shift_rows_inverse: "length b = 16 \<Longrightarrow> inv_shift_rows (shift_rows b) = b"
  by (erule block_cases) (simp add: shift_rows_def inv_shift_rows_def swap_at_def)

lemma length_shift_rows [simp]: "length (shift_rows b) = length b" "length (inv_shift_rows b) = length b"
  by (simp_all add: shift_rows_def inv_shift_rows_def swap_at_def Let_def)

lemma length_sub_bytes [simp]: "length (sub_bytes b) = length b" "length (inv_sub_bytes b) = length b"
  by (simp_all add: sub_bytes_def inv_sub_bytes_def)

lemma sbox_inverse_table: "map (\<lambda>b. SBOX_INV ! unat b) SBOX = map of_nat [0..<256]"
  by code_simp

lemma length_SBOX: "length SBOX = 256"
  by (simp add: SBOX_def)

lemma sbox_inverse: "SBOX_INV ! unat (SBOX ! unat b) = b"
proof -
  have "unat b < 256" by simp
  then show ?thesis
    using arg_cong [OF sbox_inverse_table, where f = "\<lambda>xs. xs ! unat b"] length_SBOX
    by (simp del: upt_rec_numeral unat_u8_less)
qed

lemma sub_bytes_inverse: "inv_sub_bytes (sub_bytes b) = b"
  by (simp add: sub_bytes_def inv_sub_bytes_def sbox_inverse comp_def)

text \<open>Multiplication in the field of the cipher is linear.\<close>

lemma mul2_bit: "mul2 x = push_bit 1 x XOR (if bit x 7 then 0x1b else 0)"
proof -
  have "drop_bit 7 x AND 1 = of_bool (bit x 7)"
    by (simp add: and_one_eq bit_iff_odd_drop_bit mod_2_eq_odd)
  then show ?thesis by (simp add: mul2_def)
qed

lemma xor_left_self: "a XOR (a XOR b) = (b :: u8)"
  by (simp add: xor.assoc [symmetric])

lemmas xor_norm = xor.assoc xor.commute xor.left_commute xor_left_self

lemma mul2_xor: "mul2 (a XOR b) = mul2 a XOR mul2 b"
  by (cases "bit a 7"; cases "bit b 7") (simp_all add: mul2_bit bit_xor_iff push_bit_xor xor_norm)

lemmas mul_defs = mul3_def mul9_def mul11_def mul13_def mul14_def mul2_xor

lemma column_inverse:
  fixes x0 x1 x2 x3 :: u8
  defines "y0 \<equiv> mul2 x0 XOR mul3 x1 XOR x2 XOR x3"
    and "y1 \<equiv> x0 XOR mul2 x1 XOR mul3 x2 XOR x3"
    and "y2 \<equiv> x0 XOR x1 XOR mul2 x2 XOR mul3 x3"
    and "y3 \<equiv> mul3 x0 XOR x1 XOR x2 XOR mul2 x3"
  shows "mul14 y0 XOR mul11 y1 XOR mul13 y2 XOR mul9 y3 = x0"
    "mul9 y0 XOR mul14 y1 XOR mul11 y2 XOR mul13 y3 = x1"
    "mul13 y0 XOR mul9 y1 XOR mul14 y2 XOR mul11 y3 = x2"
    "mul11 y0 XOR mul13 y1 XOR mul9 y2 XOR mul14 y3 = x3"
  by (simp_all add: y0_def y1_def y2_def y3_def mul_defs xor_norm)

lemma upt_0_4: "[0..<4] = [0, 1, 2, 3 :: nat]"
  by code_simp

lemma mix_columns_eq:
  "mix_columns [b0, b1, b2, b3, b4, b5, b6, b7, b8, b9, b10, b11, b12, b13, b14, b15] =
    concat (map (\<lambda>(x0, x1, x2, x3).
      [mul2 x0 XOR mul3 x1 XOR x2 XOR x3, x0 XOR mul2 x1 XOR mul3 x2 XOR x3,
       x0 XOR x1 XOR mul2 x2 XOR mul3 x3, mul3 x0 XOR x1 XOR x2 XOR mul2 x3])
      [(b0, b1, b2, b3), (b4, b5, b6, b7), (b8, b9, b10, b11), (b12, b13, b14, b15)])"
  by (simp add: mix_columns_def mix_column_def Let_def upt_0_4)

lemma inv_mix_columns_eq:
  "inv_mix_columns [b0, b1, b2, b3, b4, b5, b6, b7, b8, b9, b10, b11, b12, b13, b14, b15] =
    concat (map (\<lambda>(x0, x1, x2, x3).
      [mul14 x0 XOR mul11 x1 XOR mul13 x2 XOR mul9 x3, mul9 x0 XOR mul14 x1 XOR mul11 x2 XOR mul13 x3,
       mul13 x0 XOR mul9 x1 XOR mul14 x2 XOR mul11 x3, mul11 x0 XOR mul13 x1 XOR mul9 x2 XOR mul14 x3])
      [(b0, b1, b2, b3), (b4, b5, b6, b7), (b8, b9, b10, b11), (b12, b13, b14, b15)])"
  by (simp add: inv_mix_columns_def inv_mix_column_def Let_def upt_0_4)

lemma mix_columns_inverse:
  assumes "length b = 16"
  shows "inv_mix_columns (mix_columns b) = b"
  using assms by (rule block_cases) (simp add: mix_columns_eq inv_mix_columns_eq column_inverse)

lemma length_mix_columns [simp]: "length (mix_columns b) = length b" "length (inv_mix_columns b) = length b"
  by (simp_all add: mix_columns_def inv_mix_columns_def mix_column_def inv_mix_column_def Let_def upt_0_4)

lemma inv_mix_columns_xor:
  assumes "length a = 16" and "length b = 16"
  shows "inv_mix_columns (xor_block_16 a b) = xor_block_16 (inv_mix_columns a) (inv_mix_columns b)"
proof -
  have lin: "mul9 (x XOR y) = mul9 x XOR mul9 y" "mul11 (x XOR y) = mul11 x XOR mul11 y"
    "mul13 (x XOR y) = mul13 x XOR mul13 y" "mul14 (x XOR y) = mul14 x XOR mul14 y" for x y
    by (simp_all add: mul_defs xor_norm)
  from assms show ?thesis
    by (elim block_cases) (simp add: xor_block_16_eq inv_mix_columns_eq lin xor_norm)
qed

section \<open>Decryption inverts encryption\<close>

text \<open>
  Decryption runs through the rounds backwards with the substitution and the shift of the next round
  still applied, which is why its round keys are mixed.
\<close>

lemma aes_dec_enc:
  assumes "length b = 16" and "length k = 16"
  shows "aes_dec (shift_rows (sub_bytes (aes_enc b k))) (inv_mix_columns k) = shift_rows (sub_bytes b)"
  using assms
  by (simp add: aes_dec_def aes_enc_def add_round_key_def shift_rows_inverse sub_bytes_inverse
      inv_mix_columns_xor mix_columns_inverse xor_block_16_cancel)

lemma length_aes_enc [simp]: "length b = 16 \<Longrightarrow> length k = 16 \<Longrightarrow> length (aes_enc b k) = 16"
  by (simp add: aes_enc_def add_round_key_def)

definition round_keys_ok :: "bytes list \<Rightarrow> bool" where
  "round_keys_ok keys \<longleftrightarrow> length keys = 15 \<and> (\<forall>k \<in> set keys. length k = 16)"

lemma dec_rounds:
  assumes "\<And>i. i < 15 \<Longrightarrow> length (k i) = 16" and "n \<le> 13" and "length b = 16"
  shows "fold (\<lambda>i b. aes_dec b (inv_mix_columns (k (14 - i)))) [14 - n..<14]
      (shift_rows (sub_bytes (fold (\<lambda>i b. aes_enc b (k i)) [1..<Suc n] b))) = shift_rows (sub_bytes b)
    \<and> length (fold (\<lambda>i b. aes_enc b (k i)) [1..<Suc n] b) = 16"
  using assms(2)
proof (induction n)
  case (Suc n)
  have "[14 - Suc n..<14] = (14 - Suc n) # [14 - n..<14]"
    using Suc.prems upt_conv_Cons [of "14 - Suc n" 14] Suc_diff_Suc [of n 14] by (simp del: upt_rec_numeral)
  then show ?case using Suc assms(1,3)
    by (simp del: upt_rec_numeral add: aes_dec_enc)
qed (use assms in simp)

lemma decryption_keys:
  assumes "i < 15"
  shows "dec_round_keys (decryption_key_new key) ! i =
    (if i = 0 then enc_round_keys key ! 14 else if i = 14 then enc_round_keys key ! 0
     else inv_mix_columns (enc_round_keys key ! (14 - i)))"
proof -
  let ?f = "\<lambda>i keys. keys[i := inv_mix_columns (enc_round_keys key ! (14 - i))]"
  have "length (fold ?f [1..<n] keys) = 15
    \<and> (\<forall>j < 15. fold ?f [1..<n] keys ! j =
        (if 1 \<le> j \<and> j < n then inv_mix_columns (enc_round_keys key ! (14 - j)) else keys ! j))"
    if "n \<le> 15" "length keys = 15" for n keys
    using that by (induction n) (auto simp: nth_list_update less_Suc_eq)
  from this [of 14 "(replicate 15 (replicate 16 0))[0 := enc_round_keys key ! 14]"] show ?thesis
    using assms by (auto simp: decryption_key_new_def Let_def nth_list_update)
qed

lemma decrypt_encrypt:
  assumes "round_keys_ok (enc_round_keys key)" and "length b = 16"
  shows "decrypt_block (decryption_key_new key) (encrypt_block key b) = b"
    and "length (encrypt_block key b) = 16"
proof -
  define k where "k i = enc_round_keys key ! i" for i
  have k: "length (k i) = 16" if "i < 15" for i
    using assms that by (simp add: round_keys_ok_def k_def)
  define x where "x = add_round_key b (k 0)"
  define y where "y = fold (\<lambda>i b. aes_enc b (k i)) [1..<14] x"
  have "length x = 16" using k assms(2) by (simp add: x_def add_round_key_def)
  note rounds = dec_rounds [of k 13 x, OF k _ this, folded y_def]
  have y: "length y = 16" using rounds by (simp del: upt_rec_numeral add: y_def)
  have enc: "encrypt_block key b = xor_block_16 (shift_rows (sub_bytes y)) (k 14)"
    by (simp del: upt_rec_numeral add: encrypt_block_def y_def x_def k_def aes_enc_last_def add_round_key_def)
  then show "length (encrypt_block key b) = 16" using y k by simp
  have "fold (\<lambda>i b. aes_dec b (dec_round_keys (decryption_key_new key) ! i)) [1..<14] z
    = fold (\<lambda>i b. aes_dec b (inv_mix_columns (k (14 - i)))) [1..<14] z" for z
    by (rule fold_cong) (auto simp del: upt_rec_numeral simp: decryption_keys k_def)
  then have "decrypt_block (decryption_key_new key) (encrypt_block key b)
    = aes_dec_last (fold (\<lambda>i b. aes_dec b (inv_mix_columns (k (14 - i)))) [1..<14] (shift_rows (sub_bytes y))) (k 0)"
    using y k by (simp del: upt_rec_numeral add: decrypt_block_def enc decryption_keys k_def [symmetric]
        add_round_key_def xor_block_16_cancel)
  also have "\<dots> = aes_dec_last (shift_rows (sub_bytes x)) (k 0)"
    using rounds by (simp del: upt_rec_numeral add: y_def)
  also have "\<dots> = b"
    using \<open>length x = 16\<close> k assms(2)
    by (simp add: aes_dec_last_def shift_rows_inverse sub_bytes_inverse x_def add_round_key_def xor_block_16_cancel)
  finally show "decrypt_block (decryption_key_new key) (encrypt_block key b) = b" .
qed

section \<open>The round keys\<close>

definition schedule_ok :: "bytes \<times> bytes list \<Rightarrow> bool" where
  "schedule_ok wk \<longleftrightarrow> length (fst wk) = 4 \<and> round_keys_ok (snd wk)"

lemma length_word_ops [simp]:
  "length (rotword w) = length w" "length (subword w) = length w" "length (xorword w v) = length w"
  by (simp_all add: rotword_def subword_def xorword_def Let_def upt_0_4)

lemma schedule_ok_word: "schedule_ok wk \<Longrightarrow> i < 15 \<Longrightarrow> j < 4 \<Longrightarrow> schedule_ok (expand_word i j wk)"
  by (auto simp: schedule_ok_def round_keys_ok_def expand_word_def Let_def copy_into_def min_def
      split: prod.splits dest!: set_update_subset_insert [THEN subsetD])

lemma schedule_ok_words: "schedule_ok wk \<Longrightarrow> i < 15 \<Longrightarrow> schedule_ok (fold (expand_word i) [0..<4] wk)"
  by (simp add: upt_0_4 schedule_ok_word)

lemma schedule_ok_round: "schedule_ok wk \<Longrightarrow> i < 15 \<Longrightarrow> schedule_ok (expand_round i wk)"
  unfolding expand_round_def Let_def split_def by (rule schedule_ok_words) (simp_all add: schedule_ok_def)

lemma schedule_ok_fold: "schedule_ok wk \<Longrightarrow> \<forall>i \<in> set is. i < 15 \<Longrightarrow> schedule_ok (fold expand_round is wk)"
  by (induction "is" arbitrary: wk) (simp_all add: schedule_ok_round)

lemma encryption_key_ok:
  assumes "length key = 32"
  shows "round_keys_ok (enc_round_keys (encryption_key_new key))"
proof -
  let ?keys = "(replicate 15 (replicate 16 0))[0 := take 16 key, 1 := take 16 (drop 16 key)]"
  have "round_keys_ok ?keys"
    using assms by (auto simp: round_keys_ok_def dest!: set_update_subset_insert [THEN subsetD])
  moreover have "?keys ! 1 = take 16 (drop 16 key)" by simp
  ultimately have "schedule_ok (take 4 (drop 12 (?keys ! 1)), ?keys)"
    using assms by (simp only: schedule_ok_def) simp
  then have "schedule_ok (fold expand_round [2..<15] (take 4 (drop 12 (?keys ! 1)), ?keys))"
    by (rule schedule_ok_fold) simp
  then show ?thesis
    unfolding encryption_key_new_def Let_def schedule_ok_def by (simp only: split_def encryption_key.simps)
qed

section \<open>Chaining\<close>

text \<open>What CBC needs: matching keys, with which decryption undoes encryption of a block.\<close>

locale block_cipher =
  fixes enc :: "'ek \<Rightarrow> bytes \<Rightarrow> bytes" and dec :: "'dk \<Rightarrow> bytes \<Rightarrow> bytes"
    and keys_match :: "'ek \<Rightarrow> 'dk \<Rightarrow> bool"
  assumes dec_enc: "keys_match ek dk \<Longrightarrow> length b = 16 \<Longrightarrow> dec dk (enc ek b) = b"
    and length_enc: "keys_match ek dk \<Longrightarrow> length b = 16 \<Longrightarrow> length (enc ek b) = 16"
begin

lemma cbc_blocks:
  assumes "keys_match ek dk" and "length iv = 16" and "\<forall>b \<in> set blocks. length b = 16"
  shows "length (cbc_encrypt enc ek iv blocks) = length blocks
    \<and> (\<forall>b \<in> set (cbc_encrypt enc ek iv blocks). length b = 16)"
  using assms(2,3)
proof (induction blocks arbitrary: iv)
  case (Cons b blocks)
  have "length (enc ek (xor_block_16 b iv)) = 16" using Cons.prems length_enc [OF assms(1)] by simp
  with Cons show ?case by (simp add: Let_def)
qed simp

lemma cbc_round_trip:
  assumes "keys_match ek dk" and "length iv = 16" and "\<forall>b \<in> set blocks. length b = 16"
  shows "cbc_decrypt dec dk iv (cbc_encrypt enc ek iv blocks) = blocks"
  using assms by (induction blocks arbitrary: iv) (simp_all add: Let_def dec_enc length_enc xor_block_16_cancel)

text \<open>Equal first ciphertext blocks under one key mean equal masked plaintexts: encryption is injective.\<close>

lemma enc_inj: "keys_match ek dk \<Longrightarrow> length a = 16 \<Longrightarrow> length b = 16 \<Longrightarrow> enc ek a = enc ek b \<longleftrightarrow> a = b"
  using dec_enc by metis

lemma cbc_inj:
  assumes "keys_match ek dk" and "length iv = 16"
    and "\<forall>b \<in> set bs. length b = 16" and "\<forall>b \<in> set cs. length b = 16"
  shows "cbc_encrypt enc ek iv bs = cbc_encrypt enc ek iv cs \<longleftrightarrow> bs = cs"
  using cbc_round_trip assms by metis

end

definition aes_keys_match :: "encryption_key \<Rightarrow> decryption_key \<Rightarrow> bool" where
  "aes_keys_match ek dk \<longleftrightarrow> round_keys_ok (enc_round_keys ek) \<and> dk = decryption_key_new ek"

interpretation aes: block_cipher encrypt_block decrypt_block aes_keys_match
  by unfold_locales (auto simp: aes_keys_match_def decrypt_encrypt)

lemma aes_keys_match_new: "length key = 32 \<Longrightarrow>
    aes_keys_match (encryption_key_new key) (decryption_key_new (encryption_key_new key))"
  by (simp add: aes_keys_match_def encryption_key_ok)

text \<open>
  C36. With the round keys expanded from any key of 32 bytes, decrypting a block inverts encrypting
  it, and decrypting a chain of any number of blocks with the same initial vector returns the blocks
  that were encrypted.
\<close>

theorem aes_cbc_round_trip:
  assumes "length key = 32" and "length iv = 16" and "\<forall>b \<in> set blocks. length b = 16"
  defines "ek \<equiv> encryption_key_new key" and "dk \<equiv> decryption_key_new (encryption_key_new key)"
  shows "cbc_decrypt decrypt_block dk iv (cbc_encrypt encrypt_block ek iv blocks) = blocks
    \<and> (\<forall>b \<in> set blocks. decrypt_block dk (encrypt_block ek b) = b \<and> length (encrypt_block ek b) = 16)
    \<and> length (cbc_encrypt encrypt_block ek iv blocks) = length blocks"
  using assms aes_keys_match_new [OF assms(1)] aes.cbc_round_trip aes.dec_enc aes.length_enc aes.cbc_blocks
  by blast

theorem aes_cbc_round_trip_witness:
  "cbc_decrypt decrypt_block (decryption_key_new (encryption_key_new (replicate 32 7))) (replicate 16 1)
     (cbc_encrypt encrypt_block (encryption_key_new (replicate 32 7)) (replicate 16 1) [replicate 16 2, replicate 16 3])
   = [replicate 16 2, replicate 16 3]"
  using aes_cbc_round_trip [of "replicate 32 7" "replicate 16 1" "[replicate 16 2, replicate 16 3]"]
  by simp

end
