(* ===== verification/Ec_Keys.thy ===== *)
theory Ec_Keys
  imports Ec_Field Cbor_Writer
begin

text \<open>
  Keys and signatures as data: the serialization of secret keys, signatures and public keys of
  \<open>libraries/crypto/src/ecdsa.rs\<close> and of the public keys of \<open>ecdh.rs\<close>. A key structure with one
  field is that field.
\<close>

type_synonym ecdsa_sec_key = nz_exponent
type_synonym ecdsa_pub_key = point_p256
type_synonym ecdh_sec_key = nz_exponent
type_synonym ecdh_pub_key = point_p256

record ecdsa_signature =
  sig_r :: nz_exponent
  sig_s :: nz_exponent

section \<open>ECDSA\<close>

definition sec_key_from_bytes :: "bytes \<Rightarrow> ecdsa_sec_key option" where
  "sec_key_from_bytes bs = nz_from_int_checked (from_bin bs)"

definition sec_key_to_bytes :: "ecdsa_sec_key \<Rightarrow> bytes" where
  "sec_key_to_bytes k = to_bin k"

definition to_asn1_der :: "ecdsa_signature \<Rightarrow> bytes" where
  "to_asn1_der sig =
     (let r_encoding = to_minimal_encoding (sig_r sig);
          s_encoding = to_minimal_encoding (sig_s sig)
      in [0x30, of_nat (length r_encoding + length s_encoding + 4)]
         @ [0x02, of_nat (length r_encoding)] @ r_encoding
         @ [0x02, of_nat (length s_encoding)] @ s_encoding)"

definition signature_from_bytes :: "bytes \<Rightarrow> ecdsa_signature option" where
  "signature_from_bytes bs =
     (if length bs \<noteq> 64 then None
      else
        (case (nz_from_int_checked (from_bin (take 32 bs)), nz_from_int_checked (from_bin (take 32 (drop 32 bs)))) of
           (Some r, Some s) \<Rightarrow> Some \<lparr>sig_r = r, sig_s = s\<rparr>
         | _ \<Rightarrow> None))"

definition ES256_ALGORITHM :: int where "ES256_ALGORITHM = - 7"

definition to_uncompressed :: "ecdsa_pub_key \<Rightarrow> bytes" where
  "to_uncompressed pk = 0x04 # to_bin (pt_x pk) @ to_bin (pt_y pk)"

definition to_cose_key :: "ecdsa_pub_key \<Rightarrow> bytes option" where
  "to_cose_key pk =
     (let cbor_value = cbor_map_options
            [(key_integer 1, Some (cbor_int 2)),
             (key_integer 3, Some (cbor_int ES256_ALGORITHM)),
             (key_integer (- 1), Some (cbor_int 1)),
             (key_integer (- 2), Some (cbor_bytes (to_bin (pt_x pk)))),
             (key_integer (- 3), Some (cbor_bytes (to_bin (pt_y pk))))]
      in case cbor_write cbor_value [] of (True, encoded_key) \<Rightarrow> Some encoded_key | (False, _) \<Rightarrow> None)"

section \<open>ECDH\<close>

definition from_coordinates :: "bytes \<Rightarrow> bytes \<Rightarrow> ecdh_pub_key option" where
  "from_coordinates x y = new_checked_vartime (from_bin x) (from_bin y)"

definition to_coordinates :: "ecdh_pub_key \<Rightarrow> bytes \<times> bytes" where
  "to_coordinates pk = (to_bin (pt_x pk), to_bin (pt_y pk))"

section \<open>Round trips\<close>

lemma sec_key_round_trip: "nz_exponent_ok k \<Longrightarrow> sec_key_from_bytes (sec_key_to_bytes k) = Some k"
  by (simp add: sec_key_from_bytes_def sec_key_to_bytes_def from_bin_to_bin nz_from_int_checked_iff
      nz_exponent_ok_def exponent_ok_def)

lemma length_sec_key_to_bytes: "nz_exponent_ok k \<Longrightarrow> length (sec_key_to_bytes k) = 32"
  by (simp add: sec_key_to_bytes_def to_bin_val nz_exponent_ok_def exponent_ok_def)

lemma sec_key_from_bytes_iff:
  assumes "length bs = 32"
  shows "sec_key_from_bytes bs = Some k \<longleftrightarrow> nz_exponent_ok k \<and> bs = sec_key_to_bytes k"
  using assms from_bin_val [OF assms] to_bin_from_bin [OF assms]
  by (auto simp: sec_key_from_bytes_def sec_key_to_bytes_def nz_from_int_checked_iff from_bin_to_bin
      nz_exponent_ok_def exponent_ok_def)

text \<open>A public key that the library has validated.\<close>

definition point_ok :: "point_p256 \<Rightarrow> bool" where
  "point_ok p \<longleftrightarrow> int256_ok (pt_x p) \<and> int256_ok (pt_y p) \<and> new_checked_vartime (pt_x p) (pt_y p) = Some p"

lemma new_checked_vartime_fields:
  "new_checked_vartime x y = Some p \<Longrightarrow> pt_x p = x \<and> pt_y p = y"
  by (auto simp: new_checked_vartime_def gfp_from_int_checked_def bind_eq_Some_conv split: if_splits)

lemma coordinates_round_trip:
  "point_ok p \<Longrightarrow> to_coordinates p = (x, y) \<Longrightarrow> from_coordinates x y = Some p \<and> length x = 32 \<and> length y = 32"
  by (auto simp: to_coordinates_def from_coordinates_def point_ok_def from_bin_to_bin to_bin_val)

lemma from_coordinates_ok:
  assumes "length x = 32" and "length y = 32" and "from_coordinates x y = Some p"
  shows "point_ok p \<and> to_coordinates p = (x, y)"
  using assms new_checked_vartime_fields [of "from_bin x" "from_bin y" p] from_bin_val [OF assms(1)]
    from_bin_val [OF assms(2)] to_bin_from_bin [OF assms(1)] to_bin_from_bin [OF assms(2)]
  by (auto simp: point_ok_def to_coordinates_def from_coordinates_def)

end
