(* ===== verification/Data_Formats.thy ===== *)
theory Data_Formats
  imports Cbor_Values Ec_Keys
begin

text \<open>
  The data of CTAP2 requests, responses and stored credentials (\<open>src/ctap/data_formats.rs\<close>) and the
  status codes (\<open>src/ctap/status_code.rs\<close>): a record or datatype per Rust type and its conversions
  from and to CBOR. Where the code depends on the feature \<open>with_ctap2_1\<close> the definition has that
  feature as an argument.
\<close>

section \<open>Status codes\<close>

datatype ctap2_status_code =
    CTAP2_OK
  | CTAP1_ERR_INVALID_COMMAND
  | CTAP1_ERR_INVALID_PARAMETER
  | CTAP1_ERR_INVALID_LENGTH
  | CTAP1_ERR_INVALID_SEQ
  | CTAP1_ERR_TIMEOUT
  | CTAP1_ERR_CHANNEL_BUSY
  | CTAP1_ERR_LOCK_REQUIRED
  | CTAP1_ERR_INVALID_CHANNEL
  | CTAP2_ERR_CBOR_UNEXPECTED_TYPE
  | CTAP2_ERR_INVALID_CBOR
  | CTAP2_ERR_MISSING_PARAMETER
  | CTAP2_ERR_LIMIT_EXCEEDED
  | CTAP2_ERR_UNSUPPORTED_EXTENSION
  | CTAP2_ERR_FP_DATABASE_FULL
  | CTAP2_ERR_PC_STORAGE_FULL
  | CTAP2_ERR_CREDENTIAL_EXCLUDED
  | CTAP2_ERR_PROCESSING
  | CTAP2_ERR_INVALID_CREDENTIAL
  | CTAP2_ERR_USER_ACTION_PENDING
  | CTAP2_ERR_OPERATION_PENDING
  | CTAP2_ERR_NO_OPERATIONS
  | CTAP2_ERR_UNSUPPORTED_ALGORITHM
  | CTAP2_ERR_OPERATION_DENIED
  | CTAP2_ERR_KEY_STORE_FULL
  | CTAP2_ERR_NO_OPERATION_PENDING
  | CTAP2_ERR_UNSUPPORTED_OPTION
  | CTAP2_ERR_INVALID_OPTION
  | CTAP2_ERR_KEEPALIVE_CANCEL
  | CTAP2_ERR_NO_CREDENTIALS
  | CTAP2_ERR_USER_ACTION_TIMEOUT
  | CTAP2_ERR_NOT_ALLOWED
  | CTAP2_ERR_PIN_INVALID
  | CTAP2_ERR_PIN_BLOCKED
  | CTAP2_ERR_PIN_AUTH_INVALID
  | CTAP2_ERR_PIN_AUTH_BLOCKED
  | CTAP2_ERR_PIN_NOT_SET
  | CTAP2_ERR_PIN_REQUIRED
  | CTAP2_ERR_PIN_POLICY_VIOLATION
  | CTAP2_ERR_PIN_TOKEN_EXPIRED
  | CTAP2_ERR_REQUEST_TOO_LARGE
  | CTAP2_ERR_ACTION_TIMEOUT
  | CTAP2_ERR_UP_REQUIRED
  | CTAP2_ERR_UV_BLOCKED
  | CTAP2_ERR_INTEGRITY_FAILURE
  | CTAP2_ERR_INVALID_SUBCOMMAND
  | CTAP1_ERR_OTHER
  | CTAP2_ERR_SPEC_LAST
  | CTAP2_ERR_EXTENSION_FIRST
  | CTAP2_ERR_EXTENSION_LAST
  | CTAP2_ERR_VENDOR_RESPONSE_TOO_LONG
  | CTAP2_ERR_VENDOR_RESPONSE_CANNOT_WRITE_CBOR
  | CTAP2_ERR_VENDOR_INTERNAL_ERROR
  | CTAP2_ERR_VENDOR_HARDWARE_FAILURE
  | CTAP2_ERR_VENDOR_LAST

fun status_byte :: "ctap2_status_code \<Rightarrow> u8" where
  "status_byte CTAP2_OK = 0x00"
| "status_byte CTAP1_ERR_INVALID_COMMAND = 0x01"
| "status_byte CTAP1_ERR_INVALID_PARAMETER = 0x02"
| "status_byte CTAP1_ERR_INVALID_LENGTH = 0x03"
| "status_byte CTAP1_ERR_INVALID_SEQ = 0x04"
| "status_byte CTAP1_ERR_TIMEOUT = 0x05"
| "status_byte CTAP1_ERR_CHANNEL_BUSY = 0x06"
| "status_byte CTAP1_ERR_LOCK_REQUIRED = 0x0A"
| "status_byte CTAP1_ERR_INVALID_CHANNEL = 0x0B"
| "status_byte CTAP2_ERR_CBOR_UNEXPECTED_TYPE = 0x11"
| "status_byte CTAP2_ERR_INVALID_CBOR = 0x12"
| "status_byte CTAP2_ERR_MISSING_PARAMETER = 0x14"
| "status_byte CTAP2_ERR_LIMIT_EXCEEDED = 0x15"
| "status_byte CTAP2_ERR_UNSUPPORTED_EXTENSION = 0x16"
| "status_byte CTAP2_ERR_FP_DATABASE_FULL = 0x17"
| "status_byte CTAP2_ERR_PC_STORAGE_FULL = 0x18"
| "status_byte CTAP2_ERR_CREDENTIAL_EXCLUDED = 0x19"
| "status_byte CTAP2_ERR_PROCESSING = 0x21"
| "status_byte CTAP2_ERR_INVALID_CREDENTIAL = 0x22"
| "status_byte CTAP2_ERR_USER_ACTION_PENDING = 0x23"
| "status_byte CTAP2_ERR_OPERATION_PENDING = 0x24"
| "status_byte CTAP2_ERR_NO_OPERATIONS = 0x25"
| "status_byte CTAP2_ERR_UNSUPPORTED_ALGORITHM = 0x26"
| "status_byte CTAP2_ERR_OPERATION_DENIED = 0x27"
| "status_byte CTAP2_ERR_KEY_STORE_FULL = 0x28"
| "status_byte CTAP2_ERR_NO_OPERATION_PENDING = 0x2A"
| "status_byte CTAP2_ERR_UNSUPPORTED_OPTION = 0x2B"
| "status_byte CTAP2_ERR_INVALID_OPTION = 0x2C"
| "status_byte CTAP2_ERR_KEEPALIVE_CANCEL = 0x2D"
| "status_byte CTAP2_ERR_NO_CREDENTIALS = 0x2E"
| "status_byte CTAP2_ERR_USER_ACTION_TIMEOUT = 0x2F"
| "status_byte CTAP2_ERR_NOT_ALLOWED = 0x30"
| "status_byte CTAP2_ERR_PIN_INVALID = 0x31"
| "status_byte CTAP2_ERR_PIN_BLOCKED = 0x32"
| "status_byte CTAP2_ERR_PIN_AUTH_INVALID = 0x33"
| "status_byte CTAP2_ERR_PIN_AUTH_BLOCKED = 0x34"
| "status_byte CTAP2_ERR_PIN_NOT_SET = 0x35"
| "status_byte CTAP2_ERR_PIN_REQUIRED = 0x36"
| "status_byte CTAP2_ERR_PIN_POLICY_VIOLATION = 0x37"
| "status_byte CTAP2_ERR_PIN_TOKEN_EXPIRED = 0x38"
| "status_byte CTAP2_ERR_REQUEST_TOO_LARGE = 0x39"
| "status_byte CTAP2_ERR_ACTION_TIMEOUT = 0x3A"
| "status_byte CTAP2_ERR_UP_REQUIRED = 0x3B"
| "status_byte CTAP2_ERR_UV_BLOCKED = 0x3C"
| "status_byte CTAP2_ERR_INTEGRITY_FAILURE = 0x3D"
| "status_byte CTAP2_ERR_INVALID_SUBCOMMAND = 0x3E"
| "status_byte CTAP1_ERR_OTHER = 0x7F"
| "status_byte CTAP2_ERR_SPEC_LAST = 0xDF"
| "status_byte CTAP2_ERR_EXTENSION_FIRST = 0xE0"
| "status_byte CTAP2_ERR_EXTENSION_LAST = 0xEF"
| "status_byte CTAP2_ERR_VENDOR_RESPONSE_TOO_LONG = 0xF0"
| "status_byte CTAP2_ERR_VENDOR_RESPONSE_CANNOT_WRITE_CBOR = 0xF1"
| "status_byte CTAP2_ERR_VENDOR_INTERNAL_ERROR = 0xF2"
| "status_byte CTAP2_ERR_VENDOR_HARDWARE_FAILURE = 0xF3"
| "status_byte CTAP2_ERR_VENDOR_LAST = 0xFF"

lemma status_byte_inject: "status_byte a = status_byte b \<longleftrightarrow> a = b"
  by (cases a; simp; cases b; simp)

section \<open>Literals and extraction\<close>

text \<open>A string literal of the sources as the bytes of a \<open>String\<close>, and as a key of a map.\<close>

definition str :: "string \<Rightarrow> bytes" where
  "str s = map of_char s"

definition text_key :: "string \<Rightarrow> key_type" where
  "text_key s = TextString (str s)"

fun extract_unsigned :: "cbor_value \<Rightarrow> ctap2_status_code + u64" where
  "extract_unsigned (KeyValue (Unsigned u)) = Inr u"
| "extract_unsigned _ = Inl CTAP2_ERR_CBOR_UNEXPECTED_TYPE"

fun extract_integer :: "cbor_value \<Rightarrow> ctap2_status_code + int" where
  "extract_integer (KeyValue (Unsigned u)) =
     (if uint u \<le> 2 ^ 63 - 1 then Inr (uint u) else Inl CTAP2_ERR_CBOR_UNEXPECTED_TYPE)"
| "extract_integer (KeyValue (Negative n)) = Inr n"
| "extract_integer _ = Inl CTAP2_ERR_CBOR_UNEXPECTED_TYPE"

fun extract_byte_string :: "cbor_value \<Rightarrow> ctap2_status_code + bytes" where
  "extract_byte_string (KeyValue (ByteString b)) = Inr b"
| "extract_byte_string _ = Inl CTAP2_ERR_CBOR_UNEXPECTED_TYPE"

fun extract_text_string :: "cbor_value \<Rightarrow> ctap2_status_code + bytes" where
  "extract_text_string (KeyValue (TextString t)) = Inr t"
| "extract_text_string _ = Inl CTAP2_ERR_CBOR_UNEXPECTED_TYPE"

fun extract_array :: "cbor_value \<Rightarrow> ctap2_status_code + cbor_value list" where
  "extract_array (Array a) = Inr a"
| "extract_array _ = Inl CTAP2_ERR_CBOR_UNEXPECTED_TYPE"

fun extract_map :: "cbor_value \<Rightarrow> ctap2_status_code + cbor_map" where
  "extract_map (Map m) = Inr m"
| "extract_map _ = Inl CTAP2_ERR_CBOR_UNEXPECTED_TYPE"

fun extract_bool :: "cbor_value \<Rightarrow> ctap2_status_code + bool" where
  "extract_bool (Simple FalseValue) = Inr False"
| "extract_bool (Simple TrueValue) = Inr True"
| "extract_bool _ = Inl CTAP2_ERR_CBOR_UNEXPECTED_TYPE"

definition ok_or_missing :: "'a option \<Rightarrow> ctap2_status_code + 'a" where
  "ok_or_missing opt = ok_or CTAP2_ERR_MISSING_PARAMETER opt"

text \<open>
  \<open>f(ok_or_missing(x)?)?\<close>, \<open>x.map(f).transpose()?\<close>, \<open>x.map_or(Ok(d), f)?\<close> and
  \<open>xs.into_iter().map(f).collect::<Result<Vec<_>, _>>()?\<close>.
\<close>

definition required :: "('a \<Rightarrow> ctap2_status_code + 'b) \<Rightarrow> 'a option \<Rightarrow> ctap2_status_code + 'b" where
  "required f opt = rbind (ok_or_missing opt) f"

fun optional :: "('a \<Rightarrow> 'e + 'b) \<Rightarrow> 'a option \<Rightarrow> 'e + 'b option" where
  "optional f None = Inr None"
| "optional f (Some x) = rbind (f x) (\<lambda>y. Inr (Some y))"

fun defaulted :: "'b \<Rightarrow> ('a \<Rightarrow> 'e + 'b) \<Rightarrow> 'a option \<Rightarrow> 'e + 'b" where
  "defaulted d f None = Inr d"
| "defaulted d f (Some x) = f x"

fun collect :: "('a \<Rightarrow> 'e + 'b) \<Rightarrow> 'a list \<Rightarrow> 'e + 'b list" where
  "collect f [] = Inr []"
| "collect f (x # xs) = rbind (f x) (\<lambda>y. rbind (collect f xs) (\<lambda>ys. Inr (y # ys)))"

section \<open>Entities\<close>

record rp_entity =
  rp_id :: bytes
  rp_name :: "bytes option"
  rp_icon :: "bytes option"

definition rp_entity_try_from :: "cbor_value \<Rightarrow> ctap2_status_code + rp_entity" where
  "rp_entity_try_from cbor_value =
     rbind (extract_map cbor_value) (\<lambda>m.
     let fs = destructure_cbor_map m [text_key ''id'', text_key ''icon'', text_key ''name''];
         rp_id = fs ! 0; rp_icon = fs ! 1; rp_name = fs ! 2 in
     rbind (required extract_text_string rp_id) (\<lambda>rp_id.
     rbind (optional extract_text_string rp_name) (\<lambda>rp_name.
     rbind (optional extract_text_string rp_icon) (\<lambda>rp_icon.
     Inr \<lparr>rp_id = rp_id, rp_name = rp_name, rp_icon = rp_icon\<rparr>))))"

record user_entity =
  user_id :: bytes
  user_name :: "bytes option"
  user_display_name :: "bytes option"
  user_icon :: "bytes option"

definition user_entity_try_from :: "cbor_value \<Rightarrow> ctap2_status_code + user_entity" where
  "user_entity_try_from cbor_value =
     rbind (extract_map cbor_value) (\<lambda>m.
     let fs = destructure_cbor_map m
                [text_key ''id'', text_key ''icon'', text_key ''name'', text_key ''displayName''];
         user_id = fs ! 0; user_icon = fs ! 1; user_name = fs ! 2; user_display_name = fs ! 3 in
     rbind (required extract_byte_string user_id) (\<lambda>user_id.
     rbind (optional extract_text_string user_name) (\<lambda>user_name.
     rbind (optional extract_text_string user_display_name) (\<lambda>user_display_name.
     rbind (optional extract_text_string user_icon) (\<lambda>user_icon.
     Inr \<lparr>user_id = user_id, user_name = user_name, user_display_name = user_display_name,
          user_icon = user_icon\<rparr>)))))"

definition user_entity_into :: "user_entity \<Rightarrow> cbor_value" where
  "user_entity_into entity = cbor_map_options
     [(text_key ''id'', Some (cbor_bytes (user_id entity))),
      (text_key ''name'', map_option cbor_text (user_name entity)),
      (text_key ''displayName'', map_option cbor_text (user_display_name entity)),
      (text_key ''icon'', map_option cbor_text (user_icon entity))]"

section \<open>Credential types, parameters and descriptors\<close>

datatype credential_type = PublicKey | UnknownType

definition credential_type_into :: "credential_type \<Rightarrow> cbor_value" where
  "credential_type_into t =
     cbor_text (case t of PublicKey \<Rightarrow> str ''public-key'' | UnknownType \<Rightarrow> str ''unknown'')"

definition credential_type_try_from :: "cbor_value \<Rightarrow> ctap2_status_code + credential_type" where
  "credential_type_try_from cbor_value =
     rbind (extract_text_string cbor_value) (\<lambda>s.
     Inr (if s = str ''public-key'' then PublicKey else UnknownType))"

datatype signature_algorithm = ES256 | UnknownAlgorithm

fun algorithm_as_i64 :: "signature_algorithm \<Rightarrow> int" where
  "algorithm_as_i64 ES256 = ES256_ALGORITHM"
| "algorithm_as_i64 UnknownAlgorithm = 0"

definition algorithm_into :: "signature_algorithm \<Rightarrow> cbor_value" where
  "algorithm_into alg = cbor_int (algorithm_as_i64 alg)"

definition algorithm_try_from :: "cbor_value \<Rightarrow> ctap2_status_code + signature_algorithm" where
  "algorithm_try_from cbor_value =
     rbind (extract_integer cbor_value) (\<lambda>i.
     Inr (if i = ES256_ALGORITHM then ES256 else UnknownAlgorithm))"

record credential_parameter =
  cred_type :: credential_type
  cred_alg :: signature_algorithm

definition credential_parameter_try_from :: "cbor_value \<Rightarrow> ctap2_status_code + credential_parameter" where
  "credential_parameter_try_from cbor_value =
     rbind (extract_map cbor_value) (\<lambda>m.
     let fs = destructure_cbor_map m [text_key ''alg'', text_key ''type'']; alg = fs ! 0; cred_type = fs ! 1 in
     rbind (required credential_type_try_from cred_type) (\<lambda>cred_type.
     rbind (required algorithm_try_from alg) (\<lambda>alg.
     Inr \<lparr>cred_type = cred_type, cred_alg = alg\<rparr>)))"

definition credential_parameter_into :: "credential_parameter \<Rightarrow> cbor_value" where
  "credential_parameter_into p = cbor_map_options
     [(text_key ''type'', Some (credential_type_into (cred_type p))),
      (text_key ''alg'', Some (algorithm_into (cred_alg p)))]"

datatype transport = Usb | Nfc | Ble | Internal

definition transport_into :: "transport \<Rightarrow> cbor_value" where
  "transport_into t = cbor_text
     (case t of Usb \<Rightarrow> str ''usb'' | Nfc \<Rightarrow> str ''nfc'' | Ble \<Rightarrow> str ''ble'' | Internal \<Rightarrow> str ''internal'')"

definition transport_try_from :: "cbor_value \<Rightarrow> ctap2_status_code + transport" where
  "transport_try_from cbor_value =
     rbind (extract_text_string cbor_value) (\<lambda>s.
     if s = str ''usb'' then Inr Usb
     else if s = str ''nfc'' then Inr Nfc
     else if s = str ''ble'' then Inr Ble
     else if s = str ''internal'' then Inr Internal
     else Inl CTAP2_ERR_CBOR_UNEXPECTED_TYPE)"

record credential_descriptor =
  desc_type :: credential_type
  desc_id :: bytes
  desc_transports :: "transport list option"

definition credential_descriptor_try_from :: "cbor_value \<Rightarrow> ctap2_status_code + credential_descriptor" where
  "credential_descriptor_try_from cbor_value =
     rbind (extract_map cbor_value) (\<lambda>m.
     let fs = destructure_cbor_map m [text_key ''id'', text_key ''type'', text_key ''transports''];
         key_id = fs ! 0; kty = fs ! 1; transports = fs ! 2 in
     rbind (required credential_type_try_from kty) (\<lambda>kty.
     rbind (required extract_byte_string key_id) (\<lambda>key_id.
     rbind (optional (\<lambda>v. rbind (extract_array v) (collect transport_try_from)) transports) (\<lambda>transports.
     Inr \<lparr>desc_type = kty, desc_id = key_id, desc_transports = transports\<rparr>))))"

definition credential_descriptor_into :: "credential_descriptor \<Rightarrow> cbor_value" where
  "credential_descriptor_into d = cbor_map_options
     [(text_key ''type'', Some (credential_type_into (desc_type d))),
      (text_key ''id'', Some (cbor_bytes (desc_id d))),
      (text_key ''transports'', map_option (\<lambda>ts. Array (map transport_into ts)) (desc_transports d))]"

section \<open>Extensions and options\<close>

datatype cred_protect_policy =
    UserVerificationOptional
  | UserVerificationOptionalWithCredentialIdList
  | UserVerificationRequired

fun policy_as_i64 :: "cred_protect_policy \<Rightarrow> int" where
  "policy_as_i64 UserVerificationOptional = 1"
| "policy_as_i64 UserVerificationOptionalWithCredentialIdList = 2"
| "policy_as_i64 UserVerificationRequired = 3"

definition policy_into :: "cred_protect_policy \<Rightarrow> cbor_value" where
  "policy_into policy = cbor_int (policy_as_i64 policy)"

definition policy_try_from :: "cbor_value \<Rightarrow> ctap2_status_code + cred_protect_policy" where
  "policy_try_from cbor_value =
     rbind (extract_integer cbor_value) (\<lambda>i.
     if i = 1 then Inr UserVerificationOptional
     else if i = 2 then Inr UserVerificationOptionalWithCredentialIdList
     else if i = 3 then Inr UserVerificationRequired
     else Inl CTAP2_ERR_CBOR_UNEXPECTED_TYPE)"

record make_credential_extensions =
  mc_hmac_secret :: bool
  mc_cred_protect :: "cred_protect_policy option"

definition make_credential_extensions_try_from :: "cbor_value \<Rightarrow> ctap2_status_code + make_credential_extensions" where
  "make_credential_extensions_try_from cbor_value =
     rbind (extract_map cbor_value) (\<lambda>m.
     let fs = destructure_cbor_map m [text_key ''credProtect'', text_key ''hmac-secret''];
         cred_protect = fs ! 0; hmac_secret = fs ! 1 in
     rbind (defaulted False extract_bool hmac_secret) (\<lambda>hmac_secret.
     rbind (optional policy_try_from cred_protect) (\<lambda>cred_protect.
     Inr \<lparr>mc_hmac_secret = hmac_secret, mc_cred_protect = cred_protect\<rparr>)))"

type_synonym cose_key = cbor_map

record hmac_secret_input =
  hs_key_agreement :: cose_key
  salt_enc :: bytes
  salt_auth :: bytes

definition hmac_secret_input_try_from :: "cbor_value \<Rightarrow> ctap2_status_code + hmac_secret_input" where
  "hmac_secret_input_try_from cbor_value =
     rbind (extract_map cbor_value) (\<lambda>m.
     let fs = destructure_cbor_map m [key_integer 1, key_integer 2, key_integer 3];
         cose_key = fs ! 0; salt_enc = fs ! 1; salt_auth = fs ! 2 in
     rbind (required extract_map cose_key) (\<lambda>cose_key.
     rbind (required extract_byte_string salt_enc) (\<lambda>salt_enc.
     rbind (required extract_byte_string salt_auth) (\<lambda>salt_auth.
     Inr \<lparr>hs_key_agreement = cose_key, salt_enc = salt_enc, salt_auth = salt_auth\<rparr>))))"

record get_assertion_extensions =
  ga_hmac_secret :: "hmac_secret_input option"

definition get_assertion_extensions_try_from :: "cbor_value \<Rightarrow> ctap2_status_code + get_assertion_extensions" where
  "get_assertion_extensions_try_from cbor_value =
     rbind (extract_map cbor_value) (\<lambda>m.
     let hmac_secret = destructure_cbor_map m [text_key ''hmac-secret''] ! 0 in
     rbind (optional hmac_secret_input_try_from hmac_secret) (\<lambda>hmac_secret.
     Inr \<lparr>ga_hmac_secret = hmac_secret\<rparr>))"

record make_credential_options =
  mc_rk :: bool
  mc_uv :: bool

definition make_credential_options_try_from :: "cbor_value \<Rightarrow> ctap2_status_code + make_credential_options" where
  "make_credential_options_try_from cbor_value =
     rbind (extract_map cbor_value) (\<lambda>m.
     let fs = destructure_cbor_map m [text_key ''rk'', text_key ''up'', text_key ''uv''];
         rk = fs ! 0; up = fs ! 1; uv = fs ! 2 in
     rbind (defaulted False extract_bool rk) (\<lambda>rk.
     if up \<noteq> None then Inl CTAP2_ERR_INVALID_OPTION
     else
       rbind (defaulted False extract_bool uv) (\<lambda>uv.
       Inr \<lparr>mc_rk = rk, mc_uv = uv\<rparr>)))"

record get_assertion_options =
  ga_up :: bool
  ga_uv :: bool

definition get_assertion_options_try_from :: "cbor_value \<Rightarrow> ctap2_status_code + get_assertion_options" where
  "get_assertion_options_try_from cbor_value =
     rbind (extract_map cbor_value) (\<lambda>m.
     let fs = destructure_cbor_map m [text_key ''rk'', text_key ''up'', text_key ''uv''];
         rk = fs ! 0; up = fs ! 1; uv = fs ! 2 in
     rbind (case rk of
              Some options_entry \<Rightarrow> rbind (extract_bool options_entry) (\<lambda>_. Inl CTAP2_ERR_INVALID_OPTION)
            | None \<Rightarrow> Inr ()) (\<lambda>_.
     rbind (defaulted True extract_bool up) (\<lambda>up.
     rbind (defaulted False extract_bool uv) (\<lambda>uv.
     Inr \<lparr>ga_up = up, ga_uv = uv\<rparr>))))"

record packed_attestation_statement =
  att_alg :: int
  att_sig :: bytes
  att_x5c :: "bytes list option"
  att_ecdaa_key_id :: "bytes option"

definition packed_attestation_statement_into :: "packed_attestation_statement \<Rightarrow> cbor_value" where
  "packed_attestation_statement_into a = cbor_map_options
     [(text_key ''alg'', Some (cbor_int (att_alg a))),
      (text_key ''sig'', Some (cbor_bytes (att_sig a))),
      (text_key ''x5c'', map_option (\<lambda>x. Array (map cbor_bytes x)) (att_x5c a)),
      (text_key ''ecdaaKeyId'', map_option cbor_bytes (att_ecdaa_key_id a))]"

section \<open>Credential sources\<close>

record credential_source =
  cs_type :: credential_type
  cs_id :: bytes
  cs_private_key :: ecdsa_sec_key
  cs_rp_id :: bytes
  cs_user_handle :: bytes
  cs_user_display_name :: "bytes option"
  cs_cred_protect_policy :: "cred_protect_policy option"
  cs_creation_order :: u64
  cs_user_name :: "bytes option"
  cs_user_icon :: "bytes option"

datatype credential_source_field =
    CredentialId | PrivateKey | RpId | UserHandle | UserDisplayName
  | CredProtectPolicy | CreationOrder | UserName | UserIcon

fun source_field_as_u64 :: "credential_source_field \<Rightarrow> u64" where
  "source_field_as_u64 CredentialId = 0"
| "source_field_as_u64 PrivateKey = 1"
| "source_field_as_u64 RpId = 2"
| "source_field_as_u64 UserHandle = 3"
| "source_field_as_u64 UserDisplayName = 4"
| "source_field_as_u64 CredProtectPolicy = 6"
| "source_field_as_u64 CreationOrder = 7"
| "source_field_as_u64 UserName = 8"
| "source_field_as_u64 UserIcon = 9"

definition source_field_key :: "credential_source_field \<Rightarrow> key_type" where
  "source_field_key field = Unsigned (source_field_as_u64 field)"

definition credential_source_into :: "credential_source \<Rightarrow> cbor_value" where
  "credential_source_into c =
     (let private_key = sec_key_to_bytes (cs_private_key c) in
      cbor_map_options
        [(source_field_key CredentialId, Some (cbor_bytes (cs_id c))),
         (source_field_key PrivateKey, Some (cbor_bytes private_key)),
         (source_field_key RpId, Some (cbor_text (cs_rp_id c))),
         (source_field_key UserHandle, Some (cbor_bytes (cs_user_handle c))),
         (source_field_key UserDisplayName, map_option cbor_text (cs_user_display_name c)),
         (source_field_key CredProtectPolicy, map_option policy_into (cs_cred_protect_policy c)),
         (source_field_key CreationOrder, Some (cbor_unsigned (cs_creation_order c))),
         (source_field_key UserName, map_option cbor_text (cs_user_name c)),
         (source_field_key UserIcon, map_option cbor_text (cs_user_icon c))])"

definition credential_source_try_from :: "cbor_value \<Rightarrow> ctap2_status_code + credential_source" where
  "credential_source_try_from cbor_value =
     rbind (extract_map cbor_value) (\<lambda>m.
     let fs = destructure_cbor_map m (map source_field_key
                [CredentialId, PrivateKey, RpId, UserHandle, UserDisplayName, CredProtectPolicy,
                 CreationOrder, UserName, UserIcon]) in
     rbind (required extract_byte_string (fs ! 0)) (\<lambda>credential_id.
     rbind (required extract_byte_string (fs ! 1)) (\<lambda>private_key.
     if length private_key \<noteq> 32 then Inl CTAP2_ERR_INVALID_CBOR
     else
       rbind (ok_or CTAP2_ERR_INVALID_CBOR (sec_key_from_bytes (take 32 private_key))) (\<lambda>private_key.
       rbind (required extract_text_string (fs ! 2)) (\<lambda>rp_id.
       rbind (required extract_byte_string (fs ! 3)) (\<lambda>user_handle.
       rbind (optional extract_text_string (fs ! 4)) (\<lambda>user_display_name.
       rbind (optional policy_try_from (fs ! 5)) (\<lambda>cred_protect_policy.
       rbind (defaulted 0 extract_unsigned (fs ! 6)) (\<lambda>creation_order.
       rbind (optional extract_text_string (fs ! 7)) (\<lambda>user_name.
       rbind (optional extract_text_string (fs ! 8)) (\<lambda>user_icon.
       Inr \<lparr>cs_type = PublicKey, cs_id = credential_id, cs_private_key = private_key,
            cs_rp_id = rp_id, cs_user_handle = user_handle, cs_user_display_name = user_display_name,
            cs_cred_protect_policy = cred_protect_policy, cs_creation_order = creation_order,
            cs_user_name = user_name, cs_user_icon = user_icon\<rparr>)))))))))))"

definition is_discoverable :: "credential_source \<Rightarrow> bool" where
  "is_discoverable c \<longleftrightarrow>
     cs_cred_protect_policy c = None \<or> cs_cred_protect_policy c = Some UserVerificationOptional"

section \<open>COSE keys\<close>

definition ECDH_ALGORITHM :: int where "ECDH_ALGORITHM = - 25"
definition EC2_KEY_TYPE :: int where "EC2_KEY_TYPE = 2"
definition P_256_CURVE :: int where "P_256_CURVE = 1"

text \<open>The \<open>unreachable!()\<close> arm is a map constructor that returns no map.\<close>

definition cose_key_from_ecdh :: "ecdh_pub_key \<Rightarrow> cose_key option" where
  "cose_key_from_ecdh pk =
     (let (x_bytes, y_bytes) = to_coordinates pk;
          cose_cbor_value = cbor_map_options
            [(key_integer 1, Some (cbor_int EC2_KEY_TYPE)),
             (key_integer 3, Some (cbor_int ECDH_ALGORITHM)),
             (key_integer (- 1), Some (cbor_int P_256_CURVE)),
             (key_integer (- 2), Some (cbor_bytes x_bytes)),
             (key_integer (- 3), Some (cbor_bytes y_bytes))]
      in case cose_cbor_value of Map cose_map \<Rightarrow> Some cose_map | _ \<Rightarrow> None)"

definition ecdh_try_from_cose_key :: "cose_key \<Rightarrow> ctap2_status_code + ecdh_pub_key" where
  "ecdh_try_from_cose_key cose_key =
     (let fs = destructure_cbor_map cose_key
            [key_integer 1, key_integer 3, key_integer (- 1), key_integer (- 2), key_integer (- 3)] in
      rbind (required extract_integer (fs ! 0)) (\<lambda>kty.
      if kty \<noteq> EC2_KEY_TYPE then Inl CTAP2_ERR_UNSUPPORTED_ALGORITHM else
      rbind (required extract_integer (fs ! 1)) (\<lambda>algorithm.
      if algorithm \<noteq> ECDH_ALGORITHM \<and> algorithm \<noteq> ES256_ALGORITHM then Inl CTAP2_ERR_UNSUPPORTED_ALGORITHM else
      rbind (required extract_integer (fs ! 2)) (\<lambda>curve.
      if curve \<noteq> P_256_CURVE then Inl CTAP2_ERR_UNSUPPORTED_ALGORITHM else
      rbind (required extract_byte_string (fs ! 3)) (\<lambda>x_bytes.
      if length x_bytes \<noteq> NBYTES then Inl CTAP1_ERR_INVALID_PARAMETER else
      rbind (required extract_byte_string (fs ! 4)) (\<lambda>y_bytes.
      if length y_bytes \<noteq> NBYTES then Inl CTAP1_ERR_INVALID_PARAMETER else
      ok_or CTAP1_ERR_INVALID_PARAMETER (from_coordinates x_bytes y_bytes)))))))"

section \<open>Client PIN subcommands\<close>

datatype client_pin_sub_command =
    GetPinRetries | GetKeyAgreement | SetPin | ChangePin | GetPinToken
  | GetPinUvAuthTokenUsingUvWithPermissions | GetUvRetries | SetMinPinLength
  | GetPinUvAuthTokenUsingPinWithPermissions

fun sub_command_as_u64 :: "client_pin_sub_command \<Rightarrow> u64" where
  "sub_command_as_u64 GetPinRetries = 1"
| "sub_command_as_u64 GetKeyAgreement = 2"
| "sub_command_as_u64 SetPin = 3"
| "sub_command_as_u64 ChangePin = 4"
| "sub_command_as_u64 GetPinToken = 5"
| "sub_command_as_u64 GetPinUvAuthTokenUsingUvWithPermissions = 6"
| "sub_command_as_u64 GetUvRetries = 7"
| "sub_command_as_u64 SetMinPinLength = 8"
| "sub_command_as_u64 GetPinUvAuthTokenUsingPinWithPermissions = 9"

definition sub_command_into :: "client_pin_sub_command \<Rightarrow> cbor_value" where
  "sub_command_into c = cbor_unsigned (sub_command_as_u64 c)"

definition sub_command_try_from :: "bool \<Rightarrow> cbor_value \<Rightarrow> ctap2_status_code + client_pin_sub_command" where
  "sub_command_try_from with_ctap2_1 cbor_value =
     rbind (extract_unsigned cbor_value) (\<lambda>i.
     if i = 1 then Inr GetPinRetries
     else if i = 2 then Inr GetKeyAgreement
     else if i = 3 then Inr SetPin
     else if i = 4 then Inr ChangePin
     else if i = 5 then Inr GetPinToken
     else if with_ctap2_1 then
       (if i = 6 then Inr GetPinUvAuthTokenUsingUvWithPermissions
        else if i = 7 then Inr GetUvRetries
        else if i = 8 then Inr SetMinPinLength
        else if i = 9 then Inr GetPinUvAuthTokenUsingPinWithPermissions
        else Inl CTAP2_ERR_INVALID_SUBCOMMAND)
     else Inl CTAP1_ERR_INVALID_PARAMETER)"

end
