(* ===== verification/Command.thy ===== *)
theory Command
  imports Data_Formats Cbor_Reader
begin

text \<open>
  The commands of CTAP2 (\<open>src/ctap/command.rs\<close>): their parameters and \<open>Command::deserialize\<close>. The
  width of \<open>usize\<close> is the argument \<open>w\<close> of the CBOR reader, the feature \<open>with_ctap2_1\<close> is the argument \<open>v21\<close>;
  the fields that exist only with the feature are \<^const>\<open>None\<close> without it.
\<close>

section \<open>Parameters\<close>

definition MAX_CREDENTIAL_COUNT_IN_LIST :: "nat option" where
  "MAX_CREDENTIAL_COUNT_IN_LIST = None"

definition ATTESTATION_PRIVATE_KEY_LENGTH :: nat where
  "ATTESTATION_PRIVATE_KEY_LENGTH = 32"

text \<open>A list of credential descriptors, cut to the length that fits in memory.\<close>

definition descriptor_list :: "cbor_value \<Rightarrow> ctap2_status_code + credential_descriptor list" where
  "descriptor_list entry =
     rbind (extract_array entry) (\<lambda>vec.
     let list_len = (case MAX_CREDENTIAL_COUNT_IN_LIST of Some n \<Rightarrow> n | None \<Rightarrow> length vec) in
     collect credential_descriptor_try_from (take list_len vec))"

record make_credential_parameters =
  mcp_client_data_hash :: bytes
  mcp_rp :: rp_entity
  mcp_user :: user_entity
  mcp_pub_key_cred_params :: "credential_parameter list"
  mcp_exclude_list :: "credential_descriptor list option"
  mcp_extensions :: "make_credential_extensions option"
  mcp_options :: make_credential_options
  mcp_pin_uv_auth_param :: "bytes option"
  mcp_pin_uv_auth_protocol :: "u64 option"

definition make_credential_parameters_try_from :: "cbor_value \<Rightarrow> ctap2_status_code + make_credential_parameters" where
  "make_credential_parameters_try_from cbor_value =
     rbind (extract_map cbor_value) (\<lambda>m.
     let fs = destructure_cbor_map m (map key_integer [1, 2, 3, 4, 5, 6, 7, 8, 9]) in
     rbind (required extract_byte_string (fs ! 0)) (\<lambda>client_data_hash.
     rbind (required rp_entity_try_from (fs ! 1)) (\<lambda>rp.
     rbind (required user_entity_try_from (fs ! 2)) (\<lambda>user.
     rbind (required extract_array (fs ! 3)) (\<lambda>cred_param_vec.
     rbind (collect credential_parameter_try_from cred_param_vec) (\<lambda>pub_key_cred_params.
     rbind (optional descriptor_list (fs ! 4)) (\<lambda>exclude_list.
     rbind (optional make_credential_extensions_try_from (fs ! 5)) (\<lambda>extensions.
     rbind (defaulted \<lparr>mc_rk = False, mc_uv = False\<rparr> make_credential_options_try_from (fs ! 6)) (\<lambda>options.
     rbind (optional extract_byte_string (fs ! 7)) (\<lambda>pin_uv_auth_param.
     rbind (optional extract_unsigned (fs ! 8)) (\<lambda>pin_uv_auth_protocol.
     Inr \<lparr>mcp_client_data_hash = client_data_hash, mcp_rp = rp, mcp_user = user,
          mcp_pub_key_cred_params = pub_key_cred_params, mcp_exclude_list = exclude_list,
          mcp_extensions = extensions, mcp_options = options, mcp_pin_uv_auth_param = pin_uv_auth_param,
          mcp_pin_uv_auth_protocol = pin_uv_auth_protocol\<rparr>)))))))))))"

record get_assertion_parameters =
  gap_rp_id :: bytes
  gap_client_data_hash :: bytes
  gap_allow_list :: "credential_descriptor list option"
  gap_extensions :: "get_assertion_extensions option"
  gap_options :: get_assertion_options
  gap_pin_uv_auth_param :: "bytes option"
  gap_pin_uv_auth_protocol :: "u64 option"

definition get_assertion_parameters_try_from :: "cbor_value \<Rightarrow> ctap2_status_code + get_assertion_parameters" where
  "get_assertion_parameters_try_from cbor_value =
     rbind (extract_map cbor_value) (\<lambda>m.
     let fs = destructure_cbor_map m (map key_integer [1, 2, 3, 4, 5, 6, 7]) in
     rbind (required extract_text_string (fs ! 0)) (\<lambda>rp_id.
     rbind (required extract_byte_string (fs ! 1)) (\<lambda>client_data_hash.
     rbind (optional descriptor_list (fs ! 2)) (\<lambda>allow_list.
     rbind (optional get_assertion_extensions_try_from (fs ! 3)) (\<lambda>extensions.
     rbind (defaulted \<lparr>ga_up = True, ga_uv = False\<rparr> get_assertion_options_try_from (fs ! 4)) (\<lambda>options.
     rbind (optional extract_byte_string (fs ! 5)) (\<lambda>pin_uv_auth_param.
     rbind (optional extract_unsigned (fs ! 6)) (\<lambda>pin_uv_auth_protocol.
     Inr \<lparr>gap_rp_id = rp_id, gap_client_data_hash = client_data_hash, gap_allow_list = allow_list,
          gap_extensions = extensions, gap_options = options, gap_pin_uv_auth_param = pin_uv_auth_param,
          gap_pin_uv_auth_protocol = pin_uv_auth_protocol\<rparr>))))))))"

record client_pin_parameters =
  cpp_pin_protocol :: u64
  cpp_sub_command :: client_pin_sub_command
  cpp_key_agreement :: "cose_key option"
  cpp_pin_auth :: "bytes option"
  cpp_new_pin_enc :: "bytes option"
  cpp_pin_hash_enc :: "bytes option"
  cpp_min_pin_length :: "u8 option"
  cpp_min_pin_length_rp_ids :: "bytes list option"
  cpp_permissions :: "u8 option"
  cpp_permissions_rp_id :: "bytes option"

text \<open>\<open>u8::try_from\<close> on a \<open>u64\<close>, with the error the caller maps it to.\<close>

definition u8_try_from :: "ctap2_status_code \<Rightarrow> u64 \<Rightarrow> ctap2_status_code + u8" where
  "u8_try_from err u = (if u \<le> 255 then Inr (ucast u) else Inl err)"

definition client_pin_parameters_try_from :: "bool \<Rightarrow> cbor_value \<Rightarrow> ctap2_status_code + client_pin_parameters" where
  "client_pin_parameters_try_from v21 cbor_value =
     rbind (extract_map cbor_value) (\<lambda>m.
     let fs = (if v21 then destructure_cbor_map m (map key_integer [1, 2, 3, 4, 5, 6, 7, 8, 9, 10])
               else destructure_cbor_map m (map key_integer [1, 2, 3, 4, 5, 6]) @ [None, None, None, None]) in
     rbind (required extract_unsigned (fs ! 0)) (\<lambda>pin_protocol.
     rbind (required (sub_command_try_from v21) (fs ! 1)) (\<lambda>sub_command.
     rbind (optional extract_map (fs ! 2)) (\<lambda>key_agreement.
     rbind (optional extract_byte_string (fs ! 3)) (\<lambda>pin_auth.
     rbind (optional extract_byte_string (fs ! 4)) (\<lambda>new_pin_enc.
     rbind (optional extract_byte_string (fs ! 5)) (\<lambda>pin_hash_enc.
     rbind (rbind (optional extract_unsigned (fs ! 6))
              (optional (u8_try_from CTAP2_ERR_PIN_POLICY_VIOLATION))) (\<lambda>min_pin_length.
     rbind (optional (\<lambda>entry. rbind (extract_array entry) (collect extract_text_string)) (fs ! 7))
       (\<lambda>min_pin_length_rp_ids.
     rbind (optional extract_unsigned (fs ! 8)) (\<lambda>permissions.
     rbind (optional extract_text_string (fs ! 9)) (\<lambda>permissions_rp_id.
     Inr \<lparr>cpp_pin_protocol = pin_protocol, cpp_sub_command = sub_command, cpp_key_agreement = key_agreement,
          cpp_pin_auth = pin_auth, cpp_new_pin_enc = new_pin_enc, cpp_pin_hash_enc = pin_hash_enc,
          cpp_min_pin_length = min_pin_length, cpp_min_pin_length_rp_ids = min_pin_length_rp_ids,
          cpp_permissions = map_option (\<lambda>p. ucast p) permissions,
          cpp_permissions_rp_id = permissions_rp_id\<rparr>)))))))))))"

record attestation_material =
  am_certificate :: bytes
  am_private_key :: bytes

definition attestation_material_try_from :: "cbor_value \<Rightarrow> ctap2_status_code + attestation_material" where
  "attestation_material_try_from cbor_value =
     rbind (extract_map cbor_value) (\<lambda>m.
     let fs = destructure_cbor_map m [key_integer 1, key_integer 2] in
     rbind (required extract_byte_string (fs ! 0)) (\<lambda>certificate.
     rbind (required extract_byte_string (fs ! 1)) (\<lambda>private_key.
     if length private_key \<noteq> ATTESTATION_PRIVATE_KEY_LENGTH then Inl CTAP1_ERR_INVALID_PARAMETER
     else Inr \<lparr>am_certificate = certificate, am_private_key = take ATTESTATION_PRIVATE_KEY_LENGTH private_key\<rparr>)))"

record vendor_configure_parameters =
  vcp_lockdown :: bool
  vcp_attestation_material :: "attestation_material option"

definition vendor_configure_parameters_try_from :: "cbor_value \<Rightarrow> ctap2_status_code + vendor_configure_parameters" where
  "vendor_configure_parameters_try_from cbor_value =
     rbind (extract_map cbor_value) (\<lambda>m.
     let fs = destructure_cbor_map m [key_integer 1, key_integer 2] in
     rbind (defaulted False extract_bool (fs ! 0)) (\<lambda>lockdown.
     rbind (optional attestation_material_try_from (fs ! 1)) (\<lambda>attestation_material.
     Inr \<lparr>vcp_lockdown = lockdown, vcp_attestation_material = attestation_material\<rparr>)))"

section \<open>Commands\<close>

datatype command =
    AuthenticatorMakeCredential make_credential_parameters
  | AuthenticatorGetAssertion get_assertion_parameters
  | AuthenticatorGetInfo
  | AuthenticatorClientPin client_pin_parameters
  | AuthenticatorReset
  | AuthenticatorGetNextAssertion
  | AuthenticatorSelection
  | AuthenticatorVendorConfigure vendor_configure_parameters

definition AUTHENTICATOR_MAKE_CREDENTIAL :: u8 where "AUTHENTICATOR_MAKE_CREDENTIAL = 0x01"
definition AUTHENTICATOR_GET_ASSERTION :: u8 where "AUTHENTICATOR_GET_ASSERTION = 0x02"
definition AUTHENTICATOR_GET_INFO :: u8 where "AUTHENTICATOR_GET_INFO = 0x04"
definition AUTHENTICATOR_CLIENT_PIN :: u8 where "AUTHENTICATOR_CLIENT_PIN = 0x06"
definition AUTHENTICATOR_RESET :: u8 where "AUTHENTICATOR_RESET = 0x07"
definition AUTHENTICATOR_GET_NEXT_ASSERTION :: u8 where "AUTHENTICATOR_GET_NEXT_ASSERTION = 0x08"
definition AUTHENTICATOR_SELECTION :: u8 where "AUTHENTICATOR_SELECTION = 0x0B"
definition AUTHENTICATOR_VENDOR_CONFIGURE :: u8 where "AUTHENTICATOR_VENDOR_CONFIGURE = 0x40"

lemmas command_constants =
  AUTHENTICATOR_MAKE_CREDENTIAL_def AUTHENTICATOR_GET_ASSERTION_def AUTHENTICATOR_GET_INFO_def
  AUTHENTICATOR_CLIENT_PIN_def AUTHENTICATOR_RESET_def AUTHENTICATOR_GET_NEXT_ASSERTION_def
  AUTHENTICATOR_SELECTION_def AUTHENTICATOR_VENDOR_CONFIGURE_def

text \<open>\<open>cbor::read\<close> with the conversion of its error.\<close>

definition read_parameters :: "nat \<Rightarrow> bytes \<Rightarrow> ctap2_status_code + cbor_value" where
  "read_parameters w bs = (case cbor_read w bs of Inl _ \<Rightarrow> Inl CTAP2_ERR_INVALID_CBOR | Inr v \<Rightarrow> Inr v)"

fun command_deserialize :: "nat \<Rightarrow> bool \<Rightarrow> bytes \<Rightarrow> ctap2_status_code + command" where
  "command_deserialize w v21 [] = Inl CTAP2_ERR_MISSING_PARAMETER"
| "command_deserialize w v21 (command_value # bs) =
     (if command_value = AUTHENTICATOR_MAKE_CREDENTIAL then
        rbind (read_parameters w bs) (\<lambda>decoded_cbor.
        rbind (make_credential_parameters_try_from decoded_cbor) (\<lambda>p. Inr (AuthenticatorMakeCredential p)))
      else if command_value = AUTHENTICATOR_GET_ASSERTION then
        rbind (read_parameters w bs) (\<lambda>decoded_cbor.
        rbind (get_assertion_parameters_try_from decoded_cbor) (\<lambda>p. Inr (AuthenticatorGetAssertion p)))
      else if command_value = AUTHENTICATOR_GET_INFO then Inr AuthenticatorGetInfo
      else if command_value = AUTHENTICATOR_CLIENT_PIN then
        rbind (read_parameters w bs) (\<lambda>decoded_cbor.
        rbind (client_pin_parameters_try_from v21 decoded_cbor) (\<lambda>p. Inr (AuthenticatorClientPin p)))
      else if command_value = AUTHENTICATOR_RESET then Inr AuthenticatorReset
      else if command_value = AUTHENTICATOR_GET_NEXT_ASSERTION then Inr AuthenticatorGetNextAssertion
      else if v21 \<and> command_value = AUTHENTICATOR_SELECTION then Inr AuthenticatorSelection
      else if command_value = AUTHENTICATOR_VENDOR_CONFIGURE then
        rbind (read_parameters w bs) (\<lambda>decoded_cbor.
        rbind (vendor_configure_parameters_try_from decoded_cbor) (\<lambda>p. Inr (AuthenticatorVendorConfigure p)))
      else Inl CTAP1_ERR_INVALID_COMMAND)"

end
