(* ===== verification/Data_Formats_Properties.thy ===== *)
theory Data_Formats_Properties
  imports Data_Formats Cbor_Roundtrip
begin

text \<open>
  The conversions between CTAP data and CBOR are inverse where both directions exist. The contract of
  such a pair is the locale \<open>cbor_conversion\<close>, with what follows for optional fields and lists of
  fields; it is interpreted on every pair of \<open>data_formats.rs\<close>.
\<close>

section \<open>Conversions\<close>

locale cbor_conversion =
  fixes into :: "'a \<Rightarrow> cbor_value" and try_from :: "cbor_value \<Rightarrow> ctap2_status_code + 'a" and valid :: "'a \<Rightarrow> bool"
  assumes round_trip: "valid x \<Longrightarrow> try_from (into x) = Inr x"
begin

lemma required_round_trip: "valid x \<Longrightarrow> required try_from (Some (into x)) = Inr x"
  by (simp add: required_def ok_or_missing_def round_trip)

lemma optional_round_trip: "pred_option valid opt \<Longrightarrow> optional try_from (map_option into opt) = Inr opt"
  by (cases opt) (simp_all add: round_trip)

lemma defaulted_round_trip: "valid x \<Longrightarrow> defaulted d try_from (Some (into x)) = Inr x"
  by (simp add: round_trip)

lemma collect_round_trip: "list_all valid xs \<Longrightarrow> collect try_from (map into xs) = Inr xs"
  by (induction xs) (simp_all add: round_trip)

lemma into_inject: "valid x \<Longrightarrow> valid y \<Longrightarrow> into x = into y \<longleftrightarrow> x = y"
  using round_trip by (metis Inr_inject)

end

interpretation bytes_conv: cbor_conversion cbor_bytes extract_byte_string "\<lambda>_. True"
  by unfold_locales (simp add: cbor_bytes_def)

interpretation text_conv: cbor_conversion cbor_text extract_text_string "\<lambda>_. True"
  by unfold_locales (simp add: cbor_text_def)

interpretation unsigned_conv: cbor_conversion cbor_unsigned extract_unsigned "\<lambda>_. True"
  by unfold_locales (simp add: cbor_unsigned_def)

interpretation bool_conv: cbor_conversion bool_value extract_bool "\<lambda>_. True"
  by unfold_locales (simp add: bool_value_def)

lemma uint_of_nonneg: "0 \<le> i \<Longrightarrow> i < 2 ^ 63 \<Longrightarrow> uint (of_int i :: u64) = i"
  by (simp add: uint_word_of_int_eq take_bit_int_eq_self)

interpretation int_conv: cbor_conversion cbor_int extract_integer "\<lambda>i. - (2 ^ 63) \<le> i \<and> i < 2 ^ 63"
  by unfold_locales (auto simp: cbor_int_def key_integer_def uint_of_nonneg)

text \<open>Literals are compared as bytes.\<close>

named_theorems literal_simps \<open>evaluation of literal keys\<close>

lemma str_simps [literal_simps]: "str [] = []" "str (c # s) = of_char c # str s"
  by (simp_all add: str_def)

declare text_key_def [literal_simps] key_integer_def [literal_simps] source_field_key_def [literal_simps]

lemmas sorted_eval = literal_simps less_key_type_def key_cmp_def lin_cmp_def

interpretation type_conv: cbor_conversion credential_type_into credential_type_try_from "\<lambda>_. True"
  by unfold_locales
    (simp add: credential_type_into_def credential_type_try_from_def cbor_text_def literal_simps split: credential_type.splits)

interpretation transport_conv: cbor_conversion transport_into transport_try_from "\<lambda>_. True"
  by unfold_locales
    (simp add: transport_into_def transport_try_from_def cbor_text_def literal_simps split: transport.splits)

interpretation algorithm_conv: cbor_conversion algorithm_into algorithm_try_from "\<lambda>_. True"
proof
  fix alg :: signature_algorithm
  show "algorithm_try_from (algorithm_into alg) = Inr alg"
    using int_conv.round_trip [of "algorithm_as_i64 alg"]
    by (cases alg) (simp_all add: algorithm_into_def algorithm_try_from_def ES256_ALGORITHM_def)
qed

interpretation policy_conv: cbor_conversion policy_into policy_try_from "\<lambda>_. True"
proof
  fix p :: cred_protect_policy
  show "policy_try_from (policy_into p) = Inr p"
    using int_conv.round_trip [of "policy_as_i64 p"]
    by (cases p) (simp_all add: policy_into_def policy_try_from_def)
qed

interpretation sub_command_conv: cbor_conversion sub_command_into "sub_command_try_from v"
    "\<lambda>c. v \<or> c \<in> {GetPinRetries, GetKeyAgreement, SetPin, ChangePin, GetPinToken}" for v
proof
  fix c
  show "v \<or> c \<in> {GetPinRetries, GetKeyAgreement, SetPin, ChangePin, GetPinToken} \<Longrightarrow>
      sub_command_try_from v (sub_command_into c) = Inr c"
    by (cases c) (simp_all add: sub_command_into_def sub_command_try_from_def unsigned_conv.round_trip)
qed

section \<open>Maps of options\<close>

definition options_map :: "(key_type \<times> cbor_value option) list \<Rightarrow> cbor_map" where
  "options_map kvs = fold (\<lambda>(k, opt) m. case opt of Some v \<Rightarrow> btree_insert k v m | None \<Rightarrow> m) kvs []"

definition field :: "(key_type \<times> cbor_value option) list \<Rightarrow> key_type \<Rightarrow> cbor_value option" where
  "field kvs k = Option.bind (map_of kvs k) (\<lambda>opt. opt)"

lemma cbor_map_options_eq: "cbor_map_options kvs = Map (options_map kvs)"
  by (simp add: cbor_map_options_def options_map_def)

lemma options_fold:
  assumes "btree_ok m" and "distinct (map fst kvs)"
  shows "btree_ok (fold (\<lambda>(k, opt) m. case opt of Some v \<Rightarrow> btree_insert k v m | None \<Rightarrow> m) kvs m)
    \<and> map_of (fold (\<lambda>(k, opt) m. case opt of Some v \<Rightarrow> btree_insert k v m | None \<Rightarrow> m) kvs m) k
      = (case field kvs k of Some v \<Rightarrow> Some v | None \<Rightarrow> map_of m k)"
  using assms
proof (induction kvs arbitrary: m)
  case (Cons kv kvs)
  obtain k' opt where kv: "kv = (k', opt)" by (cases kv)
  let ?m = "case opt of Some v \<Rightarrow> btree_insert k' v m | None \<Rightarrow> m"
  have "btree_ok ?m" using Cons.prems(1) by (simp add: btree_ok_insert split: option.splits)
  note IH = Cons.IH [OF this]
  have "map_of kvs k' = None" using Cons.prems(2) kv by (auto simp: map_of_eq_None_iff)
  then show ?case
    using IH Cons.prems kv by (auto simp: field_def map_of_btree_insert split: option.splits)
qed (simp add: field_def)

lemma options_map_ok: "distinct (map fst kvs) \<Longrightarrow> btree_ok (options_map kvs)"
  using options_fold [of "[]" kvs] by (simp add: options_map_def)

lemma map_of_options_map: "distinct (map fst kvs) \<Longrightarrow> map_of (options_map kvs) k = field kvs k"
  using options_fold [of "[]" kvs k] by (simp add: options_map_def split: option.splits)

lemma destructure_options:
  "distinct (map fst kvs) \<Longrightarrow> assert_sorted_keys ks \<Longrightarrow> destructure_cbor_map (options_map kvs) ks = map (field kvs) ks"
  by (simp add: destructure_cbor_map_lookup options_map_ok map_of_options_map cong: map_cong)

declare destructure_cbor_map.simps [simp del]

lemma field_simps [simp]:
  "field [] k = None"
  "field ((k', v) # kvs) k = (if k = k' then v else field kvs k)"
  by (simp_all add: field_def)

lemmas struct_simps =
  cbor_map_options_eq destructure_options sorted_eval Let_def option.pred_True
  bytes_conv.required_round_trip text_conv.required_round_trip bytes_conv.optional_round_trip
  text_conv.optional_round_trip unsigned_conv.round_trip policy_conv.optional_round_trip
  type_conv.required_round_trip algorithm_conv.required_round_trip

interpretation user_conv: cbor_conversion user_entity_into user_entity_try_from "\<lambda>_. True"
  by unfold_locales (simp add: user_entity_into_def user_entity_try_from_def struct_simps)

interpretation parameter_conv: cbor_conversion credential_parameter_into credential_parameter_try_from "\<lambda>_. True"
  by unfold_locales (simp add: credential_parameter_into_def credential_parameter_try_from_def struct_simps)

lemma transports_round_trip:
  "optional (\<lambda>v. rbind (extract_array v) (collect transport_try_from))
     (map_option (\<lambda>ts. Array (map transport_into ts)) opt) = Inr opt"
  by (cases opt) (simp_all add: transport_conv.collect_round_trip list_all_iff)

interpretation descriptor_conv: cbor_conversion credential_descriptor_into credential_descriptor_try_from "\<lambda>_. True"
  by unfold_locales
    (simp add: credential_descriptor_into_def credential_descriptor_try_from_def struct_simps transports_round_trip)

section \<open>Credential sources\<close>

definition source_ok :: "credential_source \<Rightarrow> bool" where
  "source_ok c \<longleftrightarrow> cs_type c = PublicKey \<and> nz_exponent_ok (cs_private_key c)"

interpretation source_conv: cbor_conversion credential_source_into credential_source_try_from source_ok
  by unfold_locales
    (simp add: credential_source_into_def credential_source_try_from_def struct_simps source_ok_def
      length_sec_key_to_bytes sec_key_round_trip)

section \<open>COSE keys\<close>

lemma cose_key_from_ecdh_map:
  "cose_key_from_ecdh pk = Some (options_map
     [(key_integer 1, Some (cbor_int EC2_KEY_TYPE)), (key_integer 3, Some (cbor_int ECDH_ALGORITHM)),
      (key_integer (- 1), Some (cbor_int P_256_CURVE)),
      (key_integer (- 2), Some (cbor_bytes (fst (to_coordinates pk)))),
      (key_integer (- 3), Some (cbor_bytes (snd (to_coordinates pk))))])"
  by (cases "to_coordinates pk") (simp add: cose_key_from_ecdh_def cbor_map_options_eq)

lemma ecdh_cose_round_trip:
  assumes "point_ok pk"
  shows "\<exists>m. cose_key_from_ecdh pk = Some m \<and> ecdh_try_from_cose_key m = Inr pk"
proof -
  obtain x y where xy: "to_coordinates pk = (x, y)" by fastforce
  note c = coordinates_round_trip [OF assms xy]
  show ?thesis
    using c by (simp add: cose_key_from_ecdh_map xy ecdh_try_from_cose_key_def struct_simps
        int_conv.required_round_trip EC2_KEY_TYPE_def ECDH_ALGORITHM_def P_256_CURVE_def NBYTES_def)
qed

lemma required_eq_Inr: "required f opt = Inr y \<longleftrightarrow> (\<exists>x. opt = Some x \<and> f x = Inr y)"
  by (auto simp: required_def ok_or_missing_def rbind_eq_Inr_iff ok_or_eq_Inr_iff)

lemma required_guard:
  "rbind (required f opt) (\<lambda>x. if P x then Inl e else g x) = Inr y
    \<longleftrightarrow> (\<exists>v x. opt = Some v \<and> f v = Inr x \<and> \<not> P x \<and> g x = Inr y)"
  by (auto simp: rbind_eq_Inr_iff required_eq_Inr split: if_splits)

lemma extract_byte_string_eq: "extract_byte_string v = Inr b \<longleftrightarrow> v = cbor_bytes b"
  by (cases v rule: extract_byte_string.cases) (auto simp: cbor_bytes_def)

text \<open>
  C37. The conversions of CTAP data to and from CBOR are inverse: every user entity, credential
  parameter, credential descriptor, transport, protection policy and subcommand is recovered from the
  value it is converted to, and so is every stored credential whose private key is a valid exponent.
\<close>

theorem data_formats_round_trip:
  assumes "source_ok c"
  shows "user_entity_try_from (user_entity_into u) = Inr u
    \<and> credential_parameter_try_from (credential_parameter_into p) = Inr p
    \<and> credential_descriptor_try_from (credential_descriptor_into d) = Inr d
    \<and> collect transport_try_from (map transport_into ts) = Inr ts
    \<and> policy_try_from (policy_into q) = Inr q
    \<and> sub_command_try_from True (sub_command_into sc) = Inr sc
    \<and> credential_source_try_from (credential_source_into c) = Inr c"
  by (simp add: user_conv.round_trip parameter_conv.round_trip descriptor_conv.round_trip
      transport_conv.collect_round_trip policy_conv.round_trip sub_command_conv.round_trip
      source_conv.round_trip assms list.pred_True)

definition sample_source :: credential_source where
  "sample_source = \<lparr>cs_type = PublicKey, cs_id = [1, 2], cs_private_key = int256_ONE, cs_rp_id = str ''example.com'',
     cs_user_handle = [7], cs_user_display_name = None, cs_cred_protect_policy = Some UserVerificationRequired,
     cs_creation_order = 3, cs_user_name = Some (str ''n''), cs_user_icon = None\<rparr>"

lemma int256_ONE_ok: "nz_exponent_ok int256_ONE"
  using order_N_large(2) by (simp add: nz_exponent_ok_def exponent_ok_def int256_ok_def int256_ONE_def NDIGITS_def)

theorem data_formats_round_trip_witness:
  "credential_source_try_from (credential_source_into sample_source) = Inr sample_source"
  using data_formats_round_trip [of sample_source] int256_ONE_ok by (simp add: source_ok_def sample_source_def)

text \<open>
  C38. A COSE key of the peer is accepted exactly if it names the supported key type, algorithm and
  curve and carries two coordinates of 32 bytes of a point of the curve; the public key of the
  authenticator is sent as such a key.
\<close>

theorem cose_key_acceptance:
  assumes "btree_ok m" and "point_ok p"
  shows "(ecdh_try_from_cose_key m = Inr pk \<longleftrightarrow>
       point_ok pk
       \<and> (\<exists>v. map_of m (key_integer 1) = Some v \<and> extract_integer v = Inr EC2_KEY_TYPE)
       \<and> (\<exists>v alg. map_of m (key_integer 3) = Some v \<and> extract_integer v = Inr alg
            \<and> (alg = ECDH_ALGORITHM \<or> alg = ES256_ALGORITHM))
       \<and> (\<exists>v. map_of m (key_integer (- 1)) = Some v \<and> extract_integer v = Inr P_256_CURVE)
       \<and> map_of m (key_integer (- 2)) = Some (cbor_bytes (fst (to_coordinates pk)))
       \<and> map_of m (key_integer (- 3)) = Some (cbor_bytes (snd (to_coordinates pk))))
    \<and> (\<exists>m'. cose_key_from_ecdh p = Some m' \<and> ecdh_try_from_cose_key m' = Inr p)"
proof -
  have lookup: "destructure_cbor_map m [key_integer 1, key_integer 3, key_integer (- 1), key_integer (- 2), key_integer (- 3)]
      = map (map_of m) [key_integer 1, key_integer 3, key_integer (- 1), key_integer (- 2), key_integer (- 3)]"
    using assms(1) by (intro destructure_cbor_map_lookup) (simp_all add: sorted_eval)
  have coords: "(length x = 32 \<and> length y = 32 \<and> from_coordinates x y = Some pk)
      \<longleftrightarrow> point_ok pk \<and> to_coordinates pk = (x, y)" for x y
    using coordinates_round_trip [of pk x y] from_coordinates_ok [of x y pk] by blast
  have "ecdh_try_from_cose_key m = Inr pk \<longleftrightarrow>
       (\<exists>v. map_of m (key_integer 1) = Some v \<and> extract_integer v = Inr EC2_KEY_TYPE)
       \<and> (\<exists>v alg. map_of m (key_integer 3) = Some v \<and> extract_integer v = Inr alg
            \<and> (alg = ECDH_ALGORITHM \<or> alg = ES256_ALGORITHM))
       \<and> (\<exists>v. map_of m (key_integer (- 1)) = Some v \<and> extract_integer v = Inr P_256_CURVE)
       \<and> (\<exists>x y. map_of m (key_integer (- 2)) = Some (cbor_bytes x) \<and> map_of m (key_integer (- 3)) = Some (cbor_bytes y)
            \<and> length x = 32 \<and> length y = 32 \<and> from_coordinates x y = Some pk)"
    unfolding ecdh_try_from_cose_key_def lookup Let_def
    by (simp add: required_guard extract_byte_string_eq ok_or_eq_Inr_iff NBYTES_def) blast
  then show ?thesis
    unfolding coords using ecdh_cose_round_trip [OF assms(2)] by (cases "to_coordinates pk") auto
qed

lemma base_point_ok: "point_ok \<lparr>pt_x = base_x, pt_y = base_y\<rparr>"
proof -
  have "length base_x = NDIGITS" "length base_y = NDIGITS" by (simp_all add: base_x_def base_y_def NDIGITS_def)
  moreover have "0 < digits_val base_x" "digits_val base_x < prime_P" "0 < digits_val base_y" "digits_val base_y < prime_P"
    by (simp_all add: base_x_def base_y_def int256_P_def)
  ultimately show ?thesis
    using base_point_on_curve is_valid_point_vartime_iff [of base_x base_y]
    by (simp add: point_ok_def new_checked_vartime_def gfp_from_int_checked_def ct_lt_iff [OF _ int256_ok_constants(2)] int256_ok_def)
qed

theorem cose_key_acceptance_witness:
  "\<exists>m'. cose_key_from_ecdh \<lparr>pt_x = base_x, pt_y = base_y\<rparr> = Some m'
     \<and> ecdh_try_from_cose_key m' = Inr \<lparr>pt_x = base_x, pt_y = base_y\<rparr>"
  using cose_key_acceptance [OF btree_ok_Nil base_point_ok] by blast

end
