(* ===== verification/Command_Properties.thy ===== *)
theory Command_Properties
  imports Command Data_Formats_Properties Cbor
begin

text \<open>
  What \<open>Command::deserialize\<close> accepts, stated over the map the parameters are read from: a required
  field is present and converts, an optional one converts if it is present.
\<close>

section \<open>Decoded maps are sorted\<close>

lemma read_map_sorted:
  assumes "read_map_content w d n last_key acc bs = Inr (m, rem)" and "seen last_key acc"
  shows "btree_ok m"
  using assms
proof (induction n arbitrary: last_key acc bs)
  case 0
  then show ?case by (simp add: seen_def)
next
  case (Suc n)
  from Suc.prems(1) obtain k v rem2 where "\<not> (case last_key of Some l \<Rightarrow> k \<le> l | None \<Rightarrow> False)"
    and "read_map_content w d n (Some k) (btree_insert k v acc) rem2 = Inr (m, rem)"
    by (rule read_map_SucE)
  with Suc.IH seen_snoc [OF Suc.prems(2)] show ?case by metis
qed

lemma cbor_read_map_sorted: "cbor_read w bs = Inr (Map m) \<Longrightarrow> btree_ok m"
proof -
  assume "cbor_read w bs = Inr (Map m)"
  then obtain d rem where "decode_complete_data_item w d bs = Inr (Map m, rem)"
    by (auto simp: cbor_read_def rbind_eq_Inr_iff split: if_splits)
  then obtain t ai sz rem' where "decode_body w d t ai sz rem' = Inr (Map m, rem)"
    using decode_header by metis
  from container_body(2) [OF this] have "read_map_content w d (unat sz) None [] rem' = Inr (m, rem)" ..
  then show ?thesis by (rule read_map_sorted) (simp add: seen_def)
qed

section \<open>Fields of a map\<close>

definition has_field :: "cbor_map \<Rightarrow> int \<Rightarrow> (cbor_value \<Rightarrow> ctap2_status_code + 'a) \<Rightarrow> 'a \<Rightarrow> bool" where
  "has_field m k f x \<longleftrightarrow> (\<exists>v. map_of m (key_integer k) = Some v \<and> f v = Inr x)"

definition may_have_field :: "cbor_map \<Rightarrow> int \<Rightarrow> (cbor_value \<Rightarrow> ctap2_status_code + 'a) \<Rightarrow> 'a option \<Rightarrow> bool" where
  "may_have_field m k f opt \<longleftrightarrow>
     (case map_of m (key_integer k) of None \<Rightarrow> opt = None | Some v \<Rightarrow> \<exists>x. f v = Inr x \<and> opt = Some x)"

definition field_or :: "cbor_map \<Rightarrow> int \<Rightarrow> 'a \<Rightarrow> (cbor_value \<Rightarrow> ctap2_status_code + 'a) \<Rightarrow> 'a \<Rightarrow> bool" where
  "field_or m k d f x \<longleftrightarrow> (case map_of m (key_integer k) of None \<Rightarrow> x = d | Some v \<Rightarrow> f v = Inr x)"

lemma required_field: "required f (map_of m (key_integer k)) = Inr x \<longleftrightarrow> has_field m k f x"
  by (simp add: required_eq_Inr has_field_def)

lemma optional_field: "optional f (map_of m (key_integer k)) = Inr opt \<longleftrightarrow> may_have_field m k f opt"
  by (auto simp: may_have_field_def rbind_eq_Inr_iff split: option.splits)

lemma defaulted_field: "defaulted d f (map_of m (key_integer k)) = Inr x \<longleftrightarrow> field_or m k d f x"
  by (auto simp: field_or_def split: option.splits)

lemmas field_laws = rbind_eq_Inr_iff required_field optional_field defaulted_field

lemma extract_map_eq: "extract_map v = Inr m \<longleftrightarrow> v = Map m"
  by (cases v) simp_all

lemma destructure_ints:
  "btree_ok m \<Longrightarrow> assert_sorted_keys (map key_integer ks)
    \<Longrightarrow> destructure_cbor_map m (map key_integer ks) = map (\<lambda>k. map_of m (key_integer k)) ks"
  by (simp add: destructure_cbor_map_lookup comp_def)

lemma int_keys_sorted:
  "assert_sorted_keys (map key_integer [1, 2, 3, 4, 5, 6, 7, 8, 9, 10])"
  "assert_sorted_keys (map key_integer [1, 2, 3, 4, 5, 6, 7, 8, 9])"
  "assert_sorted_keys (map key_integer [1, 2, 3, 4, 5, 6, 7])"
  "assert_sorted_keys (map key_integer [1, 2, 3, 4, 5, 6])"
  by (simp_all add: sorted_eval)

lemma make_credential_parameters_iff:
  assumes "btree_ok m"
  shows "make_credential_parameters_try_from (Map m) = Inr p \<longleftrightarrow>
      has_field m 1 extract_byte_string (mcp_client_data_hash p)
    \<and> has_field m 2 rp_entity_try_from (mcp_rp p)
    \<and> has_field m 3 user_entity_try_from (mcp_user p)
    \<and> has_field m 4 (\<lambda>v. rbind (extract_array v) (collect credential_parameter_try_from)) (mcp_pub_key_cred_params p)
    \<and> may_have_field m 5 descriptor_list (mcp_exclude_list p)
    \<and> may_have_field m 6 make_credential_extensions_try_from (mcp_extensions p)
    \<and> field_or m 7 \<lparr>mc_rk = False, mc_uv = False\<rparr> make_credential_options_try_from (mcp_options p)
    \<and> may_have_field m 8 extract_byte_string (mcp_pin_uv_auth_param p)
    \<and> may_have_field m 9 extract_unsigned (mcp_pin_uv_auth_protocol p)"
proof -
  have arr: "(\<exists>a. has_field m 4 extract_array a \<and> collect credential_parameter_try_from a = Inr ps \<and> R)
      \<longleftrightarrow> has_field m 4 (\<lambda>v. rbind (extract_array v) (collect credential_parameter_try_from)) ps \<and> R" for ps R
    by (auto simp: has_field_def rbind_eq_Inr_iff)
  show ?thesis
    unfolding make_credential_parameters_try_from_def extract_map.simps rbind_Inr
      destructure_ints [OF assms int_keys_sorted(2)] Let_def
    by (cases p) (simp add: field_laws arr)
qed

lemma get_assertion_parameters_iff:
  assumes "btree_ok m"
  shows "get_assertion_parameters_try_from (Map m) = Inr p \<longleftrightarrow>
      has_field m 1 extract_text_string (gap_rp_id p)
    \<and> has_field m 2 extract_byte_string (gap_client_data_hash p)
    \<and> may_have_field m 3 descriptor_list (gap_allow_list p)
    \<and> may_have_field m 4 get_assertion_extensions_try_from (gap_extensions p)
    \<and> field_or m 5 \<lparr>ga_up = True, ga_uv = False\<rparr> get_assertion_options_try_from (gap_options p)
    \<and> may_have_field m 6 extract_byte_string (gap_pin_uv_auth_param p)
    \<and> may_have_field m 7 extract_unsigned (gap_pin_uv_auth_protocol p)"
  unfolding get_assertion_parameters_try_from_def extract_map.simps rbind_Inr
    destructure_ints [OF assms int_keys_sorted(3)] Let_def
  by (cases p) (simp add: field_laws)

lemma client_pin_parameters_iff:
  assumes "btree_ok m"
  shows "client_pin_parameters_try_from False (Map m) = Inr p \<longleftrightarrow>
      has_field m 1 extract_unsigned (cpp_pin_protocol p)
    \<and> has_field m 2 (sub_command_try_from False) (cpp_sub_command p)
    \<and> may_have_field m 3 extract_map (cpp_key_agreement p)
    \<and> may_have_field m 4 extract_byte_string (cpp_pin_auth p)
    \<and> may_have_field m 5 extract_byte_string (cpp_new_pin_enc p)
    \<and> may_have_field m 6 extract_byte_string (cpp_pin_hash_enc p)
    \<and> cpp_min_pin_length p = None \<and> cpp_min_pin_length_rp_ids p = None
    \<and> cpp_permissions p = None \<and> cpp_permissions_rp_id p = None"
  unfolding client_pin_parameters_try_from_def extract_map.simps rbind_Inr if_False
    destructure_ints [OF assms int_keys_sorted(4)] Let_def
  by (cases p) (auto simp add: field_laws)

lemma read_parameters_iff: "read_parameters w bs = Inr v \<longleftrightarrow> cbor_read w bs = Inr v"
  by (auto simp: read_parameters_def split: sum.splits)

lemma parameters_of_map:
  assumes "\<And>v p. f v = Inr p \<Longrightarrow> \<exists>m. v = Map m"
  shows "rbind (read_parameters w bs) (\<lambda>v. rbind (f v) (\<lambda>p. Inr (g p))) = Inr c
    \<longleftrightarrow> (\<exists>m p. cbor_read w bs = Inr (Map m) \<and> btree_ok m \<and> f (Map m) = Inr p \<and> c = g p)"
  using assms cbor_read_map_sorted by (fastforce simp: rbind_eq_Inr_iff read_parameters_iff)

lemma try_from_maps:
  "make_credential_parameters_try_from v = Inr p1 \<Longrightarrow> \<exists>m. v = Map m"
  "get_assertion_parameters_try_from v = Inr p2 \<Longrightarrow> \<exists>m. v = Map m"
  "client_pin_parameters_try_from v21 v = Inr p3 \<Longrightarrow> \<exists>m. v = Map m"
  by (simp_all add: make_credential_parameters_try_from_def get_assertion_parameters_try_from_def
      client_pin_parameters_try_from_def rbind_eq_Inr_iff extract_map_eq) blast+




end
