(* ===== verification/Response.thy ===== *)
theory Response
  imports Command Cbor_Writer
begin

text \<open>
  The responses of CTAP2 (\<open>src/ctap/response.rs\<close>) and their conversion to CBOR. A \<open>BTreeMap<String, bool>\<close>
  is an ordered map keyed by byte strings in the order of \<open>String\<close>; it is an association list here, as the
  conversion inserts its entries in a map with the canonical order of keys.
\<close>

record make_credential_response =
  mcr_fmt :: bytes
  mcr_auth_data :: bytes
  mcr_att_stmt :: packed_attestation_statement

definition make_credential_response_into :: "make_credential_response \<Rightarrow> cbor_value" where
  "make_credential_response_into r = cbor_map_options
     [(key_integer 1, Some (cbor_text (mcr_fmt r))),
      (key_integer 2, Some (cbor_bytes (mcr_auth_data r))),
      (key_integer 3, Some (packed_attestation_statement_into (mcr_att_stmt r)))]"

record get_assertion_response =
  gar_credential :: "credential_descriptor option"
  gar_auth_data :: bytes
  gar_signature :: bytes
  gar_user :: "user_entity option"
  gar_number_of_credentials :: "u64 option"

definition get_assertion_response_into :: "get_assertion_response \<Rightarrow> cbor_value" where
  "get_assertion_response_into r = cbor_map_options
     [(key_integer 1, map_option credential_descriptor_into (gar_credential r)),
      (key_integer 2, Some (cbor_bytes (gar_auth_data r))),
      (key_integer 3, Some (cbor_bytes (gar_signature r))),
      (key_integer 4, map_option user_entity_into (gar_user r)),
      (key_integer 5, map_option cbor_unsigned (gar_number_of_credentials r))]"

record get_info_response =
  gir_versions :: "bytes list"
  gir_extensions :: "bytes list option"
  gir_aaguid :: bytes
  gir_options :: "(bytes \<times> bool) list option"
  gir_max_msg_size :: "u64 option"
  gir_pin_protocols :: "u64 list option"
  gir_max_credential_count_in_list :: "u64 option"
  gir_max_credential_id_length :: "u64 option"
  gir_transports :: "transport list option"
  gir_algorithms :: "credential_parameter list option"
  gir_default_cred_protect :: "cred_protect_policy option"
  gir_min_pin_length :: u8
  gir_firmware_version :: "u64 option"

definition options_cbor :: "(bytes \<times> bool) list \<Rightarrow> cbor_value" where
  "options_cbor options =
     Map (fold (\<lambda>(key, v) m. btree_insert (TextString key) (bool_value v) m) options [])"

definition get_info_response_into :: "bool \<Rightarrow> get_info_response \<Rightarrow> cbor_value" where
  "get_info_response_into v21 r =
     (if v21
      then cbor_map_options
        [(key_integer 0x01, Some (Array (map cbor_text (gir_versions r)))),
         (key_integer 0x02, map_option (\<lambda>vec. Array (map cbor_text vec)) (gir_extensions r)),
         (key_integer 0x03, Some (cbor_bytes (gir_aaguid r))),
         (key_integer 0x04, map_option options_cbor (gir_options r)),
         (key_integer 0x05, map_option cbor_unsigned (gir_max_msg_size r)),
         (key_integer 0x06, map_option (\<lambda>vec. Array (map cbor_unsigned vec)) (gir_pin_protocols r)),
         (key_integer 0x07, map_option cbor_unsigned (gir_max_credential_count_in_list r)),
         (key_integer 0x08, map_option cbor_unsigned (gir_max_credential_id_length r)),
         (key_integer 0x09, map_option (\<lambda>vec. Array (map transport_into vec)) (gir_transports r)),
         (key_integer 0x0A, map_option (\<lambda>vec. Array (map credential_parameter_into vec)) (gir_algorithms r)),
         (key_integer 0x0C, map_option (\<lambda>p. cbor_unsigned (of_int (policy_as_i64 p))) (gir_default_cred_protect r)),
         (key_integer 0x0D, Some (cbor_unsigned (ucast (gir_min_pin_length r)))),
         (key_integer 0x0E, map_option cbor_unsigned (gir_firmware_version r))]
      else cbor_map_options
        [(key_integer 0x01, Some (Array (map cbor_text (gir_versions r)))),
         (key_integer 0x02, map_option (\<lambda>vec. Array (map cbor_text vec)) (gir_extensions r)),
         (key_integer 0x03, Some (cbor_bytes (gir_aaguid r))),
         (key_integer 0x04, map_option options_cbor (gir_options r)),
         (key_integer 0x05, map_option cbor_unsigned (gir_max_msg_size r)),
         (key_integer 0x06, map_option (\<lambda>vec. Array (map cbor_unsigned vec)) (gir_pin_protocols r)),
         (key_integer 0x0C, map_option (\<lambda>p. cbor_unsigned (of_int (policy_as_i64 p))) (gir_default_cred_protect r))])"

record client_pin_response =
  cpr_key_agreement :: "cose_key option"
  cpr_pin_token :: "bytes option"
  cpr_retries :: "u64 option"

definition client_pin_response_into :: "client_pin_response \<Rightarrow> cbor_value" where
  "client_pin_response_into r = cbor_map_options
     [(key_integer 1, map_option Map (cpr_key_agreement r)),
      (key_integer 2, map_option cbor_bytes (cpr_pin_token r)),
      (key_integer 3, map_option cbor_unsigned (cpr_retries r))]"

record vendor_response =
  vr_cert_programmed :: bool
  vr_pkey_programmed :: bool

definition vendor_response_into :: "vendor_response \<Rightarrow> cbor_value" where
  "vendor_response_into r = cbor_map_options
     [(key_integer 1, Some (bool_value (vr_cert_programmed r))),
      (key_integer 2, Some (bool_value (vr_pkey_programmed r)))]"

datatype response_data =
    MakeCredentialResponse make_credential_response
  | GetAssertionResponse get_assertion_response
  | GetNextAssertionResponse get_assertion_response
  | GetInfoResponse get_info_response
  | ClientPinResponse "client_pin_response option"
  | ResetResponse
  | SelectionResponse
  | VendorResponse vendor_response

fun response_into :: "bool \<Rightarrow> response_data \<Rightarrow> cbor_value option" where
  "response_into v21 (MakeCredentialResponse d) = Some (make_credential_response_into d)"
| "response_into v21 (GetAssertionResponse d) = Some (get_assertion_response_into d)"
| "response_into v21 (GetNextAssertionResponse d) = Some (get_assertion_response_into d)"
| "response_into v21 (GetInfoResponse d) = Some (get_info_response_into v21 d)"
| "response_into v21 (ClientPinResponse (Some d)) = Some (client_pin_response_into d)"
| "response_into v21 (ClientPinResponse None) = None"
| "response_into v21 ResetResponse = None"
| "response_into v21 SelectionResponse = None"
| "response_into v21 (VendorResponse d) = Some (vendor_response_into d)"

end
