(* ===== verification/Store_Interface.thy ===== *)
theory Store_Interface
  imports Store_Model Store Buffer_Storage
begin

text \<open>
  The persistent store as its clients see it: the operations of \<open>persistent_store::Store\<close> that CTAP
  calls, over a state and a type of handles of the implementation, and their contract as the locale
  \<open>key_value_store\<close>. The contract is interpreted on the abstract store of \<open>model.rs\<close>, the reference
  the implementation in \<open>store.rs\<close> is tested against; \<open>flash_store_ops\<close> are the operations of \<open>store.rs\<close>
  themselves.
\<close>

text \<open>An iterator is the handles it yields until it ends or fails.\<close>

record ('s, 'h) store_ops =
  op_find_handle :: "'s \<Rightarrow> nat \<Rightarrow> (store_error, 'h option) outcome"
  op_get_key :: "'h \<Rightarrow> nat"
  op_get_value :: "'s \<Rightarrow> 'h \<Rightarrow> (store_error, bytes) outcome"
  op_find :: "'s \<Rightarrow> nat \<Rightarrow> (store_error, bytes option) outcome"
  op_iter :: "'s \<Rightarrow> (store_error, 'h list \<times> (store_error, unit) outcome) outcome"
  op_insert :: "nat \<Rightarrow> bytes \<Rightarrow> ('s, store_error, unit) op"
  op_remove :: "nat \<Rightarrow> ('s, store_error, unit) op"
  op_clear :: "nat \<Rightarrow> ('s, store_error, unit) op"

section \<open>The store on flash\<close>

function iter_yields :: "'s storage_ops \<Rightarrow> format \<Rightarrow> 's \<Rightarrow> position \<Rightarrow> position \<Rightarrow> store_handle list \<times> (store_error, unit) outcome" where
  "iter_yields ops fmt s pos end_pos =
     (case transposed_next ops fmt s pos end_pos of
        Ok (Some h, pos') \<Rightarrow> (case iter_yields ops fmt s pos' end_pos of (hs, r) \<Rightarrow> (h # hs, r))
      | Ok (None, pos') \<Rightarrow> ([], Ok ())
      | Err e \<Rightarrow> ([], Err e)
      | Panic \<Rightarrow> ([], Panic))"
  by pat_completeness auto
termination
  by (relation "measure (\<lambda>(ops, fmt, s, pos, end_pos). end_pos - pos)") (auto dest: transposed_next_progress)

declare iter_yields.simps [simp del]

definition flash_store_ops :: "'s storage_ops \<Rightarrow> format \<Rightarrow> ('s, store_handle) store_ops" where
  "flash_store_ops ops fmt =
     \<lparr>op_find_handle = find_handle ops fmt,
      op_get_key = sh_key,
      op_get_value = get_value ops fmt,
      op_find = store_find ops fmt,
      op_iter = (\<lambda>s. obind (iter_new ops fmt s) (\<lambda>it. Ok (iter_yields ops fmt s (iter_pos it) (iter_end it)))),
      op_insert = insert_entry ops fmt,
      op_remove = remove_entry ops fmt,
      op_clear = store_clear ops fmt\<rparr>"

section \<open>The contract\<close>

locale key_value_store =
  fixes ops :: "('s, 'h) store_ops" and content :: "'s \<Rightarrow> nat \<Rightarrow> bytes option" and invar :: "'s \<Rightarrow> bool"
  assumes find_law: "invar s \<Longrightarrow> op_find ops s k = Ok (content s k)"
    and find_handle_law: "invar s \<Longrightarrow> \<exists>h. op_find_handle ops s k = Ok h \<and> (h = None \<longleftrightarrow> content s k = None)"
    and iter_law: "invar s \<Longrightarrow> \<exists>hs. op_iter ops s = Ok (hs, Ok ()) \<and> distinct (map (op_get_key ops) hs)
      \<and> (\<forall>h \<in> set hs. \<exists>v. content s (op_get_key ops h) = Some v \<and> op_get_value ops s h = Ok v)
      \<and> dom (content s) \<subseteq> op_get_key ops ` set hs"
    and insert_law: "invar s \<Longrightarrow> op_insert ops k v s = (r, s') \<Longrightarrow> invar s' \<and> r \<noteq> Panic
      \<and> content s' = (if r = Ok () then (content s)(k \<mapsto> v) else content s)"
    and remove_law: "invar s \<Longrightarrow> op_remove ops k s = (r, s') \<Longrightarrow> invar s' \<and> r \<noteq> Panic
      \<and> content s' = (if r = Ok () then (content s)(k := None) else content s)"
    and clear_law: "invar s \<Longrightarrow> op_clear ops k s = (r, s') \<Longrightarrow> invar s' \<and> r \<noteq> Panic
      \<and> content s' = (if r = Ok () then content s |` {..<k} else content s)"

section \<open>The abstract store\<close>

definition lift_model :: "(store_error + unit) \<times> store_model \<Rightarrow> (store_error, unit) outcome \<times> store_model" where
  "lift_model rm = (lift (fst rm), snd rm)"

text \<open>A handle of the abstract store is an entry of it.\<close>

definition model_store_ops :: "(store_model, nat \<times> bytes) store_ops" where
  "model_store_ops =
     \<lparr>op_find_handle = (\<lambda>m k. Ok (map_option (\<lambda>v. (k, v)) (map_of (model_content m) k))),
      op_get_key = fst,
      op_get_value = (\<lambda>m h. Ok (snd h)),
      op_find = (\<lambda>m k. Ok (map_of (model_content m) k)),
      op_iter = (\<lambda>m. Ok (model_content m, Ok ())),
      op_insert = (\<lambda>k v m. lift_model (model_apply (Transaction [Insert k v]) m)),
      op_remove = (\<lambda>k m. lift_model (model_apply (Transaction [Remove k]) m)),
      op_clear = (\<lambda>k m. lift_model (model_apply (Clear k) m))\<rparr>"

interpretation abstract_store: key_value_store model_store_ops "\<lambda>m. map_of (model_content m)" model_ok
proof
  fix s :: store_model and k :: nat
  assume ok: "model_ok s"
  then have sorted: "btree_ok (model_content s)" by (simp add: model_ok_def)
  show "op_find model_store_ops s k = Ok (map_of (model_content s) k)" by (simp add: model_store_ops_def)
  show "\<exists>h. op_find_handle model_store_ops s k = Ok h \<and> (h = None \<longleftrightarrow> map_of (model_content s) k = None)"
    by (simp add: model_store_ops_def)
  show "\<exists>hs. op_iter model_store_ops s = Ok (hs, Ok ()) \<and> distinct (map (op_get_key model_store_ops) hs)
      \<and> (\<forall>h \<in> set hs. \<exists>v. map_of (model_content s) (op_get_key model_store_ops h) = Some v
          \<and> op_get_value model_store_ops s h = Ok v)
      \<and> dom (map_of (model_content s)) \<subseteq> op_get_key model_store_ops ` set hs"
    using btree_ok_distinct [OF sorted] by (auto simp: model_store_ops_def dom_map_of_conv_image_fst)
  fix r s'
  show "op_insert model_store_ops k v s = (r, s') \<Longrightarrow> model_ok s' \<and> r \<noteq> Panic
      \<and> map_of (model_content s') = (if r = Ok () then (map_of (model_content s))(k \<mapsto> v) else map_of (model_content s))" for v
    using model_transaction_ok [OF ok, of "[Insert k v]"] sorted
    by (auto simp: model_store_ops_def lift_model_def model_transaction_def map_of_btree_insert split: if_splits)
  show "op_remove model_store_ops k s = (r, s') \<Longrightarrow> model_ok s' \<and> r \<noteq> Panic
      \<and> map_of (model_content s') = (if r = Ok () then (map_of (model_content s))(k := None) else map_of (model_content s))"
    using model_transaction_ok [OF ok, of "[Remove k]"]
    by (auto simp: model_store_ops_def lift_model_def model_transaction_def map_of_filter_key fun_eq_iff split: if_splits)
  show "op_clear model_store_ops k s = (r, s') \<Longrightarrow> model_ok s' \<and> r \<noteq> Panic
      \<and> map_of (model_content s') = (if r = Ok () then map_of (model_content s) |` {..<k} else map_of (model_content s))"
    using model_clear_ok [OF ok, of k]
    by (auto simp: model_store_ops_def lift_model_def model_clear_def map_of_filter_key restrict_map_def fun_eq_iff split: if_splits)
qed

end
