(* ===== verification/Ctap_Storage.thy ===== *)
theory Ctap_Storage
  imports Store_Interface Data_Formats Cbor_Reader
begin

text \<open>
  CTAP persistent storage (\<open>src/ctap/storage.rs\<close>, \<open>src/ctap/storage/key.rs\<close>): credentials, counters, the
  PIN and the attestation material as entries of the persistent store. The operations of the store are
  an argument, and so is the width of \<open>usize\<close> where stored CBOR is read. The state of a \<open>PersistentStore\<close> is
  the state of its store. Random bytes come from a generator over its own state; the AAGUID of the
  build is an argument.
\<close>

section \<open>Keys\<close>

definition NUM_PERSISTENT_KEYS :: nat where "NUM_PERSISTENT_KEYS = 20"
definition KEY_ATTESTATION_PRIVATE_KEY :: nat where "KEY_ATTESTATION_PRIVATE_KEY = 1"
definition KEY_ATTESTATION_CERTIFICATE :: nat where "KEY_ATTESTATION_CERTIFICATE = 2"
definition KEY_AAGUID :: nat where "KEY_AAGUID = 3"
definition KEY_CREDENTIALS_START :: nat where "KEY_CREDENTIALS_START = 1700"
definition KEY_CREDENTIALS_END :: nat where "KEY_CREDENTIALS_END = 2000"
definition KEY_CRED_RANDOM_SECRET :: nat where "KEY_CRED_RANDOM_SECRET = 2041"
definition KEY_MIN_PIN_LENGTH_RP_IDS :: nat where "KEY_MIN_PIN_LENGTH_RP_IDS = 2042"
definition KEY_MIN_PIN_LENGTH :: nat where "KEY_MIN_PIN_LENGTH = 2043"
definition KEY_PIN_RETRIES :: nat where "KEY_PIN_RETRIES = 2044"
definition KEY_PIN_HASH :: nat where "KEY_PIN_HASH = 2045"
definition KEY_MASTER_KEYS :: nat where "KEY_MASTER_KEYS = 2046"
definition KEY_GLOBAL_SIGNATURE_COUNTER :: nat where "KEY_GLOBAL_SIGNATURE_COUNTER = 2047"

lemmas store_keys =
  NUM_PERSISTENT_KEYS_def KEY_ATTESTATION_PRIVATE_KEY_def KEY_ATTESTATION_CERTIFICATE_def KEY_AAGUID_def
  KEY_CREDENTIALS_START_def KEY_CREDENTIALS_END_def KEY_CRED_RANDOM_SECRET_def
  KEY_MIN_PIN_LENGTH_RP_IDS_def KEY_MIN_PIN_LENGTH_def KEY_PIN_RETRIES_def KEY_PIN_HASH_def
  KEY_MASTER_KEYS_def KEY_GLOBAL_SIGNATURE_COUNTER_def

definition NUM_PAGES :: nat where "NUM_PAGES = 20"
definition MAX_SUPPORTED_RESIDENTIAL_KEYS :: nat where "MAX_SUPPORTED_RESIDENTIAL_KEYS = 150"
definition MAX_PIN_RETRIES :: u8 where "MAX_PIN_RETRIES = 8"
definition DEFAULT_MIN_PIN_LENGTH :: u8 where "DEFAULT_MIN_PIN_LENGTH = 4"
definition DEFAULT_MIN_PIN_LENGTH_RP_IDS :: "bytes list" where "DEFAULT_MIN_PIN_LENGTH_RP_IDS = []"
definition MAX_RP_IDS_LENGTH :: nat where "MAX_RP_IDS_LENGTH = 8"
definition PIN_AUTH_LENGTH :: nat where "PIN_AUTH_LENGTH = 16"
definition AAGUID_LENGTH :: nat where "AAGUID_LENGTH = 16"
definition INITIAL_SIGNATURE_COUNTER :: u32 where "INITIAL_SIGNATURE_COUNTER = 1"
definition ATTESTATION_KEY_LENGTH :: nat where "ATTESTATION_KEY_LENGTH = 32"

section \<open>Errors\<close>

fun status_of_store_error :: "store_error \<Rightarrow> ctap2_status_code" where
  "status_of_store_error NoCapacity = CTAP2_ERR_KEY_STORE_FULL"
| "status_of_store_error NoLifetime = CTAP2_ERR_KEY_STORE_FULL"
| "status_of_store_error InvalidArgument = CTAP2_ERR_VENDOR_INTERNAL_ERROR"
| "status_of_store_error InvalidStorage = CTAP2_ERR_VENDOR_HARDWARE_FAILURE"
| "status_of_store_error StorageFailure = CTAP1_ERR_OTHER"

type_synonym 'a fallible = "(ctap2_status_code, 'a) outcome"
type_synonym ('s, 'a) ctap_op = "('s, ctap2_status_code, 'a) op"

text \<open>\<open>self.store.find(key)?\<close>, \<open>self.store.insert(key, value)?\<close> and the like.\<close>

definition ctap_find :: "('s, 'h) store_ops \<Rightarrow> nat \<Rightarrow> 's \<Rightarrow> bytes option fallible" where
  "ctap_find ops key s = map_err status_of_store_error (op_find ops s key)"

definition ctap_find_handle :: "('s, 'h) store_ops \<Rightarrow> nat \<Rightarrow> 's \<Rightarrow> 'h option fallible" where
  "ctap_find_handle ops key s = map_err status_of_store_error (op_find_handle ops s key)"

definition ctap_insert :: "('s, 'h) store_ops \<Rightarrow> nat \<Rightarrow> bytes \<Rightarrow> ('s, unit) ctap_op" where
  "ctap_insert ops key v = smap_err status_of_store_error (op_insert ops key v)"

definition ctap_remove :: "('s, 'h) store_ops \<Rightarrow> nat \<Rightarrow> ('s, unit) ctap_op" where
  "ctap_remove ops key = smap_err status_of_store_error (op_remove ops key)"

definition ctap_clear :: "('s, 'h) store_ops \<Rightarrow> nat \<Rightarrow> ('s, unit) ctap_op" where
  "ctap_clear ops key = smap_err status_of_store_error (op_clear ops key)"

definition oguard :: "bool \<Rightarrow> 'e \<Rightarrow> ('e, unit) outcome" where
  "oguard c e = (if c then Ok () else Err e)"

section \<open>Credentials\<close>

definition deserialize_credential :: "nat \<Rightarrow> bytes \<Rightarrow> credential_source option" where
  "deserialize_credential w data =
     (case cbor_read w data of
        Inl _ \<Rightarrow> None
      | Inr v \<Rightarrow> (case credential_source_try_from v of Inl _ \<Rightarrow> None | Inr c \<Rightarrow> Some c))"

definition serialize_credential :: "credential_source \<Rightarrow> bytes fallible" where
  "serialize_credential c =
     (case cbor_write (credential_source_into c) [] of
        (True, data) \<Rightarrow> Ok data
      | (False, _) \<Rightarrow> Err CTAP2_ERR_VENDOR_RESPONSE_CANNOT_WRITE_CBOR)"

definition is_credential_key :: "nat \<Rightarrow> bool" where
  "is_credential_key key \<longleftrightarrow> KEY_CREDENTIALS_START \<le> key \<and> key < KEY_CREDENTIALS_END"

text \<open>
  The credentials an \<open>IterCredentials\<close> yields, in order, and the iteration result it leaves behind. A
  client that stops early does not see what comes after.
\<close>

fun credentials_of_handles :: "('s, 'h) store_ops \<Rightarrow> nat \<Rightarrow> 's \<Rightarrow> 'h list \<Rightarrow> (store_error, unit) outcome
    \<Rightarrow> (nat \<times> credential_source) list \<times> unit fallible" where
  "credentials_of_handles ops w s [] r =
     (case r of Ok () \<Rightarrow> ([], Ok ()) | Err _ \<Rightarrow> ([], Err CTAP2_ERR_VENDOR_INTERNAL_ERROR) | Panic \<Rightarrow> ([], Panic))"
| "credentials_of_handles ops w s (h # hs) r =
     (let key = op_get_key ops h in
      if \<not> is_credential_key key then credentials_of_handles ops w s hs r
      else
        (case op_get_value ops s h of
           Err _ \<Rightarrow> ([], Err CTAP2_ERR_VENDOR_INTERNAL_ERROR)
         | Panic \<Rightarrow> ([], Panic)
         | Ok v \<Rightarrow>
             (case deserialize_credential w v of
                None \<Rightarrow> ([], Err CTAP2_ERR_VENDOR_INTERNAL_ERROR)
              | Some c \<Rightarrow>
                  (case credentials_of_handles ops w s hs r of (cs, r') \<Rightarrow> ((key, c) # cs, r')))))"

definition iter_credentials :: "('s, 'h) store_ops \<Rightarrow> nat \<Rightarrow> 's \<Rightarrow> ((nat \<times> credential_source) list \<times> unit fallible) fallible" where
  "iter_credentials ops w s =
     obind (map_err status_of_store_error (op_iter ops s)) (\<lambda>(hs, r). Ok (credentials_of_handles ops w s hs r))"

definition find_credential :: "('s, 'h) store_ops \<Rightarrow> nat \<Rightarrow> 's \<Rightarrow> bytes \<Rightarrow> bytes \<Rightarrow> bool \<Rightarrow> credential_source option fallible" where
  "find_credential ops w s rpid credential_id check_cred_protect =
     obind (iter_credentials ops w s) (\<lambda>(iter, iter_result).
       case find (\<lambda>(_, c). cs_rp_id c = rpid \<and> cs_id c = credential_id) iter of
         None \<Rightarrow> obind iter_result (\<lambda>_. Ok None)
       | Some (_, cred) \<Rightarrow>
           if check_cred_protect \<and> cs_cred_protect_policy cred = Some UserVerificationRequired
           then Ok None else Ok (Some cred))"

text \<open>The loop of \<open>store_credential\<close> over the credentials: the used keys and the key to replace.\<close>

fun scan_credentials :: "credential_source \<Rightarrow> (nat \<times> credential_source) list \<Rightarrow> nat option \<times> bool list
    \<Rightarrow> (nat option \<times> bool list) fallible" where
  "scan_credentials new_credential [] (old_key, keys) = Ok (old_key, keys)"
| "scan_credentials new_credential ((key, c) # iter) (old_key, keys) =
     (if key < KEY_CREDENTIALS_START \<or> key - KEY_CREDENTIALS_START \<ge> MAX_SUPPORTED_RESIDENTIAL_KEYS
          \<or> keys ! (key - KEY_CREDENTIALS_START)
      then Err CTAP2_ERR_VENDOR_INTERNAL_ERROR
      else
        (let keys = keys[key - KEY_CREDENTIALS_START := True] in
         if cs_rp_id c = cs_rp_id new_credential \<and> cs_user_handle c = cs_user_handle new_credential
         then (if old_key \<noteq> None then Err CTAP2_ERR_VENDOR_INTERNAL_ERROR
               else scan_credentials new_credential iter (Some key, keys))
         else scan_credentials new_credential iter (old_key, keys)))"

definition free_credential_key :: "bool list \<Rightarrow> nat option" where
  "free_credential_key keys =
     find (\<lambda>key. \<not> keys ! (key - KEY_CREDENTIALS_START))
       (take MAX_SUPPORTED_RESIDENTIAL_KEYS [KEY_CREDENTIALS_START..<KEY_CREDENTIALS_END])"

definition store_credential :: "('s, 'h) store_ops \<Rightarrow> nat \<Rightarrow> credential_source \<Rightarrow> ('s, unit) ctap_op" where
  "store_credential ops w new_credential =
     sbind (sread (iter_credentials ops w)) (\<lambda>(iter, iter_result).
     sbind (soutcome (scan_credentials new_credential iter (None, replicate MAX_SUPPORTED_RESIDENTIAL_KEYS False)))
       (\<lambda>(old_key, keys).
     sbind (soutcome iter_result) (\<lambda>_.
     sbind (sguard (\<not> (old_key = None \<and> length (filter (\<lambda>x. x) keys) \<ge> MAX_SUPPORTED_RESIDENTIAL_KEYS))
       CTAP2_ERR_KEY_STORE_FULL) (\<lambda>_.
     sbind (soutcome (case old_key of
              None \<Rightarrow> lift (ok_or CTAP2_ERR_VENDOR_INTERNAL_ERROR (free_credential_key keys))
            | Some x \<Rightarrow> Ok x)) (\<lambda>key.
     sbind (soutcome (serialize_credential new_credential)) (\<lambda>v.
       ctap_insert ops key v))))))"

definition filter_credential :: "('s, 'h) store_ops \<Rightarrow> nat \<Rightarrow> 's \<Rightarrow> bytes \<Rightarrow> bool \<Rightarrow> credential_source list fallible" where
  "filter_credential ops w s rpid check_cred_protect =
     obind (iter_credentials ops w s) (\<lambda>(iter, iter_result).
     let result = filter (\<lambda>cred. \<not> check_cred_protect \<or> is_discoverable cred)
                    (filter (\<lambda>cred. cs_rp_id cred = rpid) (map snd iter)) in
     obind iter_result (\<lambda>_. Ok result))"

definition new_creation_order :: "('s, 'h) store_ops \<Rightarrow> nat \<Rightarrow> 's \<Rightarrow> u64 fallible" where
  "new_creation_order ops w s =
     obind (iter_credentials ops w s) (\<lambda>(iter, iter_result).
     let orders = map (\<lambda>(_, c). cs_creation_order c) iter in
     obind iter_result (\<lambda>_. Ok ((if orders = [] then 0 else Max (set orders)) + 1)))"

section \<open>Counter, keys and PIN\<close>

definition global_signature_counter :: "('s, 'h) store_ops \<Rightarrow> 's \<Rightarrow> u32 fallible" where
  "global_signature_counter ops s =
     obind (ctap_find ops KEY_GLOBAL_SIGNATURE_COUNTER s) (\<lambda>v.
       case v of
         None \<Rightarrow> Ok INITIAL_SIGNATURE_COUNTER
       | Some v \<Rightarrow> if length v = 4 then Ok (u32_from_ne_bytes v) else Err CTAP2_ERR_VENDOR_INTERNAL_ERROR)"

definition incr_global_signature_counter :: "('s, 'h) store_ops \<Rightarrow> u32 \<Rightarrow> ('s, unit) ctap_op" where
  "incr_global_signature_counter ops increment =
     sbind (sread (global_signature_counter ops)) (\<lambda>old_value.
       let new_value = old_value + increment in
       ctap_insert ops KEY_GLOBAL_SIGNATURE_COUNTER (u32_to_ne_bytes new_value))"

record master_keys =
  mk_encryption :: bytes
  mk_hmac :: bytes

definition get_master_keys :: "('s, 'h) store_ops \<Rightarrow> 's \<Rightarrow> master_keys fallible" where
  "get_master_keys ops s =
     obind (ctap_find ops KEY_MASTER_KEYS s) (\<lambda>v.
     obind (lift (ok_or CTAP2_ERR_VENDOR_INTERNAL_ERROR v)) (\<lambda>keys.
       if length keys \<noteq> 64 then Err CTAP2_ERR_VENDOR_INTERNAL_ERROR
       else Ok \<lparr>mk_encryption = take 32 keys, mk_hmac = take 32 (drop 32 keys)\<rparr>))"

definition cred_random_secret :: "('s, 'h) store_ops \<Rightarrow> 's \<Rightarrow> bool \<Rightarrow> bytes fallible" where
  "cred_random_secret ops s has_uv =
     obind (ctap_find ops KEY_CRED_RANDOM_SECRET s) (\<lambda>v.
     obind (lift (ok_or CTAP2_ERR_VENDOR_INTERNAL_ERROR v)) (\<lambda>secret.
       if length secret \<noteq> 64 then Err CTAP2_ERR_VENDOR_INTERNAL_ERROR
       else (let offset = if has_uv then 32 else 0 in Ok (take 32 (drop offset secret)))))"

definition pin_hash :: "('s, 'h) store_ops \<Rightarrow> 's \<Rightarrow> bytes option fallible" where
  "pin_hash ops s =
     obind (ctap_find ops KEY_PIN_HASH s) (\<lambda>v.
       case v of
         None \<Rightarrow> Ok None
       | Some h \<Rightarrow> if length h \<noteq> PIN_AUTH_LENGTH then Err CTAP2_ERR_VENDOR_INTERNAL_ERROR
                   else Ok (Some (take PIN_AUTH_LENGTH h)))"

definition set_pin_hash :: "('s, 'h) store_ops \<Rightarrow> bytes \<Rightarrow> ('s, unit) ctap_op" where
  "set_pin_hash ops h = ctap_insert ops KEY_PIN_HASH h"

definition pin_retries :: "('s, 'h) store_ops \<Rightarrow> 's \<Rightarrow> u8 fallible" where
  "pin_retries ops s =
     obind (ctap_find ops KEY_PIN_RETRIES s) (\<lambda>v.
       case v of
         None \<Rightarrow> Ok MAX_PIN_RETRIES
       | Some v \<Rightarrow> if length v = 1 then Ok (v ! 0) else Err CTAP2_ERR_VENDOR_INTERNAL_ERROR)"

text \<open>\<open>saturating_sub(1)\<close>.\<close>

definition decr_pin_retries :: "('s, 'h) store_ops \<Rightarrow> ('s, unit) ctap_op" where
  "decr_pin_retries ops =
     sbind (sread (pin_retries ops)) (\<lambda>old_value.
       let new_value = (if old_value = 0 then 0 else old_value - 1) in
       if new_value \<noteq> old_value then ctap_insert ops KEY_PIN_RETRIES [new_value] else sret ())"

definition reset_pin_retries :: "('s, 'h) store_ops \<Rightarrow> ('s, unit) ctap_op" where
  "reset_pin_retries ops = ctap_remove ops KEY_PIN_RETRIES"

definition min_pin_length :: "('s, 'h) store_ops \<Rightarrow> 's \<Rightarrow> u8 fallible" where
  "min_pin_length ops s =
     obind (ctap_find ops KEY_MIN_PIN_LENGTH s) (\<lambda>v.
       case v of
         None \<Rightarrow> Ok DEFAULT_MIN_PIN_LENGTH
       | Some v \<Rightarrow> if length v = 1 then Ok (v ! 0) else Err CTAP2_ERR_VENDOR_INTERNAL_ERROR)"

definition set_min_pin_length :: "('s, 'h) store_ops \<Rightarrow> u8 \<Rightarrow> ('s, unit) ctap_op" where
  "set_min_pin_length ops len = ctap_insert ops KEY_MIN_PIN_LENGTH [len]"

definition deserialize_rp_ids :: "nat \<Rightarrow> bytes \<Rightarrow> bytes list option" where
  "deserialize_rp_ids w data =
     (case cbor_read w data of
        Inl _ \<Rightarrow> None
      | Inr v \<Rightarrow>
          (case rbind (extract_array v) (collect extract_text_string) of Inl _ \<Rightarrow> None | Inr ids \<Rightarrow> Some ids))"

definition serialize_rp_ids :: "bytes list \<Rightarrow> bytes fallible" where
  "serialize_rp_ids ids =
     (case cbor_write (Array (map cbor_text ids)) [] of
        (True, data) \<Rightarrow> Ok data
      | (False, _) \<Rightarrow> Err CTAP2_ERR_VENDOR_RESPONSE_CANNOT_WRITE_CBOR)"

definition min_pin_length_rp_ids :: "('s, 'h) store_ops \<Rightarrow> nat \<Rightarrow> 's \<Rightarrow> bytes list fallible" where
  "min_pin_length_rp_ids ops w s =
     obind (ctap_find ops KEY_MIN_PIN_LENGTH_RP_IDS s) (\<lambda>v.
     let rp_ids = (case v of None \<Rightarrow> Some DEFAULT_MIN_PIN_LENGTH_RP_IDS | Some v \<Rightarrow> deserialize_rp_ids w v) in
     Ok (case rp_ids of None \<Rightarrow> [] | Some ids \<Rightarrow> ids))"

definition set_min_pin_length_rp_ids :: "('s, 'h) store_ops \<Rightarrow> bytes list \<Rightarrow> ('s, unit) ctap_op" where
  "set_min_pin_length_rp_ids ops ids =
     (let ids = fold (\<lambda>rpid ids. if rpid \<notin> set ids then ids @ [rpid] else ids) DEFAULT_MIN_PIN_LENGTH_RP_IDS ids in
      sbind (sguard (\<not> length ids > MAX_RP_IDS_LENGTH) CTAP2_ERR_KEY_STORE_FULL) (\<lambda>_.
      sbind (soutcome (serialize_rp_ids ids)) (\<lambda>v.
        ctap_insert ops KEY_MIN_PIN_LENGTH_RP_IDS v)))"

section \<open>Attestation material\<close>

definition attestation_private_key :: "('s, 'h) store_ops \<Rightarrow> 's \<Rightarrow> bytes option fallible" where
  "attestation_private_key ops s =
     obind (ctap_find ops KEY_ATTESTATION_PRIVATE_KEY s) (\<lambda>v.
       case v of
         None \<Rightarrow> Ok None
       | Some key \<Rightarrow> if length key = ATTESTATION_KEY_LENGTH then Ok (Some (take ATTESTATION_KEY_LENGTH key))
                     else Err CTAP2_ERR_VENDOR_INTERNAL_ERROR)"

definition set_attestation_private_key :: "('s, 'h) store_ops \<Rightarrow> bytes \<Rightarrow> ('s, unit) ctap_op" where
  "set_attestation_private_key ops key =
     sbind (sread (ctap_find ops KEY_ATTESTATION_PRIVATE_KEY)) (\<lambda>v.
       case v of
         None \<Rightarrow> ctap_insert ops KEY_ATTESTATION_PRIVATE_KEY key
       | Some _ \<Rightarrow> sfail CTAP2_ERR_VENDOR_INTERNAL_ERROR)"

definition attestation_certificate :: "('s, 'h) store_ops \<Rightarrow> 's \<Rightarrow> bytes option fallible" where
  "attestation_certificate ops s = ctap_find ops KEY_ATTESTATION_CERTIFICATE s"

definition set_attestation_certificate :: "('s, 'h) store_ops \<Rightarrow> bytes \<Rightarrow> ('s, unit) ctap_op" where
  "set_attestation_certificate ops certificate =
     sbind (sread (ctap_find ops KEY_ATTESTATION_CERTIFICATE)) (\<lambda>v.
       case v of
         None \<Rightarrow> ctap_insert ops KEY_ATTESTATION_CERTIFICATE certificate
       | Some _ \<Rightarrow> sfail CTAP2_ERR_VENDOR_INTERNAL_ERROR)"

definition get_aaguid :: "('s, 'h) store_ops \<Rightarrow> 's \<Rightarrow> bytes fallible" where
  "get_aaguid ops s =
     obind (ctap_find ops KEY_AAGUID s) (\<lambda>v.
     obind (lift (ok_or CTAP2_ERR_VENDOR_INTERNAL_ERROR v)) (\<lambda>aaguid.
       if length aaguid \<noteq> AAGUID_LENGTH then Err CTAP2_ERR_VENDOR_INTERNAL_ERROR
       else Ok (take AAGUID_LENGTH aaguid)))"

definition set_aaguid :: "('s, 'h) store_ops \<Rightarrow> bytes \<Rightarrow> ('s, unit) ctap_op" where
  "set_aaguid ops aaguid = ctap_insert ops KEY_AAGUID aaguid"

section \<open>Initialization and reset\<close>

text \<open>
  The state is the store and the random number generator, which hands out 32 bytes at a time.
\<close>

definition gen_uniform_u8x32 :: "('r \<Rightarrow> bytes \<times> 'r) \<Rightarrow> ('s \<times> 'r, bytes) ctap_op" where
  "gen_uniform_u8x32 gen = (\<lambda>(s, r). case gen r of (bs, r') \<Rightarrow> (Ok bs, (s, r')))"

definition on_store :: "('s, 'a) ctap_op \<Rightarrow> ('s \<times> 'r, 'a) ctap_op" where
  "on_store m = (\<lambda>(s, r). case m s of (x, s') \<Rightarrow> (x, (s', r)))"

definition init_secret :: "('s, 'h) store_ops \<Rightarrow> ('r \<Rightarrow> bytes \<times> 'r) \<Rightarrow> nat \<Rightarrow> bool \<Rightarrow> ('s \<times> 'r, unit) ctap_op" where
  "init_secret ops gen key swapped =
     sbind (on_store (sread (ctap_find_handle ops key))) (\<lambda>h.
       if h = None then
         sbind (gen_uniform_u8x32 gen) (\<lambda>first.
         sbind (gen_uniform_u8x32 gen) (\<lambda>second.
           on_store (ctap_insert ops key (if swapped then second @ first else first @ second))))
       else sret ())"

definition store_init :: "('s, 'h) store_ops \<Rightarrow> ('r \<Rightarrow> bytes \<times> 'r) \<Rightarrow> bytes \<Rightarrow> ('s \<times> 'r, unit) ctap_op" where
  "store_init ops gen aaguid =
     sbind (init_secret ops gen KEY_MASTER_KEYS False) (\<lambda>_.
     sbind (init_secret ops gen KEY_CRED_RANDOM_SECRET True) (\<lambda>_.
     sbind (on_store (sread (ctap_find_handle ops KEY_AAGUID))) (\<lambda>h.
       if h = None then on_store (set_aaguid ops aaguid) else sret ())))"

definition store_reset :: "('s, 'h) store_ops \<Rightarrow> ('r \<Rightarrow> bytes \<times> 'r) \<Rightarrow> bytes \<Rightarrow> ('s \<times> 'r, unit) ctap_op" where
  "store_reset ops gen aaguid =
     sbind (on_store (ctap_clear ops NUM_PERSISTENT_KEYS)) (\<lambda>_. store_init ops gen aaguid)"

end
