(* ===== verification/Ctap_Storage_Properties.thy ===== *)
theory Ctap_Storage_Properties
  imports Ctap_Storage Data_Formats_Properties
begin

text \<open>
  What the CTAP storage guarantees over any store that keeps the contract \<open>key_value_store\<close>: stored
  credentials are found again, at most one per account and at most 150 in all, and a reset forgets
  everything but the persistent keys.
\<close>

section \<open>Serialization of credentials\<close>

lemma options_fold_entries:
  "set (fold (\<lambda>(k, opt) m. case opt of Some v \<Rightarrow> btree_insert k v m | None \<Rightarrow> m) kvs m)
     \<subseteq> set m \<union> {(k, v). (k, Some v) \<in> set kvs}"
proof (induction kvs arbitrary: m)
  case (Cons kv kvs)
  obtain k opt where kv: "kv = (k, opt)" by (cases kv)
  let ?m = "case opt of Some v \<Rightarrow> btree_insert k v m | None \<Rightarrow> m"
  have "set ?m \<subseteq> set m \<union> {(k, v). kv = (k, Some v)}"
    using kv set_btree_insert by (fastforce split: option.splits)
  with Cons.IH [of ?m] kv show ?case by auto
qed simp

lemma length_btree_insert: "length (btree_insert k v m) \<le> Suc (length m)"
  by (induction m) auto

lemma options_fold_length:
  "length (fold (\<lambda>(k, opt) m. case opt of Some v \<Rightarrow> btree_insert k v m | None \<Rightarrow> m) kvs m)
     \<le> length m + length kvs"
proof (induction kvs arbitrary: m)
  case (Cons kv kvs)
  obtain k opt where kv: "kv = (k, opt)" by (cases kv)
  let ?m = "case opt of Some v \<Rightarrow> btree_insert k v m | None \<Rightarrow> m"
  have "length ?m \<le> Suc (length m)" using length_btree_insert by (auto split: option.splits)
  with Cons.IH [of ?m] kv show ?case by simp
qed simp

lemma options_map_value_ok:
  assumes "distinct (map fst kvs)" and "length kvs < 2 ^ w"
    and "\<And>k v. (k, Some v) \<in> set kvs \<Longrightarrow> key_ok w k \<and> value_ok w v \<and> value_depth v = 0"
  shows "value_ok w (cbor_map_options kvs) \<and> value_depth (cbor_map_options kvs) \<le> 4"
proof -
  have entries: "key_ok w k \<and> value_ok w v \<and> value_depth v = 0" if "(k, v) \<in> set (options_map kvs)" for k v
    using that assms(3) options_fold_entries [of kvs "[]"] by (auto simp: options_map_def)
  have "length (options_map kvs) < 2 ^ w"
    using assms(2) options_fold_length [of kvs "[]"] by (simp add: options_map_def)
  then have "value_ok w (Map (options_map kvs))"
    using entries options_map_ok [OF assms(1)] by (auto simp: list_all_iff)
  moreover have "value_depth (Map (options_map kvs)) \<le> 4"
  proof (cases "options_map kvs = []")
    case False
    then have "Max (set (map (\<lambda>(k, v). value_depth v) (options_map kvs))) \<le> 0"
      using entries by (subst Max_le_iff) auto
    with False show ?thesis by simp
  qed simp
  ultimately show ?thesis by (simp add: cbor_map_options_eq)
qed

text \<open>A credential as the Rust types guarantee it: strings are UTF-8 and fit in memory.\<close>

definition text_ok :: "nat \<Rightarrow> bytes \<Rightarrow> bool" where
  "text_ok w t \<longleftrightarrow> length t < 2 ^ w \<and> utf8_valid t"

definition credential_ok :: "nat \<Rightarrow> credential_source \<Rightarrow> bool" where
  "credential_ok w c \<longleftrightarrow> source_ok c \<and> length (cs_id c) < 2 ^ w \<and> text_ok w (cs_rp_id c)
     \<and> length (cs_user_handle c) < 2 ^ w \<and> pred_option (text_ok w) (cs_user_display_name c)
     \<and> pred_option (text_ok w) (cs_user_name c) \<and> pred_option (text_ok w) (cs_user_icon c)"

lemma Some_eq_map_option: "Some y = map_option f x \<longleftrightarrow> (\<exists>z. x = Some z \<and> y = f z)"
  by (cases x) auto

lemma policy_value_ok: "value_ok w (policy_into p) \<and> value_depth (policy_into p) = 0"
  by (cases p) (simp_all add: policy_into_def cbor_int_def key_integer_def)

lemma source_value_ok:
  assumes "credential_ok w c" and "6 \<le> w"
  shows "value_ok w (credential_source_into c) \<and> value_depth (credential_source_into c) \<le> 4"
proof -
  have "(2 :: nat) ^ 6 \<le> 2 ^ w" using assms(2) by (rule power_increasing) simp
  then have w: "9 < (2 :: nat) ^ w" "32 < (2 :: nat) ^ w" by simp_all
  have "length (sec_key_to_bytes (cs_private_key c)) = 32"
    using assms(1) by (simp add: credential_ok_def source_ok_def length_sec_key_to_bytes)
  then show ?thesis
    unfolding credential_source_into_def Let_def
    using assms(1) w policy_value_ok
    by (intro options_map_value_ok)
      (auto simp: credential_ok_def text_ok_def source_field_key_def cbor_bytes_def cbor_text_def cbor_unsigned_def
        Some_eq_map_option)
qed

lemma cbor_write_read:
  assumes "value_ok w v" and "w \<le> 64" and "value_depth v \<le> 4"
  shows "cbor_write v [] = (True, enc v)" and "cbor_read w (enc v) = Inr v"
proof -
  have fits: "fits v 4" using assms(3) by (simp add: fits_def)
  show "cbor_write v [] = (True, enc v)"
    using encode_cbor_fits(1) [OF fits, of "[]"] by (simp add: cbor_write_def WRITER_MAX_NESTING_DEPTH_def)
  show "cbor_read w (enc v) = Inr v"
    using decode_enc [OF assms(1,2) fits, of "[]"] by (simp add: cbor_read_def READER_MAX_NESTING_DEPTH_def)
qed

lemma serialize_credential_round_trip:
  assumes "credential_ok w c" and "6 \<le> w" and "w \<le> 64"
  obtains data where "serialize_credential c = Ok data" and "deserialize_credential w data = Some c"
proof -
  note ok = source_value_ok [OF assms(1,2)]
  have "source_ok c" using assms(1) by (simp add: credential_ok_def)
  then have "credential_source_try_from (credential_source_into c) = Inr c" by (rule source_conv.round_trip)
  with cbor_write_read [OF conjunct1 [OF ok] assms(3) conjunct2 [OF ok]] that show thesis
    by (simp add: serialize_credential_def deserialize_credential_def)
qed

section \<open>The stored credentials\<close>

definition stored :: "nat \<Rightarrow> (nat \<Rightarrow> bytes option) \<Rightarrow> nat \<Rightarrow> credential_source option" where
  "stored w content k = (if is_credential_key k then Option.bind (content k) (deserialize_credential w) else None)"

definition credentials :: "nat \<Rightarrow> (nat \<Rightarrow> bytes option) \<Rightarrow> credential_source set" where
  "credentials w content = ran (stored w content)"

definition account :: "credential_source \<Rightarrow> bytes \<times> bytes" where
  "account c = (cs_rp_id c, cs_user_handle c)"

text \<open>The keys that are used hold credentials, and no two of them the same account.\<close>

definition credentials_ok :: "nat \<Rightarrow> (nat \<Rightarrow> bytes option) \<Rightarrow> bool" where
  "credentials_ok w content \<longleftrightarrow>
     (\<forall>k. is_credential_key k \<longrightarrow> content k \<noteq> None \<longrightarrow>
        k < KEY_CREDENTIALS_START + MAX_SUPPORTED_RESIDENTIAL_KEYS \<and> stored w content k \<noteq> None)
     \<and> (\<forall>k k' c c'. stored w content k = Some c \<longrightarrow> stored w content k' = Some c'
          \<longrightarrow> account c = account c' \<longrightarrow> k = k')"

lemma stored_key_range:
  assumes "credentials_ok w content" and "stored w content k = Some c"
  shows "is_credential_key k" and "KEY_CREDENTIALS_START \<le> k"
    and "k < KEY_CREDENTIALS_START + MAX_SUPPORTED_RESIDENTIAL_KEYS" and "content k \<noteq> None"
  using assms by (auto simp: credentials_ok_def stored_def is_credential_key_def bind_eq_Some_conv split: if_splits)

lemma stored_inj:
  "credentials_ok w content \<Longrightarrow> stored w content k = Some c \<Longrightarrow> stored w content k' = Some c'
    \<Longrightarrow> account c = account c' \<Longrightarrow> k = k'"
  by (auto simp: credentials_ok_def)

lemma credential_keys_range:
  "i < MAX_SUPPORTED_RESIDENTIAL_KEYS \<Longrightarrow> is_credential_key (KEY_CREDENTIALS_START + i)"
  by (simp add: is_credential_key_def store_keys MAX_SUPPORTED_RESIDENTIAL_KEYS_def)

lemma dom_stored:
  "credentials_ok w content \<Longrightarrow>
     dom (stored w content) \<subseteq> {KEY_CREDENTIALS_START ..< KEY_CREDENTIALS_START + MAX_SUPPORTED_RESIDENTIAL_KEYS}"
  using stored_key_range by fastforce

lemma credentials_image: "credentials w content = (\<lambda>k. the (stored w content k)) ` dom (stored w content)"
  by (force simp: credentials_def ran_def image_def)

lemma card_credentials:
  assumes "credentials_ok w content"
  shows "card (credentials w content) \<le> MAX_SUPPORTED_RESIDENTIAL_KEYS"
proof -
  have fin: "finite (dom (stored w content))" using dom_stored [OF assms] finite_subset by blast
  have "card (credentials w content) \<le> card (dom (stored w content))"
    using card_image_le [OF fin] by (simp add: credentials_image)
  also have "\<dots> \<le> MAX_SUPPORTED_RESIDENTIAL_KEYS"
    using card_mono [OF _ dom_stored [OF assms]] by simp
  finally show ?thesis .
qed

section \<open>Scanning the credentials\<close>

lemma find_SomeD: "find P xs = Some x \<Longrightarrow> x \<in> set xs \<and> P x"
  by (induction xs) (auto split: if_splits)

definition same_account :: "credential_source \<Rightarrow> nat \<times> credential_source \<Rightarrow> bool" where
  "same_account new kc \<longleftrightarrow> account (snd kc) = account new"

lemma scan_credentials_ok:
  assumes "distinct (map fst iter)"
    and "\<And>k c. (k, c) \<in> set iter \<Longrightarrow> KEY_CREDENTIALS_START \<le> k
      \<and> k < KEY_CREDENTIALS_START + MAX_SUPPORTED_RESIDENTIAL_KEYS \<and> \<not> keys ! (k - KEY_CREDENTIALS_START)"
    and "length keys = MAX_SUPPORTED_RESIDENTIAL_KEYS"
    and "\<And>x y. x \<in> set iter \<Longrightarrow> y \<in> set iter \<Longrightarrow> same_account new x \<Longrightarrow> same_account new y \<Longrightarrow> x = y"
    and "old \<noteq> None \<Longrightarrow> \<forall>x \<in> set iter. \<not> same_account new x"
  shows "\<exists>keys'. scan_credentials new iter (old, keys)
      = Ok (if old = None then map_option fst (find (same_account new) iter) else old, keys')
    \<and> length keys' = MAX_SUPPORTED_RESIDENTIAL_KEYS
    \<and> (\<forall>i < MAX_SUPPORTED_RESIDENTIAL_KEYS.
         keys' ! i \<longleftrightarrow> keys ! i \<or> KEY_CREDENTIALS_START + i \<in> fst ` set iter)"
  using assms
proof (induction iter arbitrary: old keys)
  case (Cons kc iter)
  obtain k c where kc: "kc = (k, c)" by (cases kc)
  let ?i = "k - KEY_CREDENTIALS_START"
  let ?keys = "keys[?i := True]"
  let ?old = "if same_account new kc then Some k else old"
  from Cons.prems(2) [of k c] kc have k: "KEY_CREDENTIALS_START \<le> k" "?i < MAX_SUPPORTED_RESIDENTIAL_KEYS" "\<not> keys ! ?i"
    by auto
  have clash: "\<not> (same_account new kc \<and> old \<noteq> None)"
    using Cons.prems(5) by (metis list.set_intros(1))
  have "\<exists>keys'. scan_credentials new iter (?old, ?keys)
      = Ok (if ?old = None then map_option fst (find (same_account new) iter) else ?old, keys')
    \<and> length keys' = MAX_SUPPORTED_RESIDENTIAL_KEYS
    \<and> (\<forall>i < MAX_SUPPORTED_RESIDENTIAL_KEYS.
         keys' ! i \<longleftrightarrow> ?keys ! i \<or> KEY_CREDENTIALS_START + i \<in> fst ` set iter)"
  proof (rule Cons.IH)
    show "distinct (map fst iter)" using Cons.prems(1) by simp
    show "length ?keys = MAX_SUPPORTED_RESIDENTIAL_KEYS" using Cons.prems(3) by simp
    show "x = y" if "x \<in> set iter" "y \<in> set iter" "same_account new x" "same_account new y" for x y
      using Cons.prems(4) that by simp
    show "\<forall>x \<in> set iter. \<not> same_account new x" if "?old \<noteq> None"
    proof (cases "same_account new kc")
      case True
      have "kc \<notin> set iter" using Cons.prems(1) kc by force
      with Cons.prems(4) True show ?thesis by (metis list.set_intros(1,2))
    qed (use that Cons.prems(5) in auto)
    fix k' c' assume in_iter: "(k', c') \<in> set iter"
    then have "k' \<noteq> k" using Cons.prems(1) kc by force
    with Cons.prems(2) [of k' c'] in_iter k show "KEY_CREDENTIALS_START \<le> k'
      \<and> k' < KEY_CREDENTIALS_START + MAX_SUPPORTED_RESIDENTIAL_KEYS \<and> \<not> ?keys ! (k' - KEY_CREDENTIALS_START)"
      by auto
  qed
  then obtain keys' where keys': "scan_credentials new iter (?old, ?keys)
      = Ok (if ?old = None then map_option fst (find (same_account new) iter) else ?old, keys')"
    "length keys' = MAX_SUPPORTED_RESIDENTIAL_KEYS"
    "\<forall>i < MAX_SUPPORTED_RESIDENTIAL_KEYS. keys' ! i \<longleftrightarrow> ?keys ! i \<or> KEY_CREDENTIALS_START + i \<in> fst ` set iter"
    by blast
  have "scan_credentials new (kc # iter) (old, keys) = scan_credentials new iter (?old, ?keys)"
    using k clash kc by (auto simp: Let_def same_account_def account_def)
  moreover have "keys' ! i \<longleftrightarrow> keys ! i \<or> KEY_CREDENTIALS_START + i \<in> fst ` set (kc # iter)"
    if "i < MAX_SUPPORTED_RESIDENTIAL_KEYS" for i
    using keys'(3) that k kc Cons.prems(3) by (cases "i = ?i") auto
  ultimately show ?case using keys'(1,2) clash kc by auto
qed simp

lemma free_credential_key_Some:
  assumes "length keys = MAX_SUPPORTED_RESIDENTIAL_KEYS"
    and "length (filter (\<lambda>x. x) keys) < MAX_SUPPORTED_RESIDENTIAL_KEYS"
  obtains i where "free_credential_key keys = Some (KEY_CREDENTIALS_START + i)"
    and "i < MAX_SUPPORTED_RESIDENTIAL_KEYS" and "\<not> keys ! i"
proof -
  have keys: "take MAX_SUPPORTED_RESIDENTIAL_KEYS [KEY_CREDENTIALS_START..<KEY_CREDENTIALS_END]
      = [KEY_CREDENTIALS_START..<KEY_CREDENTIALS_START + MAX_SUPPORTED_RESIDENTIAL_KEYS]"
    by (rule take_upt) (simp add: store_keys MAX_SUPPORTED_RESIDENTIAL_KEYS_def)
  have "\<exists>i < length keys. \<not> keys ! i"
  proof (rule ccontr)
    assume "\<not> ?thesis"
    then have "filter (\<lambda>x. x) keys = keys" by (intro filter_True) (auto simp: in_set_conv_nth)
    with assms show False by simp
  qed
  then have "free_credential_key keys \<noteq> None"
    using assms(1) unfolding free_credential_key_def keys
    by (auto simp: find_None_iff) (metis add_less_cancel_left diff_add_inverse le_add1)
  then obtain k where k: "free_credential_key keys = Some k" by blast
  then have "k \<in> {KEY_CREDENTIALS_START..<KEY_CREDENTIALS_START + MAX_SUPPORTED_RESIDENTIAL_KEYS}"
    and "\<not> keys ! (k - KEY_CREDENTIALS_START)"
    unfolding free_credential_key_def keys by (auto simp: find_Some_iff in_set_conv_nth)
  with k that [of "k - KEY_CREDENTIALS_START"] show thesis by auto
qed

section \<open>Credentials in a store\<close>

lemma credentials_of_handles_ok:
  assumes "\<And>h. h \<in> set hs \<Longrightarrow> \<exists>v. content (op_get_key ops h) = Some v \<and> op_get_value ops s h = Ok v"
    and "credentials_ok w content"
  shows "credentials_of_handles ops w s hs (Ok ()) =
    (List.map_filter (\<lambda>h. map_option (Pair (op_get_key ops h)) (stored w content (op_get_key ops h))) hs, Ok ())"
  using assms(1)
proof (induction hs)
  case (Cons h hs)
  let ?k = "op_get_key ops h"
  obtain v where v: "content ?k = Some v" "op_get_value ops s h = Ok v" using Cons.prems [of h] by auto
  show ?case
  proof (cases "is_credential_key ?k")
    case True
    then obtain c where "stored w content ?k = Some c" using v assms(2) by (fastforce simp: credentials_ok_def)
    moreover from this True v have "deserialize_credential w v = Some c" by (simp add: stored_def)
    ultimately show ?thesis using Cons True v by (simp add: Let_def map_filter_simps)
  qed (use Cons in \<open>simp add: Let_def map_filter_simps stored_def\<close>)
qed (simp add: map_filter_simps split: unit.split)

lemma map_filter_keys:
  assumes "distinct (map f hs)" and "dom m \<subseteq> f ` set hs"
  shows "distinct (map fst (List.map_filter (\<lambda>h. map_option (Pair (f h)) (m (f h))) hs))"
    and "set (List.map_filter (\<lambda>h. map_option (Pair (f h)) (m (f h))) hs) = {(k, c). m k = Some c}"
proof -
  have fst_in: "set (map fst (List.map_filter (\<lambda>h. map_option (Pair (f h)) (m (f h))) xs)) \<subseteq> f ` set xs" for xs
    by (induction xs) (auto simp: map_filter_simps split: option.splits)
  show "distinct (map fst (List.map_filter (\<lambda>h. map_option (Pair (f h)) (m (f h))) hs))"
    using assms(1)
  proof (induction hs)
    case (Cons h hs)
    with fst_in [of hs] show ?case by (auto simp: map_filter_simps split: option.splits)
  qed (simp add: map_filter_simps)
  show "set (List.map_filter (\<lambda>h. map_option (Pair (f h)) (m (f h))) hs) = {(k, c). m k = Some c}"
    using assms(2) by (force simp: List.map_filter_def image_iff dom_def)
qed

lemma stored_update:
  "is_credential_key k \<Longrightarrow> deserialize_credential w v = Some new
    \<Longrightarrow> stored w (content(k \<mapsto> v)) = (stored w content)(k \<mapsto> new)"
  by (auto simp: stored_def fun_eq_iff)

lemma credentials_update:
  assumes "credentials_ok w content" and "is_credential_key k" and "deserialize_credential w v = Some new"
    and "k < KEY_CREDENTIALS_START + MAX_SUPPORTED_RESIDENTIAL_KEYS"
    and "\<And>k' c. stored w content k' = Some c \<Longrightarrow> k' = k \<longleftrightarrow> account c = account new"
  shows "credentials_ok w (content(k \<mapsto> v))"
    and "credentials w (content(k \<mapsto> v)) = insert new {c \<in> credentials w content. account c \<noteq> account new}"
proof -
  note upd = stored_update [OF assms(2,3)]
  show "credentials_ok w (content(k \<mapsto> v))"
    using assms(1,2,4,5) unfolding credentials_ok_def upd by auto
  show "credentials w (content(k \<mapsto> v)) = insert new {c \<in> credentials w content. account c \<noteq> account new}"
    using assms(5) unfolding credentials_def upd by (auto simp: ran_def split: if_splits)
qed

lemma card_credentials_free:
  assumes "credentials_ok w content" and "stored w content k = None"
    and "k \<in> {KEY_CREDENTIALS_START ..< KEY_CREDENTIALS_START + MAX_SUPPORTED_RESIDENTIAL_KEYS}"
  shows "card (credentials w content) < MAX_SUPPORTED_RESIDENTIAL_KEYS"
proof -
  let ?full = "{KEY_CREDENTIALS_START ..< KEY_CREDENTIALS_START + MAX_SUPPORTED_RESIDENTIAL_KEYS}"
  have sub: "dom (stored w content) \<subseteq> ?full - {k}" using dom_stored [OF assms(1)] assms(2) by auto
  then have "finite (dom (stored w content))" by (rule finite_subset) simp
  then have "card (credentials w content) \<le> card (dom (stored w content))"
    by (simp add: credentials_image card_image_le)
  also have "\<dots> \<le> card (?full - {k})" using sub by (intro card_mono) auto
  also have "\<dots> < card ?full" using assms(3) by (intro card_Diff1_less) simp_all
  finally show ?thesis by simp
qed

context key_value_store
begin

lemma iter_credentials_ok:
  assumes "invar s" and "credentials_ok w (content s)"
  obtains iter where "iter_credentials ops w s = Ok (iter, Ok ())" and "distinct (map fst iter)"
    and "set iter = {(k, c). stored w (content s) k = Some c}"
proof -
  obtain hs where hs: "op_iter ops s = Ok (hs, Ok ())" "distinct (map (op_get_key ops) hs)"
    "\<forall>h \<in> set hs. \<exists>v. content s (op_get_key ops h) = Some v \<and> op_get_value ops s h = Ok v"
    "dom (content s) \<subseteq> op_get_key ops ` set hs"
    using iter_law [OF assms(1)] by blast
  have "dom (stored w (content s)) \<subseteq> dom (content s)"
    by (auto simp: stored_def bind_eq_Some_conv split: if_splits)
  with hs(4) have "dom (stored w (content s)) \<subseteq> op_get_key ops ` set hs" by blast
  note keys = map_filter_keys [OF hs(2) this]
  have "iter_credentials ops w s = Ok (List.map_filter
      (\<lambda>h. map_option (Pair (op_get_key ops h)) (stored w (content s) (op_get_key ops h))) hs, Ok ())"
    using hs(3) by (simp add: iter_credentials_def hs(1) credentials_of_handles_ok [OF _ assms(2)])
  from that [OF this keys] show thesis .
qed

lemma ctap_insert_law:
  assumes "invar s" and "ctap_insert ops k v s = (r, s')"
  shows "invar s' \<and> r \<noteq> Panic \<and> content s' = (if r = Ok () then (content s)(k \<mapsto> v) else content s)"
proof -
  obtain r0 where op: "op_insert ops k v s = (r0, s')" "r = map_err status_of_store_error r0"
    using assms(2) by (auto simp: ctap_insert_def smap_err_def split: prod.splits)
  from insert_law [OF assms(1) op(1)] op(2) show ?thesis by (cases r0) auto
qed

lemma ctap_remove_law:
  assumes "invar s" and "ctap_remove ops k s = (r, s')"
  shows "invar s' \<and> r \<noteq> Panic \<and> content s' = (if r = Ok () then (content s)(k := None) else content s)"
proof -
  obtain r0 where op: "op_remove ops k s = (r0, s')" "r = map_err status_of_store_error r0"
    using assms(2) by (auto simp: ctap_remove_def smap_err_def split: prod.splits)
  from remove_law [OF assms(1) op(1)] op(2) show ?thesis by (cases r0) auto
qed

lemma ctap_clear_law:
  assumes "invar s" and "ctap_clear ops k s = (r, s')"
  shows "invar s' \<and> r \<noteq> Panic \<and> content s' = (if r = Ok () then content s |` {..<k} else content s)"
proof -
  obtain r0 where op: "op_clear ops k s = (r0, s')" "r = map_err status_of_store_error r0"
    using assms(2) by (auto simp: ctap_clear_def smap_err_def split: prod.splits)
  from clear_law [OF assms(1) op(1)] op(2) show ?thesis by (cases r0) auto
qed

lemma ctap_find_law: "invar s \<Longrightarrow> ctap_find ops k s = Ok (content s k)"
  by (simp add: ctap_find_def find_law)

lemma store_credential_run:
  assumes "invar s" and "credentials_ok w (content s)" and "credential_ok w new" and "6 \<le> w" and "w \<le> 64"
  obtains (full) "account new \<notin> account ` credentials w (content s)"
      "dom (stored w (content s)) = {KEY_CREDENTIALS_START ..< KEY_CREDENTIALS_START + MAX_SUPPORTED_RESIDENTIAL_KEYS}"
      "store_credential ops w new s = (Err CTAP2_ERR_KEY_STORE_FULL, s)"
    | (insert) k v where "store_credential ops w new s = ctap_insert ops k v s"
      "deserialize_credential w v = Some new" "is_credential_key k"
      "k < KEY_CREDENTIALS_START + MAX_SUPPORTED_RESIDENTIAL_KEYS"
      "\<And>k' c. stored w (content s) k' = Some c \<Longrightarrow> k' = k \<longleftrightarrow> account c = account new"
proof -
  let ?m = "stored w (content s)"
  let ?full = "{KEY_CREDENTIALS_START ..< KEY_CREDENTIALS_START + MAX_SUPPORTED_RESIDENTIAL_KEYS}"
  obtain iter where iter: "iter_credentials ops w s = Ok (iter, Ok ())" "distinct (map fst iter)"
    "set iter = {(k, c). ?m k = Some c}"
    using iter_credentials_ok [OF assms(1,2)] by blast
  note range = stored_key_range [OF assms(2)] and inj = stored_inj [OF assms(2)]
  have "\<exists>keys'. scan_credentials new iter (None, replicate MAX_SUPPORTED_RESIDENTIAL_KEYS False)
      = Ok (if None = (None :: nat option) then map_option fst (find (same_account new) iter) else None, keys')
    \<and> length keys' = MAX_SUPPORTED_RESIDENTIAL_KEYS
    \<and> (\<forall>i < MAX_SUPPORTED_RESIDENTIAL_KEYS. keys' ! i
         \<longleftrightarrow> replicate MAX_SUPPORTED_RESIDENTIAL_KEYS False ! i \<or> KEY_CREDENTIALS_START + i \<in> fst ` set iter)"
  proof (rule scan_credentials_ok [OF iter(2)])
    show "KEY_CREDENTIALS_START \<le> k \<and> k < KEY_CREDENTIALS_START + MAX_SUPPORTED_RESIDENTIAL_KEYS
        \<and> \<not> replicate MAX_SUPPORTED_RESIDENTIAL_KEYS False ! (k - KEY_CREDENTIALS_START)" if "(k, c) \<in> set iter" for k c
      using range [of k c] that iter(3) by auto
    show "x = y" if xy: "x \<in> set iter" "y \<in> set iter" "same_account new x" "same_account new y" for x y
      using inj [of "fst x" "snd x" "fst y" "snd y"] xy iter(3) by (auto simp: same_account_def)
  qed simp_all
  then obtain keys where scan: "scan_credentials new iter (None, replicate MAX_SUPPORTED_RESIDENTIAL_KEYS False)
      = Ok (map_option fst (find (same_account new) iter), keys)"
    and len: "length keys = MAX_SUPPORTED_RESIDENTIAL_KEYS"
    and used: "\<And>i. i < MAX_SUPPORTED_RESIDENTIAL_KEYS \<Longrightarrow> keys ! i \<longleftrightarrow> ?m (KEY_CREDENTIALS_START + i) \<noteq> None"
    using iter(3) by (auto simp: image_iff)
  obtain v where v: "serialize_credential new = Ok v" "deserialize_credential w v = Some new"
    using serialize_credential_round_trip [OF assms(3-5)] .
  note run = store_credential_def op_defs sbind_def iter(1) scan v(1)
  show thesis
  proof (cases "find (same_account new) iter")
    case (Some kc)
    then obtain k c where kc: "kc = (k, c)" "?m k = Some c" "account c = account new"
      using find_SomeD [OF Some] iter(3) by (cases kc) (auto simp: same_account_def)
    show thesis
    proof (rule insert)
      show "store_credential ops w new s = ctap_insert ops k v s" using Some kc(1) by (simp add: run)
      show "k' = k \<longleftrightarrow> account c' = account new" if "?m k' = Some c'" for k' c'
        using inj [OF that kc(2)] kc that by auto
    qed (use v(2) range [OF kc(2)] in auto)
  next
    case None
    then have fresh: "account c \<noteq> account new" if "?m k = Some c" for k c
      using that iter(3) by (auto simp: find_None_iff same_account_def)
    show thesis
    proof (cases "length (filter (\<lambda>x. x) keys) \<ge> MAX_SUPPORTED_RESIDENTIAL_KEYS")
      case True
      then have "filter (\<lambda>x. x) keys = keys"
        using len length_filter_le [of "\<lambda>x. x" keys] by (metis filter_id_conv length_filter_less order_antisym not_less)
      then have all: "\<forall>x \<in> set keys. x" by (simp add: filter_id_conv)
      have "k \<in> dom ?m" if "k \<in> ?full" for k
        using used [of "k - KEY_CREDENTIALS_START"] all that len by (auto simp: in_set_conv_nth)
      then have "dom ?m = ?full" using dom_stored [OF assms(2)] by blast
      moreover have "account new \<notin> account ` credentials w (content s)"
        using fresh by (force simp: credentials_def ran_def)
      ultimately show thesis using True None by (intro full) (simp_all add: run)
    next
      case False
      then obtain i where i: "free_credential_key keys = Some (KEY_CREDENTIALS_START + i)"
        "i < MAX_SUPPORTED_RESIDENTIAL_KEYS" "\<not> keys ! i"
        using free_credential_key_Some [OF len] by (metis not_le)
      show thesis
      proof (rule insert)
        show "store_credential ops w new s = ctap_insert ops (KEY_CREDENTIALS_START + i) v s"
          using None False i(1) by (simp add: run ok_or_def)
        show "k' = KEY_CREDENTIALS_START + i \<longleftrightarrow> account c = account new" if "?m k' = Some c" for k' c
          using used [OF i(2)] i(3) that fresh by auto
      qed (use v(2) i(2) credential_keys_range in auto)
    qed
  qed
qed

lemma store_credential_spec:
  assumes "invar s" and "credentials_ok w (content s)" and "credential_ok w new" and "6 \<le> w" and "w \<le> 64"
    and "store_credential ops w new s = (r, s')"
  shows "invar s' \<and> credentials_ok w (content s') \<and> r \<noteq> Panic
    \<and> (if r = Ok ()
       then credentials w (content s') = insert new {c \<in> credentials w (content s). account c \<noteq> account new}
         \<and> (\<forall>k. \<not> is_credential_key k \<longrightarrow> content s' k = content s k)
       else content s' = content s)
    \<and> (account new \<notin> account ` credentials w (content s)
         \<and> card (credentials w (content s)) = MAX_SUPPORTED_RESIDENTIAL_KEYS \<longrightarrow> r = Err CTAP2_ERR_KEY_STORE_FULL)"
proof (cases rule: store_credential_run [OF assms(1-5)])
  case 1
  with assms show ?thesis by auto
next
  case (2 k v)
  from 2(1) assms(6) have "ctap_insert ops k v s = (r, s')" by simp
  note law = ctap_insert_law [OF assms(1) this]
  note upd = credentials_update [OF assms(2) 2(3,2,4,5)]
  have "card (credentials w (content s)) \<noteq> MAX_SUPPORTED_RESIDENTIAL_KEYS"
    if "account new \<notin> account ` credentials w (content s)"
  proof -
    have "stored w (content s) k = None"
    proof (rule ccontr)
      assume "stored w (content s) k \<noteq> None"
      then obtain c where "stored w (content s) k = Some c" by blast
      with 2(5) have "c \<in> credentials w (content s)" "account c = account new" by (auto simp: credentials_def ran_def)
      with that show False by (metis imageI)
    qed
    then have "card (credentials w (content s)) < MAX_SUPPORTED_RESIDENTIAL_KEYS"
      using assms(2) 2(3,4) by (intro card_credentials_free) (auto simp: is_credential_key_def)
    then show ?thesis by simp
  qed
  with law upd assms(2) 2(3) show ?thesis by auto
qed

lemma find_credential_spec:
  assumes "invar s" and "credentials_ok w (content s)"
  shows "(\<exists>c \<in> credentials w (content s). cs_rp_id c = rpid \<and> cs_id c = cid
         \<and> find_credential ops w s rpid cid check
           = Ok (if check \<and> cs_cred_protect_policy c = Some UserVerificationRequired then None else Some c))
    \<or> (\<forall>c \<in> credentials w (content s). \<not> (cs_rp_id c = rpid \<and> cs_id c = cid))
       \<and> find_credential ops w s rpid cid check = Ok None"
proof -
  obtain iter where iter: "iter_credentials ops w s = Ok (iter, Ok ())" "distinct (map fst iter)"
    "set iter = {(k, c). stored w (content s) k = Some c}"
    using iter_credentials_ok [OF assms] by blast
  let ?P = "\<lambda>(_, c). cs_rp_id c = rpid \<and> cs_id c = cid"
  show ?thesis
  proof (cases "find ?P iter")
    case None
    then have none: "\<not> ?P kc" if "kc \<in> set iter" for kc using that by (auto simp: find_None_iff)
    have "\<not> (cs_rp_id c = rpid \<and> cs_id c = cid)" if "c \<in> credentials w (content s)" for c
      using none [of "(k, c)" for k] that unfolding iter(3) credentials_def ran_def by auto
    then have "\<forall>c \<in> credentials w (content s). \<not> (cs_rp_id c = rpid \<and> cs_id c = cid)" by blast
    with None iter(1) show ?thesis by (simp add: find_credential_def)
  next
    case (Some kc)
    then obtain k c where kc: "kc = (k, c)" "stored w (content s) k = Some c" "cs_rp_id c = rpid" "cs_id c = cid"
      using find_SomeD [OF Some] iter(3) by (cases kc) auto
    then have "c \<in> credentials w (content s)" by (auto simp: credentials_def ran_def)
    with Some kc iter(1) show ?thesis by (auto simp: find_credential_def)
  qed
qed

lemma filter_credential_spec:
  assumes "invar s" and "credentials_ok w (content s)"
  shows "\<exists>cs. filter_credential ops w s rpid check = Ok cs \<and> distinct cs
    \<and> set cs = {c \<in> credentials w (content s). cs_rp_id c = rpid \<and> (check \<longrightarrow> is_discoverable c)}"
proof -
  obtain iter where iter: "iter_credentials ops w s = Ok (iter, Ok ())" "distinct (map fst iter)"
    "set iter = {(k, c). stored w (content s) k = Some c}"
    using iter_credentials_ok [OF assms] by blast
  have "inj_on snd (set iter)"
    using stored_inj [OF assms(2)] iter(3) by (fastforce simp: inj_on_def)
  then have "distinct (map snd iter)" using iter(2) by (simp add: distinct_map)
  moreover have "snd ` set iter = credentials w (content s)" using iter(3) by (force simp: credentials_def ran_def image_def)
  ultimately show ?thesis using iter(1) by (auto simp: filter_credential_def)
qed

lemma find_handle_cases:
  assumes "invar s"
  obtains h where "ctap_find_handle ops k s = Ok h" and "h = None \<longleftrightarrow> content s k = None"
  using find_handle_law [OF assms, of k] that by (auto simp: ctap_find_handle_def)

lemma init_secret_run:
  assumes "invar s" and "gen r = (b1, r1)" and "gen r1 = (b2, r2)"
    and "init_secret ops gen key swapped (s, r) = (x, (s', r'))"
  shows "invar s' \<and> x \<noteq> Panic
    \<and> (if content s key \<noteq> None then x = Ok () \<and> s' = s \<and> r' = r
       else r' = r2 \<and> content s' = (if x = Ok ()
         then (content s)(key \<mapsto> (if swapped then b2 @ b1 else b1 @ b2)) else content s))"
proof -
  obtain h where h: "ctap_find_handle ops key s = Ok h" "h = None \<longleftrightarrow> content s key = None"
    by (rule find_handle_cases [OF assms(1)])
  note run = init_secret_def on_store_def gen_uniform_u8x32_def op_defs sbind_def
  show ?thesis
  proof (cases "content s key")
    case None
    let ?v = "if swapped then b2 @ b1 else b1 @ b2"
    obtain y t where yt: "ctap_insert ops key ?v s = (y, t)" by (cases "ctap_insert ops key ?v s")
    then have "x = y \<and> s' = t \<and> r' = r2"
      using assms(2-4) h None by (auto simp: run split: if_splits)
    with ctap_insert_law [OF assms(1) yt] None show ?thesis by auto
  next
    case (Some v)
    with assms h show ?thesis by (auto simp: run)
  qed
qed

lemma init_aaguid_run:
  assumes "invar s"
    and "sbind (on_store (sread (ctap_find_handle ops KEY_AAGUID))) (\<lambda>h.
      if h = None then on_store (set_aaguid ops aaguid) else sret ()) (s, r) = (x, (s', r'))"
  shows "invar s' \<and> x \<noteq> Panic \<and> r' = r
    \<and> (if content s KEY_AAGUID \<noteq> None then x = Ok () \<and> s' = s
       else content s' = (if x = Ok () then (content s)(KEY_AAGUID \<mapsto> aaguid) else content s))"
proof -
  obtain h where h: "ctap_find_handle ops KEY_AAGUID s = Ok h" "h = None \<longleftrightarrow> content s KEY_AAGUID = None"
    by (rule find_handle_cases [OF assms(1)])
  note run = on_store_def set_aaguid_def op_defs sbind_def
  show ?thesis
  proof (cases "content s KEY_AAGUID")
    case None
    obtain y t where yt: "ctap_insert ops KEY_AAGUID aaguid s = (y, t)" by (cases "ctap_insert ops KEY_AAGUID aaguid s")
    then have "x = y \<and> s' = t \<and> r' = r" using assms(2) h None by (auto simp: run)
    with ctap_insert_law [OF assms(1) yt] None show ?thesis by auto
  next
    case (Some v)
    with assms h show ?thesis by (auto simp: run)
  qed
qed

lemma store_init_spec:
  assumes "invar s" and gen: "gen r = (b1, r1)" "gen r1 = (b2, r2)" "gen r2 = (b3, r3)" "gen r3 = (b4, r4)"
    and empty: "content s KEY_MASTER_KEYS = None" "content s KEY_CRED_RANDOM_SECRET = None"
    and "store_init ops gen aaguid (s, r) = (x, (s', r'))"
  shows "invar s' \<and> x \<noteq> Panic
    \<and> (x = Ok () \<longrightarrow> r' = r4 \<and> content s' = (content s)
         (KEY_MASTER_KEYS \<mapsto> b1 @ b2, KEY_CRED_RANDOM_SECRET \<mapsto> b4 @ b3,
          KEY_AAGUID \<mapsto> (case content s KEY_AAGUID of None \<Rightarrow> aaguid | Some a \<Rightarrow> a)))
    \<and> (x \<noteq> Ok () \<longrightarrow> (\<forall>k. k \<notin> {KEY_MASTER_KEYS, KEY_CRED_RANDOM_SECRET} \<longrightarrow> content s' k = content s k))"
  using assms(8) unfolding store_init_def
proof (cases rule: sbindE)
  case (ok u st)
  obtain s1 q1 where st: "st = (s1, q1)" by (cases st)
  note i1 = init_secret_run [OF assms(1) gen(1,2) ok(1) [unfolded st]]
  then have c1: "q1 = r2" "content s1 = (content s)(KEY_MASTER_KEYS \<mapsto> b1 @ b2)" using empty(1) by auto
  have e2: "content s1 KEY_CRED_RANDOM_SECRET = None" using c1 empty(2) by (simp add: store_keys)
  from ok(2) show ?thesis
  proof (cases rule: sbindE)
    case (ok v st')
    obtain s2 q2 where st': "st' = (s2, q2)" by (cases st')
    note i2 = init_secret_run [OF conjunct1 [OF i1] gen(3,4) ok(1) [unfolded st st' c1(1)]]
    then have c2: "q2 = r4" "content s2 = (content s1)(KEY_CRED_RANDOM_SECRET \<mapsto> b4 @ b3)" using e2 by auto
    note i3 = init_aaguid_run [OF conjunct1 [OF i2] ok(2) [unfolded st']]
    have "content s2 KEY_AAGUID = content s KEY_AAGUID" using c1 c2 by (simp add: store_keys)
    with i3 c1 c2 show ?thesis by (auto split: option.splits if_splits)
  next
    case (err e)
    with init_secret_run [OF conjunct1 [OF i1] gen(3,4) err(1) [unfolded st c1(1)]] e2 c1 show ?thesis by auto
  next
    case panic
    with init_secret_run [OF conjunct1 [OF i1] gen(3,4) panic(1) [unfolded st c1(1)]] show ?thesis by auto
  qed
next
  case (err e)
  with init_secret_run [OF assms(1) gen(1,2) err(1)] empty(1) show ?thesis by auto
next
  case panic
  with init_secret_run [OF assms(1) gen(1,2) panic(1)] show ?thesis by auto
qed

lemma store_reset_spec:
  assumes "invar s" and gen: "gen r = (b1, r1)" "gen r1 = (b2, r2)" "gen r2 = (b3, r3)" "gen r3 = (b4, r4)"
    and "store_reset ops gen aaguid (s, r) = (x, (s', r'))"
  shows "invar s' \<and> x \<noteq> Panic
    \<and> (x = Ok () \<longrightarrow> r' = r4 \<and> content s' = (content s |` {..<NUM_PERSISTENT_KEYS})
         (KEY_MASTER_KEYS \<mapsto> b1 @ b2, KEY_CRED_RANDOM_SECRET \<mapsto> b4 @ b3,
          KEY_AAGUID \<mapsto> (case content s KEY_AAGUID of None \<Rightarrow> aaguid | Some a \<Rightarrow> a)))
    \<and> (x \<noteq> Ok () \<longrightarrow> content s' = content s
         \<or> (\<forall>k. k \<notin> {KEY_MASTER_KEYS, KEY_CRED_RANDOM_SECRET}
              \<longrightarrow> content s' k = (content s |` {..<NUM_PERSISTENT_KEYS}) k))"
proof -
  let ?c = "content s |` {..<NUM_PERSISTENT_KEYS}"
  from assms(6) show ?thesis unfolding store_reset_def
  proof (cases rule: sbindE)
    case (ok u st)
    obtain s1 r0 where st: "st = (s1, r0)" by (cases st)
    with ok(1) have clr: "ctap_clear ops NUM_PERSISTENT_KEYS s = (Ok (), s1)" "r0 = r"
      by (auto simp: on_store_def split: prod.splits)
    note c1 = ctap_clear_law [OF assms(1) clr(1)]
    from ok(2) st clr have init: "store_init ops gen aaguid (s1, r) = (x, (s', r'))" by simp
    have "invar s1" "content s1 = ?c" using c1 by simp_all
    moreover have "?c KEY_MASTER_KEYS = None" "?c KEY_CRED_RANDOM_SECRET = None" "?c KEY_AAGUID = content s KEY_AAGUID"
      by (simp_all add: store_keys)
    ultimately show ?thesis using store_init_spec [OF _ gen _ _ init] by simp
  qed (auto simp: on_store_def dest: ctap_clear_law [OF assms(1)] split: prod.splits)
qed

end

section \<open>Properties\<close>

text \<open>The abstract store of credentials: a set with one credential per account.\<close>

definition put_credential :: "credential_source \<Rightarrow> credential_source set \<Rightarrow> credential_source set" where
  "put_credential new S = insert new {c \<in> S. account c \<noteq> account new}"

text \<open>
  C17. Storing a credential refines an update of a set of credentials with one credential per account
  (relying party and user handle) and at most 150 members: over any store that keeps its contract, a
  successful \<open>store_credential\<close> replaces the credential of the account or adds it and touches no other
  key; a failed one changes nothing; with 150 credentials of other accounts it fails with
  \<open>KEY_STORE_FULL\<close>; and the invariant that keeps accounts apart is preserved.
\<close>

theorem store_credential_refines:
  assumes "key_value_store ops content invar" and "invar s" and "credentials_ok w (content s)"
    and "credential_ok w new" and "6 \<le> w" and "w \<le> 64" and "store_credential ops w new s = (r, s')"
  shows "invar s' \<and> credentials_ok w (content s')
    \<and> (r = Ok () \<longrightarrow> credentials w (content s') = put_credential new (credentials w (content s))
         \<and> (\<forall>k. \<not> is_credential_key k \<longrightarrow> content s' k = content s k))
    \<and> (r \<noteq> Ok () \<longrightarrow> r \<noteq> Panic \<and> content s' = content s)
    \<and> (account new \<notin> account ` credentials w (content s) \<and> card (credentials w (content s)) = 150
         \<longrightarrow> r = Err CTAP2_ERR_KEY_STORE_FULL)
    \<and> card (credentials w (content s')) \<le> 150"
  using key_value_store.store_credential_spec [OF assms] card_credentials [of w "content s'"]
  by (simp add: put_credential_def MAX_SUPPORTED_RESIDENTIAL_KEYS_def split: if_splits)

lemma model_new_ok: "model_ok (model_new fmt)"
  by (simp add: model_ok_def model_new_def model_capacity_def)

lemma model_new_credentials_ok: "credentials_ok w (map_of (model_content (model_new fmt)))"
  by (simp add: credentials_ok_def stored_def model_new_def)

lemma sample_source_ok: "credential_ok 32 sample_source"
  using int256_ONE_ok
  by (simp add: credential_ok_def source_ok_def sample_source_def text_ok_def str_simps utf8_valid.simps)

theorem store_credential_refines_witness:
  "\<exists>r s'. store_credential model_store_ops 32 sample_source (model_new nrf52840_format) = (r, s')
    \<and> model_ok s' \<and> (r = Ok () \<longrightarrow> credentials 32 (map_of (model_content s')) = {sample_source})"
proof -
  obtain r s' where run: "store_credential model_store_ops 32 sample_source (model_new nrf52840_format) = (r, s')"
    by fastforce
  have "credentials 32 (map_of (model_content (model_new nrf52840_format))) = {}"
    by (simp add: credentials_def ran_def stored_def model_new_def)
  then show ?thesis
    using store_credential_refines [OF abstract_store.key_value_store_axioms model_new_ok
        model_new_credentials_ok sample_source_ok _ _ run] run
    by (simp add: put_credential_def)
qed

text \<open>
  C18. Looking credentials up refines the set as well: \<open>find_credential\<close> returns a stored credential of
  the relying party with that identifier, hidden if it requires user verification and there is none,
  and answers nothing only if there is none; \<open>filter_credential\<close> lists, once each, exactly the stored
  credentials of the relying party (the discoverable ones without user verification).
\<close>

theorem credential_lookup_refines:
  assumes "key_value_store ops content invar" and "invar s" and "credentials_ok w (content s)"
  shows "((\<exists>c \<in> credentials w (content s). cs_rp_id c = rpid \<and> cs_id c = cid
         \<and> find_credential ops w s rpid cid check
           = Ok (if check \<and> cs_cred_protect_policy c = Some UserVerificationRequired then None else Some c))
      \<or> (\<forall>c \<in> credentials w (content s). \<not> (cs_rp_id c = rpid \<and> cs_id c = cid))
         \<and> find_credential ops w s rpid cid check = Ok None)
    \<and> (\<exists>cs. filter_credential ops w s rpid check = Ok cs \<and> distinct cs
         \<and> set cs = {c \<in> credentials w (content s). cs_rp_id c = rpid \<and> (check \<longrightarrow> is_discoverable c)})"
  using key_value_store.find_credential_spec [OF assms] key_value_store.filter_credential_spec [OF assms] by blast

theorem credential_lookup_refines_witness:
  "\<exists>cs. filter_credential model_store_ops 32 (model_new nrf52840_format) (str ''example.com'') True = Ok cs \<and> set cs = {}"
proof -
  have "credentials 32 (map_of (model_content (model_new nrf52840_format))) = {}"
    by (simp add: credentials_def ran_def stored_def model_new_def)
  then show ?thesis
    using credential_lookup_refines [OF abstract_store.key_value_store_axioms model_new_ok [of nrf52840_format]
        model_new_credentials_ok, where w = 32 and rpid = "str ''example.com''" and check = True and cid = "[]"]
    by auto
qed



end
