(* ===== verification/Syscall_Storage.thy ===== *)
theory Syscall_Storage
  imports Storage
begin

text \<open>
  The embedded flash of the firmware (\<open>src/embedded_flash/syscall.rs\<close>). The system calls of the kernel
  are a record of functions over a state of the kernel: \<open>command\<close> and \<open>memop\<close> with their result codes,
  \<open>allow\<close> with the slice it shares, and the memory that the storage locations are mapped into. A slice of
  the flash is its address and its length; reading it reads the memory. The locale \<open>flash_kernel\<close> states
  what the driver relies on; under it the driver implements the storage interface.
\<close>

record 'k kernel =
  kn_command :: "nat \<Rightarrow> nat \<Rightarrow> nat \<Rightarrow> nat \<Rightarrow> 'k \<Rightarrow> nat option \<times> 'k"
  kn_memop :: "nat \<Rightarrow> nat \<Rightarrow> 'k \<Rightarrow> int \<times> 'k"
  kn_allow :: "nat \<Rightarrow> nat \<Rightarrow> bytes \<Rightarrow> 'k \<Rightarrow> int \<times> 'k"
  kn_memory :: "'k \<Rightarrow> nat \<Rightarrow> u8"

definition FLASH_DRIVER_NUMBER :: nat where "FLASH_DRIVER_NUMBER = 0x50003"
definition FLASH_GET_INFO :: nat where "FLASH_GET_INFO = 1"
definition INFO_WORD_SIZE :: nat where "INFO_WORD_SIZE = 0"
definition INFO_PAGE_SIZE :: nat where "INFO_PAGE_SIZE = 1"
definition INFO_MAX_WORD_WRITES :: nat where "INFO_MAX_WORD_WRITES = 2"
definition INFO_MAX_PAGE_ERASES :: nat where "INFO_MAX_PAGE_ERASES = 3"
definition FLASH_WRITE_SLICE :: nat where "FLASH_WRITE_SLICE = 2"
definition FLASH_ERASE_PAGE :: nat where "FLASH_ERASE_PAGE = 3"
definition ALLOW_WRITE_SLICE :: nat where "ALLOW_WRITE_SLICE = 0"
definition MEMOP_STORAGE_CNT :: nat where "MEMOP_STORAGE_CNT = 12"
definition MEMOP_STORAGE_PTR :: nat where "MEMOP_STORAGE_PTR = 13"
definition MEMOP_STORAGE_LEN :: nat where "MEMOP_STORAGE_LEN = 14"

lemmas flash_call_numbers =
  FLASH_DRIVER_NUMBER_def FLASH_GET_INFO_def INFO_WORD_SIZE_def INFO_PAGE_SIZE_def INFO_MAX_WORD_WRITES_def
  INFO_MAX_PAGE_ERASES_def FLASH_WRITE_SLICE_def FLASH_ERASE_PAGE_def ALLOW_WRITE_SLICE_def MEMOP_STORAGE_CNT_def
  MEMOP_STORAGE_PTR_def MEMOP_STORAGE_LEN_def

section \<open>Opening the storage\<close>

type_synonym ('k, 'a) kernel_op = "('k, storage_error, 'a) op"

definition get_info :: "'k kernel \<Rightarrow> nat \<Rightarrow> nat \<Rightarrow> ('k, nat) kernel_op" where
  "get_info K nr arg = (\<lambda>k.
     case kn_command K FLASH_DRIVER_NUMBER FLASH_GET_INFO nr arg k of
       (Some v, k') \<Rightarrow> (Ok v, k')
     | (None, k') \<Rightarrow> (Err CustomError, k'))"

definition memop :: "'k kernel \<Rightarrow> nat \<Rightarrow> nat \<Rightarrow> ('k, nat) kernel_op" where
  "memop K nr arg = (\<lambda>k.
     case kn_memop K nr arg k of (code, k') \<Rightarrow> (if code < 0 then Err CustomError else Ok (nat code), k'))"

record syscall_storage =
  sys_word_size :: nat
  sys_page_size :: nat
  sys_num_pages :: nat
  sys_max_word_writes :: nat
  sys_max_page_erases :: nat
  sys_storage_locations :: "(nat \<times> nat) list"

text \<open>\<open>usize::is_power_of_two\<close>; a \<open>usize\<close> has at most 64 bits.\<close>

definition is_power_of_two :: "nat \<Rightarrow> bool" where
  "is_power_of_two n \<longleftrightarrow> (\<exists>i \<in> set [0..<64]. n = 2 ^ i)"

definition syscall_word_aligned :: "syscall_storage \<Rightarrow> nat \<Rightarrow> bool" where
  "syscall_word_aligned sys x \<longleftrightarrow> x AND (sys_word_size sys - 1) = 0"

definition syscall_page_aligned :: "syscall_storage \<Rightarrow> nat \<Rightarrow> bool" where
  "syscall_page_aligned sys x \<longleftrightarrow> x AND (sys_page_size sys - 1) = 0"

fun add_locations :: "'k kernel \<Rightarrow> nat list \<Rightarrow> nat \<Rightarrow> syscall_storage \<Rightarrow> ('k, nat \<times> syscall_storage) kernel_op" where
  "add_locations K [] num_pages sys = sret (num_pages, sys)"
| "add_locations K (i # is) num_pages sys =
     sbind (memop K MEMOP_STORAGE_PTR i) (\<lambda>storage_ptr.
     sbind (memop K MEMOP_STORAGE_LEN i) (\<lambda>max_storage_len.
     sbind (sguard (\<not> (\<not> syscall_page_aligned sys storage_ptr \<or> \<not> syscall_page_aligned sys max_storage_len)) CustomError) (\<lambda>_.
     let storage_len = min (num_pages * sys_page_size sys) max_storage_len in
       add_locations K is (num_pages - storage_len div sys_page_size sys)
         (sys\<lparr>sys_storage_locations := sys_storage_locations sys @ [(storage_ptr, storage_len)]\<rparr>))))"

definition syscall_storage_new :: "'k kernel \<Rightarrow> nat \<Rightarrow> ('k, syscall_storage) kernel_op" where
  "syscall_storage_new K num_pages =
     sbind (get_info K INFO_WORD_SIZE 0) (\<lambda>word_size.
     sbind (get_info K INFO_PAGE_SIZE 0) (\<lambda>page_size.
     sbind (get_info K INFO_MAX_WORD_WRITES 0) (\<lambda>max_word_writes.
     sbind (get_info K INFO_MAX_PAGE_ERASES 0) (\<lambda>max_page_erases.
     let sys = \<lparr>sys_word_size = word_size, sys_page_size = page_size, sys_num_pages = num_pages,
                sys_max_word_writes = max_word_writes, sys_max_page_erases = max_page_erases,
                sys_storage_locations = []\<rparr> in
     sbind (sguard (\<not> (\<not> is_power_of_two (sys_word_size sys) \<or> \<not> is_power_of_two (sys_page_size sys)
         \<or> \<not> syscall_word_aligned sys (sys_page_size sys))) CustomError) (\<lambda>_.
     sbind (memop K MEMOP_STORAGE_CNT 0) (\<lambda>cnt.
     sbind (add_locations K [0..<cnt] num_pages sys) (\<lambda>(num_pages, sys).
     sbind (sguard (\<not> num_pages > 0) OutOfBounds) (\<lambda>_.
       sret sys))))))))"

section \<open>Access\<close>

fun find_slice :: "(nat \<times> nat) list \<Rightarrow> nat \<Rightarrow> nat \<Rightarrow> storage_error + nat" where
  "find_slice [] start len = Inl OutOfBounds"
| "find_slice ((ptr, slice_len) # slices) start len =
     (if start \<ge> slice_len then find_slice slices (start - slice_len) len
      else if start + len > slice_len then Inl OutOfBounds
      else Inr (ptr + start))"

text \<open>The storage is the driver with the state of the kernel.\<close>

definition find_index :: "syscall_storage \<Rightarrow> storage_index \<Rightarrow> nat \<Rightarrow> storage_error + nat" where
  "find_index sys index len =
     rbind (index_range index len (sys_page_size sys) (sys_num_pages sys)) (\<lambda>start.
       find_slice (sys_storage_locations sys) start len)"

definition read_memory :: "'k kernel \<Rightarrow> 'k \<Rightarrow> nat \<Rightarrow> nat \<Rightarrow> bytes" where
  "read_memory K k ptr len = map (kn_memory K k) [ptr..<ptr + len]"

definition syscall_read_slice :: "'k kernel \<Rightarrow> syscall_storage \<times> 'k \<Rightarrow> storage_index \<Rightarrow> nat \<Rightarrow> (storage_error, bytes) outcome" where
  "syscall_read_slice K s index len =
     obind (lift (find_index (fst s) index len)) (\<lambda>ptr. Ok (read_memory K (snd s) ptr len))"

definition syscall_write_slice :: "'k kernel \<Rightarrow> syscall_storage \<times> 'k \<Rightarrow> storage_index \<Rightarrow> bytes \<Rightarrow> (storage_error, unit) outcome \<times> (syscall_storage \<times> 'k)" where
  "syscall_write_slice K = (\<lambda>(sys, k) index v.
     if \<not> syscall_word_aligned sys (si_byte index) \<or> \<not> syscall_word_aligned sys (length v) then (Err NotAligned, (sys, k))
     else
       (case find_index sys index (length v) of
          Inl e \<Rightarrow> (Err e, (sys, k))
        | Inr ptr \<Rightarrow>
            (case kn_allow K FLASH_DRIVER_NUMBER ALLOW_WRITE_SLICE v k of
               (code, k) \<Rightarrow>
                 if code < 0 then (Err CustomError, (sys, k))
                 else
                   (case kn_command K FLASH_DRIVER_NUMBER FLASH_WRITE_SLICE ptr (length v) k of
                      (None, k) \<Rightarrow> (Err CustomError, (sys, k))
                    | (Some _, k) \<Rightarrow> (Ok (), (sys, k))))))"

definition syscall_erase_page :: "'k kernel \<Rightarrow> syscall_storage \<times> 'k \<Rightarrow> nat \<Rightarrow> (storage_error, unit) outcome \<times> (syscall_storage \<times> 'k)" where
  "syscall_erase_page K = (\<lambda>(sys, k) page.
     let index = \<lparr>si_page = page, si_byte = 0\<rparr>; len = sys_page_size sys in
     case find_index sys index len of
       Inl e \<Rightarrow> (Err e, (sys, k))
     | Inr ptr \<Rightarrow>
         (case kn_command K FLASH_DRIVER_NUMBER FLASH_ERASE_PAGE ptr len k of
            (None, k) \<Rightarrow> (Err CustomError, (sys, k))
          | (Some _, k) \<Rightarrow> (Ok (), (sys, k))))"

definition syscall_ops :: "'k kernel \<Rightarrow> (syscall_storage \<times> 'k) storage_ops" where
  "syscall_ops K =
     \<lparr>sto_word_size = (\<lambda>s. sys_word_size (fst s)), sto_page_size = (\<lambda>s. sys_page_size (fst s)),
      sto_num_pages = (\<lambda>s. sys_num_pages (fst s)), sto_max_word_writes = (\<lambda>s. sys_max_word_writes (fst s)),
      sto_max_page_erases = (\<lambda>s. sys_max_page_erases (fst s)), sto_read_slice = syscall_read_slice K,
      sto_write_slice = syscall_write_slice K, sto_erase_page = syscall_erase_page K\<rparr>"

section \<open>Addresses\<close>

definition addresses :: "(nat \<times> nat) list \<Rightarrow> nat list" where
  "addresses locs = concat (map (\<lambda>(ptr, len). [ptr..<ptr + len]) locs)"

lemma addresses_simps [simp]:
  "addresses [] = []" "addresses ((ptr, len) # locs) = [ptr..<ptr + len] @ addresses locs"
  "addresses (locs @ [(ptr, len)]) = addresses locs @ [ptr..<ptr + len]"
  by (simp_all add: addresses_def)

lemma find_slice_addresses:
  "find_slice locs start len = Inr ptr \<Longrightarrow> take len (drop start (addresses locs)) = [ptr..<ptr + len]"
proof (induction locs arbitrary: start)
  case (Cons l locs)
  obtain p n where l: "l = (p, n)" by fastforce
  show ?case
  proof (cases "start \<ge> n")
    case True
    with Cons l show ?thesis by simp
  next
    case False
    with Cons.prems l have "ptr = p + start" "start + len \<le> n" by (auto split: if_splits)
    with False show ?thesis by (simp add: l take_upt)
  qed
qed simp

text \<open>A slice inside a page is found, since every location is a whole number of pages.\<close>

lemma find_slice_in_page:
  assumes "\<forall>(ptr, n) \<in> set locs. ps dvd n" and "(page + 1) * ps \<le> length (addresses locs)" and "byte + len \<le> ps" and "byte < ps"
  shows "\<exists>ptr. find_slice locs (page * ps + byte) len = Inr ptr"
  using assms(1,2)
proof (induction locs arbitrary: page)
  case (Cons l locs)
  obtain p n where l: "l = (p, n)" by fastforce
  from Cons.prems(1) l obtain m where n: "n = m * ps" by (auto simp: dvd_def mult.commute)
  show ?case
  proof (cases "m \<le> page")
    case True
    then have "page * ps + byte - n = (page - m) * ps + byte" "n \<le> page * ps + byte"
      using n by (simp_all add: diff_mult_distrib trans_le_add1)
    moreover have "(page - m + 1) * ps \<le> length (addresses locs)"
      using Cons.prems(2) True by (simp add: l n algebra_simps diff_mult_distrib)
    ultimately show ?thesis using Cons.IH [of "page - m"] Cons.prems(1) l by auto
  next
    case False
    then have "(page + 1) * ps \<le> n" using n by (metis Suc_eq_plus1 Suc_leI mult_le_mono1 not_le_imp_less)
    then have "page * ps + byte + len \<le> n" using assms(3) by simp
    moreover have "page * ps + byte < n" using assms(4) \<open>(page + 1) * ps \<le> n\<close> by (simp add: algebra_simps)
    ultimately show ?thesis using l by auto
  qed
qed (use assms(4) in simp)

section \<open>The kernel\<close>

text \<open>
  The kernel knows storage regions that do not overlap and reports them; its information calls change nothing. Once
  a slice is shared, a write of it inside the regions that only clears bits, if it succeeds, puts the slice into
  memory and leaves the rest of the regions alone; erasing sets all bits.
\<close>

locale flash_kernel =
  fixes K :: "'k kernel" and kernel_ok :: "'k \<Rightarrow> bool" and regions :: "(nat \<times> nat) list"
  assumes regions: "distinct (addresses regions)"
    and info: "kernel_ok k \<Longrightarrow> kn_command K FLASH_DRIVER_NUMBER FLASH_GET_INFO nr arg k = (i, k') \<Longrightarrow> k' = k"
    and memops: "kernel_ok k \<Longrightarrow> kn_memop K nr arg k = (c, k') \<Longrightarrow> k' = k"
    and memop_regions: "kernel_ok k \<Longrightarrow> kn_memop K MEMOP_STORAGE_CNT 0 k = (int (length regions), k)
      \<and> (\<forall>i < length regions. kn_memop K MEMOP_STORAGE_PTR i k = (int (fst (regions ! i)), k)
          \<and> kn_memop K MEMOP_STORAGE_LEN i k = (int (snd (regions ! i)), k))"
    and write_law: "kernel_ok k \<Longrightarrow> set [ptr..<ptr + length v] \<subseteq> set (addresses regions)
      \<Longrightarrow> list_all2 (\<lambda>old new. old AND new = new) (map (kn_memory K k) [ptr..<ptr + length v]) v
      \<Longrightarrow> kn_allow K FLASH_DRIVER_NUMBER ALLOW_WRITE_SLICE v k = (c, k1) \<Longrightarrow> 0 \<le> c
      \<Longrightarrow> kn_command K FLASH_DRIVER_NUMBER FLASH_WRITE_SLICE ptr (length v) k1 = (Some x, k2)
      \<Longrightarrow> kernel_ok k2 \<and> (\<forall>a \<in> set (addresses regions). kn_memory K k2 a =
            (if a \<in> {ptr..<ptr + length v} then v ! (a - ptr) else kn_memory K k a))"
    and erase_law: "kernel_ok k \<Longrightarrow> set [ptr..<ptr + len] \<subseteq> set (addresses regions)
      \<Longrightarrow> kn_command K FLASH_DRIVER_NUMBER FLASH_ERASE_PAGE ptr len k = (Some x, k')
      \<Longrightarrow> kernel_ok k' \<and> (\<forall>a \<in> set (addresses regions). kn_memory K k' a =
            (if a \<in> {ptr..<ptr + len} then 0xff else kn_memory K k a))"

text \<open>A driver that was opened for \<open>np\<close> pages: its locations are whole pages of the regions.\<close>

definition driver_ok :: "(nat \<times> nat) list \<Rightarrow> nat \<Rightarrow> nat \<Rightarrow> nat \<Rightarrow> syscall_storage \<Rightarrow> bool" where
  "driver_ok regions ws ps np sys \<longleftrightarrow>
     sys_word_size sys = ws \<and> sys_page_size sys = ps \<and> sys_num_pages sys = np \<and> is_power_of_two ws \<and> is_power_of_two ps
     \<and> (\<forall>(ptr, n) \<in> set (sys_storage_locations sys). ps dvd n)
     \<and> length (addresses (sys_storage_locations sys)) = np * ps
     \<and> distinct (addresses (sys_storage_locations sys))
     \<and> set (addresses (sys_storage_locations sys)) \<subseteq> set (addresses regions)"

definition page_addresses :: "syscall_storage \<Rightarrow> nat \<Rightarrow> nat list" where
  "page_addresses sys p = take (sys_page_size sys) (drop (p * sys_page_size sys) (addresses (sys_storage_locations sys)))"

definition page_content :: "'k kernel \<Rightarrow> syscall_storage \<times> 'k \<Rightarrow> nat \<Rightarrow> bytes" where
  "page_content K s p = map (kn_memory K (snd s)) (page_addresses (fst s) p)"

lemma aligned_dvd: "is_power_of_two n \<Longrightarrow> x AND (n - 1) = 0 \<longleftrightarrow> n dvd x"
  by (auto simp: is_power_of_two_def dvd_eq_mod_eq_0 take_bit_eq_mod [symmetric] take_bit_eq_mask mask_eq_exp_minus_1)

lemma index_found:
  assumes "driver_ok regions ws ps np sys" and "index_is_valid i len ps np" and "si_byte i < ps"
  obtains ptr where "find_index sys i len = Inr ptr"
    and "[ptr..<ptr + len] = take len (drop (si_byte i) (page_addresses sys (si_page i)))"
    and "length (page_addresses sys (si_page i)) = ps"
proof -
  note ok = assms(1) [unfolded driver_ok_def]
  let ?locs = "sys_storage_locations sys"
  have fits: "si_byte i + len \<le> ps" "si_page i < np" using assms(2,3) by (auto simp: index_is_valid_def)
  have "(si_page i + 1) * ps \<le> np * ps" using fits(2) by (intro mult_le_mono1) simp
  then have enough: "(si_page i + 1) * ps \<le> length (addresses ?locs)" using ok by simp
  then obtain ptr where ptr: "find_slice ?locs (si_page i * ps + si_byte i) len = Inr ptr"
    using find_slice_in_page [of ?locs ps "si_page i" "si_byte i" len] ok fits assms(3) by auto
  have "take len (drop (si_byte i) (take ps (drop (si_page i * ps) (addresses ?locs))))
      = take len (drop (si_page i * ps + si_byte i) (addresses ?locs))"
    using fits(1) by (simp add: drop_take min_absorb1 add.commute)
  with find_slice_addresses [OF ptr] ok have "[ptr..<ptr + len] = take len (drop (si_byte i) (page_addresses sys (si_page i)))"
    by (simp add: page_addresses_def)
  moreover have "length (page_addresses sys (si_page i)) = ps" using enough ok by (simp add: page_addresses_def)
  moreover have "find_index sys i len = Inr ptr" using ok ptr assms(2) by (simp add: find_index_def index_range_def)
  ultimately show thesis using that by blast
qed

text \<open>Memory that changes only in one slice of a page changes only that slice of the content.\<close>

lemma page_content_update:
  assumes ok: "driver_ok regions ws ps np sys" and i: "index_is_valid i len ps np" "si_byte i < ps"
    and ptr: "[ptr..<ptr + len] = take len (drop (si_byte i) (page_addresses sys (si_page i)))"
    and len: "length (page_addresses sys (si_page i)) = ps" "length v = len"
    and mem: "\<forall>a \<in> set (addresses regions). kn_memory K k' a =
      (if a \<in> {ptr..<ptr + len} then v ! (a - ptr) else kn_memory K k a)"
  shows "page_content K (sys, k') = (page_content K (sys, k))(si_page i :=
    take (si_byte i) (page_content K (sys, k) (si_page i)) @ v @ drop (si_byte i + len) (page_content K (sys, k) (si_page i)))"
proof
  fix p
  note okd = ok [unfolded driver_ok_def]
  let ?A = "addresses (sys_storage_locations sys)"
  have sub: "set (page_addresses sys p) \<subseteq> set (addresses regions)" for p
    using okd unfolding page_addresses_def by (meson in_set_dropD in_set_takeD subset_iff)
  have at: "page_addresses sys p ! j = ?A ! (p * ps + j)" if "j < length (page_addresses sys p)" for p j
  proof -
    have "j < length ?A - p * ps" "j < ps" using that okd by (simp_all add: page_addresses_def)
    then have "p * ps \<le> length ?A" "j < ps" by linarith+
    then show ?thesis using okd by (simp add: page_addresses_def)
  qed
  have fits: "si_byte i + len \<le> ps" "si_page i < np" using i by (auto simp: index_is_valid_def)
  have slice: "ptr + j = page_addresses sys (si_page i) ! (si_byte i + j)" if "j < len" for j
  proof -
    have "ptr + j = [ptr..<ptr + len] ! j" using that by simp
    also have "\<dots> = page_addresses sys (si_page i) ! (si_byte i + j)" using that len(1) fits(1) unfolding ptr by simp
    finally show ?thesis .
  qed
  show "page_content K (sys, k') p = ((page_content K (sys, k))(si_page i :=
    take (si_byte i) (page_content K (sys, k) (si_page i)) @ v @ drop (si_byte i + len) (page_content K (sys, k) (si_page i)))) p"
  proof (rule nth_equalityI)
    show "length (page_content K (sys, k') p) = length (((page_content K (sys, k))(si_page i :=
      take (si_byte i) (page_content K (sys, k) (si_page i)) @ v @ drop (si_byte i + len) (page_content K (sys, k) (si_page i)))) p)"
      using len fits by (auto simp: page_content_def)
  next
    fix j assume "j < length (page_content K (sys, k') p)"
    then have j: "j < length (page_addresses sys p)" by (simp add: page_content_def)
    let ?a = "page_addresses sys p ! j"
    have in_slice: "?a \<in> {ptr..<ptr + len} \<longleftrightarrow> p = si_page i \<and> si_byte i \<le> j \<and> j < si_byte i + len"
    proof
      assume "?a \<in> {ptr..<ptr + len}"
      then obtain n where n: "n < len" "?a = ptr + n" by (metis atLeastLessThan_iff le_Suc_ex nat_add_left_cancel_less)
      with slice have "?A ! (p * ps + j) = ?A ! (si_page i * ps + (si_byte i + n))" using at j fits(1) len(1) by simp
      moreover have "p * ps + j < length ?A" using j okd by (auto simp: page_addresses_def)
      moreover have "si_page i * ps + (si_byte i + n) < length ?A"
      proof -
        have "si_page i * ps + (si_byte i + n) < (si_page i + 1) * ps" using n(1) fits(1) by simp
        also have "\<dots> \<le> np * ps" using fits(2) by (intro mult_le_mono1) simp
        finally show ?thesis using okd by simp
      qed
      ultimately have eq: "p * ps + j = si_page i * ps + (si_byte i + n)" using okd by (simp add: nth_eq_iff_index_eq)
      have "j < ps" using j okd by (simp add: page_addresses_def)
      have "p = (p * ps + j) div ps" using \<open>j < ps\<close> by simp
      also have "\<dots> = si_page i" using n(1) fits(1) unfolding eq by simp
      finally have "p = si_page i" .
      with eq n(1) show "p = si_page i \<and> si_byte i \<le> j \<and> j < si_byte i + len" by simp
    next
      assume r: "p = si_page i \<and> si_byte i \<le> j \<and> j < si_byte i + len"
      then have "j - si_byte i < len" by linarith
      from slice [OF this] r have "?a = ptr + (j - si_byte i)" by simp
      with r show "?a \<in> {ptr..<ptr + len}" by auto
    qed
    have v: "?a - ptr = j - si_byte i" if r: "p = si_page i" "si_byte i \<le> j" "j < si_byte i + len"
    proof -
      have "j - si_byte i < len" using r by linarith
      from slice [OF this] r show ?thesis by simp
    qed
    have "kn_memory K k' ?a = (if ?a \<in> {ptr..<ptr + len} then v ! (?a - ptr) else kn_memory K k ?a)"
      using mem sub j nth_mem by blast
    then show "page_content K (sys, k') p ! j = ((page_content K (sys, k))(si_page i :=
      take (si_byte i) (page_content K (sys, k) (si_page i)) @ v @ drop (si_byte i + len) (page_content K (sys, k) (si_page i)))) p ! j"
      unfolding in_slice using j v len fits by (auto simp: page_content_def nth_append)
  qed
qed

text \<open>Locations that cut regions short.\<close>

definition shrunk :: "(nat \<times> nat) list \<Rightarrow> (nat \<times> nat) list \<Rightarrow> bool" where
  "shrunk = list_all2 (\<lambda>(ptr, n) (ptr', m). ptr = ptr' \<and> n \<le> m)"

lemma shrunk_addresses:
  assumes "shrunk locs rs" and "distinct (addresses rs)"
  shows "distinct (addresses locs) \<and> set (addresses locs) \<subseteq> set (addresses rs)"
  using assms unfolding shrunk_def
  by (induction locs rs rule: list_all2_induct) (auto, fastforce)

context flash_kernel
begin

lemma driver_flash:
  "flash (syscall_ops K) (\<lambda>(sys, k). driver_ok regions ws ps np sys \<and> kernel_ok k) (page_content K) ws ps np"
proof (unfold_locales, goal_cases)
  case (1 s)
  then show ?case by (auto simp: syscall_ops_def driver_ok_def)
next
  case (2 s p)
  then obtain sys k where s: "s = (sys, k)" "driver_ok regions ws ps np sys" by auto
  have "0 < ps" using s(2) by (auto simp: driver_ok_def is_power_of_two_def)
  with 2 show ?case using index_found [OF s(2), of "\<lparr>si_page = p, si_byte = 0\<rparr>" 0]
    by (auto simp: s(1) page_content_def index_is_valid_def)
next
  case (3 s i len)
  then obtain sys k where s: "s = (sys, k)" "driver_ok regions ws ps np sys" by auto
  obtain ptr where "find_index sys i len = Inr ptr"
    "[ptr..<ptr + len] = take len (drop (si_byte i) (page_addresses sys (si_page i)))"
    by (rule index_found [OF s(2) 3(2,3)])
  then show ?case by (simp add: s(1) syscall_ops_def syscall_read_slice_def read_memory_def page_content_def take_map drop_map)
next
  case (4 s i v r s')
  then obtain sys k where s: "s = (sys, k)" "driver_ok regions ws ps np sys" "kernel_ok k" by auto
  obtain ptr where ptr: "find_index sys i (length v) = Inr ptr"
    "[ptr..<ptr + length v] = take (length v) (drop (si_byte i) (page_addresses sys (si_page i)))"
    "length (page_addresses sys (si_page i)) = ps"
    by (rule index_found [OF s(2) 4(2,3)])
  from 4(7,8) s ptr(1) obtain c k1 x k2 where calls:
    "kn_allow K FLASH_DRIVER_NUMBER ALLOW_WRITE_SLICE v k = (c, k1)" "0 \<le> c"
    "kn_command K FLASH_DRIVER_NUMBER FLASH_WRITE_SLICE ptr (length v) k1 = (Some x, k2)" "s' = (sys, k2)"
    by (auto simp: syscall_ops_def syscall_write_slice_def split: prod.splits if_splits option.splits)
  have in_regions: "set [ptr..<ptr + length v] \<subseteq> set (addresses regions)"
    using s(2) unfolding ptr(2) page_addresses_def driver_ok_def by (meson in_set_dropD in_set_takeD subset_iff)
  have clears: "list_all2 (\<lambda>old new. old AND new = new) (map (kn_memory K k) [ptr..<ptr + length v]) v"
    using 4(6) unfolding ptr(2) by (simp add: s(1) page_content_def take_map drop_map)
  note law = write_law [OF s(3) in_regions clears calls(1,2,3)]
  from page_content_update [OF s(2) 4(2,3) ptr(2,3) refl law [THEN conjunct2]] law s calls(4) show ?case by simp
next
  case (5 s p r s')
  then obtain sys k where s: "s = (sys, k)" "driver_ok regions ws ps np sys" "kernel_ok k" by auto
  let ?i = "\<lparr>si_page = p, si_byte = 0\<rparr>"
  have "0 < ps" using s(2) by (auto simp: driver_ok_def is_power_of_two_def)
  with 5(2) have i: "index_is_valid ?i ps ps np" "si_byte ?i < ps" by (simp_all add: index_is_valid_def)
  obtain ptr where ptr: "find_index sys ?i ps = Inr ptr"
    "[ptr..<ptr + ps] = take ps (drop (si_byte ?i) (page_addresses sys (si_page ?i)))"
    "length (page_addresses sys (si_page ?i)) = ps"
    by (rule index_found [OF s(2) i])
  from 5(3,4) s ptr(1) obtain x k2 where calls:
    "kn_command K FLASH_DRIVER_NUMBER FLASH_ERASE_PAGE ptr ps k = (Some x, k2)" "s' = (sys, k2)"
    by (auto simp: syscall_ops_def syscall_erase_page_def driver_ok_def Let_def split: prod.splits if_splits option.splits)
  have in_regions: "set [ptr..<ptr + ps] \<subseteq> set (addresses regions)"
    using s(2) unfolding ptr(2) page_addresses_def driver_ok_def by (meson in_set_dropD in_set_takeD subset_iff)
  note law = erase_law [OF s(3) in_regions calls(1)]
  then have "\<forall>a \<in> set (addresses regions). kn_memory K k2 a =
      (if a \<in> {ptr..<ptr + ps} then replicate ps 0xff ! (a - ptr) else kn_memory K k a)" by auto
  from page_content_update [OF s(2) i ptr(2,3) _ this] law s calls(2) ptr(3) show ?case by (simp add: page_content_def)
qed

lemma add_locations_law:
  assumes "kernel_ok k" and "shrunk (sys_storage_locations sys) (take n regions)" and "n \<le> length regions"
    and "\<forall>(ptr, m) \<in> set (sys_storage_locations sys). sys_page_size sys dvd m" and "is_power_of_two (sys_page_size sys)"
    and "length (addresses (sys_storage_locations sys)) + num_pages * sys_page_size sys = whole"
    and "add_locations K [n..<length regions] num_pages sys k = (Ok (rest, sys'), k')"
  shows "k' = k \<and> shrunk (sys_storage_locations sys') regions
    \<and> (\<forall>(ptr, m) \<in> set (sys_storage_locations sys'). sys_page_size sys dvd m)
    \<and> length (addresses (sys_storage_locations sys')) + rest * sys_page_size sys = whole
    \<and> sys_word_size sys' = sys_word_size sys \<and> sys_page_size sys' = sys_page_size sys \<and> sys_num_pages sys' = sys_num_pages sys"
  using assms(2-4,6,7) assms(5)
proof (induction "length regions - n" arbitrary: n num_pages sys)
  case 0
  then have "[n..<length regions] = []" "take n regions = regions" by simp_all
  with 0 show ?case by (auto simp: sret_def)
next
  case (Suc d)
  then have n: "n < length regions" by simp
  obtain ptr m where r: "regions ! n = (ptr, m)" by fastforce
  let ?ps = "sys_page_size sys" and ?len = "min (num_pages * sys_page_size sys) m"
  let ?sys = "sys\<lparr>sys_storage_locations := sys_storage_locations sys @ [(ptr, ?len)]\<rparr>"
  have upt: "[n..<length regions] = n # [Suc n..<length regions]" using n by (simp add: upt_conv_Cons)
  have calls: "memop K MEMOP_STORAGE_PTR n k = (Ok ptr, k)" "memop K MEMOP_STORAGE_LEN n k = (Ok m, k)"
    using memop_regions [OF assms(1)] n r by (simp_all add: memop_def)
  from Suc.prems(5) have page: "syscall_page_aligned sys ptr" "syscall_page_aligned sys m"
    and run: "add_locations K [Suc n..<length regions] (num_pages - ?len div ?ps) ?sys k = (Ok (rest, sys'), k')"
    unfolding upt by (auto simp: sbind_def calls op_defs Let_def split: if_splits)
  have dvd: "?ps dvd ?len" using page(2) aligned_dvd [OF Suc.prems(6), of m] by (simp add: syscall_page_aligned_def min_def)
  have "0 < ?ps" using Suc.prems(6) by (auto simp: is_power_of_two_def)
  then have "(num_pages - ?len div ?ps) * ?ps = num_pages * ?ps - ?len" using dvd by (simp add: diff_mult_distrib)
  then have whole: "length (addresses (sys_storage_locations ?sys)) + (num_pages - ?len div ?ps) * sys_page_size ?sys = whole"
    using Suc.prems(4) by simp
  have "shrunk (sys_storage_locations ?sys) (take (Suc n) regions)"
    using Suc.prems(1) n r by (simp add: shrunk_def take_Suc_conv_app_nth list_all2_appendI)
  with Suc.hyps(1) [of "Suc n" ?sys "num_pages - ?len div ?ps"] Suc.hyps(2) Suc.prems(3,6) n dvd whole run
  show ?case by auto
qed

lemma syscall_storage_new_law:
  assumes "kernel_ok k" and "syscall_storage_new K num_pages k = (Ok sys, k')"
  shows "k' = k \<and> driver_ok regions (sys_word_size sys) (sys_page_size sys) num_pages sys"
proof -
  have info_same: "get_info K nr arg k = (r, k1) \<Longrightarrow> k1 = k" for nr arg r k1
    using info [OF assms(1)] by (auto simp: get_info_def split: prod.splits option.splits)
  from assms(2) obtain ws ps mw me k1 k2 k3 k4 cnt k5 rest where
    calls: "get_info K INFO_WORD_SIZE 0 k = (Ok ws, k1)" "get_info K INFO_PAGE_SIZE 0 k1 = (Ok ps, k2)"
      "get_info K INFO_MAX_WORD_WRITES 0 k2 = (Ok mw, k3)" "get_info K INFO_MAX_PAGE_ERASES 0 k3 = (Ok me, k4)"
    and pow: "is_power_of_two ws" "is_power_of_two ps"
    and cnt: "memop K MEMOP_STORAGE_CNT 0 k4 = (Ok cnt, k5)"
    and locs: "add_locations K [0..<cnt] num_pages \<lparr>sys_word_size = ws, sys_page_size = ps, sys_num_pages = num_pages,
        sys_max_word_writes = mw, sys_max_page_erases = me, sys_storage_locations = []\<rparr> k5 = (Ok (rest, sys), k')"
    and rest: "rest = 0"
    unfolding syscall_storage_new_def sbind_Ok Let_def
    by (auto simp: sbind_Ok op_defs split: if_splits)
  note same = info_same calls
  have k: "k1 = k" "k2 = k" "k3 = k" "k4 = k" using calls info_same by metis+
  have "cnt = length regions \<and> k5 = k" using cnt memop_regions [OF assms(1)] by (auto simp: memop_def k)
  with add_locations_law [OF assms(1), of "\<lparr>sys_word_size = ws, sys_page_size = ps, sys_num_pages = num_pages,
        sys_max_word_writes = mw, sys_max_page_erases = me, sys_storage_locations = []\<rparr>" 0 num_pages "num_pages * ps" rest sys k'] locs pow rest
  have "k' = k" "shrunk (sys_storage_locations sys) regions" "\<forall>(ptr, m) \<in> set (sys_storage_locations sys). ps dvd m"
    "length (addresses (sys_storage_locations sys)) = num_pages * ps"
    "sys_word_size sys = ws" "sys_page_size sys = ps" "sys_num_pages sys = num_pages"
    by (simp_all add: shrunk_def)
  with shrunk_addresses [OF _ regions] pow show ?thesis by (simp add: driver_ok_def)
qed

end

text \<open>
  The contract holds of a kernel that simulates a memory: it remembers the slice that was shared last and refuses to
  write anything else.
\<close>

record sim_kernel =
  sim_memory :: "nat \<Rightarrow> u8"
  sim_shared :: bytes

definition sim_memop :: "(nat \<times> nat) list \<Rightarrow> nat \<Rightarrow> nat \<Rightarrow> int" where
  "sim_memop rs nr arg =
     (if nr = MEMOP_STORAGE_CNT then int (length rs)
      else if arg \<ge> length rs then - 1
      else if nr = MEMOP_STORAGE_PTR then int (fst (rs ! arg))
      else if nr = MEMOP_STORAGE_LEN then int (snd (rs ! arg)) else - 1)"

definition sim_command :: "nat \<Rightarrow> nat \<Rightarrow> nat \<Rightarrow> nat \<Rightarrow> sim_kernel \<Rightarrow> nat option \<times> sim_kernel" where
  "sim_command driver nr a b k =
     (if driver \<noteq> FLASH_DRIVER_NUMBER then (None, k)
      else if nr = FLASH_GET_INFO then (if a < 4 then Some ([4, 4096, 2, 10000] ! a) else None, k)
      else if nr = FLASH_WRITE_SLICE then
        (if b \<noteq> length (sim_shared k) then (None, k)
         else (Some 0, k\<lparr>sim_memory := \<lambda>x. if x \<in> {a..<a + b} then sim_shared k ! (x - a) else sim_memory k x\<rparr>))
      else if nr = FLASH_ERASE_PAGE then
        (Some 0, k\<lparr>sim_memory := \<lambda>x. if x \<in> {a..<a + b} then 0xff else sim_memory k x\<rparr>)
      else (None, k))"

definition sim_kernel_ops :: "(nat \<times> nat) list \<Rightarrow> sim_kernel kernel" where
  "sim_kernel_ops rs =
     \<lparr>kn_command = sim_command, kn_memop = (\<lambda>nr arg k. (sim_memop rs nr arg, k)),
      kn_allow = (\<lambda>driver nr v k. (0, k\<lparr>sim_shared := v\<rparr>)), kn_memory = sim_memory\<rparr>"

lemma sim_flash_kernel: "distinct (addresses rs) \<Longrightarrow> flash_kernel (sim_kernel_ops rs) (\<lambda>_. True) rs"
  by unfold_locales (auto simp: sim_kernel_ops_def sim_command_def sim_memop_def flash_call_numbers split: if_splits)

definition board_regions :: "(nat \<times> nat) list" where
  "board_regions = [(0xC0000, 0x20000), (0xE0000, 0x20000)]"

lemma two_regions_distinct: "p + n \<le> q \<Longrightarrow> distinct (addresses [(p, n), (q, m)])"
  by auto

interpretation board_kernel: flash_kernel "sim_kernel_ops board_regions" "\<lambda>_. True" board_regions
  unfolding board_regions_def by (rule sim_flash_kernel, rule two_regions_distinct) simp

text \<open>
  C20. The flash driver of the firmware implements the storage interface. Over any kernel that keeps its contract,
  opening the storage gives exactly the requested number of pages of the board's regions, and the driver then
  reads, writes and erases as the contract of the storage says: a slice is found across the regions, a
  successful write changes exactly its bytes, and erasing a page changes exactly that page.
\<close>

theorem syscall_storage_refines_flash:
  assumes "flash_kernel K kernel_ok regions" and "kernel_ok k" and "syscall_storage_new K num_pages k = (Ok sys, k')"
  shows "kernel_ok k' \<and> driver_ok regions (sys_word_size sys) (sys_page_size sys) num_pages sys
    \<and> flash (syscall_ops K) (\<lambda>(sys', k). driver_ok regions (sys_word_size sys) (sys_page_size sys) num_pages sys' \<and> kernel_ok k)
        (page_content K) (sys_word_size sys) (sys_page_size sys) num_pages"
  using flash_kernel.syscall_storage_new_law [OF assms] flash_kernel.driver_flash [OF assms(1)] assms(2) by blast

theorem syscall_storage_refines_flash_witness:
  "\<exists>sys. syscall_storage_new (sim_kernel_ops board_regions) 40 \<lparr>sim_memory = \<lambda>_. 0xff, sim_shared = []\<rparr>
      = (Ok sys, \<lparr>sim_memory = \<lambda>_. 0xff, sim_shared = []\<rparr>)
    \<and> sys_storage_locations sys = [(0xC0000, 0x20000), (0xE0000, 0x8000)]
    \<and> driver_ok board_regions (sys_word_size sys) (sys_page_size sys) 40 sys"
proof -
  let ?k = "\<lparr>sim_memory = \<lambda>_. 0xff, sim_shared = []\<rparr>"
  let ?sys = "\<lparr>sys_word_size = 4, sys_page_size = 4096, sys_num_pages = 40, sys_max_word_writes = 2, sys_max_page_erases = 10000,
    sys_storage_locations = [(0xC0000, 0x20000), (0xE0000, 0x8000)]\<rparr>"
  have two: "i < 64 \<Longrightarrow> is_power_of_two (2 ^ i)" for i
    by (auto simp: is_power_of_two_def simp del: upt_rec_numeral)
  have pow: "is_power_of_two 4" "is_power_of_two 4096" using two [of 2] two [of 12] by simp_all
  have cnt: "[0..<2] = [0, 1 :: nat]" by (simp add: upt_rec)
  have run: "syscall_storage_new (sim_kernel_ops board_regions) 40 ?k = (Ok ?sys, ?k)"
    using aligned_dvd [OF pow(1)] aligned_dvd [OF pow(2)]
    by (simp add: syscall_storage_new_def get_info_def memop_def sim_kernel_ops_def sim_command_def sim_memop_def flash_call_numbers
        sbind_def op_defs Let_def pow syscall_word_aligned_def syscall_page_aligned_def cnt board_regions_def)
  from syscall_storage_refines_flash [OF board_kernel.flash_kernel_axioms _ run] run show ?thesis by auto
qed

end
