(* ===== verification/Usb_Driver.thy ===== *)
theory Usb_Driver
  imports Timer Effects
begin

text \<open>
  The USB driver of the firmware (\<open>third_party/libtock-drivers/src/usb_ctap_hid.rs\<close>) over the system calls of
  the kernel, which are a record of functions on a state of the kernel. Callbacks run while the application
  yields: \<open>yieldk_for\<close> takes events from the kernel until its condition holds, and never returns if it never
  does. \<^const>\<open>Panic\<close> stands for a panic and for a wait that never ends.
\<close>

datatype kernel_event = UsbCallback nat | AlarmCallback | ButtonCallback bool | OtherCallback

datatype stop_result = AlarmStopped | AlarmAlready | AlarmError

text \<open>The result code of a command: a success, the codes \<open>EALREADY\<close> and \<open>EBUSY\<close>, or another error.\<close>

datatype result_code = TockSuccess | TockAlready | TockBusy | TockError

record 'e board =
  bd_allow :: "nat \<Rightarrow> nat \<Rightarrow> bytes \<Rightarrow> 'e \<Rightarrow> bool \<times> 'e"
  bd_subscribe :: "nat \<Rightarrow> nat \<Rightarrow> 'e \<Rightarrow> bool \<times> 'e"
  bd_command :: "nat \<Rightarrow> nat \<Rightarrow> 'e \<Rightarrow> result_code \<times> 'e"
  bd_buffer :: "'e \<Rightarrow> bytes"
  bd_event :: "'e \<Rightarrow> kernel_event \<times> 'e"
  bd_timer_init :: "'e \<Rightarrow> bool \<times> 'e"
  bd_set_alarm :: "isize32 \<Rightarrow> 'e \<Rightarrow> bool \<times> 'e"
  bd_stop_alarm :: "'e \<Rightarrow> stop_result \<times> 'e"
  bd_clock :: "'e \<Rightarrow> clock_value option \<times> 'e"
  bd_buttons_init :: "'e \<Rightarrow> bool \<times> 'e"
  bd_buttons_enable :: "'e \<Rightarrow> bool \<times> 'e"
  bd_buttons_disable :: "'e \<Rightarrow> bool \<times> 'e"
  bd_led_count :: "'e \<Rightarrow> nat option \<times> 'e"
  bd_led_set :: "nat \<Rightarrow> bool \<Rightarrow> 'e \<Rightarrow> bool \<times> 'e"

text \<open>\<open>util::yieldk_for\<close>: the callbacks update \<open>f\<close> until the condition holds.\<close>

partial_function (option) yieldk_for :: "('e \<Rightarrow> kernel_event \<times> 'e) \<Rightarrow> (kernel_event \<Rightarrow> 'f \<Rightarrow> 'f) \<Rightarrow> ('f \<Rightarrow> bool) \<Rightarrow> 'f \<Rightarrow> 'e \<Rightarrow> ('f \<times> 'e) option" where
  "yieldk_for event callback cond f e =
     (if cond f then Some (f, e)
      else case event e of (ev, e') \<Rightarrow> yieldk_for event callback cond (callback ev f) e')"

definition wait_for :: "'e board \<Rightarrow> (kernel_event \<Rightarrow> 'f \<Rightarrow> 'f) \<Rightarrow> ('f \<Rightarrow> bool) \<Rightarrow> 'f \<Rightarrow> ('e, 'x, 'f) op" where
  "wait_for B callback cond f = (\<lambda>e.
     case yieldk_for (bd_event B) callback cond f e of None \<Rightarrow> (Panic, e) | Some (f', e') \<Rightarrow> (Ok f', e'))"

text \<open>A system call that must succeed (\<open>flex_unwrap\<close>), and one whose failure is returned early.\<close>

definition must :: "('e \<Rightarrow> bool \<times> 'e) \<Rightarrow> ('e, 'x, unit) op" where
  "must call = (\<lambda>e. case call e of (ok, e') \<Rightarrow> (if ok then Ok () else Panic, e'))"

definition must_get :: "('e \<Rightarrow> 'a option \<times> 'e) \<Rightarrow> ('e, 'x, 'a) op" where
  "must_get call = (\<lambda>e. case call e of (v, e') \<Rightarrow> (case v of Some x \<Rightarrow> Ok x | None \<Rightarrow> Panic, e'))"

definition try_call :: "('e \<Rightarrow> bool \<times> 'e) \<Rightarrow> 'x \<Rightarrow> ('e, 'x, unit) op" where
  "try_call call failed = (\<lambda>e. case call e of (ok, e') \<Rightarrow> (if ok then Ok () else Err failed, e'))"

text \<open>The value that a function returns, early or not.\<close>

definition returning :: "('e, 'a, 'a) op \<Rightarrow> ('e, 'x, 'a) op" where
  "returning m = (\<lambda>e. case m e of (Ok x, e') \<Rightarrow> (Ok x, e') | (Err x, e') \<Rightarrow> (Ok x, e') | (Panic, e') \<Rightarrow> (Panic, e'))"

section \<open>The driver\<close>

definition USB_DRIVER_NUMBER :: nat where "USB_DRIVER_NUMBER = 0x20009"
definition USB_CHECK :: nat where "USB_CHECK = 0"
definition USB_CONNECT :: nat where "USB_CONNECT = 1"
definition USB_TRANSMIT :: nat where "USB_TRANSMIT = 2"
definition USB_RECEIVE :: nat where "USB_RECEIVE = 3"
definition USB_TRANSMIT_OR_RECEIVE :: nat where "USB_TRANSMIT_OR_RECEIVE = 4"
definition USB_CANCEL :: nat where "USB_CANCEL = 5"
definition USB_SUB_TRANSMIT :: nat where "USB_SUB_TRANSMIT = 1"
definition USB_SUB_RECEIVE :: nat where "USB_SUB_RECEIVE = 2"
definition USB_SUB_TRANSMIT_OR_RECEIVE :: nat where "USB_SUB_TRANSMIT_OR_RECEIVE = 3"
definition CALLBACK_TRANSMITTED :: nat where "CALLBACK_TRANSMITTED = 1"
definition CALLBACK_RECEIVED :: nat where "CALLBACK_RECEIVED = 2"

definition usb_call :: "'e board \<Rightarrow> nat \<Rightarrow> 'e \<Rightarrow> bool \<times> 'e" where
  "usb_call B nr = (\<lambda>e. case bd_command B USB_DRIVER_NUMBER nr e of (code, e') \<Rightarrow> (code = TockSuccess, e'))"

definition usb_setup :: "'e board \<Rightarrow> ('e, 'x, bool) op" where
  "usb_setup B =
     returning
       (sbind (try_call (usb_call B USB_CHECK) False) (\<lambda>_.
        sbind (try_call (usb_call B USB_CONNECT) False) (\<lambda>_.
          sret True)))"

datatype send_or_recv_status = UsbError | UsbSent | UsbReceived

definition usb_done :: "kernel_event \<Rightarrow> bool \<Rightarrow> bool" where
  "usb_done ev finished = (case ev of UsbCallback _ \<Rightarrow> True | _ \<Rightarrow> finished)"

definition usb_recv :: "'e board \<Rightarrow> bytes \<Rightarrow> ('e, 'x, bool) op" where
  "usb_recv B buf =
     returning
       (sbind (try_call (bd_allow B USB_DRIVER_NUMBER USB_SUB_RECEIVE buf) False) (\<lambda>_.
        sbind (try_call (bd_subscribe B USB_DRIVER_NUMBER USB_SUB_RECEIVE) False) (\<lambda>_.
        sbind (try_call (usb_call B USB_RECEIVE) False) (\<lambda>_.
        sbind (wait_for B usb_done id False) (\<lambda>_.
          sret True)))))"

definition usb_send :: "'e board \<Rightarrow> bytes \<Rightarrow> ('e, 'x, bool) op" where
  "usb_send B buf =
     returning
       (sbind (try_call (bd_allow B USB_DRIVER_NUMBER USB_SUB_TRANSMIT buf) False) (\<lambda>_.
        sbind (try_call (bd_subscribe B USB_DRIVER_NUMBER USB_SUB_TRANSMIT) False) (\<lambda>_.
        sbind (try_call (usb_call B USB_TRANSMIT) False) (\<lambda>_.
        sbind (wait_for B usb_done id False) (\<lambda>_.
          sret True)))))"

definition transfer_status :: "nat \<Rightarrow> send_or_recv_status" where
  "transfer_status direction =
     (if direction = CALLBACK_TRANSMITTED then UsbSent
      else if direction = CALLBACK_RECEIVED then UsbReceived
      else UsbError)"

definition receive_status :: "nat \<Rightarrow> send_or_recv_status" where
  "receive_status direction = (if direction = CALLBACK_RECEIVED then UsbReceived else UsbError)"

text \<open>
  What the callbacks that run during a transaction record: its status, whether its time is over, and whether a button
  was pressed, for a caller that listens to the buttons.
\<close>

record usb_flags =
  uf_status :: "send_or_recv_status option"
  uf_timeout_expired :: bool
  uf_button_touched :: bool

definition usb_flags_new :: usb_flags where
  "usb_flags_new = \<lparr>uf_status = None, uf_timeout_expired = False, uf_button_touched = False\<rparr>"

fun usb_callback :: "(nat \<Rightarrow> send_or_recv_status) \<Rightarrow> kernel_event \<Rightarrow> usb_flags \<Rightarrow> usb_flags" where
  "usb_callback status_of (UsbCallback direction) f = f\<lparr>uf_status := Some (status_of direction)\<rparr>"
| "usb_callback status_of AlarmCallback f = f\<lparr>uf_timeout_expired := True\<rparr>"
| "usb_callback status_of (ButtonCallback pressed) f = (if pressed then f\<lparr>uf_button_touched := True\<rparr> else f)"
| "usb_callback status_of OtherCallback f = f"

definition usb_send_or_recv :: "'e board \<Rightarrow> bytes \<Rightarrow> ('e, 'x, send_or_recv_status) op" where
  "usb_send_or_recv B buf =
     returning
       (sbind (try_call (bd_allow B USB_DRIVER_NUMBER USB_SUB_TRANSMIT_OR_RECEIVE buf) UsbError) (\<lambda>_.
        sbind (try_call (bd_subscribe B USB_DRIVER_NUMBER USB_SUB_TRANSMIT_OR_RECEIVE) UsbError) (\<lambda>_.
        sbind (try_call (usb_call B USB_TRANSMIT_OR_RECEIVE) UsbError) (\<lambda>_.
        sbind (wait_for B (usb_callback transfer_status) (\<lambda>f. uf_status f \<noteq> None) usb_flags_new) (\<lambda>f.
          soutcome (unwrap_option (uf_status f)))))))"

text \<open>
  The common course of the two functions with a timeout: share the buffer, subscribe, set the alarm, start the
  transaction and wait; then stop the alarm and cancel a transaction that did not finish.
\<close>

definition cleanup_alarm :: "'e board \<Rightarrow> ('e, 'x, unit) op" where
  "cleanup_alarm B = (\<lambda>e.
     case bd_stop_alarm B e of
       (AlarmStopped, e') \<Rightarrow> (Ok (), e')
     | (AlarmAlready, e') \<Rightarrow> (Ok (), e')
     | (AlarmError, e') \<Rightarrow> (Panic, e'))"

definition cancel_transaction :: "'e board \<Rightarrow> ('e, 'x, unit) op" where
  "cancel_transaction B = (\<lambda>e.
     case bd_command B USB_DRIVER_NUMBER USB_CANCEL e of
       (code, e') \<Rightarrow> (if code \<noteq> TockError then Ok () else Panic, e'))"

definition timed_transaction :: "'e board \<Rightarrow> nat \<Rightarrow> nat \<Rightarrow> (nat \<Rightarrow> send_or_recv_status) \<Rightarrow> bytes \<Rightarrow> isize32 \<Rightarrow> ('e, 'x, usb_flags) op" where
  "timed_transaction B channel command_nr status_of buf timeout_delay =
     (let failed = usb_flags_new\<lparr>uf_status := Some UsbError\<rparr> in
      returning
       (sbind (try_call (bd_allow B USB_DRIVER_NUMBER channel buf) failed) (\<lambda>_.
        sbind (try_call (bd_subscribe B USB_DRIVER_NUMBER channel) failed) (\<lambda>_.
        sbind (try_call (bd_timer_init B) failed) (\<lambda>_.
        sbind (try_call (bd_set_alarm B timeout_delay) failed) (\<lambda>_.
        sbind (try_call (usb_call B command_nr) failed) (\<lambda>_.
        sbind (wait_for B (usb_callback status_of) (\<lambda>f. uf_status f \<noteq> None \<or> uf_timeout_expired f) usb_flags_new) (\<lambda>f.
        sbind (cleanup_alarm B) (\<lambda>_.
        sbind (if uf_status f = None then cancel_transaction B else sret ()) (\<lambda>_.
          sret f))))))))))"

definition recv_with_timeout_detail :: "'e board \<Rightarrow> bytes \<Rightarrow> isize32 \<Rightarrow> ('e, 'x, usb_flags) op" where
  "recv_with_timeout_detail B = timed_transaction B USB_SUB_RECEIVE USB_RECEIVE receive_status"

definition send_or_recv_with_timeout_detail :: "'e board \<Rightarrow> bytes \<Rightarrow> isize32 \<Rightarrow> ('e, 'x, usb_flags) op" where
  "send_or_recv_with_timeout_detail B =
     timed_transaction B USB_SUB_TRANSMIT_OR_RECEIVE USB_TRANSMIT_OR_RECEIVE transfer_status"

text \<open>With the buffer as it is afterwards.\<close>

definition recv_with_timeout :: "'e board \<Rightarrow> bytes \<Rightarrow> isize32 \<Rightarrow> ('e, 'x, usb_flags \<times> bytes) op" where
  "recv_with_timeout B buf timeout_delay =
     sbind (recv_with_timeout_detail B buf timeout_delay) (\<lambda>f. sread (\<lambda>e. Ok (f, bd_buffer B e)))"

definition send_or_recv_with_timeout :: "'e board \<Rightarrow> bytes \<Rightarrow> isize32 \<Rightarrow> ('e, 'x, usb_flags \<times> bytes) op" where
  "send_or_recv_with_timeout B buf timeout_delay =
     sbind (send_or_recv_with_timeout_detail B buf timeout_delay) (\<lambda>f. sread (\<lambda>e. Ok (f, bd_buffer B e)))"

end
