(* ===== verification/Montgomery.thy ===== *)
theory Montgomery
  imports Ec_Field
begin

text \<open>
  Field elements in Montgomery form (\<open>libraries/crypto/src/ec/montgomery.rs\<close>, \<open>precomputed.rs\<close>): nine
  limbs of alternately 29 and 28 bits, in 32-bit words whose arithmetic wraps. A loop that handles an
  even and an odd limb in turn is a fold over the indices with the parity deciding the width.
\<close>

section \<open>Constants\<close>

definition NLIMBS :: nat where "NLIMBS = 9"
definition BOTTOM_28_BITS :: u32 where "BOTTOM_28_BITS = 0x0fffffff"
definition BOTTOM_29_BITS :: u32 where "BOTTOM_29_BITS = 0x1fffffff"

type_synonym montgomery = "u32 list"

definition montgomery_ZERO :: montgomery where
  "montgomery_ZERO = [0x00000000, 0x00000000, 0x00000000, 0x00000000, 0x00000000, 0x00000000, 0x00000000, 0x00000000, 0x00000000]"

definition montgomery_ONE :: montgomery where
  "montgomery_ONE = [0x00000002, 0x00000000, 0x00000000, 0x0ffff800, 0x1fffffff, 0x0fffffff, 0x1fbfffff, 0x01ffffff, 0x00000000]"

definition montgomery_A :: montgomery where
  "montgomery_A = [0x1ffffff8, 0x0fffffff, 0x1fffffff, 0x10001fff, 0x1fffffff, 0x0fffffff, 0x20ffffff, 0x07ffffff, 0x1fffffff]"

definition montgomery_B :: montgomery where
  "montgomery_B = [0x13897bbf, 0x09cdf622, 0x043090d8, 0x002e67c4, 0x176b5678, 0x02afdc84, 0x0d196888, 0x0b090e90, 0x0b8600c3]"

definition montgomery_THREE_B :: montgomery where
  "montgomery_THREE_B = [0x1a9c733f, 0x0d69e267, 0x0c91b289, 0x108b2f4c, 0x26420367, 0x180f958d, 0x270c3997, 0x031b2bb0, 0x0292024b]"

definition montgomery_P :: montgomery where
  "montgomery_P = [0x1fffffff, 0x0fffffff, 0x1fffffff, 0x000003ff, 0x00000000, 0x00000000, 0x00200000, 0x0f000000, 0x0fffffff]"

definition montgomery_TWO_P :: montgomery where
  "montgomery_TWO_P = [0x1ffffffe, 0x0fffffff, 0x1fffffff, 0x000007ff, 0x00000000, 0x00000000, 0x00400000, 0x0e000000, 0x1fffffff]"

definition montgomery_ZERO31 :: montgomery where
  "montgomery_ZERO31 =
     [2 ^ 31 - 2 ^ 3, 2 ^ 30 - 2 ^ 2, 2 ^ 31 - 2 ^ 2, 2 ^ 30 + 2 ^ 13 - 2 ^ 2,
      2 ^ 31 - 2 ^ 2, 2 ^ 30 - 2 ^ 2, 2 ^ 31 + 2 ^ 24 - 2 ^ 2, 2 ^ 30 - 2 ^ 27 - 2 ^ 2, 2 ^ 31 - 2 ^ 2]"

text \<open>The two tables of 15 multiples of the base point, as pairs of coordinates.\<close>

definition PRECOMPUTED :: "(montgomery \<times> montgomery) list list" where
  "PRECOMPUTED =
     [[([0x11522878, 0x0e730d41, 0x0db60179, 0x04afe2ff, 0x12883add, 0x0caddd88, 0x119e7edc, 0x0d4a6eab, 0x03120bee],
       [0x1d2aac15, 0x0f25357c, 0x19e45cdd, 0x05c721d0, 0x1992c5a5, 0x0a237487, 0x0154ba21, 0x014b10bb, 0x00ae3fe3]),
      ([0x0d41a576, 0x0922fc51, 0x0234994f, 0x060b60d3, 0x164586ae, 0x0ce95f18, 0x1fe49073, 0x03fa36cc, 0x05ebcd2c],
       [0x0b402f2f, 0x015c70bf, 0x1561925c, 0x05a26704, 0x0da91e90, 0x0cdc1c7f, 0x1ea12446, 0x0e1ade1e, 0x0ec91f22]),
      ([0x026f7778, 0x0566847e, 0x0a0bec9e, 0x0234f453, 0x1a31f21a, 0x0d85e75c, 0x056c7109, 0x0a267a00, 0x0b57c050],
       [0x0098fb57, 0x0aa837cc, 0x060c0792, 0x0cfa5e19, 0x061bab9e, 0x0589e39b, 0x00a324c5, 0x07d6dee7, 0x02976e4b]),
      ([0x1fc4124a, 0x0a8c244b, 0x1ce86762, 0x0cd61c7e, 0x1831c8e0, 0x075774e1, 0x1d96a5a9, 0x0843a649, 0x0c3ab0fa],
       [0x06e2e7d5, 0x07673a2a, 0x178b65e8, 0x04003e9b, 0x1a1f11c2, 0x007816ea, 0x0f643e11, 0x058c43df, 0x0f423fc2]),
      ([0x19633ffa, 0x0891f2b2, 0x123c231c, 0x046add8c, 0x054700dd, 0x059e2b17, 0x172db40f, 0x083e277d, 0x0b0dd609],
       [0x0fd1da12, 0x035c6e52, 0x19ede20c, 0x0d19e0c0, 0x097d0f40, 0x0b015b19, 0x0449e3f5, 0x00e10c9e, 0x033ab581]),
      ([0x056a67ab, 0x0577734d, 0x1dddc062, 0x0c57b10d, 0x0149b39d, 0x026a9e7b, 0x0c35df9f, 0x048764cd, 0x076dbcca],
       [0x0ca4b366, 0x0e9303ab, 0x1a7480e7, 0x057e9e81, 0x1e13eb50, 0x0f466cf3, 0x06f16b20, 0x04ba3173, 0x0c168c33]),
      ([0x15cb5439, 0x06a38e11, 0x073658bd, 0x0b29564f, 0x03f6dc5b, 0x0053b97e, 0x1322c4c0, 0x065dd7ff, 0x03a1e4f6],
       [0x14e614aa, 0x09246317, 0x1bc83aca, 0x0ad97eed, 0x0d38ce4a, 0x0f82b006, 0x0341f077, 0x0a6add89, 0x04894acd]),
      ([0x09f162d5, 0x0f8410ef, 0x1b266a56, 0x00d7f223, 0x03e0cb92, 0x0e39b672, 0x06a2901a, 0x069a8556, 0x0007e7c0],
       [0x09b7d8d3, 0x00309a80, 0x1ad05f7f, 0x0c2fb5dd, 0x0cbfd41d, 0x09ceb638, 0x1051825c, 0x0da0cf5b, 0x0812e881]),
      ([0x06f35669, 0x06a56f2c, 0x1df8d184, 0x00345820, 0x1477d477, 0x01645db1, 0x0be80c51, 0x0c22be3e, 0x0e35e65a],
       [0x1aeb7aa0, 0x0c375315, 0x0f67bc99, 0x07fdd7b9, 0x191fc1be, 0x0061235d, 0x02c184e9, 0x01c5a839, 0x047a1e26]),
      ([0x0b7cb456, 0x093e225d, 0x14f3c6ed, 0x0ccc1ac9, 0x17fe37f3, 0x04988989, 0x1a90c502, 0x02f32042, 0x0a17769b],
       [0x0afd8c7c, 0x08191c6e, 0x1dcdb237, 0x016200c0, 0x107b32a1, 0x066c08db, 0x10d06a02, 0x0003fc93, 0x05620023]),
      ([0x16722b27, 0x068b5c59, 0x0270fcfc, 0x0fad0ecc, 0x0e5de1c2, 0x0eab466b, 0x02fc513c, 0x0407f75c, 0x0baab133],
       [0x09705fe9, 0x0b88b8e7, 0x0734c993, 0x01e1ff8f, 0x19156970, 0x0abd0f00, 0x10469ea7, 0x03293ac0, 0x0cdc98aa]),
      ([0x01d843fd, 0x0e14bfe8, 0x15be825f, 0x008b5212, 0x0eb3fb67, 0x081cbd29, 0x0bc62f16, 0x02b6fcc7, 0x0f5a4e29],
       [0x13560b66, 0x0c0b6ac2, 0x051ae690, 0x0d41e271, 0x0f3e9bd4, 0x01d70aab, 0x01029f72, 0x073e1c35, 0x0ee70fbc]),
      ([0x0ad81baf, 0x09ecc49a, 0x086c741e, 0x0fe6be30, 0x176752e7, 0x0023d416, 0x1f83de85, 0x027de188, 0x066f70b8],
       [0x181cd51f, 0x096b6e4c, 0x188f2335, 0x0a5df759, 0x17a77eb6, 0x0feb0e73, 0x154ae914, 0x02f3ec51, 0x03826b59]),
      ([0x0b91f17d, 0x01c72949, 0x1362bf0a, 0x0e23fddf, 0x0a5614b0, 0x000f7d8f, 0x00079061, 0x0823d9d2, 0x08213f39],
       [0x1128ae0b, 0x0d095d05, 0x0b85c0c2, 0x01ecb2ef, 0x024ddc84, 0x0e35e901, 0x18411a4a, 0x0f5ddc3d, 0x03786689]),
      ([0x052260e8, 0x05ae3564, 0x0542b10d, 0x08d93a45, 0x19952aa4, 0x0996cc41, 0x1051a729, 0x04be3499, 0x052b23aa],
       [0x109f307e, 0x06f5b6bb, 0x1f84e1e7, 0x077a0cfa, 0x10c4df3f, 0x025a02ea, 0x0b048035, 0x0e31de66, 0x0c6ecaa3])],
      [([0x028ea335, 0x02886024, 0x1372f020, 0x00f55d35, 0x15e4684c, 0x0f2a9e17, 0x1a4a7529, 0x0cb7beb1, 0x0b2a78a1],
       [0x1ab21f1f, 0x06361ccf, 0x06c9179d, 0x0b135627, 0x1267b974, 0x04408bad, 0x1cbff658, 0x0e3d6511, 0x00c7d76f]),
      ([0x01cc7a69, 0x0e7ee31b, 0x054fab4f, 0x002b914f, 0x1ad27a30, 0x0cd3579e, 0x0c50124c, 0x050daa90, 0x00b13f72],
       [0x0b06aa75, 0x070f5cc6, 0x1649e5aa, 0x084a5312, 0x0329043c, 0x041c4011, 0x13d32411, 0x0b04a838, 0x0d760d2d]),
      ([0x1713b532, 0x0baa0c03, 0x084022ab, 0x06bcf5c1, 0x02f45379, 0x018ae070, 0x18c9e11e, 0x020bca9a, 0x066f496b],
       [0x03eef294, 0x067500d2, 0x0d7f613c, 0x002dbbeb, 0x0b741038, 0x0e04133f, 0x1582968d, 0x0be985f7, 0x01acbc1a]),
      ([0x1a6a939f, 0x033e50f6, 0x0d665ed4, 0x0b4b7bd6, 0x1e5a3799, 0x06b33847, 0x17fa56ff, 0x065ef930, 0x0021dc4a],
       [0x02b37659, 0x0450fe17, 0x0b357b65, 0x0df5efac, 0x15397bef, 0x09d35a7f, 0x112ac15f, 0x0624e62e, 0x0a90ae2f]),
      ([0x107eecd2, 0x01f69bbe, 0x077d6bce, 0x05741394, 0x13c684fc, 0x0950c910, 0x0725522b, 0x0dc78583, 0x040eeabb],
       [0x1fde328a, 0x0bd61d96, 0x0d28c387, 0x09e77d89, 0x12550c40, 0x0759cb7d, 0x0367ef34, 0x0ae2a960, 0x091b8bdc]),
      ([0x093462a9, 0x00f469ef, 0x0b2e9aef, 0x0d2ca771, 0x054e1f42, 0x007aaa49, 0x06316abb, 0x02413c8e, 0x05425bf9],
       [0x1bed3e3a, 0x0f272274, 0x1f5e7326, 0x06416517, 0x0ea27072, 0x09cedea7, 0x006e7633, 0x07c91952, 0x0d806dce]),
      ([0x08e2a7e1, 0x0e421e1a, 0x0418c9e1, 0x01dbc890, 0x1b395c36, 0x0a1dc175, 0x1dc4ef73, 0x08956f34, 0x0e4b5cf2],
       [0x1b0d3a18, 0x03194a36, 0x06c2641f, 0x0e44124c, 0x0a2f4eaa, 0x0a8c25ba, 0x0f927ed7, 0x0627b614, 0x07371cca]),
      ([0x0ba16694, 0x0417bc03, 0x07c0a7e3, 0x09c35c19, 0x1168a205, 0x08b6b00d, 0x10e3edc9, 0x09c19bf2, 0x05882229],
       [0x1b2b4162, 0x0a5cef1a, 0x1543622b, 0x09bd433e, 0x0364e04d, 0x07480792, 0x05c9b5b3, 0x0e85ff25, 0x0408ef57]),
      ([0x1814cfa4, 0x0121b41b, 0x0d248a0f, 0x03b05222, 0x039bb16a, 0x0c75966d, 0x0a038113, 0x0a4a1769, 0x011fbc6c],
       [0x0917e50e, 0x0eec3da8, 0x169d6eac, 0x010c1699, 0x0a416153, 0x0f724912, 0x15cd60b7, 0x04acbad9, 0x05efc5fa]),
      ([0x0f150ed7, 0x00122b51, 0x1104b40a, 0x0cb7f442, 0x0fbb28ff, 0x06ac53ca, 0x196142cc, 0x07bf0fa9, 0x00957651],
       [0x04e0f215, 0x0ed439f8, 0x03f46bd5, 0x05ace82f, 0x110916b6, 0x006db078, 0x0ffd7d57, 0x0f2ecaac, 0x0ca86dec]),
      ([0x15d6b2da, 0x0965ecc9, 0x1c92b4c2, 0x001f3811, 0x1cb080f5, 0x02d8b804, 0x19d1c12d, 0x0f20bd46, 0x01951fa7],
       [0x0a3656c3, 0x0523a425, 0x0fcd0692, 0x0d44ddc8, 0x131f0f5b, 0x0af80e4a, 0x0cd9fc74, 0x099bb618, 0x02db944c]),
      ([0x0a673090, 0x01c210e1, 0x178c8d23, 0x01474383, 0x10b8743d, 0x0985a55b, 0x02e74779, 0x00576138, 0x09587927],
       [0x133130fa, 0x0be05516, 0x09f4d619, 0x0bb62570, 0x099ec591, 0x0d9468fe, 0x1d07782d, 0x0fc72e0b, 0x0701b298]),
      ([0x1863863b, 0x085954b8, 0x121a0c36, 0x09e7fedf, 0x0f64b429, 0x09b9d71e, 0x14e2f5d8, 0x0f858d3a, 0x0942eea8],
       [0x0da5b765, 0x06edafff, 0x0a9d18cc, 0x0c65e4ba, 0x1c747e86, 0x0e4ea915, 0x1981d7a1, 0x08395659, 0x052ed4e2]),
      ([0x087d43b7, 0x037ab11b, 0x19d292ce, 0x0f8d4692, 0x18c3053f, 0x08863e13, 0x04c146c0, 0x06bdf55a, 0x04e4457d],
       [0x16152289, 0x0ac78ec2, 0x1a59c5a2, 0x02028b97, 0x071c2d01, 0x0295851f, 0x0404747b, 0x0878558d, 0x07d29aa4]),
      ([0x13d8341f, 0x08daefd7, 0x139c972d, 0x06b7ea75, 0x0d4a9dde, 0x0ff163d8, 0x081d55d7, 0x0a5bef68, 0x0b7b30d8],
       [0x0be73d6f, 0x0aa88141, 0x0d976c81, 0x07e7a9cc, 0x18beb771, 0x0d773cbd, 0x13f51951, 0x09d0c177, 0x01c49a78])]]"

section \<open>Limbs\<close>

definition limb_bits :: "nat \<Rightarrow> nat" where
  "limb_bits i = (if even i then 29 else 28)"

definition bottom_bits :: "nat \<Rightarrow> u32" where
  "bottom_bits i = (if even i then BOTTOM_29_BITS else BOTTOM_28_BITS)"

definition get64 :: "montgomery \<Rightarrow> nat \<Rightarrow> u64" where
  "get64 m i = ucast (m ! i)"

text \<open>\<open>u32::conditional_select(&a, &0, x.ct_eq(&0))\<close>.\<close>

definition unless_zero :: "u32 \<Rightarrow> u32 \<Rightarrow> u32" where
  "unless_zero x a = (if x = 0 then 0 else a)"

definition reduce_carry :: "montgomery \<Rightarrow> u32 \<Rightarrow> montgomery" where
  "reduce_carry m carry =
     (let m = m[0 := m ! 0 + push_bit 1 carry];
          m = m[3 := m ! 3 + unless_zero carry 0x10000000];
          m = m[3 := m ! 3 - push_bit 11 carry];
          m = m[4 := m ! 4 + unless_zero carry (0x20000000 - 1)];
          m = m[5 := m ! 5 + unless_zero carry (0x10000000 - 1)];
          m = m[6 := m ! 6 + unless_zero carry (0x20000000 - 1)];
          m = m[6 := m ! 6 - push_bit 22 carry];
          m = m[7 := m ! 7 + push_bit 25 carry]
      in m[7 := m ! 7 - unless_zero carry 1])"

text \<open>A pass over the limbs that stores the low bits of \<open>f i limb carry\<close> and carries the rest.\<close>

definition carry_step :: "(nat \<Rightarrow> u32) \<Rightarrow> nat \<Rightarrow> montgomery \<times> u32 \<Rightarrow> montgomery \<times> u32" where
  "carry_step f i = (\<lambda>(limbs, carry).
     (let limb = f i + carry
      in (limbs[i := limb AND bottom_bits i], drop_bit (limb_bits i) limb)))"

definition carry_pass :: "(nat \<Rightarrow> u32) \<Rightarrow> montgomery \<times> u32" where
  "carry_pass f = fold (carry_step f) [0..<NLIMBS] (replicate NLIMBS 0, 0)"

definition montgomery_add :: "montgomery \<Rightarrow> montgomery \<Rightarrow> montgomery" where
  "montgomery_add a b =
     (case carry_pass (\<lambda>i. a ! i + b ! i) of (limbs, carry) \<Rightarrow> reduce_carry limbs carry)"

definition montgomery_sub :: "montgomery \<Rightarrow> montgomery \<Rightarrow> montgomery" where
  "montgomery_sub a b =
     (case carry_pass (\<lambda>i. a ! i + (montgomery_ZERO31 ! i - b ! i)) of (limbs, carry) \<Rightarrow> reduce_carry limbs carry)"

definition mul_scalar3 :: "montgomery \<Rightarrow> montgomery" where
  "mul_scalar3 a =
     (case carry_pass (\<lambda>i. a ! i * 3) of (limbs, carry) \<Rightarrow> reduce_carry limbs carry)"

text \<open>Multiplication by \<open>2 ^ n\<close>: the top bits of a limb are taken before it is shifted.\<close>

definition shift_step :: "nat \<Rightarrow> nat \<Rightarrow> montgomery \<times> u32 \<Rightarrow> montgomery \<times> u32" where
  "shift_step n i = (\<lambda>(limbs, carry).
     (let next_carry = drop_bit (limb_bits i - n) (limbs ! i);
          limb = push_bit n (limbs ! i) AND bottom_bits i;
          limb = limb + carry;
          carry = next_carry + drop_bit (limb_bits i) limb
      in (limbs[i := limb AND bottom_bits i], carry)))"

definition mul_shift :: "nat \<Rightarrow> montgomery \<Rightarrow> montgomery" where
  "mul_shift n a = (case fold (shift_step n) [0..<NLIMBS] (a, 0) of (limbs, carry) \<Rightarrow> reduce_carry limbs carry)"

definition mul_scalar2 :: "montgomery \<Rightarrow> montgomery" where "mul_scalar2 = mul_shift 1"
definition mul_scalar4 :: "montgomery \<Rightarrow> montgomery" where "mul_scalar4 = mul_shift 2"
definition mul_scalar8 :: "montgomery \<Rightarrow> montgomery" where "mul_scalar8 = mul_shift 3"

section \<open>Comparison\<close>

text \<open>
  One round of \<open>reduced_vartime\<close> carries in place; the rounds go on while a carry leaves the top limb, so the loop is a
  partial function, whose value is \<^const>\<open>None\<close> for a run without an end.
\<close>

definition reduce_round :: "montgomery \<Rightarrow> montgomery \<times> u32" where
  "reduce_round m = fold (\<lambda>i (limbs, carry).
     (let limb = limbs ! i + carry in (limbs[i := limb AND bottom_bits i], drop_bit (limb_bits i) limb))) [0..<NLIMBS] (m, 0)"

partial_function (option) reduced_vartime :: "montgomery \<Rightarrow> montgomery option" where
  "reduced_vartime m =
     (case reduce_round m of (limbs, carry) \<Rightarrow>
        if carry = 0 then Some limbs else reduced_vartime (reduce_carry limbs carry))"

definition is_zero_vartime :: "montgomery \<Rightarrow> bool option" where
  "is_zero_vartime m =
     map_option (\<lambda>tmp. tmp = montgomery_ZERO \<or> tmp = montgomery_P \<or> tmp = montgomery_TWO_P) (reduced_vartime m)"

section \<open>Reduction of products\<close>

text \<open>\<open>big_limb as u32\<close> and \<open>(big_limb >> 32) as u32\<close>.\<close>

definition low32 :: "u64 \<Rightarrow> u32" where "low32 x = ucast x"
definition high32 :: "u64 \<Rightarrow> u32" where "high32 x = ucast (drop_bit 32 x)"

definition propagate_step :: "u64 list \<Rightarrow> nat \<Rightarrow> u32 list \<times> u32 \<Rightarrow> u32 list \<times> u32" where
  "propagate_step big_limbs i = (\<lambda>(limbs, carry).
     (let limb = drop_bit 25 (high32 (big_limbs ! (i - 2)));
          limb = limb + drop_bit (if even i then 28 else 29) (low32 (big_limbs ! (i - 1)));
          limb = limb + (push_bit (if even i then 4 else 3) (high32 (big_limbs ! (i - 1))) AND bottom_bits i);
          limb = limb + (low32 (big_limbs ! i) AND bottom_bits i);
          limb = limb + carry
      in (limbs[i := limb AND bottom_bits i], drop_bit (limb_bits i) limb)))"

definition propagate_carry :: "u64 list \<Rightarrow> u32 list" where
  "propagate_carry big_limbs =
     (let limbs = replicate 18 0;
          limbs = limbs[0 := low32 (big_limbs ! 0) AND BOTTOM_29_BITS];
          limb = drop_bit 29 (low32 (big_limbs ! 0));
          limb = limb OR (push_bit 3 (high32 (big_limbs ! 0)) AND BOTTOM_28_BITS);
          limb = limb + (low32 (big_limbs ! 1) AND BOTTOM_28_BITS);
          carry = drop_bit 28 limb;
          limbs = limbs[1 := limb AND BOTTOM_28_BITS];
          (limbs, carry) = fold (propagate_step big_limbs) [2..<17] (limbs, carry);
          limb = drop_bit 25 (high32 (big_limbs ! 15));
          limb = limb + drop_bit 29 (low32 (big_limbs ! 16));
          limb = limb + push_bit 3 (high32 (big_limbs ! 16));
          limb = limb + carry
      in limbs[17 := limb])"

text \<open>\<open>limbs[i] += x\<close>.\<close>

definition add_at :: "nat \<Rightarrow> u32 \<Rightarrow> u32 list \<Rightarrow> u32 list" where
  "add_at i x limbs = limbs[i := limbs ! i + x]"

definition sub_at :: "nat \<Rightarrow> u32 \<Rightarrow> u32 list \<Rightarrow> u32 list" where
  "sub_at i x limbs = limbs[i := limbs ! i - x]"

definition eliminate_even :: "nat \<Rightarrow> u32 list \<Rightarrow> u32 list" where
  "eliminate_even i limbs =
     (let limbs = add_at (i + 1) (drop_bit 29 (limbs ! i)) limbs;
          x = limbs ! i AND BOTTOM_29_BITS;
          limbs = limbs[i := 0];
          limbs = add_at (i + 3) (push_bit 10 x AND BOTTOM_28_BITS) limbs;
          limbs = add_at (i + 4) (drop_bit 18 x) limbs;
          limbs = add_at (i + 6) (push_bit 21 x AND BOTTOM_29_BITS) limbs;
          limbs = add_at (i + 7) (drop_bit 8 x) limbs;
          limbs = add_at (i + 7) (unless_zero x 0x10000000) limbs;
          limbs = add_at (i + 8) (unless_zero x (x - 1)) limbs;
          limbs = sub_at (i + 7) (push_bit 24 x AND BOTTOM_28_BITS) limbs;
          limbs = sub_at (i + 8) (drop_bit 4 x) limbs;
          limbs = add_at (i + 8) (unless_zero x 0x20000000) limbs;
          limbs = sub_at (i + 8) x limbs;
          limbs = add_at (i + 8) (push_bit 28 x AND BOTTOM_29_BITS) limbs
      in add_at (i + 9) (unless_zero x (drop_bit 1 x - 1)) limbs)"

definition eliminate_odd :: "nat \<Rightarrow> u32 list \<Rightarrow> u32 list" where
  "eliminate_odd i limbs =
     (let limbs = add_at (i + 2) (drop_bit 28 (limbs ! (i + 1))) limbs;
          x = limbs ! (i + 1) AND BOTTOM_28_BITS;
          limbs = limbs[i + 1 := 0];
          limbs = add_at (i + 4) (push_bit 11 x AND BOTTOM_29_BITS) limbs;
          limbs = add_at (i + 5) (drop_bit 18 x) limbs;
          limbs = add_at (i + 7) (push_bit 21 x AND BOTTOM_28_BITS) limbs;
          limbs = add_at (i + 8) (drop_bit 7 x) limbs;
          limbs = add_at (i + 8) (unless_zero x 0x20000000) limbs;
          limbs = add_at (i + 9) (unless_zero x (x - 1)) limbs;
          limbs = sub_at (i + 8) (push_bit 25 x AND BOTTOM_29_BITS) limbs;
          limbs = sub_at (i + 9) (drop_bit 4 x) limbs;
          limbs = add_at (i + 9) (unless_zero x 0x10000000) limbs;
          limbs = sub_at (i + 9) x limbs
      in add_at (i + 10) (unless_zero x (x - 1)) limbs)"

definition eliminate_terms :: "u32 list \<Rightarrow> u32 list" where
  "eliminate_terms limbs = eliminate_even 8 (fold (\<lambda>i limbs. eliminate_odd i (eliminate_even i limbs)) [0, 2, 4, 6] limbs)"

definition compact_step :: "u32 list \<Rightarrow> nat \<Rightarrow> montgomery \<times> u32 \<Rightarrow> montgomery \<times> u32" where
  "compact_step tmp i = (\<lambda>(limbs, carry).
     (let limb = (if even i then tmp ! (i + 9) else drop_bit 1 (tmp ! (i + 9)));
          limb = limb + carry;
          limb = (if even i then limb + (push_bit 28 (tmp ! (i + 10)) AND BOTTOM_29_BITS) else limb)
      in (limbs[i := limb AND bottom_bits i], drop_bit (limb_bits i) limb)))"

definition compact_limbs :: "u32 list \<Rightarrow> montgomery" where
  "compact_limbs tmp =
     (let (limbs, carry) = fold (compact_step tmp) [0..<8] (replicate NLIMBS 0, 0);
          limb = tmp ! 17 + carry;
          carry = drop_bit 29 limb;
          limbs = limbs[8 := limb AND BOTTOM_29_BITS]
      in reduce_carry limbs carry)"

definition reduce_degree :: "u64 list \<Rightarrow> montgomery" where
  "reduce_degree big_limbs = compact_limbs (eliminate_terms (propagate_carry big_limbs))"

section \<open>Products and inverses\<close>

definition montgomery_square :: "montgomery \<Rightarrow> montgomery" where
  "montgomery_square a = reduce_degree
     [get64 a 0 * get64 a 0,
      get64 a 0 * push_bit 1 (get64 a 1),
      get64 a 0 * push_bit 1 (get64 a 2) + get64 a 1 * push_bit 1 (get64 a 1),
      get64 a 0 * push_bit 1 (get64 a 3) + get64 a 1 * push_bit 1 (get64 a 2),
      get64 a 0 * push_bit 1 (get64 a 4) + get64 a 1 * push_bit 2 (get64 a 3) + get64 a 2 * get64 a 2,
      get64 a 0 * push_bit 1 (get64 a 5) + get64 a 1 * push_bit 1 (get64 a 4) + get64 a 2 * push_bit 1 (get64 a 3),
      get64 a 0 * push_bit 1 (get64 a 6) + get64 a 1 * push_bit 2 (get64 a 5) + get64 a 2 * push_bit 1 (get64 a 4) + get64 a 3 * push_bit 1 (get64 a 3),
      get64 a 0 * push_bit 1 (get64 a 7) + get64 a 1 * push_bit 1 (get64 a 6) + get64 a 2 * push_bit 1 (get64 a 5) + get64 a 3 * push_bit 1 (get64 a 4),
      get64 a 0 * push_bit 1 (get64 a 8) + get64 a 1 * push_bit 2 (get64 a 7) + get64 a 2 * push_bit 1 (get64 a 6) + get64 a 3 * push_bit 2 (get64 a 5) + get64 a 4 * get64 a 4,
      get64 a 1 * push_bit 1 (get64 a 8) + get64 a 2 * push_bit 1 (get64 a 7) + get64 a 3 * push_bit 1 (get64 a 6) + get64 a 4 * push_bit 1 (get64 a 5),
      get64 a 2 * push_bit 1 (get64 a 8) + get64 a 3 * push_bit 2 (get64 a 7) + get64 a 4 * push_bit 1 (get64 a 6) + get64 a 5 * push_bit 1 (get64 a 5),
      get64 a 3 * push_bit 1 (get64 a 8) + get64 a 4 * push_bit 1 (get64 a 7) + get64 a 5 * push_bit 1 (get64 a 6),
      get64 a 4 * push_bit 1 (get64 a 8) + get64 a 5 * push_bit 2 (get64 a 7) + get64 a 6 * get64 a 6,
      get64 a 5 * push_bit 1 (get64 a 8) + get64 a 6 * push_bit 1 (get64 a 7),
      get64 a 6 * push_bit 1 (get64 a 8) + get64 a 7 * push_bit 1 (get64 a 7),
      get64 a 7 * push_bit 1 (get64 a 8),
      get64 a 8 * get64 a 8]"

definition montgomery_mul :: "montgomery \<Rightarrow> montgomery \<Rightarrow> montgomery" where
  "montgomery_mul a b = reduce_degree
     [get64 a 0 * get64 b 0,
      get64 a 0 * get64 b 1 + get64 a 1 * get64 b 0,
      get64 a 0 * get64 b 2 + get64 a 1 * push_bit 1 (get64 b 1) + get64 a 2 * get64 b 0,
      get64 a 0 * get64 b 3 + get64 a 1 * get64 b 2 + get64 a 2 * get64 b 1 + get64 a 3 * get64 b 0,
      get64 a 0 * get64 b 4 + get64 a 1 * push_bit 1 (get64 b 3) + get64 a 2 * get64 b 2 + get64 a 3 * push_bit 1 (get64 b 1) + get64 a 4 * get64 b 0,
      get64 a 0 * get64 b 5 + get64 a 1 * get64 b 4 + get64 a 2 * get64 b 3 + get64 a 3 * get64 b 2 + get64 a 4 * get64 b 1 + get64 a 5 * get64 b 0,
      get64 a 0 * get64 b 6 + get64 a 1 * push_bit 1 (get64 b 5) + get64 a 2 * get64 b 4 + get64 a 3 * push_bit 1 (get64 b 3) + get64 a 4 * get64 b 2 + get64 a 5 * push_bit 1 (get64 b 1) + get64 a 6 * get64 b 0,
      get64 a 0 * get64 b 7 + get64 a 1 * get64 b 6 + get64 a 2 * get64 b 5 + get64 a 3 * get64 b 4 + get64 a 4 * get64 b 3 + get64 a 5 * get64 b 2 + get64 a 6 * get64 b 1 + get64 a 7 * get64 b 0,
      get64 a 0 * get64 b 8 + get64 a 1 * push_bit 1 (get64 b 7) + get64 a 2 * get64 b 6 + get64 a 3 * push_bit 1 (get64 b 5) + get64 a 4 * get64 b 4 + get64 a 5 * push_bit 1 (get64 b 3) + get64 a 6 * get64 b 2 + get64 a 7 * push_bit 1 (get64 b 1) + get64 a 8 * get64 b 0,
      get64 a 1 * get64 b 8 + get64 a 2 * get64 b 7 + get64 a 3 * get64 b 6 + get64 a 4 * get64 b 5 + get64 a 5 * get64 b 4 + get64 a 6 * get64 b 3 + get64 a 7 * get64 b 2 + get64 a 8 * get64 b 1,
      get64 a 2 * get64 b 8 + get64 a 3 * push_bit 1 (get64 b 7) + get64 a 4 * get64 b 6 + get64 a 5 * push_bit 1 (get64 b 5) + get64 a 6 * get64 b 4 + get64 a 7 * push_bit 1 (get64 b 3) + get64 a 8 * get64 b 2,
      get64 a 3 * get64 b 8 + get64 a 4 * get64 b 7 + get64 a 5 * get64 b 6 + get64 a 6 * get64 b 5 + get64 a 7 * get64 b 4 + get64 a 8 * get64 b 3,
      get64 a 4 * get64 b 8 + get64 a 5 * push_bit 1 (get64 b 7) + get64 a 6 * get64 b 6 + get64 a 7 * push_bit 1 (get64 b 5) + get64 a 8 * get64 b 4,
      get64 a 5 * get64 b 8 + get64 a 6 * get64 b 7 + get64 a 7 * get64 b 6 + get64 a 8 * get64 b 5,
      get64 a 6 * get64 b 8 + get64 a 7 * push_bit 1 (get64 b 7) + get64 a 8 * get64 b 6,
      get64 a 7 * get64 b 8 + get64 a 8 * get64 b 7,
      get64 a 8 * get64 b 8]"

definition montgomery_inv :: "montgomery \<Rightarrow> montgomery" where
  "montgomery_inv a =
     (let tmp = montgomery_mul (montgomery_square a) a;
          e2 = tmp;
          tmp = montgomery_mul ((montgomery_square ^^ 2) tmp) e2;
          e4 = tmp;
          tmp = montgomery_mul ((montgomery_square ^^ 4) tmp) e4;
          e8 = tmp;
          tmp = montgomery_mul ((montgomery_square ^^ 8) tmp) e8;
          e16 = tmp;
          tmp = montgomery_mul ((montgomery_square ^^ 16) tmp) e16;
          e32 = tmp;
          tmp = (montgomery_square ^^ 32) tmp;
          e64 = tmp;
          tmp = montgomery_mul tmp a;
          tmp = (montgomery_square ^^ 192) tmp;
          tmp2 = montgomery_mul e64 e32;
          tmp2 = montgomery_mul ((montgomery_square ^^ 16) tmp2) e16;
          tmp2 = montgomery_mul ((montgomery_square ^^ 8) tmp2) e8;
          tmp2 = montgomery_mul ((montgomery_square ^^ 4) tmp2) e4;
          tmp2 = montgomery_mul ((montgomery_square ^^ 2) tmp2) e2;
          tmp2 = montgomery_mul ((montgomery_square ^^ 2) tmp2) a
      in montgomery_mul tmp2 tmp)"

section \<open>Conversions\<close>

definition field_to_montgomery :: "gfp \<Rightarrow> montgomery" where
  "field_to_montgomery gf =
     fst (fold (\<lambda>i (limbs, shifted). (limbs[i := shifted ! 0 AND bottom_bits i], int256_shr shifted (limb_bits i)))
       [0..<NLIMBS] (replicate NLIMBS 0, gfp_mul gf int256_R))"

definition montgomery_to_field :: "montgomery \<Rightarrow> gfp" where
  "montgomery_to_field m =
     (let (result, _) = int256_add_digit int256_ZERO (m ! (NLIMBS - 1));
          (result, tp) = fold (\<lambda>j (result, tp).
            (let i = NLIMBS - 2 - j;
                 (tmp, top1) = int256_shl result (limb_bits i);
                 (r, top2) = int256_add_digit tmp (m ! i)
             in (r, top1 OR top2))) [0..<NLIMBS - 1] (result, 0)
      in gfp_mul_top int256_R_INV result tp)"

end
