(* ===== verification/Point.thy ===== *)
theory Point
  imports Montgomery
begin

text \<open>
  Points of the curve in affine and projective coordinates, in Montgomery form, and scalar
  multiplication (\<open>libraries/crypto/src/ec/point.rs\<close>).
\<close>

record point_projective =
  pj_x :: montgomery
  pj_y :: montgomery
  pj_z :: montgomery

record point_affine =
  af_x :: montgomery
  af_y :: montgomery

definition zero_projective :: point_projective where
  "zero_projective = \<lparr>pj_x = montgomery_ZERO, pj_y = montgomery_ZERO, pj_z = montgomery_ZERO\<rparr>"

definition projective_from_affine :: "point_affine \<Rightarrow> point_projective" where
  "projective_from_affine p = \<lparr>pj_x = af_x p, pj_y = af_y p, pj_z = montgomery_ONE\<rparr>"

definition projective_to_affine :: "point_projective \<Rightarrow> point_affine" where
  "projective_to_affine p =
     (let zinv = montgomery_inv (pj_z p)
      in \<lparr>af_x = montgomery_mul (pj_x p) zinv, af_y = montgomery_mul (pj_y p) zinv\<rparr>)"

definition point_from_affine :: "point_affine \<Rightarrow> point_p256" where
  "point_from_affine p = \<lparr>pt_x = montgomery_to_field (af_x p), pt_y = montgomery_to_field (af_y p)\<rparr>"

definition point_from_projective :: "point_projective \<Rightarrow> point_p256" where
  "point_from_projective p = point_from_affine (projective_to_affine p)"

definition point_to_affine :: "point_p256 \<Rightarrow> point_affine" where
  "point_to_affine p = \<lparr>af_x = field_to_montgomery (pt_x p), af_y = field_to_montgomery (pt_y p)\<rparr>"

section \<open>Constant-time selection\<close>

definition select_projective :: "point_projective list \<Rightarrow> u32 \<Rightarrow> point_projective" where
  "select_projective table index =
     fold (\<lambda>i point. if of_nat (i + 1) = index then table ! i else point) [0..<15] zero_projective"

definition select_affine :: "(montgomery \<times> montgomery) list \<Rightarrow> u32 \<Rightarrow> point_affine" where
  "select_affine table index =
     fold (\<lambda>i p. \<lparr>af_x = (if of_nat (i + 1) = index then fst (table ! i) else af_x p),
                  af_y = (if of_nat (i + 1) = index then snd (table ! i) else af_y p)\<rparr>)
       [0..<15] \<lparr>af_x = montgomery_ZERO, af_y = montgomery_ZERO\<rparr>"

section \<open>Complete addition formulas\<close>

definition add_mixed :: "point_projective \<Rightarrow> point_affine \<Rightarrow> point_projective" where
  "add_mixed p q =
     (let t0 = montgomery_mul (pj_x p) (af_x q);
          t1 = montgomery_mul (pj_y p) (af_y q);
          t2 = pj_z p;
          t3 = montgomery_add (pj_x p) (pj_y p);
          t4 = montgomery_add (af_x q) (af_y q);
          t3 = montgomery_mul t3 t4;
          t4 = montgomery_add t0 t1;
          t3 = montgomery_sub t3 t4;
          t4 = montgomery_mul (af_y q) (pj_z p);
          t4 = montgomery_add t4 (pj_y p);
          y = montgomery_mul (af_x q) (pj_z p);
          y = montgomery_add y (pj_x p);
          z = montgomery_mul montgomery_B t2;
          x = montgomery_sub y z;
          x = mul_scalar3 x;
          z = montgomery_sub t1 x;
          x = montgomery_add t1 x;
          y = montgomery_mul montgomery_B y;
          t2 = mul_scalar3 t2;
          y = montgomery_sub y t2;
          y = montgomery_sub y t0;
          y = mul_scalar3 y;
          t0 = mul_scalar3 t0;
          t0 = montgomery_sub t0 t2;
          t1 = montgomery_mul t4 y;
          t2 = montgomery_mul t0 y;
          y = montgomery_mul x z;
          y = montgomery_add y t2;
          x = montgomery_mul t3 x;
          x = montgomery_sub x t1;
          z = montgomery_mul t4 z;
          t1 = montgomery_mul t3 t0;
          z = montgomery_add z t1
      in \<lparr>pj_x = x, pj_y = y, pj_z = z\<rparr>)"

definition point_double :: "point_projective \<Rightarrow> point_projective" where
  "point_double p =
     (let t0 = montgomery_square (pj_x p);
          t1 = montgomery_square (pj_y p);
          t2 = montgomery_square (pj_z p);
          t3 = mul_scalar2 (montgomery_mul (pj_x p) (pj_y p));
          z = mul_scalar2 (montgomery_mul (pj_x p) (pj_z p));
          y = montgomery_mul montgomery_B t2;
          y = montgomery_sub y z;
          y = mul_scalar3 y;
          x = montgomery_sub t1 y;
          y = montgomery_add t1 y;
          y = montgomery_mul x y;
          x = montgomery_mul x t3;
          t2 = mul_scalar3 t2;
          z = montgomery_mul montgomery_B z;
          z = montgomery_sub z t2;
          z = montgomery_sub z t0;
          z = mul_scalar3 z;
          t0 = mul_scalar3 t0;
          t0 = montgomery_sub t0 t2;
          t0 = montgomery_mul t0 z;
          y = montgomery_add y t0;
          t0 = mul_scalar2 (montgomery_mul (pj_y p) (pj_z p));
          z = montgomery_mul t0 z;
          x = montgomery_sub x z;
          z = mul_scalar4 (montgomery_mul t0 t1)
      in \<lparr>pj_x = x, pj_y = y, pj_z = z\<rparr>)"

definition point_add :: "point_projective \<Rightarrow> point_projective \<Rightarrow> point_projective" where
  "point_add p q =
     (let t0 = montgomery_mul (pj_x p) (pj_x q);
          t1 = montgomery_mul (pj_y p) (pj_y q);
          t2 = montgomery_mul (pj_z p) (pj_z q);
          t3 = montgomery_add (pj_x p) (pj_y p);
          t4 = montgomery_add (pj_x q) (pj_y q);
          t3 = montgomery_mul t3 t4;
          t4 = montgomery_add t0 t1;
          t3 = montgomery_sub t3 t4;
          t4 = montgomery_add (pj_y p) (pj_z p);
          x = montgomery_add (pj_y q) (pj_z q);
          t4 = montgomery_mul t4 x;
          x = montgomery_add t1 t2;
          t4 = montgomery_sub t4 x;
          x = montgomery_add (pj_x p) (pj_z p);
          y = montgomery_add (pj_x q) (pj_z q);
          x = montgomery_mul x y;
          y = montgomery_add t0 t2;
          y = montgomery_sub x y;
          z = montgomery_mul montgomery_B t2;
          x = montgomery_sub y z;
          x = mul_scalar3 x;
          z = montgomery_sub t1 x;
          x = montgomery_add t1 x;
          y = montgomery_mul montgomery_B y;
          t2 = mul_scalar3 t2;
          y = montgomery_sub y t2;
          y = montgomery_sub y t0;
          y = mul_scalar3 y;
          t0 = mul_scalar3 t0;
          t0 = montgomery_sub t0 t2;
          t1 = montgomery_mul t4 y;
          t2 = montgomery_mul t0 y;
          y = montgomery_mul x z;
          y = montgomery_add y t2;
          x = montgomery_mul t3 x;
          x = montgomery_sub x t1;
          z = montgomery_mul t4 z;
          t1 = montgomery_mul t3 t0;
          z = montgomery_add z t1
      in \<lparr>pj_x = x, pj_y = y, pj_z = z\<rparr>)"

section \<open>Scalar multiplication\<close>

text \<open>
  Both loops keep whether the sum is still the point at infinity; the new sum is taken unless one of
  the summands is.
\<close>

definition accumulate :: "point_projective \<Rightarrow> point_projective \<Rightarrow> bool \<Rightarrow> point_projective \<times> bool \<Rightarrow> point_projective \<times> bool" where
  "accumulate p t p_is_inf = (\<lambda>(n, n_is_inf).
     (let n = (if n_is_inf then p else n);
          n = (if \<not> (p_is_inf \<or> n_is_inf) then t else n)
      in (n, n_is_inf \<and> p_is_inf)))"

definition base_mul_step :: "exponent \<Rightarrow> nat \<Rightarrow> nat \<Rightarrow> point_projective \<times> bool \<Rightarrow> point_projective \<times> bool" where
  "base_mul_step scalar i table_offset = (\<lambda>(n, n_is_inf).
     (let j = 32 * table_offset;
          bit0 = int256_bit scalar (31 - i + j);
          bit1 = int256_bit scalar (95 - i + j);
          bit2 = int256_bit scalar (159 - i + j);
          bit3 = int256_bit scalar (223 - i + j);
          index = bit0 OR push_bit 1 bit1 OR push_bit 2 bit2 OR push_bit 3 bit3;
          p = select_affine (PRECOMPUTED ! table_offset) index;
          t = add_mixed n p
      in accumulate (projective_from_affine p) t (index = 0) (n, n_is_inf)))"

definition scalar_base_mul :: "exponent \<Rightarrow> point_projective" where
  "scalar_base_mul scalar =
     fst (fold (\<lambda>i (n, n_is_inf).
       (let n = (if i \<noteq> 0 then point_double n else n)
        in fold (base_mul_step scalar i) [0..<2] (n, n_is_inf))) [0..<32] (zero_projective, True))"

definition precomp_step :: "point_affine \<Rightarrow> nat \<Rightarrow> point_projective list \<Rightarrow> point_projective list" where
  "precomp_step p i precomp =
     (let precomp = precomp[i := point_double (precomp ! (i div 2))]
      in precomp[i + 1 := add_mixed (precomp ! i) p])"

definition scalar_mul_step :: "exponent \<Rightarrow> point_projective list \<Rightarrow> nat \<Rightarrow> point_projective \<times> bool \<Rightarrow> point_projective \<times> bool" where
  "scalar_mul_step scalar precomp i = (\<lambda>(n, n_is_inf).
     (let n = (if i \<noteq> 0 then (point_double ^^ 4) n else n);
          index = push_bit 3 (int256_bit scalar (255 - i)) OR push_bit 2 (int256_bit scalar (255 - i - 1))
            OR push_bit 1 (int256_bit scalar (255 - i - 2)) OR int256_bit scalar (255 - i - 3);
          p = select_projective precomp index;
          t = point_add n p
      in accumulate p t (index = 0) (n, n_is_inf)))"

definition scalar_mul :: "point_affine \<Rightarrow> exponent \<Rightarrow> point_projective" where
  "scalar_mul p scalar =
     (let precomp = (replicate 15 zero_projective)[0 := projective_from_affine p];
          precomp = fold (precomp_step p) [1, 3, 5, 7, 9, 11, 13] precomp
      in fst (fold (scalar_mul_step scalar precomp) (map (\<lambda>k. 4 * k) [0..<64]) (zero_projective, True)))"

definition base_point_mul :: "exponent \<Rightarrow> point_p256" where
  "base_point_mul n = point_from_projective (scalar_base_mul n)"

definition point_mul :: "point_p256 \<Rightarrow> exponent \<Rightarrow> point_p256" where
  "point_mul p n = point_from_projective (scalar_mul (point_to_affine p) n)"

definition points_mul :: "point_p256 \<Rightarrow> exponent \<Rightarrow> exponent \<Rightarrow> point_p256" where
  "points_mul p n1 n2 =
     (let p1 = scalar_base_mul n1;
          p2 = scalar_mul (point_to_affine p) n2
      in point_from_projective (point_add p1 p2))"

end
