(* ===== verification/Ecdsa.thy ===== *)
theory Ecdsa
  imports Ec_Keys Point Sha256
begin

text \<open>
  Key generation, signing and verification with ECDSA (\<open>libraries/crypto/src/ecdsa.rs\<close>), the key
  exchange of \<open>ecdh.rs\<close> and the words drawn from a source of bytes (\<open>rng256.rs\<close>). The hash function is
  the SHA-256 of the library, the only one it has.
\<close>

section \<open>Random words\<close>

definition bytes_to_u32 :: "bytes \<Rightarrow> u32 list" where
  "bytes_to_u32 bs = map (\<lambda>i. u32_from_ne_bytes (take 4 (drop (4 * i) bs))) [0..<8]"

definition gen_uniform_u32x8 :: "('r \<Rightarrow> bytes \<times> 'r) \<Rightarrow> 'r \<Rightarrow> u32 list \<times> 'r" where
  "gen_uniform_u32x8 gen r = (case gen r of (bs, r') \<Rightarrow> (bytes_to_u32 bs, r'))"

section \<open>Keys\<close>

definition ecdsa_gensk :: "('r \<Rightarrow> bytes \<times> 'r) \<Rightarrow> 'r \<Rightarrow> (ecdsa_sec_key \<times> 'r) option" where
  "ecdsa_gensk gen r = gen_uniform (gen_uniform_u32x8 gen) r"

definition ecdsa_genpk :: "ecdsa_sec_key \<Rightarrow> ecdsa_pub_key" where
  "ecdsa_genpk k = base_point_mul k"

definition ecdh_gensk :: "('r \<Rightarrow> bytes \<times> 'r) \<Rightarrow> 'r \<Rightarrow> (ecdh_sec_key \<times> 'r) option" where
  "ecdh_gensk gen r = gen_uniform (gen_uniform_u32x8 gen) r"

definition ecdh_genpk :: "ecdh_sec_key \<Rightarrow> ecdh_pub_key" where
  "ecdh_genpk a = base_point_mul a"

definition exchange_raw :: "ecdh_sec_key \<Rightarrow> ecdh_pub_key \<Rightarrow> point_p256" where
  "exchange_raw a other = point_mul other a"

definition exchange_x_sha256 :: "ecdh_sec_key \<Rightarrow> ecdh_pub_key \<Rightarrow> bytes" where
  "exchange_x_sha256 a other = sha256_hash (to_bin (pt_x (exchange_raw a other)))"

section \<open>Signing\<close>

definition try_sign :: "ecdsa_sec_key \<Rightarrow> nz_exponent \<Rightarrow> exponent \<Rightarrow> ecdsa_signature option" where
  "try_sign sk k msg =
     (let r = modn (pt_x (base_point_mul k)) in
      Option.bind (non_zero r) (\<lambda>r.
        (let (s, tp) = int256_add (nz_mul r sk) msg;
             s = exponent_mul_top (nz_inv k) s tp
         in Option.bind (non_zero s) (\<lambda>s. Some \<lparr>sig_r = r, sig_s = s\<rparr>))))"

partial_function (option) sign_rng_loop :: "('r \<Rightarrow> bytes \<times> 'r) \<Rightarrow> ecdsa_sec_key \<Rightarrow> exponent \<Rightarrow> 'r \<Rightarrow> (ecdsa_signature \<times> 'r) option" where
  "sign_rng_loop gen sk m r =
     (case gen_uniform (gen_uniform_u32x8 gen) r of
        None \<Rightarrow> None
      | Some (k, r') \<Rightarrow>
          (case try_sign sk k m of
             Some sign \<Rightarrow> Some (sign, r')
           | None \<Rightarrow> sign_rng_loop gen sk m r'))"

definition sign_rng :: "('r \<Rightarrow> bytes \<times> 'r) \<Rightarrow> ecdsa_sec_key \<Rightarrow> bytes \<Rightarrow> 'r \<Rightarrow> (ecdsa_signature \<times> 'r) option" where
  "sign_rng gen sk msg r = (let m = modn (from_bin (sha256_hash msg)) in sign_rng_loop gen sk m r)"

record rfc6979 =
  rfc_k :: bytes
  rfc_v :: bytes

definition rfc6979_new :: "ecdsa_sec_key \<Rightarrow> bytes \<Rightarrow> rfc6979" where
  "rfc6979_new sk msg =
     (let h1 = sha256_hash msg;
          v = replicate 32 0x01;
          k = replicate 32 0x00;
          contents_k = to_bin sk;
          contents_h1 = to_bin (int256_modd (from_bin h1) int256_N);
          contents = v @ [0x00] @ contents_k @ contents_h1;
          k = hmac_256 k contents;
          v = hmac_256 k v;
          contents = v @ [0x01] @ contents_k @ contents_h1;
          k = hmac_256 k contents;
          v = hmac_256 k v
      in \<lparr>rfc_k = k, rfc_v = v\<rparr>)"

definition rfc6979_next :: "rfc6979 \<Rightarrow> int256 \<times> rfc6979" where
  "rfc6979_next g =
     (let t = hmac_256 (rfc_k g) (rfc_v g);
          result = from_bin t;
          v1 = rfc_v g @ [0x00];
          k = hmac_256 (rfc_k g) v1;
          v = hmac_256 k (rfc_v g)
      in (result, \<lparr>rfc_k = k, rfc_v = v\<rparr>))"

partial_function (option) sign_rfc6979_loop :: "ecdsa_sec_key \<Rightarrow> exponent \<Rightarrow> rfc6979 \<Rightarrow> ecdsa_signature option" where
  "sign_rfc6979_loop sk m g =
     (case rfc6979_next g of (x, g') \<Rightarrow>
        (case nz_from_int_checked x of
           None \<Rightarrow> sign_rfc6979_loop sk m g'
         | Some k \<Rightarrow>
             (case try_sign sk k m of
                Some sign \<Rightarrow> Some sign
              | None \<Rightarrow> sign_rfc6979_loop sk m g')))"

definition sign_rfc6979 :: "ecdsa_sec_key \<Rightarrow> bytes \<Rightarrow> ecdsa_signature option" where
  "sign_rfc6979 sk msg =
     (let m = modn (from_bin (sha256_hash msg)) in sign_rfc6979_loop sk m (rfc6979_new sk msg))"

definition verify_vartime :: "ecdsa_pub_key \<Rightarrow> bytes \<Rightarrow> ecdsa_signature \<Rightarrow> bool" where
  "verify_vartime pk msg sign =
     (let m = modn (from_bin (sha256_hash msg));
          v = nz_inv (sig_s sign);
          u = exponent_mul m v;
          v = nz_mul (sig_r sign) v;
          u = pt_x (points_mul pk u v)
      in modn u = sig_r sign)"

end
