(* ===== verification/Pin_Protocol.thy ===== *)
theory Pin_Protocol
  imports Ctap_Storage Command Response Ecdsa Aes256
begin

text \<open>
  The client PIN protocol (\<open>src/ctap/pin_protocol_v1.rs\<close>). The build and its environment are the record
  \<open>platform\<close>: the operations of the store, the source of random bytes, the width of \<open>usize\<close>, the features
  \<open>with_ctap2_1\<close> and \<open>with_ctap1\<close>, the AAGUID, the check of user presence and the system call that locks
  the board. The last two and the random bytes come from a state of the environment that they may change.
  A method works on the protocol state, the store and the environment together. Key generation that
  never finds an acceptable draw does not return; this is \<^const>\<open>Panic\<close> too.
\<close>

record ('s, 'h, 'r) platform =
  pf_store :: "('s, 'h) store_ops"
  pf_gen :: "'r \<Rightarrow> bytes \<times> 'r"
  pf_usize :: nat
  pf_v21 :: bool
  pf_ctap1 :: bool
  pf_aaguid :: bytes
  pf_user_presence :: "bytes \<Rightarrow> 'r \<Rightarrow> unit fallible \<times> 'r"
  pf_set_protection :: "'r \<Rightarrow> bool \<times> 'r"

record pin_protocol_v1 =
  key_agreement_key :: ecdh_sec_key
  pin_uv_auth_token :: bytes
  consecutive_pin_mismatches :: u8
  pp_permissions :: u8
  pp_permissions_rp_id :: "bytes option"

record ('s, 'r) pin_state =
  ps_pin :: pin_protocol_v1
  ps_store :: 's
  ps_rng :: 'r

text \<open>Operations on parts of the state.\<close>

definition with_store :: "('s, 'a) ctap_op \<Rightarrow> (('s, 'r, 'm) pin_state_scheme, 'a) ctap_op" where
  "with_store m = (\<lambda>st. case m (ps_store st) of (x, s') \<Rightarrow> (x, st\<lparr>ps_store := s'\<rparr>))"

definition with_store_rng :: "('s \<times> 'r, 'a) ctap_op \<Rightarrow> (('s, 'r, 'm) pin_state_scheme, 'a) ctap_op" where
  "with_store_rng m = (\<lambda>st. case m (ps_store st, ps_rng st) of (x, (s', r')) \<Rightarrow> (x, st\<lparr>ps_store := s', ps_rng := r'\<rparr>))"

definition from_store :: "('s \<Rightarrow> 'a fallible) \<Rightarrow> (('s, 'r, 'm) pin_state_scheme, 'a) ctap_op" where
  "from_store f = sread (\<lambda>st. f (ps_store st))"

definition random_bytes :: "('r \<Rightarrow> bytes \<times> 'r) \<Rightarrow> (('s, 'r, 'm) pin_state_scheme, bytes) ctap_op" where
  "random_bytes gen = (\<lambda>st. case gen (ps_rng st) of (bs, r') \<Rightarrow> (Ok bs, st\<lparr>ps_rng := r'\<rparr>))"

definition random_key :: "('r \<Rightarrow> bytes \<times> 'r) \<Rightarrow> (('s, 'r, 'm) pin_state_scheme, nz_exponent) ctap_op" where
  "random_key gen = (\<lambda>st.
     case gen_uniform (gen_uniform_u32x8 gen) (ps_rng st) of
       None \<Rightarrow> (Panic, st)
     | Some (k, r') \<Rightarrow> (Ok k, st\<lparr>ps_rng := r'\<rparr>))"

definition modify_pin :: "(pin_protocol_v1 \<Rightarrow> pin_protocol_v1) \<Rightarrow> (('s, 'r, 'm) pin_state_scheme, unit) ctap_op" where
  "modify_pin f = smodify (\<lambda>st. st\<lparr>ps_pin := f (ps_pin st)\<rparr>)"

definition get_pin :: "(('s, 'r, 'm) pin_state_scheme, pin_protocol_v1) ctap_op" where
  "get_pin = sread (\<lambda>st. Ok (ps_pin st))"

section \<open>Cryptographic helpers\<close>

definition PIN_PADDED_LENGTH :: nat where "PIN_PADDED_LENGTH = 64"
definition PIN_TOKEN_LENGTH :: nat where "PIN_TOKEN_LENGTH = 32"

definition verify_pin_auth :: "bytes \<Rightarrow> bytes \<Rightarrow> bytes \<Rightarrow> bool" where
  "verify_pin_auth hmac_key hmac_contents pin_auth =
     (if length pin_auth \<noteq> PIN_AUTH_LENGTH then False
      else verify_hmac_256_first_128bits hmac_key hmac_contents (take PIN_AUTH_LENGTH pin_auth))"

text \<open>The first \<open>n\<close> blocks of 16 bytes.\<close>

definition split_blocks :: "nat \<Rightarrow> bytes \<Rightarrow> bytes list" where
  "split_blocks n bs = map (\<lambda>i. take 16 (drop (16 * i) bs)) [0..<n]"

definition zero_iv :: bytes where
  "zero_iv = replicate 16 0"

definition encrypt_hmac_secret_output :: "bytes \<Rightarrow> bytes \<Rightarrow> bytes \<Rightarrow> bytes fallible" where
  "encrypt_hmac_secret_output shared_secret salt cred_random =
     (if length salt \<noteq> 32 \<and> length salt \<noteq> 64 then Err CTAP2_ERR_UNSUPPORTED_EXTENSION
      else
        (let aes_enc_key = encryption_key_new shared_secret;
             aes_dec_key = decryption_key_new aes_enc_key;
             block_len = length salt div 16;
             blocks = split_blocks block_len salt;
             blocks = cbc_decrypt decrypt_block aes_dec_key zero_iv blocks;
             decrypted_salt1 = blocks ! 0 @ blocks ! 1;
             output1 = hmac_256 cred_random decrypted_salt1;
             blocks = blocks[0 := take 16 output1, 1 := take 16 (drop 16 output1)];
             blocks =
               (if block_len = 4
                then
                  (let decrypted_salt2 = blocks ! 2 @ blocks ! 3;
                       output2 = hmac_256 cred_random decrypted_salt2
                   in blocks[2 := take 16 output2, 3 := take 16 (drop 16 output2)])
                else blocks);
             blocks = cbc_encrypt encrypt_block aes_enc_key zero_iv blocks
         in Ok (concat blocks)))"

definition decrypt_pin :: "decryption_key \<Rightarrow> bytes \<Rightarrow> bytes option" where
  "decrypt_pin aes_dec_key new_pin_enc =
     (if length new_pin_enc \<noteq> PIN_PADDED_LENGTH then None
      else
        (let blocks = split_blocks (PIN_PADDED_LENGTH div 16) new_pin_enc;
             blocks = cbc_decrypt decrypt_block aes_dec_key zero_iv blocks
         in Some (takeWhile (\<lambda>c. c \<noteq> 0) (concat blocks))))"

definition check_and_store_new_pin :: "('s, 'h, 'r) platform \<Rightarrow> decryption_key \<Rightarrow> bytes \<Rightarrow> ('s, unit) ctap_op" where
  "check_and_store_new_pin pf aes_dec_key new_pin_enc =
     sbind (slift (ok_or CTAP2_ERR_PIN_POLICY_VIOLATION (decrypt_pin aes_dec_key new_pin_enc))) (\<lambda>pin.
     sbind (if pf_v21 pf then sread (\<lambda>s. obind (min_pin_length (pf_store pf) s) (\<lambda>l. Ok (unat l))) else sret 4)
       (\<lambda>min_length.
     sbind (sguard (\<not> (length pin < min_length \<or> length pin = PIN_PADDED_LENGTH)) CTAP2_ERR_PIN_POLICY_VIOLATION) (\<lambda>_.
       set_pin_hash (pf_store pf) (take 16 (sha256_hash pin)))))"

section \<open>The protocol\<close>

definition pin_protocol_new :: "('r \<Rightarrow> bytes \<times> 'r) \<Rightarrow> 'r \<Rightarrow> (pin_protocol_v1 \<times> 'r) option" where
  "pin_protocol_new gen r =
     (case ecdh_gensk gen r of
        None \<Rightarrow> None
      | Some (key, r') \<Rightarrow>
          (case gen r' of (token, r'') \<Rightarrow>
             Some (\<lparr>key_agreement_key = key, pin_uv_auth_token = token, consecutive_pin_mismatches = 0,
                    pp_permissions = 0, pp_permissions_rp_id = None\<rparr>, r'')))"

definition pin_mismatch :: "('s, 'h, 'r) platform \<Rightarrow> (('s, 'r, 'm) pin_state_scheme, unit) ctap_op" where
  "pin_mismatch pf =
     sbind (random_key (pf_gen pf)) (\<lambda>key.
     sbind (modify_pin (\<lambda>p. p\<lparr>key_agreement_key := key\<rparr>)) (\<lambda>_.
     sbind (from_store (pin_retries (pf_store pf))) (\<lambda>retries.
     sbind (sguard (retries \<noteq> 0) CTAP2_ERR_PIN_BLOCKED) (\<lambda>_.
     sbind (modify_pin (\<lambda>p. p\<lparr>consecutive_pin_mismatches := consecutive_pin_mismatches p + 1\<rparr>)) (\<lambda>_.
     sbind get_pin (\<lambda>p.
     sbind (sguard (\<not> consecutive_pin_mismatches p \<ge> 3) CTAP2_ERR_PIN_AUTH_BLOCKED) (\<lambda>_.
       sfail CTAP2_ERR_PIN_INVALID)))))))"

definition verify_pin_hash_enc :: "('s, 'h, 'r) platform \<Rightarrow> decryption_key \<Rightarrow> bytes \<Rightarrow> (('s, 'r, 'm) pin_state_scheme, unit) ctap_op" where
  "verify_pin_hash_enc pf aes_dec_key pin_hash_enc =
     sbind (from_store (pin_hash (pf_store pf))) (\<lambda>stored.
     sbind
       (case stored of
          None \<Rightarrow> sfail CTAP2_ERR_PIN_REQUIRED
        | Some hash \<Rightarrow>
            sbind get_pin (\<lambda>p.
            sbind (sguard (\<not> consecutive_pin_mismatches p \<ge> 3) CTAP2_ERR_PIN_AUTH_BLOCKED) (\<lambda>_.
            sbind (with_store (decr_pin_retries (pf_store pf))) (\<lambda>_.
            sbind (sguard (length pin_hash_enc = PIN_AUTH_LENGTH) CTAP2_ERR_PIN_INVALID) (\<lambda>_.
              let blocks = cbc_decrypt decrypt_block aes_dec_key zero_iv [pin_hash_enc] in
              if hash \<noteq> blocks ! 0 then pin_mismatch pf else sret ())))))
       (\<lambda>_.
     sbind (with_store (reset_pin_retries (pf_store pf))) (\<lambda>_.
       modify_pin (\<lambda>p. p\<lparr>consecutive_pin_mismatches := 0\<rparr>))))"

definition exchange_decryption_key :: "pin_protocol_v1 \<Rightarrow> cose_key \<Rightarrow> bytes \<Rightarrow> bytes \<Rightarrow> decryption_key fallible" where
  "exchange_decryption_key p key_agreement pin_auth authenticated_message =
     obind (lift (ecdh_try_from_cose_key key_agreement)) (\<lambda>pk.
     let shared_secret = exchange_x_sha256 (key_agreement_key p) pk in
     if \<not> verify_pin_auth shared_secret authenticated_message pin_auth then Err CTAP2_ERR_PIN_AUTH_INVALID
     else Ok (decryption_key_new (encryption_key_new shared_secret)))"

definition process_get_pin_retries :: "('s, 'h, 'r) platform \<Rightarrow> 's \<Rightarrow> client_pin_response fallible" where
  "process_get_pin_retries pf s =
     obind (pin_retries (pf_store pf) s) (\<lambda>retries.
       Ok \<lparr>cpr_key_agreement = None, cpr_pin_token = None, cpr_retries = Some (ucast retries)\<rparr>)"

definition process_get_key_agreement :: "pin_protocol_v1 \<Rightarrow> client_pin_response fallible" where
  "process_get_key_agreement p =
     obind (unwrap_option (cose_key_from_ecdh (ecdh_genpk (key_agreement_key p)))) (\<lambda>key.
       Ok \<lparr>cpr_key_agreement = Some key, cpr_pin_token = None, cpr_retries = None\<rparr>)"

definition process_set_pin :: "('s, 'h, 'r) platform \<Rightarrow> cose_key \<Rightarrow> bytes \<Rightarrow> bytes \<Rightarrow> (('s, 'r, 'm) pin_state_scheme, unit) ctap_op" where
  "process_set_pin pf key_agreement pin_auth new_pin_enc =
     sbind (from_store (pin_hash (pf_store pf))) (\<lambda>stored.
     sbind (sguard (stored = None) CTAP2_ERR_PIN_AUTH_INVALID) (\<lambda>_.
     sbind get_pin (\<lambda>p.
     sbind (soutcome (exchange_decryption_key p key_agreement pin_auth new_pin_enc)) (\<lambda>pin_decryption_key.
     sbind (with_store (check_and_store_new_pin pf pin_decryption_key new_pin_enc)) (\<lambda>_.
       with_store (reset_pin_retries (pf_store pf)))))))"

definition process_change_pin :: "('s, 'h, 'r) platform \<Rightarrow> cose_key \<Rightarrow> bytes \<Rightarrow> bytes \<Rightarrow> bytes \<Rightarrow> (('s, 'r, 'm) pin_state_scheme, unit) ctap_op" where
  "process_change_pin pf key_agreement pin_auth new_pin_enc pin_hash_enc =
     sbind (from_store (pin_retries (pf_store pf))) (\<lambda>retries.
     sbind (sguard (retries \<noteq> 0) CTAP2_ERR_PIN_BLOCKED) (\<lambda>_.
     let auth_param_data = new_pin_enc @ pin_hash_enc in
     sbind get_pin (\<lambda>p.
     sbind (soutcome (exchange_decryption_key p key_agreement pin_auth auth_param_data)) (\<lambda>pin_decryption_key.
     sbind (verify_pin_hash_enc pf pin_decryption_key pin_hash_enc) (\<lambda>_.
     sbind (with_store (check_and_store_new_pin pf pin_decryption_key new_pin_enc)) (\<lambda>_.
     sbind (random_bytes (pf_gen pf)) (\<lambda>token.
       modify_pin (\<lambda>p. p\<lparr>pin_uv_auth_token := token\<rparr>))))))))"

definition process_get_pin_token :: "('s, 'h, 'r) platform \<Rightarrow> cose_key \<Rightarrow> bytes \<Rightarrow> (('s, 'r, 'm) pin_state_scheme, client_pin_response) ctap_op" where
  "process_get_pin_token pf key_agreement pin_hash_enc =
     sbind (from_store (pin_retries (pf_store pf))) (\<lambda>retries.
     sbind (sguard (retries \<noteq> 0) CTAP2_ERR_PIN_BLOCKED) (\<lambda>_.
     sbind (slift (ecdh_try_from_cose_key key_agreement)) (\<lambda>pk.
     sbind get_pin (\<lambda>p.
     let shared_secret = exchange_x_sha256 (key_agreement_key p) pk;
         token_encryption_key = encryption_key_new shared_secret;
         pin_decryption_key = decryption_key_new token_encryption_key in
     sbind (verify_pin_hash_enc pf pin_decryption_key pin_hash_enc) (\<lambda>_.
     sbind get_pin (\<lambda>p.
     let blocks = split_blocks (PIN_TOKEN_LENGTH div 16) (pin_uv_auth_token p);
         blocks = cbc_encrypt encrypt_block token_encryption_key zero_iv blocks;
         pin_token = concat blocks in
     sbind (if pf_v21 pf then modify_pin (\<lambda>p. p\<lparr>pp_permissions := 0x03, pp_permissions_rp_id := None\<rparr>) else sret ()) (\<lambda>_.
       sret \<lparr>cpr_key_agreement = None, cpr_pin_token = Some pin_token, cpr_retries = None\<rparr>)))))))"

definition process_get_pin_uv_auth_token_using_uv_with_permissions :: "cose_key \<Rightarrow> u8 \<Rightarrow> bytes option \<Rightarrow> client_pin_response fallible" where
  "process_get_pin_uv_auth_token_using_uv_with_permissions key_agreement permissions permissions_rp_id =
     Err CTAP2_ERR_INVALID_SUBCOMMAND"

definition process_get_uv_retries :: "client_pin_response fallible" where
  "process_get_uv_retries = Err CTAP2_ERR_INVALID_SUBCOMMAND"

definition process_set_min_pin_length :: "('s, 'h, 'r) platform \<Rightarrow> u8 \<Rightarrow> bytes list option \<Rightarrow> bytes option \<Rightarrow> (('s, 'r, 'm) pin_state_scheme, unit) ctap_op" where
  "process_set_min_pin_length pf min_length rp_ids pin_auth =
     sbind (sguard (rp_ids = None) CTAP2_ERR_UNSUPPORTED_EXTENSION) (\<lambda>_.
     sbind (from_store (pin_hash (pf_store pf))) (\<lambda>stored.
     sbind
       (if stored \<noteq> None
        then
          (case pin_auth of
             Some pin_auth \<Rightarrow>
               sbind get_pin (\<lambda>p.
               sbind (sguard (\<not> consecutive_pin_mismatches p \<ge> 3) CTAP2_ERR_PIN_AUTH_BLOCKED) (\<lambda>_.
               let message = replicate 32 0xFF @ [0x06, 0x08] @ [min_length, 0x00, 0x00, 0x00] in
                 sguard (verify_pin_auth (pin_uv_auth_token p) message pin_auth) CTAP2_ERR_PIN_AUTH_INVALID))
           | None \<Rightarrow> sfail CTAP2_ERR_PIN_AUTH_INVALID)
        else sret ()) (\<lambda>_.
     sbind (from_store (min_pin_length (pf_store pf))) (\<lambda>current.
     sbind (sguard (\<not> min_length < current) CTAP2_ERR_PIN_POLICY_VIOLATION) (\<lambda>_.
       with_store (set_min_pin_length (pf_store pf) min_length))))))"

definition process_get_pin_uv_auth_token_using_pin_with_permissions ::
    "('s, 'h, 'r) platform \<Rightarrow> cose_key \<Rightarrow> bytes \<Rightarrow> u8 \<Rightarrow> bytes option \<Rightarrow> (('s, 'r, 'm) pin_state_scheme, client_pin_response) ctap_op" where
  "process_get_pin_uv_auth_token_using_pin_with_permissions pf key_agreement pin_hash_enc permissions permissions_rp_id =
     sbind (sguard (permissions \<noteq> 0) CTAP1_ERR_INVALID_PARAMETER) (\<lambda>_.
     sbind (sguard (\<not> (permissions AND 0x03 \<noteq> 0 \<and> permissions_rp_id = None)) CTAP1_ERR_INVALID_PARAMETER) (\<lambda>_.
     sbind (process_get_pin_token pf key_agreement pin_hash_enc) (\<lambda>response.
     sbind (modify_pin (\<lambda>p. p\<lparr>pp_permissions := permissions, pp_permissions_rp_id := permissions_rp_id\<rparr>)) (\<lambda>_.
       sret response))))"

text \<open>\<open>x.ok_or(Ctap2StatusCode::CTAP2_ERR_MISSING_PARAMETER)?\<close>.\<close>

definition present :: "'a option \<Rightarrow> ('s, 'a) ctap_op" where
  "present opt = slift (ok_or CTAP2_ERR_MISSING_PARAMETER opt)"

definition process_subcommand :: "('s, 'h, 'r) platform \<Rightarrow> client_pin_parameters \<Rightarrow> (('s, 'r, 'm) pin_state_scheme, response_data) ctap_op" where
  "process_subcommand pf params =
     sbind (sguard (cpp_pin_protocol params = 1)
       (if pf_v21 pf then CTAP1_ERR_INVALID_PARAMETER else CTAP2_ERR_PIN_AUTH_INVALID)) (\<lambda>_.
     sbind
       (case cpp_sub_command params of
          GetPinRetries \<Rightarrow>
            sbind (from_store (process_get_pin_retries pf)) (\<lambda>r. sret (Some r))
        | GetKeyAgreement \<Rightarrow>
            sbind get_pin (\<lambda>p. sbind (soutcome (process_get_key_agreement p)) (\<lambda>r. sret (Some r)))
        | SetPin \<Rightarrow>
            sbind (present (cpp_key_agreement params)) (\<lambda>key_agreement.
            sbind (present (cpp_pin_auth params)) (\<lambda>pin_auth.
            sbind (present (cpp_new_pin_enc params)) (\<lambda>new_pin_enc.
            sbind (process_set_pin pf key_agreement pin_auth new_pin_enc) (\<lambda>_. sret None))))
        | ChangePin \<Rightarrow>
            sbind (present (cpp_key_agreement params)) (\<lambda>key_agreement.
            sbind (present (cpp_pin_auth params)) (\<lambda>pin_auth.
            sbind (present (cpp_new_pin_enc params)) (\<lambda>new_pin_enc.
            sbind (present (cpp_pin_hash_enc params)) (\<lambda>pin_hash_enc.
            sbind (process_change_pin pf key_agreement pin_auth new_pin_enc pin_hash_enc) (\<lambda>_. sret None)))))
        | GetPinToken \<Rightarrow>
            sbind (present (cpp_key_agreement params)) (\<lambda>key_agreement.
            sbind (present (cpp_pin_hash_enc params)) (\<lambda>pin_hash_enc.
            sbind (process_get_pin_token pf key_agreement pin_hash_enc) (\<lambda>r. sret (Some r))))
        | GetPinUvAuthTokenUsingUvWithPermissions \<Rightarrow>
            sbind (present (cpp_key_agreement params)) (\<lambda>key_agreement.
            sbind (present (cpp_permissions params)) (\<lambda>permissions.
            sbind (soutcome (process_get_pin_uv_auth_token_using_uv_with_permissions key_agreement permissions
                (cpp_permissions_rp_id params))) (\<lambda>r. sret (Some r))))
        | GetUvRetries \<Rightarrow> sbind (soutcome process_get_uv_retries) (\<lambda>r. sret (Some r))
        | SetMinPinLength \<Rightarrow>
            sbind (present (cpp_min_pin_length params)) (\<lambda>min_length.
            sbind (process_set_min_pin_length pf min_length (cpp_min_pin_length_rp_ids params) (cpp_pin_auth params))
              (\<lambda>_. sret None))
        | GetPinUvAuthTokenUsingPinWithPermissions \<Rightarrow>
            sbind (present (cpp_key_agreement params)) (\<lambda>key_agreement.
            sbind (present (cpp_pin_hash_enc params)) (\<lambda>pin_hash_enc.
            sbind (present (cpp_permissions params)) (\<lambda>permissions.
            sbind (process_get_pin_uv_auth_token_using_pin_with_permissions pf key_agreement pin_hash_enc permissions
                (cpp_permissions_rp_id params)) (\<lambda>r. sret (Some r))))))
       (\<lambda>response. sret (ClientPinResponse response)))"

definition verify_pin_auth_token :: "pin_protocol_v1 \<Rightarrow> bytes \<Rightarrow> bytes \<Rightarrow> bool" where
  "verify_pin_auth_token p hmac_contents pin_auth = verify_pin_auth (pin_uv_auth_token p) hmac_contents pin_auth"

definition pin_protocol_reset :: "('s, 'h, 'r) platform \<Rightarrow> (('s, 'r, 'm) pin_state_scheme, unit) ctap_op" where
  "pin_protocol_reset pf =
     sbind (random_key (pf_gen pf)) (\<lambda>key.
     sbind (modify_pin (\<lambda>p. p\<lparr>key_agreement_key := key\<rparr>)) (\<lambda>_.
     sbind (random_bytes (pf_gen pf)) (\<lambda>token.
       modify_pin (\<lambda>p. p\<lparr>pin_uv_auth_token := token, consecutive_pin_mismatches := 0,
         pp_permissions := 0, pp_permissions_rp_id := None\<rparr>))))"

definition process_hmac_secret :: "pin_protocol_v1 \<Rightarrow> hmac_secret_input \<Rightarrow> bytes \<Rightarrow> bytes fallible" where
  "process_hmac_secret p input cred_random =
     obind (lift (ecdh_try_from_cose_key (hs_key_agreement input))) (\<lambda>pk.
     let shared_secret = exchange_x_sha256 (key_agreement_key p) pk in
     if \<not> verify_pin_auth shared_secret (salt_enc input) (salt_auth input) then Err CTAP2_ERR_UNSUPPORTED_EXTENSION
     else encrypt_hmac_secret_output shared_secret (salt_enc input) cred_random)"

datatype pin_permission =
    PermMakeCredential | PermGetAssertion | PermCredentialManagement | PermBioEnrollment
  | PermPlatformConfiguration | PermAuthenticatorConfiguration

fun permission_bit :: "pin_permission \<Rightarrow> u8" where
  "permission_bit PermMakeCredential = 0x01"
| "permission_bit PermGetAssertion = 0x02"
| "permission_bit PermCredentialManagement = 0x04"
| "permission_bit PermBioEnrollment = 0x08"
| "permission_bit PermPlatformConfiguration = 0x10"
| "permission_bit PermAuthenticatorConfiguration = 0x20"

definition has_permission :: "pin_protocol_v1 \<Rightarrow> pin_permission \<Rightarrow> unit fallible" where
  "has_permission p permission =
     (if permission_bit permission AND pp_permissions p \<noteq> 0 then Ok () else Err CTAP2_ERR_PIN_AUTH_INVALID)"

definition has_permission_for_rp_id :: "bytes \<Rightarrow> (('s, 'r, 'm) pin_state_scheme, unit) ctap_op" where
  "has_permission_for_rp_id rpid =
     sbind get_pin (\<lambda>p.
       case pp_permissions_rp_id p of
         Some permissions_rp_id \<Rightarrow> sguard (rpid = permissions_rp_id) CTAP2_ERR_PIN_AUTH_INVALID
       | None \<Rightarrow> modify_pin (\<lambda>p. p\<lparr>pp_permissions_rp_id := Some rpid\<rparr>))"

end
