(* ===== verification/Ctap_State.thy ===== *)
theory Ctap_State
  imports Pin_Protocol Timed_Permission
begin

text \<open>
  The authenticator (\<open>src/ctap/mod.rs\<close>): its state and the CTAP2 commands. The state extends that of the
  PIN protocol, which holds the store and the environment, with the U2F user presence and the stateful
  commands. The feature \<open>with_ctap1\<close> is \<open>pf_ctap1\<close> of the platform; without it the field of the U2F user
  presence is unused. A clock without frequency panics. Signing that never finds a nonce does not
  return, which is \<^const>\<open>Panic\<close>.
\<close>

section \<open>Constants\<close>

definition USE_BATCH_ATTESTATION :: bool where "USE_BATCH_ATTESTATION = False"
definition USE_SIGNATURE_COUNTER :: bool where "USE_SIGNATURE_COUNTER = True"
definition CREDENTIAL_ID_SIZE :: nat where "CREDENTIAL_ID_SIZE = 112"
definition UP_FLAG :: u8 where "UP_FLAG = 0x01"
definition UV_FLAG :: u8 where "UV_FLAG = 0x04"
definition AT_FLAG :: u8 where "AT_FLAG = 0x40"
definition ED_FLAG :: u8 where "ED_FLAG = 0x80"
definition TOUCH_TIMEOUT_MS :: isize32 where "TOUCH_TIMEOUT_MS = 30000"
definition U2F_UP_PROMPT_TIMEOUT :: isize32 where "U2F_UP_PROMPT_TIMEOUT = 10000"
definition RESET_TIMEOUT_DURATION :: isize32 where "RESET_TIMEOUT_DURATION = 10000"
definition STATEFUL_COMMAND_TIMEOUT_DURATION :: isize32 where "STATEFUL_COMMAND_TIMEOUT_DURATION = 30000"
definition FIDO2_VERSION_STRING :: bytes where "FIDO2_VERSION_STRING = str ''FIDO_2_0''"
definition U2F_VERSION_STRING :: bytes where "U2F_VERSION_STRING = str ''U2F_V2''"
definition FIDO2_1_VERSION_STRING :: bytes where "FIDO2_1_VERSION_STRING = str ''FIDO_2_1_PRE''"
definition PIN_PROTOCOL_VERSION :: u64 where "PIN_PROTOCOL_VERSION = 1"

definition ES256_CRED_PARAM :: credential_parameter where
  "ES256_CRED_PARAM = \<lparr>cred_type = PublicKey, cred_alg = ES256\<rparr>"

definition DEFAULT_CRED_PROTECT :: "cred_protect_policy option" where
  "DEFAULT_CRED_PROTECT = None"

section \<open>Truncation of strings\<close>

text \<open>\<open>str::is_char_boundary\<close>: the ends of the string, and every byte that does not continue a character.\<close>

definition is_char_boundary :: "bytes \<Rightarrow> nat \<Rightarrow> bool" where
  "is_char_boundary s i \<longleftrightarrow> i = 0 \<or> i = length s \<or> (i < length s \<and> \<not> utf8_cont (s ! i))"

fun boundary_below :: "bytes \<Rightarrow> nat \<Rightarrow> nat" where
  "boundary_below s 0 = 0"
| "boundary_below s (Suc n) = (if \<not> is_char_boundary s (Suc n) then boundary_below s n else Suc n)"

definition truncate_to_char_boundary :: "bytes \<Rightarrow> nat \<Rightarrow> bytes" where
  "truncate_to_char_boundary s n = (if n \<ge> length s then s else take (boundary_below s n) s)"

section \<open>State\<close>

record assertion_input =
  ai_client_data_hash :: bytes
  ai_auth_data :: bytes
  ai_hmac_secret_input :: "hmac_secret_input option"
  ai_has_uv :: bool

record assertion_state =
  as_input :: assertion_input
  as_next_credentials :: "credential_source list"

datatype stateful_command = StatefulReset | StatefulGetAssertion assertion_state

record ('s, 'r) ctap_state = "('s, 'r) pin_state" +
  u2f_up_state :: u2f_up
  stateful_command_permission :: timed_permission
  stateful_command_type :: "stateful_command option"

text \<open>\<open>PersistentStore::new\<close> on a store that was opened, and \<open>CtapState::new\<close>; \<^const>\<open>None\<close> is a panic.\<close>

definition persistent_store_new :: "('s, 'h, 'r) platform \<Rightarrow> 's \<Rightarrow> 'r \<Rightarrow> ('s \<times> 'r) option" where
  "persistent_store_new pf s r =
     (case store_init (pf_store pf) (pf_gen pf) (pf_aaguid pf) (s, r) of
        (Ok (), (s', r')) \<Rightarrow> Some (s', r')
      | _ \<Rightarrow> None)"

definition ctap_state_new :: "('s, 'h, 'r) platform \<Rightarrow> 's \<Rightarrow> 'r \<Rightarrow> clock_value \<Rightarrow> ('s, 'r) ctap_state option" where
  "ctap_state_new pf s r now =
     Option.bind (persistent_store_new pf s r) (\<lambda>(s', r').
     Option.bind (pin_protocol_new (pf_gen pf) r') (\<lambda>(p, r'').
     Option.bind (tp_granted now RESET_TIMEOUT_DURATION) (\<lambda>permission.
       Some \<lparr>ps_pin = p, ps_store = s', ps_rng = r'',
             u2f_up_state = u2f_new U2F_UP_PROMPT_TIMEOUT TOUCH_TIMEOUT_MS,
             stateful_command_permission = permission,
             stateful_command_type = Some StatefulReset\<rparr>)))"

type_synonym ('s, 'r, 'a) command_op = "(('s, 'r) ctap_state, 'a) ctap_op"

definition user_presence :: "('s, 'h, 'r) platform \<Rightarrow> bytes \<Rightarrow> ('s, 'r, unit) command_op" where
  "user_presence pf cid = (\<lambda>st. case pf_user_presence pf cid (ps_rng st) of (x, r') \<Rightarrow> (x, st\<lparr>ps_rng := r'\<rparr>))"

definition set_protection :: "('s, 'h, 'r) platform \<Rightarrow> ('s, 'r, bool) command_op" where
  "set_protection pf = (\<lambda>st. case pf_set_protection pf (ps_rng st) of (ok, r') \<Rightarrow> (Ok ok, st\<lparr>ps_rng := r'\<rparr>))"

definition update_command_permission :: "clock_value \<Rightarrow> ('s, 'r, unit) command_op" where
  "update_command_permission now = (\<lambda>st.
     case tp_check_expiration (stateful_command_permission st) now of
       None \<Rightarrow> (Panic, st)
     | Some p \<Rightarrow> (Ok (), st\<lparr>stateful_command_permission := p\<rparr>))"

definition check_command_permission :: "clock_value \<Rightarrow> ('s, 'r, unit) command_op" where
  "check_command_permission now =
     sbind (update_command_permission now) (\<lambda>_.
     sbind (sread (\<lambda>st. unwrap_option (is_granted (stateful_command_permission st) now))) (\<lambda>granted.
       sguard granted CTAP2_ERR_NOT_ALLOWED))"

definition increment_global_signature_counter :: "('s, 'h, 'r) platform \<Rightarrow> ('s, 'r, unit) command_op" where
  "increment_global_signature_counter pf =
     (if USE_SIGNATURE_COUNTER
      then
        sbind (random_bytes (pf_gen pf)) (\<lambda>bs.
          let increment = bytes_to_u32 bs ! 0 mod 8 + 1 in
          with_store (incr_global_signature_counter (pf_store pf) increment))
      else sret ())"

definition generate_auth_data :: "('s, 'h, 'r) platform \<Rightarrow> 's \<Rightarrow> bytes \<Rightarrow> u8 \<Rightarrow> bytes fallible" where
  "generate_auth_data pf s rp_id_hash flag_byte =
     obind (global_signature_counter (pf_store pf) s) (\<lambda>signature_counter.
       Ok (rp_id_hash @ [flag_byte] @ be_enc 4 (unat signature_counter)))"

section \<open>Credential identifiers\<close>

definition encrypt_key_handle :: "('s, 'h, 'r) platform \<Rightarrow> ecdsa_sec_key \<Rightarrow> bytes \<Rightarrow> ('s, 'r, bytes) command_op" where
  "encrypt_key_handle pf private_key application =
     sbind (from_store (get_master_keys (pf_store pf))) (\<lambda>keys.
     let aes_enc_key = encryption_key_new (mk_encryption keys);
         sk_bytes = sec_key_to_bytes private_key in
     sbind (random_bytes (pf_gen pf)) (\<lambda>bs.
     let iv = take 16 bs;
         blocks = [take 16 sk_bytes, drop 16 sk_bytes, take 16 application, drop 16 application];
         blocks = cbc_encrypt encrypt_block aes_enc_key iv blocks;
         encrypted_id = iv @ concat blocks;
         id_hmac = hmac_256 (mk_hmac keys) encrypted_id in
       sret (encrypted_id @ id_hmac)))"

definition decrypt_credential_source :: "('s, 'h, 'r) platform \<Rightarrow> 's \<Rightarrow> bytes \<Rightarrow> bytes \<Rightarrow> credential_source option fallible" where
  "decrypt_credential_source pf s credential_id rp_id_hash =
     (if length credential_id \<noteq> CREDENTIAL_ID_SIZE then Ok None
      else
        obind (get_master_keys (pf_store pf) s) (\<lambda>keys.
        let payload_size = length credential_id - 32 in
        if \<not> verify_hmac_256 (mk_hmac keys) (take payload_size credential_id) (take 32 (drop payload_size credential_id))
        then Ok None
        else
          (let aes_enc_key = encryption_key_new (mk_encryption keys);
               aes_dec_key = decryption_key_new aes_enc_key;
               iv = take 16 credential_id;
               blocks = split_blocks 4 (drop 16 credential_id);
               blocks = cbc_decrypt decrypt_block aes_dec_key iv blocks;
               decrypted_sk = blocks ! 0 @ blocks ! 1;
               decrypted_rp_id_hash = blocks ! 2 @ blocks ! 3
           in if rp_id_hash \<noteq> decrypted_rp_id_hash then Ok None
              else Ok (map_option (\<lambda>sk.
                \<lparr>cs_type = PublicKey, cs_id = credential_id, cs_private_key = sk, cs_rp_id = [],
                 cs_user_handle = [], cs_user_display_name = None, cs_cred_protect_policy = None,
                 cs_creation_order = 0, cs_user_name = None, cs_user_icon = None\<rparr>)
                (sec_key_from_bytes decrypted_sk)))))"

section \<open>Making a credential\<close>

definition pin_uv_auth_precheck :: "('s, 'h, 'r) platform \<Rightarrow> bytes option \<Rightarrow> u64 option \<Rightarrow> bytes \<Rightarrow> ('s, 'r, unit) command_op" where
  "pin_uv_auth_precheck pf pin_uv_auth_param pin_uv_auth_protocol cid =
     (case pin_uv_auth_param of
        Some auth_param \<Rightarrow>
          if auth_param = [] then
            sbind (user_presence pf cid) (\<lambda>_.
            sbind (from_store (pin_hash (pf_store pf))) (\<lambda>stored.
              sfail (if stored = None then CTAP2_ERR_PIN_NOT_SET else CTAP2_ERR_PIN_INVALID)))
          else
            (case pin_uv_auth_protocol of
               Some version \<Rightarrow> sguard (version = PIN_PROTOCOL_VERSION) CTAP2_ERR_PIN_AUTH_INVALID
             | None \<Rightarrow> sfail CTAP2_ERR_MISSING_PARAMETER)
      | None \<Rightarrow> sret ())"

definition policy_or_default :: "cred_protect_policy option \<Rightarrow> int" where
  "policy_or_default policy =
     policy_as_i64 (case policy of None \<Rightarrow> UserVerificationOptional | Some p \<Rightarrow> p)"

definition extension_inputs :: "make_credential_extensions option \<Rightarrow> bool \<times> cred_protect_policy option" where
  "extension_inputs extensions =
     (case extensions of
        Some e \<Rightarrow>
          (mc_hmac_secret e,
           if policy_or_default (mc_cred_protect e) < policy_or_default DEFAULT_CRED_PROTECT
           then DEFAULT_CRED_PROTECT else mc_cred_protect e)
      | None \<Rightarrow> (False, DEFAULT_CRED_PROTECT))"

fun check_exclude_list :: "('s, 'h, 'r) platform \<Rightarrow> bytes \<Rightarrow> bytes \<Rightarrow> bool \<Rightarrow> bytes \<Rightarrow> credential_descriptor list \<Rightarrow> ('s, 'r, unit) command_op" where
  "check_exclude_list pf rpid rp_id_hash no_uv cid [] = sret ()"
| "check_exclude_list pf rpid rp_id_hash no_uv cid (cred_desc # exclude_list) =
     sbind (from_store (\<lambda>s. find_credential (pf_store pf) (pf_usize pf) s rpid (desc_id cred_desc) no_uv)) (\<lambda>stored.
     sbind (if stored \<noteq> None then sret True
            else sbind (from_store (\<lambda>s. decrypt_credential_source pf s (desc_id cred_desc) rp_id_hash))
                   (\<lambda>c. sret (c \<noteq> None))) (\<lambda>known.
       if known
       then sbind (user_presence pf cid) (\<lambda>_. sfail CTAP2_ERR_CREDENTIAL_EXCLUDED)
       else check_exclude_list pf rpid rp_id_hash no_uv cid exclude_list))"

text \<open>The PIN token check that both commands make, for the permission the command needs.\<close>

definition check_pin_auth :: "('s, 'h, 'r) platform \<Rightarrow> pin_permission \<Rightarrow> bytes \<Rightarrow> bytes \<Rightarrow> bytes \<Rightarrow> ('s, 'r, unit) command_op" where
  "check_pin_auth pf permission rpid client_data_hash pin_auth =
     sbind (from_store (pin_hash (pf_store pf))) (\<lambda>stored.
     sbind (sguard (stored \<noteq> None) CTAP2_ERR_PIN_NOT_SET) (\<lambda>_.
     sbind get_pin (\<lambda>p.
     sbind (sguard (verify_pin_auth_token p client_data_hash pin_auth) CTAP2_ERR_PIN_AUTH_INVALID) (\<lambda>_.
       if pf_v21 pf
       then sbind (soutcome (has_permission p permission)) (\<lambda>_. has_permission_for_rp_id rpid)
       else sret ()))))"

definition make_credential_flags :: "('s, 'h, 'r) platform \<Rightarrow> make_credential_parameters \<Rightarrow> u8 \<Rightarrow> ('s, 'r, u8) command_op" where
  "make_credential_flags pf params ed_flag =
     (case mcp_pin_uv_auth_param params of
        Some pin_auth \<Rightarrow>
          sbind (check_pin_auth pf PermMakeCredential (rp_id (mcp_rp params)) (mcp_client_data_hash params) pin_auth) (\<lambda>_.
            sret (UP_FLAG OR UV_FLAG OR AT_FLAG OR ed_flag))
      | None \<Rightarrow>
          sbind (from_store (pin_hash (pf_store pf))) (\<lambda>stored.
          sbind (sguard (stored = None) CTAP2_ERR_PIN_REQUIRED) (\<lambda>_.
          sbind (sguard (\<not> mc_uv (mcp_options params)) CTAP2_ERR_INVALID_OPTION) (\<lambda>_.
            sret (UP_FLAG OR AT_FLAG OR ed_flag)))))"

definition crop :: "bytes option \<Rightarrow> bytes option" where
  "crop = map_option (\<lambda>s. truncate_to_char_boundary s 64)"

definition create_credential :: "('s, 'h, 'r) platform \<Rightarrow> make_credential_parameters \<Rightarrow> cred_protect_policy option \<Rightarrow> ecdsa_sec_key \<Rightarrow> bytes \<Rightarrow> ('s, 'r, bytes) command_op" where
  "create_credential pf params cred_protect sk rp_id_hash =
     (if mc_rk (mcp_options params)
      then
        sbind (random_bytes (pf_gen pf)) (\<lambda>random_id.
        sbind (from_store (new_creation_order (pf_store pf) (pf_usize pf))) (\<lambda>creation_order.
        let user = mcp_user params;
            credential_source =
              \<lparr>cs_type = PublicKey, cs_id = random_id, cs_private_key = sk, cs_rp_id = rp_id (mcp_rp params),
               cs_user_handle = user_id user, cs_user_display_name = crop (user_display_name user),
               cs_cred_protect_policy = cred_protect, cs_creation_order = creation_order,
               cs_user_name = crop (user_name user), cs_user_icon = crop (user_icon user)\<rparr> in
        sbind (with_store (store_credential (pf_store pf) (pf_usize pf) credential_source)) (\<lambda>_.
          sret random_id)))
      else encrypt_key_handle pf sk rp_id_hash)"

text \<open>\<open>cbor::write(value, &mut data)\<close> with the error of the callers.\<close>

definition append_cbor :: "cbor_value \<Rightarrow> bytes \<Rightarrow> bytes fallible" where
  "append_cbor v data =
     (case cbor_write v data of
        (True, data') \<Rightarrow> Ok data'
      | (False, _) \<Rightarrow> Err CTAP2_ERR_VENDOR_RESPONSE_CANNOT_WRITE_CBOR)"

definition attested_data :: "bytes \<Rightarrow> bytes \<Rightarrow> bytes \<Rightarrow> ecdsa_pub_key \<Rightarrow> bool \<Rightarrow> cred_protect_policy option \<Rightarrow> bytes fallible" where
  "attested_data auth_data aaguid credential_id pk use_hmac_extension cred_protect =
     obind (oguard (\<not> length credential_id > 0xFF) CTAP2_ERR_VENDOR_RESPONSE_TOO_LONG) (\<lambda>_.
     obind (lift (ok_or CTAP2_ERR_VENDOR_RESPONSE_CANNOT_WRITE_CBOR (to_cose_key pk))) (\<lambda>cose_key.
     let auth_data = auth_data @ aaguid @ [0x00, of_nat (length credential_id)] @ credential_id @ cose_key in
     if use_hmac_extension \<or> cred_protect \<noteq> None
     then append_cbor (cbor_map_options
            [(text_key ''hmac-secret'', if use_hmac_extension then Some (bool_value True) else None),
             (text_key ''credProtect'', map_option policy_into cred_protect)]) auth_data
     else Ok auth_data))"

definition attestation :: "('s, 'h, 'r) platform \<Rightarrow> 's \<Rightarrow> ecdsa_sec_key \<Rightarrow> bytes \<Rightarrow> (ecdsa_signature \<times> bytes list option) fallible" where
  "attestation pf s sk signature_data =
     (if USE_BATCH_ATTESTATION
      then
        obind (attestation_private_key (pf_store pf) s) (\<lambda>k.
        obind (lift (ok_or CTAP2_ERR_VENDOR_INTERNAL_ERROR k)) (\<lambda>k.
        obind (unwrap_option (sec_key_from_bytes k)) (\<lambda>attestation_key.
        obind (attestation_certificate (pf_store pf) s) (\<lambda>c.
        obind (lift (ok_or CTAP2_ERR_VENDOR_INTERNAL_ERROR c)) (\<lambda>certificate.
        obind (unwrap_option (sign_rfc6979 attestation_key signature_data)) (\<lambda>signature.
          Ok (signature, Some [certificate])))))))
      else
        obind (unwrap_option (sign_rfc6979 sk signature_data)) (\<lambda>signature. Ok (signature, None)))"

definition process_make_credential :: "('s, 'h, 'r) platform \<Rightarrow> make_credential_parameters \<Rightarrow> bytes \<Rightarrow> ('s, 'r, response_data) command_op" where
  "process_make_credential pf params cid =
     sbind (pin_uv_auth_precheck pf (mcp_pin_uv_auth_param params) (mcp_pin_uv_auth_protocol params) cid) (\<lambda>_.
     sbind (sguard (ES256_CRED_PARAM \<in> set (mcp_pub_key_cred_params params)) CTAP2_ERR_UNSUPPORTED_ALGORITHM) (\<lambda>_.
     let (use_hmac_extension, cred_protect) = extension_inputs (mcp_extensions params);
         has_extension_output = (use_hmac_extension \<or> cred_protect \<noteq> None);
         rpid = rp_id (mcp_rp params);
         rp_id_hash = sha256_hash rpid in
     sbind (case mcp_exclude_list params of
              Some exclude_list \<Rightarrow>
                check_exclude_list pf rpid rp_id_hash (mcp_pin_uv_auth_param params = None) cid exclude_list
            | None \<Rightarrow> sret ()) (\<lambda>_.
     sbind (make_credential_flags pf params (if has_extension_output then ED_FLAG else 0)) (\<lambda>flags.
     sbind (user_presence pf cid) (\<lambda>_.
     sbind (random_key (pf_gen pf)) (\<lambda>sk.
     let pk = ecdsa_genpk sk in
     sbind (create_credential pf params cred_protect sk rp_id_hash) (\<lambda>credential_id.
     sbind (from_store (\<lambda>s. generate_auth_data pf s rp_id_hash flags)) (\<lambda>auth_data.
     sbind (from_store (get_aaguid (pf_store pf))) (\<lambda>aaguid.
     sbind (soutcome (attested_data auth_data aaguid credential_id pk use_hmac_extension cred_protect)) (\<lambda>auth_data.
     let signature_data = auth_data @ mcp_client_data_hash params in
     sbind (from_store (\<lambda>s. attestation pf s sk signature_data)) (\<lambda>(signature, x5c).
       sret (MakeCredentialResponse
         \<lparr>mcr_fmt = str ''packed'', mcr_auth_data = auth_data,
          mcr_att_stmt = \<lparr>att_alg = algorithm_as_i64 ES256, att_sig = to_asn1_der signature, att_x5c = x5c,
                          att_ecdaa_key_id = None\<rparr>\<rparr>))))))))))))"

section \<open>Assertions\<close>

definition generate_cred_random :: "('s, 'h, 'r) platform \<Rightarrow> 's \<Rightarrow> ecdsa_sec_key \<Rightarrow> bool \<Rightarrow> bytes fallible" where
  "generate_cred_random pf s private_key has_uv =
     obind (cred_random_secret (pf_store pf) s has_uv) (\<lambda>key. Ok (hmac_256 key (sec_key_to_bytes private_key)))"

definition assertion_response :: "('s, 'h, 'r) platform \<Rightarrow> credential_source \<Rightarrow> assertion_input \<Rightarrow> nat option \<Rightarrow> ('s, 'r, response_data) command_op" where
  "assertion_response pf credential input number_of_credentials =
     sbind (case ai_hmac_secret_input input of
              Some hmac_secret_input \<Rightarrow>
                sbind (from_store (\<lambda>s. generate_cred_random pf s (cs_private_key credential) (ai_has_uv input))) (\<lambda>cred_random.
                sbind get_pin (\<lambda>p.
                sbind (soutcome (process_hmac_secret p hmac_secret_input cred_random)) (\<lambda>encrypted_output.
                  soutcome (append_cbor
                    (cbor_map_options [(text_key ''hmac-secret'', Some (cbor_bytes encrypted_output))])
                    (ai_auth_data input)))))
            | None \<Rightarrow> sret (ai_auth_data input)) (\<lambda>auth_data.
     let signature_data = auth_data @ ai_client_data_hash input in
     sbind (soutcome (unwrap_option (sign_rfc6979 (cs_private_key credential) signature_data))) (\<lambda>signature.
     let cred_desc = \<lparr>desc_type = PublicKey, desc_id = cs_id credential, desc_transports = None\<rparr>;
         user = (if cs_user_handle credential \<noteq> []
                 then Some \<lparr>user_id = cs_user_handle credential, user_name = cs_user_name credential,
                            user_display_name = cs_user_display_name credential,
                            user_icon = cs_user_icon credential\<rparr>
                 else None) in
       sret (GetAssertionResponse
         \<lparr>gar_credential = Some cred_desc, gar_auth_data = auth_data, gar_signature = to_asn1_der signature,
          gar_user = user, gar_number_of_credentials = map_option of_nat number_of_credentials\<rparr>)))"

fun get_any_credential_from_allow_list :: "('s, 'h, 'r) platform \<Rightarrow> 's \<Rightarrow> credential_descriptor list \<Rightarrow> bytes \<Rightarrow> bytes \<Rightarrow> bool \<Rightarrow> credential_source option fallible" where
  "get_any_credential_from_allow_list pf s [] rpid rp_id_hash has_uv = Ok None"
| "get_any_credential_from_allow_list pf s (allowed_credential # allow_list) rpid rp_id_hash has_uv =
     obind (find_credential (pf_store pf) (pf_usize pf) s rpid (desc_id allowed_credential) (\<not> has_uv)) (\<lambda>credential.
     if credential \<noteq> None then Ok credential
     else
       obind (decrypt_credential_source pf s (desc_id allowed_credential) rp_id_hash) (\<lambda>credential.
       if credential \<noteq> None then Ok credential
       else get_any_credential_from_allow_list pf s allow_list rpid rp_id_hash has_uv))"

definition get_assertion_flags :: "('s, 'h, 'r) platform \<Rightarrow> get_assertion_parameters \<Rightarrow> ('s, 'r, u8) command_op" where
  "get_assertion_flags pf params =
     (case gap_pin_uv_auth_param params of
        Some pin_auth \<Rightarrow>
          sbind (check_pin_auth pf PermGetAssertion (gap_rp_id params) (gap_client_data_hash params) pin_auth) (\<lambda>_.
            sret UV_FLAG)
      | None \<Rightarrow> sbind (sguard (\<not> ga_uv (gap_options params)) CTAP2_ERR_INVALID_OPTION) (\<lambda>_. sret 0x00))"

definition applicable_credentials :: "('s, 'h, 'r) platform \<Rightarrow> get_assertion_parameters \<Rightarrow> 's \<Rightarrow> credential_source list fallible" where
  "applicable_credentials pf params s =
     (let has_uv = (gap_pin_uv_auth_param params \<noteq> None);
          rp_id_hash = sha256_hash (gap_rp_id params) in
      case gap_allow_list params of
        Some allow_list \<Rightarrow>
          obind (get_any_credential_from_allow_list pf s allow_list (gap_rp_id params) rp_id_hash has_uv) (\<lambda>credential.
            Ok (case credential of Some c \<Rightarrow> [c] | None \<Rightarrow> []))
      | None \<Rightarrow> filter_credential (pf_store pf) (pf_usize pf) s (gap_rp_id params) (\<not> has_uv))"

definition strip_user :: "credential_source \<Rightarrow> credential_source" where
  "strip_user c = c\<lparr>cs_user_name := None, cs_user_display_name := None, cs_user_icon := None\<rparr>"

text \<open>
  \<open>sort_unstable_by_key\<close> leaves the order of credentials with the same creation order open;
  \<^const>\<open>sort_key\<close> is one of the results it may give. Stored credentials get different creation orders.
\<close>

definition order_credentials :: "bool \<Rightarrow> credential_source list \<Rightarrow> credential_source list" where
  "order_credentials has_uv cs = sort_key cs_creation_order (if \<not> has_uv then map strip_user cs else cs)"

definition process_get_assertion :: "('s, 'h, 'r) platform \<Rightarrow> get_assertion_parameters \<Rightarrow> bytes \<Rightarrow> clock_value \<Rightarrow> ('s, 'r, response_data) command_op" where
  "process_get_assertion pf params cid now =
     sbind (pin_uv_auth_precheck pf (gap_pin_uv_auth_param params) (gap_pin_uv_auth_protocol params) cid) (\<lambda>_.
     let hmac_secret_input = Option.bind (gap_extensions params) ga_hmac_secret;
         up = ga_up (gap_options params) in
     sbind (sguard (\<not> (hmac_secret_input \<noteq> None \<and> \<not> up)) CTAP2_ERR_UNSUPPORTED_EXTENSION) (\<lambda>_.
     let has_uv = (gap_pin_uv_auth_param params \<noteq> None) in
     sbind (get_assertion_flags pf params) (\<lambda>flags.
     let flags = (if up then flags OR UP_FLAG else flags);
         flags = (if hmac_secret_input \<noteq> None then flags OR ED_FLAG else flags);
         rp_id_hash = sha256_hash (gap_rp_id params) in
     sbind (from_store (applicable_credentials pf params)) (\<lambda>cs.
     let cs = order_credentials has_uv cs in
     sbind (if up then user_presence pf cid else sret ()) (\<lambda>_.
     sbind (sguard (cs \<noteq> []) CTAP2_ERR_NO_CREDENTIALS) (\<lambda>_.
     let credential = last cs; cs = butlast cs in
     sbind (increment_global_signature_counter pf) (\<lambda>_.
     sbind (from_store (\<lambda>s. generate_auth_data pf s rp_id_hash flags)) (\<lambda>auth_data.
     let input = \<lparr>ai_client_data_hash = gap_client_data_hash params, ai_auth_data = auth_data,
                  ai_hmac_secret_input = hmac_secret_input, ai_has_uv = has_uv\<rparr> in
     sbind
       (if cs = [] then sret None
        else
          sbind (soutcome (unwrap_option (tp_granted now STATEFUL_COMMAND_TIMEOUT_DURATION))) (\<lambda>permission.
          sbind (smodify (\<lambda>st. st\<lparr>stateful_command_permission := permission,
                   stateful_command_type :=
                     Some (StatefulGetAssertion \<lparr>as_input = input, as_next_credentials = cs\<rparr>)\<rparr>)) (\<lambda>_.
            sret (Some (length cs + 1))))) (\<lambda>number_of_credentials.
       assertion_response pf credential input number_of_credentials)))))))))"

definition pop_next_credential :: "('s, 'r, assertion_input \<times> credential_source) command_op" where
  "pop_next_credential = (\<lambda>st.
     case stateful_command_type st of
       Some (StatefulGetAssertion a) \<Rightarrow>
         if as_next_credentials a = [] then (Err CTAP2_ERR_NOT_ALLOWED, st)
         else (Ok (as_input a, last (as_next_credentials a)),
               st\<lparr>stateful_command_type :=
                   Some (StatefulGetAssertion (a\<lparr>as_next_credentials := butlast (as_next_credentials a)\<rparr>))\<rparr>)
     | _ \<Rightarrow> (Err CTAP2_ERR_NOT_ALLOWED, st))"

definition process_get_next_assertion :: "('s, 'h, 'r) platform \<Rightarrow> clock_value \<Rightarrow> ('s, 'r, response_data) command_op" where
  "process_get_next_assertion pf now =
     sbind (check_command_permission now) (\<lambda>_.
     sbind pop_next_credential (\<lambda>(input, credential).
       assertion_response pf credential input None))"

section \<open>The other commands\<close>

definition process_get_info :: "('s, 'h, 'r) platform \<Rightarrow> 's \<Rightarrow> response_data fallible" where
  "process_get_info pf s =
     obind (pin_hash (pf_store pf) s) (\<lambda>stored.
     let options_map = [(str ''clientPin'', stored \<noteq> None), (str ''rk'', True), (str ''up'', True)] in
     obind (get_aaguid (pf_store pf) s) (\<lambda>aaguid.
     obind (if pf_v21 pf then min_pin_length (pf_store pf) s else Ok 0) (\<lambda>min_length.
       Ok (GetInfoResponse
         \<lparr>gir_versions = (if pf_ctap1 pf then [U2F_VERSION_STRING] else []) @ [FIDO2_VERSION_STRING]
                          @ (if pf_v21 pf then [FIDO2_1_VERSION_STRING] else []),
          gir_extensions = Some [str ''hmac-secret''],
          gir_aaguid = aaguid,
          gir_options = Some options_map,
          gir_max_msg_size = Some 1024,
          gir_pin_protocols = Some [PIN_PROTOCOL_VERSION],
          gir_max_credential_count_in_list =
            (if pf_v21 pf then map_option of_nat MAX_CREDENTIAL_COUNT_IN_LIST else None),
          gir_max_credential_id_length = (if pf_v21 pf then Some (of_nat CREDENTIAL_ID_SIZE) else None),
          gir_transports = (if pf_v21 pf then Some [Usb] else None),
          gir_algorithms = (if pf_v21 pf then Some [ES256_CRED_PARAM] else None),
          gir_default_cred_protect = DEFAULT_CRED_PROTECT,
          gir_min_pin_length = min_length,
          gir_firmware_version = None\<rparr>))))"

definition process_client_pin :: "('s, 'h, 'r) platform \<Rightarrow> client_pin_parameters \<Rightarrow> ('s, 'r, response_data) command_op" where
  "process_client_pin pf params = process_subcommand pf params"

definition reset_u2f_state :: "('s, 'h, 'r) platform \<Rightarrow> ('s, 'r, unit) command_op" where
  "reset_u2f_state pf =
     (if pf_ctap1 pf then smodify (\<lambda>st. st\<lparr>u2f_up_state := u2f_new U2F_UP_PROMPT_TIMEOUT TOUCH_TIMEOUT_MS\<rparr>)
      else sret ())"

definition process_reset :: "('s, 'h, 'r) platform \<Rightarrow> bytes \<Rightarrow> clock_value \<Rightarrow> ('s, 'r, response_data) command_op" where
  "process_reset pf cid now =
     sbind (check_command_permission now) (\<lambda>_.
     sbind (sread (\<lambda>st. oguard (stateful_command_type st = Some StatefulReset) CTAP2_ERR_NOT_ALLOWED)) (\<lambda>_.
     sbind (user_presence pf cid) (\<lambda>_.
     sbind (with_store_rng (store_reset (pf_store pf) (pf_gen pf) (pf_aaguid pf))) (\<lambda>_.
     sbind (pin_protocol_reset pf) (\<lambda>_.
     sbind (reset_u2f_state pf) (\<lambda>_.
       sret ResetResponse))))))"

definition process_selection :: "('s, 'h, 'r) platform \<Rightarrow> bytes \<Rightarrow> ('s, 'r, response_data) command_op" where
  "process_selection pf cid = sbind (user_presence pf cid) (\<lambda>_. sret SelectionResponse)"

definition program_attestation :: "('s, 'h, 'r) platform \<Rightarrow> bytes option \<Rightarrow> bytes option \<Rightarrow> attestation_material \<Rightarrow> ('s, 'r, vendor_response) command_op" where
  "program_attestation pf current_priv_key current_cert data =
     (if current_cert \<noteq> None \<and> current_priv_key \<noteq> None
      then sret \<lparr>vr_cert_programmed = True, vr_pkey_programmed = True\<rparr>
      else
        sbind (sguard (current_cert = None \<or> current_cert = Some (am_certificate data)) CTAP1_ERR_INVALID_PARAMETER) (\<lambda>_.
        sbind (sguard (current_priv_key = None \<or> current_priv_key = Some (am_private_key data)) CTAP1_ERR_INVALID_PARAMETER) (\<lambda>_.
        sbind (if current_cert = None then with_store (set_attestation_certificate (pf_store pf) (am_certificate data))
               else sret ()) (\<lambda>_.
        sbind (if current_priv_key = None then with_store (set_attestation_private_key (pf_store pf) (am_private_key data))
               else sret ()) (\<lambda>_.
          sret \<lparr>vr_cert_programmed = True, vr_pkey_programmed = True\<rparr>)))))"

definition lockdown :: "('s, 'h, 'r) platform \<Rightarrow> vendor_response \<Rightarrow> ('s, 'r, unit) command_op" where
  "lockdown pf response =
     (let need_certificate = (pf_ctap1 pf \<or> USE_BATCH_ATTESTATION) in
      if need_certificate \<and> \<not> (vr_pkey_programmed response \<and> vr_cert_programmed response)
      then sfail CTAP2_ERR_VENDOR_INTERNAL_ERROR
      else sbind (set_protection pf) (\<lambda>ok. sguard ok CTAP2_ERR_VENDOR_INTERNAL_ERROR))"

definition process_vendor_configure :: "('s, 'h, 'r) platform \<Rightarrow> vendor_configure_parameters \<Rightarrow> bytes \<Rightarrow> ('s, 'r, response_data) command_op" where
  "process_vendor_configure pf params cid =
     sbind (user_presence pf cid) (\<lambda>_.
     sbind (from_store (attestation_private_key (pf_store pf))) (\<lambda>current_priv_key.
     sbind (from_store (attestation_certificate (pf_store pf))) (\<lambda>current_cert.
     sbind (case vcp_attestation_material params of
              None \<Rightarrow> sret \<lparr>vr_cert_programmed = (current_cert \<noteq> None), vr_pkey_programmed = (current_priv_key \<noteq> None)\<rparr>
            | Some data \<Rightarrow> program_attestation pf current_priv_key current_cert data) (\<lambda>response.
     sbind (if vcp_lockdown params then lockdown pf response else sret ()) (\<lambda>_.
       sret (VendorResponse response))))))"

section \<open>Dispatch\<close>

definition keeps_stateful_command :: "('s, 'h, 'r) platform \<Rightarrow> command \<Rightarrow> stateful_command option \<Rightarrow> bool" where
  "keeps_stateful_command pf command stateful =
     (case (command, stateful) of
        (AuthenticatorGetNextAssertion, Some (StatefulGetAssertion _)) \<Rightarrow> True
      | (AuthenticatorReset, Some StatefulReset) \<Rightarrow> True
      | (AuthenticatorGetInfo, _) \<Rightarrow> True
      | (AuthenticatorSelection, _) \<Rightarrow> pf_v21 pf
      | _ \<Rightarrow> False)"

definition clear_stateful_command :: "('s, 'h, 'r) platform \<Rightarrow> command \<Rightarrow> ('s, 'r, unit) command_op" where
  "clear_stateful_command pf command = smodify (\<lambda>st.
     if keeps_stateful_command pf command (stateful_command_type st) then st
     else st\<lparr>stateful_command_type := None\<rparr>)"

fun run_command :: "('s, 'h, 'r) platform \<Rightarrow> command \<Rightarrow> bytes \<Rightarrow> clock_value \<Rightarrow> ('s, 'r, response_data) command_op" where
  "run_command pf (AuthenticatorMakeCredential params) cid now = process_make_credential pf params cid"
| "run_command pf (AuthenticatorGetAssertion params) cid now = process_get_assertion pf params cid now"
| "run_command pf AuthenticatorGetNextAssertion cid now = process_get_next_assertion pf now"
| "run_command pf AuthenticatorGetInfo cid now = from_store (process_get_info pf)"
| "run_command pf (AuthenticatorClientPin params) cid now = process_client_pin pf params"
| "run_command pf AuthenticatorReset cid now = process_reset pf cid now"
| "run_command pf AuthenticatorSelection cid now = process_selection pf cid"
| "run_command pf (AuthenticatorVendorConfigure params) cid now = process_vendor_configure pf params cid"

definition response_bytes :: "('s, 'h, 'r) platform \<Rightarrow> response_data \<Rightarrow> bytes" where
  "response_bytes pf data =
     (case response_into (pf_v21 pf) data of
        None \<Rightarrow> [0x00]
      | Some v \<Rightarrow>
          (case cbor_write v [0x00] of
             (True, response_vec) \<Rightarrow> response_vec
           | (False, _) \<Rightarrow> [status_byte CTAP2_ERR_VENDOR_RESPONSE_CANNOT_WRITE_CBOR]))"

text \<open>A command that does not panic is answered; \<^const>\<open>None\<close> is the panic.\<close>

definition process_command :: "('s, 'h, 'r) platform \<Rightarrow> bytes \<Rightarrow> bytes \<Rightarrow> clock_value \<Rightarrow> ('s, 'r) ctap_state \<Rightarrow> (bytes \<times> ('s, 'r) ctap_state) option" where
  "process_command pf command_cbor cid now st =
     (case command_deserialize (pf_usize pf) (pf_v21 pf) command_cbor of
        Inr command \<Rightarrow>
          (case sbind (reset_u2f_state pf) (\<lambda>_.
                sbind (clear_stateful_command pf command) (\<lambda>_.
                  run_command pf command cid now)) st of
             (Ok response_data, st') \<Rightarrow> Some (response_bytes pf response_data, st')
           | (Err error_code, st') \<Rightarrow> Some ([status_byte error_code], st')
           | (Panic, st') \<Rightarrow> None)
      | Inl error_code \<Rightarrow> Some ([status_byte error_code], st))"

end
