(* ===== verification/Ctap1.thy ===== *)
theory Ctap1
  imports Ctap_State Apdu
begin

text \<open>
  The U2F commands (\<open>src/ctap/ctap1.rs\<close>): parsing of a message into a command, registration and
  authentication on the state of the authenticator.
\<close>

section \<open>Commands\<close>

datatype ctap1_flags = CheckOnly | EnforceUpAndSign | DontEnforceUpAndSign

definition ctap1_flags_try_from :: "u8 \<Rightarrow> (apdu_status_code, ctap1_flags) outcome" where
  "ctap1_flags_try_from b =
     (if b = 0x07 then Ok CheckOnly
      else if b = 0x03 then Ok EnforceUpAndSign
      else if b = 0x08 then Ok DontEnforceUpAndSign
      else Err SW_WRONG_DATA)"

fun ctap1_flags_into :: "ctap1_flags \<Rightarrow> u8" where
  "ctap1_flags_into CheckOnly = 0x07"
| "ctap1_flags_into EnforceUpAndSign = 0x03"
| "ctap1_flags_into DontEnforceUpAndSign = 0x08"

datatype u2f_command =
    U2fRegister (reg_challenge: bytes) (reg_application: bytes)
  | U2fAuthenticate (auth_challenge: bytes) (auth_application: bytes) (auth_key_handle: bytes) (auth_flags: ctap1_flags)
  | U2fVersion
  | U2fVendorSpecific bytes

definition CTAP1_CLA :: u8 where "CTAP1_CLA = 0"
definition LEGACY_BYTE :: u8 where "LEGACY_BYTE = 0x05"
definition USER_PRESENCE_INDICATOR_BYTE :: u8 where "USER_PRESENCE_INDICATOR_BYTE = 0x01"
definition U2F_REGISTER :: u8 where "U2F_REGISTER = 0x01"
definition U2F_AUTHENTICATE :: u8 where "U2F_AUTHENTICATE = 0x02"
definition U2F_VERSION :: u8 where "U2F_VERSION = 0x03"
definition VENDOR_SPECIFIC_FIRST :: u8 where "VENDOR_SPECIFIC_FIRST = 0x40"
definition VENDOR_SPECIFIC_LAST :: u8 where "VENDOR_SPECIFIC_LAST = 0xBF"

lemmas ctap1_constants =
  CTAP1_CLA_def LEGACY_BYTE_def USER_PRESENCE_INDICATOR_BYTE_def U2F_REGISTER_def U2F_AUTHENTICATE_def
  U2F_VERSION_def VENDOR_SPECIFIC_FIRST_def VENDOR_SPECIFIC_LAST_def

definition u2f_command_try_from :: "bytes \<Rightarrow> (apdu_status_code, u2f_command) outcome" where
  "u2f_command_try_from message =
     obind (apdu_try_from message) (\<lambda>apdu.
     let lc = unat (apdu_lc apdu); header = apdu_header apdu; data = apdu_data apdu; ins = hdr_ins header in
     if hdr_cla header \<noteq> CTAP1_CLA then Err SW_CLA_INVALID
     else if lc \<noteq> length data \<and> lc + 2 \<noteq> length data then Err SW_WRONG_LENGTH
     else if ins = U2F_REGISTER then
       (if lc \<noteq> 64 then Err SW_WRONG_LENGTH
        else
          obind (subslice 0 32 data) (\<lambda>challenge.
          obind (subslice 32 32 data) (\<lambda>application.
            Ok (U2fRegister challenge application))))
     else if ins = U2F_AUTHENTICATE then
       (if lc < 65 then Err SW_WRONG_LENGTH
        else
          obind (index_at data 64) (\<lambda>len_byte.
          let handle_length = unat len_byte in
          if lc \<noteq> 65 + handle_length then Err SW_WRONG_LENGTH
          else
            obind (ctap1_flags_try_from (hdr_p1 header)) (\<lambda>flag.
            obind (subslice 0 32 data) (\<lambda>challenge.
            obind (subslice 32 32 data) (\<lambda>application.
            obind (subslice 65 (length data - 65) data) (\<lambda>key_handle.
              Ok (U2fAuthenticate challenge application key_handle flag)))))))
     else if ins = U2F_VERSION then
       (if lc \<noteq> 0 then Err SW_WRONG_LENGTH else Ok U2fVersion)
     else if VENDOR_SPECIFIC_FIRST \<le> ins \<and> ins \<le> VENDOR_SPECIFIC_LAST then Ok (U2fVendorSpecific data)
     else Err SW_INS_INVALID)"

section \<open>Processing\<close>

type_synonym ('s, 'r, 'a) u2f_op = "(('s, 'r) ctap_state, apdu_status_code, 'a) op"

definition u2f_consume_up :: "clock_value \<Rightarrow> ('s, 'r, bool) u2f_op" where
  "u2f_consume_up now = (\<lambda>st.
     case consume_up (u2f_up_state st) now of
       None \<Rightarrow> (Panic, st)
     | Some (up, u) \<Rightarrow> (Ok up, st\<lparr>u2f_up_state := u\<rparr>))"

text \<open>\<open>result.map_err(|_| code)\<close>.\<close>

definition or_fail :: "apdu_status_code \<Rightarrow> ('s, 'r, 'a) command_op \<Rightarrow> ('s, 'r, 'a) u2f_op" where
  "or_fail code m = smap_err (\<lambda>_. code) m"

definition process_register :: "('s, 'h, 'r) platform \<Rightarrow> bytes \<Rightarrow> bytes \<Rightarrow> ('s, 'r, bytes) u2f_op" where
  "process_register pf challenge application =
     sbind (or_fail SW_INTERNAL_EXCEPTION (random_key (pf_gen pf))) (\<lambda>sk.
     let pk = ecdsa_genpk sk in
     sbind (or_fail SW_INTERNAL_EXCEPTION (encrypt_key_handle pf sk application)) (\<lambda>key_handle.
     sbind (sguard (\<not> length key_handle > 0xFF) SW_INTERNAL_EXCEPTION) (\<lambda>_.
     sbind (or_fail SW_MEMERR (from_store (attestation_certificate (pf_store pf)))) (\<lambda>c.
     sbind (slift (ok_or SW_INTERNAL_EXCEPTION c)) (\<lambda>certificate.
     sbind (or_fail SW_INTERNAL_EXCEPTION (from_store (attestation_private_key (pf_store pf)))) (\<lambda>k.
     sbind (slift (ok_or SW_INTERNAL_EXCEPTION k)) (\<lambda>private_key.
     let user_pk = to_uncompressed pk;
         response = [LEGACY_BYTE] @ user_pk @ [of_nat (length key_handle)] @ key_handle @ certificate;
         signature_data = [0x00] @ application @ challenge @ key_handle @ user_pk in
     sbind (soutcome (unwrap_option (sec_key_from_bytes private_key))) (\<lambda>attestation_key.
     sbind (soutcome (unwrap_option (sign_rfc6979 attestation_key signature_data))) (\<lambda>signature.
       sret (response @ to_asn1_der signature))))))))))"

definition process_authenticate :: "('s, 'h, 'r) platform \<Rightarrow> bytes \<Rightarrow> bytes \<Rightarrow> bytes \<Rightarrow> ctap1_flags \<Rightarrow> ('s, 'r, bytes) u2f_op" where
  "process_authenticate pf challenge application key_handle flags =
     sbind (or_fail SW_WRONG_DATA (from_store (\<lambda>s. decrypt_credential_source pf s key_handle application))) (\<lambda>credential.
       case credential of
         Some credential_source \<Rightarrow>
           sbind (sguard (flags \<noteq> CheckOnly) SW_COND_USE_NOT_SATISFIED) (\<lambda>_.
           sbind (or_fail SW_WRONG_DATA (increment_global_signature_counter pf)) (\<lambda>_.
           sbind (or_fail SW_WRONG_DATA
             (from_store (\<lambda>s. generate_auth_data pf s application USER_PRESENCE_INDICATOR_BYTE))) (\<lambda>auth_data.
           let signature_data = auth_data @ challenge in
           sbind (soutcome (unwrap_option (sign_rfc6979 (cs_private_key credential_source) signature_data))) (\<lambda>signature.
           sbind (soutcome (subslice (length application) 5 signature_data)) (\<lambda>response.
             sret (response @ to_asn1_der signature))))))
       | None \<Rightarrow> sfail SW_WRONG_DATA)"

definition ctap1_process_command :: "('s, 'h, 'r) platform \<Rightarrow> bytes \<Rightarrow> clock_value \<Rightarrow> ('s, 'r, bytes) u2f_op" where
  "ctap1_process_command pf message now =
     sbind (soutcome (u2f_command_try_from message)) (\<lambda>command.
       case command of
         U2fRegister challenge application \<Rightarrow>
           sbind (u2f_consume_up now) (\<lambda>present.
           sbind (sguard present SW_COND_USE_NOT_SATISFIED) (\<lambda>_.
             process_register pf challenge application))
       | U2fAuthenticate challenge application key_handle flags \<Rightarrow>
           sbind (if flags = EnforceUpAndSign
                  then sbind (u2f_consume_up now) (\<lambda>present. sguard present SW_COND_USE_NOT_SATISFIED)
                  else sret ()) (\<lambda>_.
             process_authenticate pf challenge application key_handle flags)
       | U2fVersion \<Rightarrow> sret U2F_VERSION_STRING
       | U2fVendorSpecific _ \<Rightarrow> sfail SW_SUCCESS)"

end
