(* ===== verification/Authenticator.thy ===== *)
theory Authenticator
  imports Ctap1 Hid
begin

text \<open>
  The device: the CTAPHID transport with the command processors of the authenticator, as
  \<open>CtapHid::process_hid_packet\<close> calls them.
\<close>

definition ctap1_processor :: "('s, 'h, 'r) platform \<Rightarrow> ('s, 'r) ctap_state ctap1_processor" where
  "ctap1_processor pf payload clock st =
     (case ctap1_process_command pf payload clock st of
        (Ok response, st') \<Rightarrow> Some (Inr response, st')
      | (Err code, st') \<Rightarrow> Some (Inl code, st')
      | (Panic, st') \<Rightarrow> None)"

definition authenticator_packet :: "('s, 'h, 'r) platform \<Rightarrow> hid_packet \<Rightarrow> clock_value \<Rightarrow> ctap_hid \<Rightarrow> ('s, 'r) ctap_state \<Rightarrow> ('s, 'r) ctap_state hid_result" where
  "authenticator_packet pf packet clock h st =
     process_hid_packet (pf_ctap1 pf) (process_command pf) (ctap1_processor pf) packet clock h st"

end
