(* ===== verification/Main_Loop.thy ===== *)
theory Main_Loop
  imports Usb_Driver Authenticator
begin

text \<open>
  The firmware (\<open>src/main.rs\<close>): the check of user presence with its keepalives, the LEDs, and the main loop that
  receives packets, hands them to the transport and sends the replies. The environment of the authenticator is
  the state of the kernel, so that a command that waits for a touch waits on the same board. One pass of the
  main loop is an operation on the state of the firmware; \<^const>\<open>Panic\<close> stands for a panic and for a wait that
  never ends. A packet iterator is drained with a bound that its longest message cannot reach.
\<close>

definition KEEPALIVE_DELAY :: isize32 where "KEEPALIVE_DELAY = 100"
definition SEND_TIMEOUT :: isize32 where "SEND_TIMEOUT = 1000"
definition TIMEOUT_ITERATIONS :: nat where "TIMEOUT_ITERATIONS = unat TOUCH_TIMEOUT_MS div unat KEEPALIVE_DELAY"

type_synonym ('e, 'a) board_op = "('e, ctap2_status_code, 'a) op"

definition packets_of :: "hid_packet_iterator \<Rightarrow> hid_packet list option" where
  "packets_of it = drain (MAX_PAYLOAD + 2) it"

section \<open>LEDs\<close>

definition count_ones :: "u32 \<Rightarrow> nat" where
  "count_ones w = length (filter (bit w) [0..<32])"

fun set_leds :: "'e board \<Rightarrow> (nat \<Rightarrow> bool) \<Rightarrow> nat list \<Rightarrow> ('e, 'x, unit) op" where
  "set_leds B pattern [] = sret ()"
| "set_leds B pattern (l # ls) = sbind (must (bd_led_set B l (pattern l))) (\<lambda>_. set_leds B pattern ls)"

definition blink_leds :: "'e board \<Rightarrow> u32 \<Rightarrow> ('e, 'x, unit) op" where
  "blink_leds B pattern_seed =
     sbind (must_get (bd_led_count B)) (\<lambda>n.
       set_leds B (\<lambda>l. odd (count_ones (pattern_seed XOR of_nat l))) [0..<n])"

definition wink_on :: "u32 \<Rightarrow> nat \<Rightarrow> nat \<Rightarrow> bool" where
  "wink_on pattern_seed n l =
     (let a = (unat pattern_seed div 2) mod n;
          b = (unat (pattern_seed + 1) div 2) mod n;
          c = (unat (pattern_seed + 3) div 2) mod n;
          k = (if l = 2 then 3 else if l = 3 then 2 else l)
      in k = a \<or> k = b \<or> k = c)"

definition wink_leds :: "'e board \<Rightarrow> u32 \<Rightarrow> ('e, 'x, unit) op" where
  "wink_leds B pattern_seed =
     sbind (must_get (bd_led_count B)) (\<lambda>n.
     if n = 0 then soutcome Panic
     else set_leds B (wink_on pattern_seed n) [0..<n])"

definition switch_off_leds :: "'e board \<Rightarrow> ('e, 'x, unit) op" where
  "switch_off_leds B = sbind (must_get (bd_led_count B)) (\<lambda>n. set_leds B (\<lambda>_. False) [0..<n])"

section \<open>User presence\<close>

text \<open>
  Sends the packets of a keepalive. The result is whether a button was pressed meanwhile, with the answer of the
  function: a packet of another channel ends it, a cancel on this channel cancels the check.
\<close>

fun send_keepalive_packets :: "'e board \<Rightarrow> channel_id \<Rightarrow> isize32 \<Rightarrow> hid_packet list \<Rightarrow> bool \<Rightarrow> ('e, bool \<times> unit fallible) board_op" where
  "send_keepalive_packets B cid timeout [] touched = sret (touched, Ok ())"
| "send_keepalive_packets B cid timeout (pkt # pkts) touched =
     sbind (send_or_recv_with_timeout B pkt timeout) (\<lambda>(f, pkt).
     let touched = (touched \<or> uf_button_touched f) in
     case uf_status f of
       None \<Rightarrow> send_keepalive_packets B cid timeout pkts touched
     | Some UsbError \<Rightarrow> soutcome Panic
     | Some UsbSent \<Rightarrow> send_keepalive_packets B cid timeout pkts touched
     | Some UsbReceived \<Rightarrow>
         (let (received_cid, processed_packet) = process_single_packet pkt in
          if received_cid \<noteq> cid then sret (touched, Ok ())
          else
            (case processed_packet of
               InitPacket cmd _ _ \<Rightarrow>
                 if cmd = COMMAND_CANCEL then sret (touched, Err CTAP2_ERR_KEEPALIVE_CANCEL)
                 else send_keepalive_packets B cid timeout pkts touched
             | ContinuationPacket _ _ \<Rightarrow> send_keepalive_packets B cid timeout pkts touched)))"

definition send_keepalive_up_needed :: "'e board \<Rightarrow> channel_id \<Rightarrow> isize32 \<Rightarrow> ('e, bool \<times> unit fallible) board_op" where
  "send_keepalive_up_needed B cid timeout =
     sbind (soutcome (unwrap_option (Option.bind (keepalive cid UpNeeded) packets_of))) (\<lambda>keepalive_msg.
       send_keepalive_packets B cid timeout keepalive_msg False)"

record presence_flags =
  pr_button_touched :: bool
  pr_keepalive_expired :: bool

fun presence_callback :: "kernel_event \<Rightarrow> presence_flags \<Rightarrow> presence_flags" where
  "presence_callback (ButtonCallback pressed) f = (if pressed then f\<lparr>pr_button_touched := True\<rparr> else f)"
| "presence_callback AlarmCallback f = f\<lparr>pr_keepalive_expired := True\<rparr>"
| "presence_callback _ f = f"

text \<open>\<open>EALREADY\<close> is only expected if the alarm has expired.\<close>

definition stop_keepalive :: "'e board \<Rightarrow> bool \<Rightarrow> ('e, 'x, unit) op" where
  "stop_keepalive B expired = (\<lambda>e.
     case bd_stop_alarm B e of
       (AlarmStopped, e') \<Rightarrow> (Ok (), e')
     | (AlarmAlready, e') \<Rightarrow> (if expired then Ok () else Panic, e')
     | (AlarmError, e') \<Rightarrow> (Panic, e'))"

fun presence_loop :: "'e board \<Rightarrow> channel_id \<Rightarrow> nat list \<Rightarrow> bool \<Rightarrow> ('e, bool \<times> unit fallible) board_op" where
  "presence_loop B cid [] touched = sret (touched, Ok ())"
| "presence_loop B cid (i # is) touched =
     sbind (blink_leds B (of_nat i)) (\<lambda>_.
     sbind (must (bd_timer_init B)) (\<lambda>_.
     sbind (must (bd_set_alarm B KEEPALIVE_DELAY)) (\<lambda>_.
     sbind (wait_for B presence_callback (\<lambda>f. pr_button_touched f \<or> pr_keepalive_expired f)
         \<lparr>pr_button_touched = touched, pr_keepalive_expired = False\<rparr>) (\<lambda>f.
     sbind (stop_keepalive B (pr_keepalive_expired f)) (\<lambda>_.
     sbind (if pr_keepalive_expired f then send_keepalive_up_needed B cid KEEPALIVE_DELAY else sret (False, Ok ()))
       (\<lambda>(more, keepalive_response).
     let touched = (pr_button_touched f \<or> more) in
       if touched \<or> keepalive_response \<noteq> Ok () then sret (touched, keepalive_response)
       else presence_loop B cid is touched))))))"

definition check_user_presence :: "'e board \<Rightarrow> channel_id \<Rightarrow> ('e, unit) board_op" where
  "check_user_presence B cid =
     sbind (send_keepalive_up_needed B cid KEEPALIVE_DELAY) (\<lambda>(_, response).
     sbind (soutcome response) (\<lambda>_.
     sbind (must (bd_buttons_init B)) (\<lambda>_.
     sbind (must (bd_buttons_enable B)) (\<lambda>_.
     sbind (presence_loop B cid [0..<TIMEOUT_ITERATIONS] False) (\<lambda>(button_touched, keepalive_response).
     sbind (switch_off_leds B) (\<lambda>_.
     sbind (must (bd_buttons_disable B)) (\<lambda>_.
       if keepalive_response \<noteq> Ok () then soutcome keepalive_response
       else if button_touched then sret ()
       else sfail CTAP2_ERR_USER_ACTION_TIMEOUT)))))))"

section \<open>The main loop\<close>

text \<open>The platform of the firmware: user presence is checked on the board.\<close>

definition firmware_platform :: "'e board \<Rightarrow> ('s, 'h, 'e) platform \<Rightarrow> ('s, 'h, 'e) platform" where
  "firmware_platform B pf = pf\<lparr>pf_user_presence := check_user_presence B\<rparr>"

record ('s, 'e) firmware =
  fw_ctap_state :: "('s, 'e) ctap_state"
  fw_ctap_hid :: ctap_hid
  fw_led_counter :: u32
  fw_last_led_increment :: clock_value

type_synonym ('s, 'e, 'a) firmware_op = "(('s, 'e) firmware, ctap2_status_code, 'a) op"

definition on_board :: "('e, 'a) board_op \<Rightarrow> ('s, 'e, 'a) firmware_op" where
  "on_board m = (\<lambda>fw.
     case m (ps_rng (fw_ctap_state fw)) of
       (x, e') \<Rightarrow> (x, fw\<lparr>fw_ctap_state := (fw_ctap_state fw)\<lparr>ps_rng := e'\<rparr>\<rparr>))"

definition on_ctap_state :: "(('s, 'e) ctap_state, ctap2_status_code, 'a) op \<Rightarrow> ('s, 'e, 'a) firmware_op" where
  "on_ctap_state m = (\<lambda>fw. case m (fw_ctap_state fw) of (x, st') \<Rightarrow> (x, fw\<lparr>fw_ctap_state := st'\<rparr>))"

definition setup_buttons :: "'e board \<Rightarrow> bool \<Rightarrow> ('s, 'e, unit) firmware_op" where
  "setup_buttons B with_ctap1 =
     (if with_ctap1
      then sbind (on_board (must (bd_buttons_init B))) (\<lambda>_. on_board (must (bd_buttons_enable B)))
      else sret ())"

text \<open>Waits for a packet; the result is the packet, if one came, and whether a button was pressed.\<close>

definition receive_packet :: "'e board \<Rightarrow> ('s, 'e, hid_packet option \<times> bool) firmware_op" where
  "receive_packet B =
     sbind (on_board (recv_with_timeout B (replicate 64 0) KEEPALIVE_DELAY)) (\<lambda>(f, pkt_request).
       case uf_status f of
         Some UsbReceived \<Rightarrow> sret (Some pkt_request, uf_button_touched f)
       | Some _ \<Rightarrow> soutcome Panic
       | None \<Rightarrow> sret (None, uf_button_touched f))"

definition register_touch :: "'e board \<Rightarrow> bool \<Rightarrow> bool \<Rightarrow> clock_value \<Rightarrow> ('s, 'e, unit) firmware_op" where
  "register_touch B with_ctap1 button_touched now =
     (if with_ctap1
      then
        sbind (if button_touched
               then on_ctap_state (\<lambda>st.
                 case grant_up (u2f_up_state st) now of
                   None \<Rightarrow> (Panic, st)
                 | Some u \<Rightarrow> (Ok (), st\<lparr>u2f_up_state := u\<rparr>))
               else sret ()) (\<lambda>_.
          on_board (must (bd_buttons_disable B)))
      else sret ())"

definition expire_wink :: "clock_value \<Rightarrow> ('s, 'e, unit) firmware_op" where
  "expire_wink now = (\<lambda>fw.
     case tp_check_expiration (wink_permission (fw_ctap_hid fw)) now of
       None \<Rightarrow> (Panic, fw)
     | Some p \<Rightarrow> (Ok (), fw\<lparr>fw_ctap_hid := (fw_ctap_hid fw)\<lparr>wink_permission := p\<rparr>\<rparr>))"

definition handle_packet :: "('s, 'h, 'e) platform \<Rightarrow> hid_packet \<Rightarrow> clock_value \<Rightarrow> ('s, 'e, hid_packet_iterator) firmware_op" where
  "handle_packet pf pkt_request now = (\<lambda>fw.
     case authenticator_packet pf pkt_request now (fw_ctap_hid fw) (fw_ctap_state fw) of
       None \<Rightarrow> (Panic, fw)
     | Some (response, h, st) \<Rightarrow> (Ok response, fw\<lparr>fw_ctap_hid := h, fw_ctap_state := st\<rparr>))"

fun send_packets :: "'e board \<Rightarrow> hid_packet list \<Rightarrow> ('e, unit) board_op" where
  "send_packets B [] = sret ()"
| "send_packets B (pkt_reply # pkts) =
     sbind (send_or_recv_with_timeout B pkt_reply SEND_TIMEOUT) (\<lambda>(f, _).
       case uf_status f of
         None \<Rightarrow> sret ()
       | Some UsbError \<Rightarrow> soutcome Panic
       | Some _ \<Rightarrow> send_packets B pkts)"

definition send_reply :: "'e board \<Rightarrow> hid_packet_iterator \<Rightarrow> ('s, 'e, unit) firmware_op" where
  "send_reply B it =
     sbind (soutcome (unwrap_option (packets_of it))) (\<lambda>pkts. on_board (send_packets B pkts))"

definition advance_leds :: "clock_value \<Rightarrow> ('s, 'e, unit) firmware_op" where
  "advance_leds now = (\<lambda>fw.
     case clock_wrapping_sub now (fw_last_led_increment fw) of
       None \<Rightarrow> (Panic, fw)
     | Some (Some wait_duration) \<Rightarrow>
         (Ok (), if sint KEEPALIVE_DELAY < sint wait_duration
                 then fw\<lparr>fw_led_counter := fw_led_counter fw + 1, fw_last_led_increment := now\<rparr> else fw)
     | Some None \<Rightarrow> (Ok (), fw\<lparr>fw_led_counter := fw_led_counter fw + 1, fw_last_led_increment := now\<rparr>))"

definition show_leds :: "'e board \<Rightarrow> bool \<Rightarrow> clock_value \<Rightarrow> ('s, 'e, unit) firmware_op" where
  "show_leds B with_ctap1 now =
     sbind (sread (\<lambda>fw. unwrap_option (is_granted (wink_permission (fw_ctap_hid fw)) now))) (\<lambda>winking.
     sbind (sread (\<lambda>fw. Ok (fw_led_counter fw))) (\<lambda>led_counter.
       if winking then on_board (wink_leds B led_counter)
       else if \<not> with_ctap1 then on_board (switch_off_leds B)
       else
         sbind (on_ctap_state (\<lambda>st.
           case is_up_needed (u2f_up_state st) now of
             None \<Rightarrow> (Panic, st)
           | Some (needed, u) \<Rightarrow> (Ok needed, st\<lparr>u2f_up_state := u\<rparr>))) (\<lambda>needed.
           if needed then on_board (blink_leds B led_counter) else on_board (switch_off_leds B))))"

definition main_pass :: "'e board \<Rightarrow> ('s, 'h, 'e) platform \<Rightarrow> ('s, 'e, unit) firmware_op" where
  "main_pass B pf =
     sbind (setup_buttons B (pf_ctap1 pf)) (\<lambda>_.
     sbind (receive_packet B) (\<lambda>(packet, button_touched).
     sbind (on_board (must_get (bd_clock B))) (\<lambda>now.
     sbind (register_touch B (pf_ctap1 pf) button_touched now) (\<lambda>_.
     sbind (on_ctap_state (update_command_permission now)) (\<lambda>_.
     sbind (expire_wink now) (\<lambda>_.
     sbind (case packet of
              Some pkt_request \<Rightarrow>
                sbind (handle_packet (firmware_platform B pf) pkt_request now) (\<lambda>response. send_reply B response)
            | None \<Rightarrow> sret ()) (\<lambda>_.
     sbind (on_board (must_get (bd_clock B))) (\<lambda>now.
     sbind (advance_leds now) (\<lambda>_.
       show_leds B (pf_ctap1 pf) now)))))))))"

text \<open>\<open>main\<close> up to the loop: the store is given as it was opened.\<close>

definition firmware_boot :: "'e board \<Rightarrow> ('s, 'h, 'e) platform \<Rightarrow> 's \<Rightarrow> 'e \<Rightarrow> ('s, 'e) firmware option" where
  "firmware_boot B pf s e =
     (case sbind (must (bd_timer_init B)) (\<lambda>_.
           sbind (usb_setup B) (\<lambda>ok.
           if ok then must_get (bd_clock B) else soutcome Panic)) e of
        (Ok boot_time, e') \<Rightarrow>
          Option.bind (ctap_state_new (firmware_platform B pf) s e' boot_time) (\<lambda>st.
            Some \<lparr>fw_ctap_state = st, fw_ctap_hid = hid_new, fw_led_counter = 0, fw_last_led_increment = boot_time\<rparr>)
      | (Err _ :: (unit, clock_value) outcome, _) \<Rightarrow> None
      | (Panic, _) \<Rightarrow> None)"

end
