(* ===== verification/Pin_Properties.thy ===== *)
theory Pin_Properties
  imports Pin_Protocol Ctap_Storage_Properties
begin

text \<open>
  What the client PIN protocol guarantees over any store that keeps its contract: a wrong PIN costs a
  stored retry, retries come back only to who knows the PIN, and the secrets that the two sides
  exchange arrive.
\<close>

section \<open>The PIN in the store\<close>

definition retries_left :: "(nat \<Rightarrow> bytes option) \<Rightarrow> nat" where
  "retries_left content = (case content KEY_PIN_RETRIES of None \<Rightarrow> unat MAX_PIN_RETRIES | Some v \<Rightarrow> unat (v ! 0))"

definition pin_ok :: "(nat \<Rightarrow> bytes option) \<Rightarrow> bool" where
  "pin_ok content \<longleftrightarrow>
     (\<forall>v. content KEY_PIN_RETRIES = Some v \<longrightarrow> length v = 1 \<and> v ! 0 \<le> MAX_PIN_RETRIES)
     \<and> (\<forall>h. content KEY_PIN_HASH = Some h \<longrightarrow> length h = PIN_AUTH_LENGTH)
     \<and> (\<forall>v. content KEY_MIN_PIN_LENGTH = Some v \<longrightarrow> length v = 1)"

definition least_pin_length :: "bool \<Rightarrow> (nat \<Rightarrow> bytes option) \<Rightarrow> nat" where
  "least_pin_length v21 content =
     (if v21 then (case content KEY_MIN_PIN_LENGTH of None \<Rightarrow> unat DEFAULT_MIN_PIN_LENGTH | Some v \<Rightarrow> unat (v ! 0)) else 4)"

lemma retries_left_le: "pin_ok content \<Longrightarrow> retries_left content \<le> 8"
  by (auto simp: pin_ok_def retries_left_def MAX_PIN_RETRIES_def word_le_nat_alt split: option.splits)

lemma pin_keys_distinct [simp]:
  "KEY_PIN_HASH \<noteq> KEY_PIN_RETRIES" "KEY_PIN_RETRIES \<noteq> KEY_PIN_HASH"
  "KEY_MIN_PIN_LENGTH \<noteq> KEY_PIN_RETRIES" "KEY_PIN_RETRIES \<noteq> KEY_MIN_PIN_LENGTH"
  "KEY_MIN_PIN_LENGTH \<noteq> KEY_PIN_HASH" "KEY_PIN_HASH \<noteq> KEY_MIN_PIN_LENGTH"
  by (simp_all add: store_keys)

lemma status_of_store_error_pin [simp]:
  "status_of_store_error e \<noteq> CTAP2_ERR_PIN_INVALID" "status_of_store_error e \<noteq> CTAP2_ERR_PIN_BLOCKED"
  "status_of_store_error e \<noteq> CTAP2_ERR_PIN_AUTH_BLOCKED"
  by (cases e; simp)+

lemma ctap_store_errors:
  "ctap_insert ops k v s = (Err e, s') \<Longrightarrow> e \<in> range status_of_store_error"
  "ctap_remove ops k s = (Err e, s') \<Longrightarrow> e \<in> range status_of_store_error"
  by (auto simp: ctap_insert_def ctap_remove_def smap_err_def split: prod.splits elim!: map_err.elims)

lemma ctap_insert_not_pin: "ctap_insert ops k v s = (r, s') \<Longrightarrow> r \<noteq> Err CTAP2_ERR_PIN_INVALID"
  using ctap_store_errors(1) status_of_store_error_pin(1) by (metis image_iff)

text \<open>The PIN hash that a client sends, as the authenticator decrypts it.\<close>

definition sent_hash :: "decryption_key \<Rightarrow> bytes \<Rightarrow> bytes" where
  "sent_hash key hash_enc = cbc_decrypt decrypt_block key zero_iv [hash_enc] ! 0"

definition exchanged_key :: "pin_protocol_v1 \<Rightarrow> ecdh_pub_key \<Rightarrow> decryption_key" where
  "exchanged_key p pk = decryption_key_new (encryption_key_new (exchange_x_sha256 (key_agreement_key p) pk))"

fun client_hash :: "pin_protocol_v1 \<Rightarrow> cose_key option \<Rightarrow> bytes option \<Rightarrow> bytes option" where
  "client_hash p (Some key_agreement) (Some hash_enc) =
     (case ecdh_try_from_cose_key key_agreement of
        Inl _ \<Rightarrow> None
      | Inr pk \<Rightarrow> Some (sent_hash (exchanged_key p pk) hash_enc))"
| "client_hash p _ _ = None"

lemma required_error_not_pin [simp]:
  "required extract_integer v \<noteq> Inl CTAP2_ERR_PIN_INVALID" "required extract_byte_string v \<noteq> Inl CTAP2_ERR_PIN_INVALID"
  by (auto simp: required_def ok_or_missing_def ok_or_def rbind_eq_Inl_iff
      elim!: extract_integer.elims extract_byte_string.elims split: option.splits if_splits)

lemma key_error_not_pin: "ecdh_try_from_cose_key k \<noteq> Inl CTAP2_ERR_PIN_INVALID"
  by (auto simp: ecdh_try_from_cose_key_def Let_def rbind_eq_Inl_iff ok_or_def split: if_splits option.splits)

text \<open>What every subcommand keeps of the PIN, given the hash that the client sent and the outcome.\<close>

definition pin_kept :: "('s \<Rightarrow> nat \<Rightarrow> bytes option) \<Rightarrow> ('s \<Rightarrow> bool) \<Rightarrow> ('s, 'r, 'm) pin_state_scheme \<Rightarrow> bytes option \<Rightarrow> 'a fallible \<Rightarrow> ('s, 'r, 'm) pin_state_scheme \<Rightarrow> bool" where
  "pin_kept content invar st guess r st' \<longleftrightarrow>
     (invar (ps_store st') \<and> pin_ok (content (ps_store st'))
      \<and> (content (ps_store st) KEY_PIN_HASH \<noteq> None \<and> content (ps_store st) KEY_PIN_HASH \<noteq> guess
           \<longrightarrow> content (ps_store st') KEY_PIN_HASH = content (ps_store st) KEY_PIN_HASH
             \<and> retries_left (content (ps_store st')) \<le> retries_left (content (ps_store st)))
      \<and> (r = Err CTAP2_ERR_PIN_INVALID
           \<longrightarrow> Suc (retries_left (content (ps_store st'))) = retries_left (content (ps_store st)))
      \<and> (consecutive_pin_mismatches (ps_pin st) \<le> 3 \<longrightarrow> consecutive_pin_mismatches (ps_pin st') \<le> 3))"

text \<open>What a subcommand adds that demands the PIN.\<close>

definition pin_demanded :: "('s \<Rightarrow> nat \<Rightarrow> bytes option) \<Rightarrow> ('s, 'r, 'm) pin_state_scheme \<Rightarrow> bytes option \<Rightarrow> 'a fallible \<Rightarrow> ('s, 'r, 'm) pin_state_scheme \<Rightarrow> bool" where
  "pin_demanded content st guess r st' \<longleftrightarrow>
     ((\<exists>x. r = Ok x) \<longrightarrow> content (ps_store st) KEY_PIN_HASH = guess \<and> guess \<noteq> None)
     \<and> (retries_left (content (ps_store st)) = 0 \<longrightarrow> (\<exists>e. r = Err e) \<and> st' = st)"

definition demands_pin :: "client_pin_sub_command \<Rightarrow> bool" where
  "demands_pin c \<longleftrightarrow> c \<in> {ChangePin, GetPinToken, GetPinUvAuthTokenUsingPinWithPermissions}"

lemma present_step:
  assumes "sbind (present opt) f st = (r, st')"
  obtains "opt = None" "r = Err CTAP2_ERR_MISSING_PARAMETER" "st' = st" | x where "opt = Some x" "f x st = (r, st')"
  using assms by (cases opt) (auto simp: present_def ok_or_def sbind_simps sfail_def)

definition same_outcome :: "'a fallible \<Rightarrow> 'b fallible \<Rightarrow> bool" where
  "same_outcome r1 r2 \<longleftrightarrow> (\<forall>e. r1 = Err e \<longleftrightarrow> r2 = Err e) \<and> ((\<exists>x. r1 = Ok x) \<longleftrightarrow> (\<exists>x. r2 = Ok x))"

lemma sret_step:
  assumes "sbind m (\<lambda>x. sret (g x)) st = (r, st')"
  obtains r1 where "m st = (r1, st')" "same_outcome r1 r"
  using assms by (cases rule: sbindE) (auto simp: same_outcome_def sret_def)

lemma pin_kept_outcome: "same_outcome r1 r2 \<Longrightarrow> pin_kept content invar st guess r1 st' \<longleftrightarrow> pin_kept content invar st guess r2 st'"
  by (simp add: same_outcome_def pin_kept_def)

lemma pin_demanded_outcome: "same_outcome r1 r2 \<Longrightarrow> pin_demanded content st guess r1 st' \<longleftrightarrow> pin_demanded content st guess r2 st'"
  by (simp add: same_outcome_def pin_demanded_def)

text \<open>A subcommand keeps the PIN and demands it when it has to.\<close>

definition subcommand_kept :: "('s \<Rightarrow> nat \<Rightarrow> bytes option) \<Rightarrow> ('s \<Rightarrow> bool) \<Rightarrow> client_pin_parameters \<Rightarrow> ('s, 'r, 'm) pin_state_scheme \<Rightarrow> 'x fallible \<Rightarrow> ('s, 'r, 'm) pin_state_scheme \<Rightarrow> bool" where
  "subcommand_kept content invar params st r st' \<longleftrightarrow>
     (let guess = client_hash (ps_pin st) (cpp_key_agreement params) (cpp_pin_hash_enc params) in
      pin_kept content invar st guess r st'
      \<and> (demands_pin (cpp_sub_command params) \<longrightarrow> pin_demanded content st guess r st'))"

lemma subcommand_kept_outcome:
  "subcommand_kept content invar params st r1 st' \<Longrightarrow> same_outcome r1 r \<Longrightarrow> subcommand_kept content invar params st r st'"
  by (simp add: subcommand_kept_def Let_def pin_kept_outcome pin_demanded_outcome)

lemma subcommand_kept_free:
  assumes "pin_kept content invar st (client_hash (ps_pin st) (cpp_key_agreement params) (cpp_pin_hash_enc params)) r st'"
    and "\<not> demands_pin (cpp_sub_command params)"
  shows "subcommand_kept content invar params st r st'"
  using assms by (simp add: subcommand_kept_def Let_def)

lemma subcommand_kept_demanded:
  assumes "pin_kept content invar st (client_hash (ps_pin st) (Some ka) (Some hash_enc)) r st'
      \<and> pin_demanded content st (client_hash (ps_pin st) (Some ka) (Some hash_enc)) r st'"
    and "cpp_key_agreement params = Some ka" and "cpp_pin_hash_enc params = Some hash_enc"
  shows "subcommand_kept content invar params st r st'"
  using assms by (simp add: subcommand_kept_def Let_def del: client_hash.simps)

locale platform_store = key_value_store "pf_store pf" content invar
  for pf :: "('s, 'h, 'r) platform" and content and invar
begin

lemma pin_hash_law:
  "invar s \<Longrightarrow> pin_ok (content s) \<Longrightarrow> pin_hash (pf_store pf) s = Ok (content s KEY_PIN_HASH)"
  by (auto simp: pin_hash_def ctap_find_law pin_ok_def split: option.splits)

lemma pin_retries_law:
  assumes "invar s" and "pin_ok (content s)"
  shows "pin_retries (pf_store pf) s = Ok (of_nat (retries_left (content s)))"
  using assms by (auto simp: pin_retries_def ctap_find_law pin_ok_def retries_left_def split: option.splits)

lemma decr_pin_retries_law:
  assumes "invar s" and "pin_ok (content s)" and "decr_pin_retries (pf_store pf) s = (r, s')"
  shows "invar s' \<and> pin_ok (content s') \<and> r \<noteq> Panic
    \<and> (\<forall>k. k \<noteq> KEY_PIN_RETRIES \<longrightarrow> content s' k = content s k)
    \<and> (r = Ok () \<longrightarrow> retries_left (content s') = retries_left (content s) - 1)
    \<and> (r \<noteq> Ok () \<longrightarrow> content s' = content s \<and> r \<in> Err ` range status_of_store_error)"
proof -
  let ?n = "retries_left (content s)"
  have n: "?n \<le> 8" by (rule retries_left_le [OF assms(2)])
  then have u: "unat (of_nat ?n :: u8) = ?n" by (simp add: unat_of_nat)
  show ?thesis
  proof (cases "?n = 0")
    case True
    with assms show ?thesis by (auto simp: decr_pin_retries_def sbind_def op_defs pin_retries_law Let_def)
  next
    case False
    then have ne: "(of_nat ?n :: u8) \<noteq> 0" using u by (metis unat_0)
    have pred: "unat (of_nat ?n - 1 :: u8) = ?n - 1" using u ne by (simp add: unat_minus_one)
    have "ctap_insert (pf_store pf) KEY_PIN_RETRIES [of_nat ?n - 1] s = (r, s')"
      using assms ne by (simp add: decr_pin_retries_def sbind_def op_defs pin_retries_law Let_def)
    note insert = this
    note law = ctap_insert_law [OF assms(1) insert]
    have "r \<noteq> Ok () \<longrightarrow> r \<in> Err ` range status_of_store_error"
      using law insert ctap_store_errors(1) by (cases r) fastforce+
    have "(of_nat ?n - 1 :: u8) \<le> MAX_PIN_RETRIES"
      using n by (simp add: word_le_nat_alt pred MAX_PIN_RETRIES_def)
    with law assms(2) pred \<open>r \<noteq> Ok () \<longrightarrow> _\<close> show ?thesis by (auto simp: pin_ok_def retries_left_def)
  qed
qed

lemma reset_pin_retries_law:
  assumes "invar s" and "pin_ok (content s)" and "reset_pin_retries (pf_store pf) s = (r, s')"
  shows "invar s' \<and> pin_ok (content s') \<and> r \<noteq> Panic
    \<and> (\<forall>k. k \<noteq> KEY_PIN_RETRIES \<longrightarrow> content s' k = content s k)
    \<and> (r = Ok () \<longrightarrow> retries_left (content s') = 8)
    \<and> (r \<noteq> Ok () \<longrightarrow> content s' = content s \<and> r \<in> Err ` range status_of_store_error)"
proof -
  note remove = assms(3) [unfolded reset_pin_retries_def]
  note law = ctap_remove_law [OF assms(1) remove]
  moreover have "r \<noteq> Ok () \<longrightarrow> r \<in> Err ` range status_of_store_error"
    using law remove ctap_store_errors(2) by (cases r) fastforce+
  ultimately show ?thesis using assms(2) by (auto simp: pin_ok_def retries_left_def MAX_PIN_RETRIES_def)
qed

lemma pin_mismatch_law:
  assumes "pin_mismatch pf st = (r, st')"
  shows "ps_store st' = ps_store st \<and> r \<noteq> Ok ()
    \<and> pin_uv_auth_token (ps_pin st') = pin_uv_auth_token (ps_pin st)
    \<and> (consecutive_pin_mismatches (ps_pin st) < 3 \<longrightarrow> consecutive_pin_mismatches (ps_pin st') \<le> 3)"
proof -
  have "(m :: u8) < 3 \<Longrightarrow> m \<le> 3 \<and> m + 1 \<le> 3" for m by (simp add: word_less_nat_alt word_le_nat_alt unat_word_ariths)
  with assms show ?thesis
    by (auto simp: pin_mismatch_def sbind_def op_defs random_key_def modify_pin_def from_store_def get_pin_def
        split: option.splits prod.splits outcome.splits if_splits)
qed

lemma verify_pin_hash_enc_law:
  assumes "invar (ps_store st)" and "pin_ok (content (ps_store st))"
    and "verify_pin_hash_enc pf key hash_enc st = (r, st')"
  shows "invar (ps_store st') \<and> pin_ok (content (ps_store st'))
    \<and> (\<forall>k. k \<noteq> KEY_PIN_RETRIES \<longrightarrow> content (ps_store st') k = content (ps_store st) k)
    \<and> pin_uv_auth_token (ps_pin st') = pin_uv_auth_token (ps_pin st)
    \<and> (r = Ok () \<longrightarrow> content (ps_store st) KEY_PIN_HASH = Some (sent_hash key hash_enc)
         \<and> retries_left (content (ps_store st')) = 8 \<and> consecutive_pin_mismatches (ps_pin st') = 0)
    \<and> (content (ps_store st) KEY_PIN_HASH \<noteq> Some (sent_hash key hash_enc)
         \<longrightarrow> retries_left (content (ps_store st')) \<le> retries_left (content (ps_store st)))
    \<and> (r = Err CTAP2_ERR_PIN_INVALID
         \<longrightarrow> retries_left (content (ps_store st')) = retries_left (content (ps_store st)) - 1)
    \<and> (consecutive_pin_mismatches (ps_pin st) \<ge> 3 \<longrightarrow> (\<exists>e. r = Err e) \<and> st' = st)
    \<and> (consecutive_pin_mismatches (ps_pin st) \<le> 3 \<longrightarrow> consecutive_pin_mismatches (ps_pin st') \<le> 3)"
proof (cases "content (ps_store st) KEY_PIN_HASH = None \<or> consecutive_pin_mismatches (ps_pin st) \<ge> 3")
  case True
  then have "(\<exists>e. r = Err e \<and> e \<noteq> CTAP2_ERR_PIN_INVALID) \<and> st' = st"
    using assms(3) by (auto simp: verify_pin_hash_enc_def sbind_def op_defs from_store_def get_pin_def
        pin_hash_law [OF assms(1,2)] split: option.splits if_splits)
  with assms(1,2) show ?thesis by auto
next
  case False
  then obtain h where h: "content (ps_store st) KEY_PIN_HASH = Some h" and m: "consecutive_pin_mismatches (ps_pin st) < 3"
    by auto
  obtain r1 s1 where d: "decr_pin_retries (pf_store pf) (ps_store st) = (r1, s1)" by fastforce
  note dl = decr_pin_retries_law [OF assms(1,2) d]
  let ?st1 = "st\<lparr>ps_store := s1\<rparr>"
  note run = verify_pin_hash_enc_def sbind_def op_defs from_store_def get_pin_def with_store_def modify_pin_def
    pin_hash_law [OF assms(1,2)] h d Let_def
  consider e where "r1 = Err e" | "r1 = Ok ()" "length hash_enc \<noteq> PIN_AUTH_LENGTH"
    | "r1 = Ok ()" "length hash_enc = PIN_AUTH_LENGTH" "h \<noteq> sent_hash key hash_enc"
    | "r1 = Ok ()" "length hash_enc = PIN_AUTH_LENGTH" "h = sent_hash key hash_enc"
    using dl by (cases r1) auto
  then show ?thesis
  proof cases
    case 1
    with assms(3) m have "r = Err e \<and> st' = ?st1" by (simp add: run not_le)
    with 1 dl m assms(1,2) show ?thesis by auto
  next
    case 2
    with assms(3) m have "r = Err CTAP2_ERR_PIN_INVALID \<and> st' = ?st1" by (simp add: run not_le)
    with 2 dl m show ?thesis by auto
  next
    case 3
    then obtain r2 st2 where mm: "pin_mismatch pf ?st1 = (r2, st2)" by fastforce
    with 3 assms(3) m pin_mismatch_law [OF mm] have "r = r2 \<and> st' = st2"
      by (cases r2) (auto simp: run not_le sent_hash_def)
    with 3 dl m pin_mismatch_law [OF mm] h show ?thesis by auto
  next
    case 4
    obtain r2 s2 where rs: "reset_pin_retries (pf_store pf) s1 = (r2, s2)" by fastforce
    have "invar s1" "pin_ok (content s1)" using dl by auto
    note rl = reset_pin_retries_law [OF this rs]
    show ?thesis
    proof (cases "r2 = Ok ()")
      case True
      with 4 assms(3) m rs have "r = Ok ()"
        and "st' = ?st1\<lparr>ps_store := s2, ps_pin := (ps_pin st)\<lparr>consecutive_pin_mismatches := 0\<rparr>\<rparr>"
        by (auto simp: run not_le sent_hash_def)
      with rl dl h 4 True m show ?thesis by auto
    next
      case False
      then obtain e where "r2 = Err (status_of_store_error e)" using rl by auto
      moreover from this 4 assms(3) m rs have "r = r2" "st' = ?st1\<lparr>ps_store := s2\<rparr>"
        by (auto simp: run not_le sent_hash_def)
      ultimately show ?thesis using rl dl h 4 m by auto
    qed
  qed
qed

lemma unblocked:
  "invar s \<Longrightarrow> pin_ok (content s) \<Longrightarrow> pin_retries (pf_store pf) s = Ok x \<Longrightarrow> x = 0 \<longleftrightarrow> retries_left (content s) = 0"
  using retries_left_le [of "content s"] by (auto simp: pin_retries_law word_unat_eq_iff unat_of_nat)

lemma check_and_store_new_pin_run:
  assumes "invar s" and "pin_ok (content s)"
  shows "check_and_store_new_pin pf key new_pin_enc s =
    (case decrypt_pin key new_pin_enc of
       None \<Rightarrow> (Err CTAP2_ERR_PIN_POLICY_VIOLATION, s)
     | Some pin \<Rightarrow>
         if length pin \<noteq> PIN_PADDED_LENGTH \<and> least_pin_length (pf_v21 pf) (content s) \<le> length pin
         then ctap_insert (pf_store pf) KEY_PIN_HASH (take 16 (sha256_hash pin)) s
         else (Err CTAP2_ERR_PIN_POLICY_VIOLATION, s))"
proof -
  have "(if pf_v21 pf then sread (\<lambda>s. obind (min_pin_length (pf_store pf) s) (\<lambda>l. Ok (unat l))) else sret 4) s
      = (Ok (least_pin_length (pf_v21 pf) (content s)), s)"
    using assms by (auto simp: op_defs least_pin_length_def min_pin_length_def ctap_find_law pin_ok_def split: option.splits)
  then show ?thesis
    by (cases "decrypt_pin key new_pin_enc"; cases "pf_v21 pf")
      (auto simp: check_and_store_new_pin_def ok_or_def sbind_simps sbind_apply_Ok sfail_apply sguard_def set_pin_hash_def
        least_pin_length_def [of False])
qed

lemma check_and_store_new_pin_law:
  assumes "invar s" and "pin_ok (content s)" and "check_and_store_new_pin pf key new_pin_enc s = (r, s')"
  shows "invar s' \<and> pin_ok (content s') \<and> r \<noteq> Err CTAP2_ERR_PIN_INVALID
    \<and> (\<forall>k. k \<noteq> KEY_PIN_HASH \<longrightarrow> content s' k = content s k)
    \<and> (r = Ok () \<longrightarrow> (\<exists>pin. decrypt_pin key new_pin_enc = Some pin \<and> length pin \<noteq> PIN_PADDED_LENGTH
         \<and> least_pin_length (pf_v21 pf) (content s) \<le> length pin
         \<and> content s' KEY_PIN_HASH = Some (take 16 (sha256_hash pin))))
    \<and> (r \<noteq> Ok () \<longrightarrow> content s' = content s)"
proof -
  have hash: "length (take 16 (sha256_hash pin)) = PIN_AUTH_LENGTH" for pin by (simp add: PIN_AUTH_LENGTH_def)
  from assms(3) consider "r = Err CTAP2_ERR_PIN_POLICY_VIOLATION" "s' = s"
    | pin where "decrypt_pin key new_pin_enc = Some pin" "length pin \<noteq> PIN_PADDED_LENGTH"
        "least_pin_length (pf_v21 pf) (content s) \<le> length pin"
        "ctap_insert (pf_store pf) KEY_PIN_HASH (take 16 (sha256_hash pin)) s = (r, s')"
    by (auto simp: check_and_store_new_pin_run [OF assms(1,2)] split: option.splits if_splits)
  then show ?thesis
  proof cases
    case 1
    with assms(1,2) show ?thesis by simp
  next
    case (2 pin)
    with ctap_insert_law [OF assms(1) 2(4)] ctap_insert_not_pin [OF 2(4)] assms(2) hash [of pin]
    show ?thesis by (auto simp: pin_ok_def)
  qed
qed

lemma exchange_decryption_key_cases:
  assumes "exchange_decryption_key p ka auth msg = r"
  obtains e where "r = Err e" "e \<noteq> CTAP2_ERR_PIN_INVALID"
  | pk where "r = Ok (exchanged_key p pk)" "ecdh_try_from_cose_key ka = Inr pk"
      "verify_pin_auth (exchange_x_sha256 (key_agreement_key p) pk) msg auth"
  using assms key_error_not_pin [of ka]
  by (cases "ecdh_try_from_cose_key ka") (auto simp: exchange_decryption_key_def exchanged_key_def Let_def split: if_splits)

lemma pin_kept_same:
  "invar (ps_store st) \<Longrightarrow> pin_ok (content (ps_store st)) \<Longrightarrow> r \<noteq> Err CTAP2_ERR_PIN_INVALID
    \<Longrightarrow> ps_store st' = ps_store st \<Longrightarrow> consecutive_pin_mismatches (ps_pin st') = consecutive_pin_mismatches (ps_pin st)
    \<Longrightarrow> pin_kept content invar st guess r st'"
  by (simp add: pin_kept_def)

lemma verify_pin_kept:
  assumes "invar (ps_store st)" and "pin_ok (content (ps_store st))" and "retries_left (content (ps_store st)) \<noteq> 0"
    and "verify_pin_hash_enc pf (exchanged_key (ps_pin st) pk) hash_enc st = (r, st')"
    and "ecdh_try_from_cose_key ka = Inr pk"
  shows "pin_kept content invar st (client_hash (ps_pin st) (Some ka) (Some hash_enc)) r st'
    \<and> pin_demanded content st (client_hash (ps_pin st) (Some ka) (Some hash_enc)) r st'"
  using verify_pin_hash_enc_law [OF assms(1,2,4)] assms(3,5) by (auto simp: pin_kept_def pin_demanded_def)

lemma process_get_pin_token_kept:
  assumes "invar (ps_store st)" and "pin_ok (content (ps_store st))"
    and "process_get_pin_token pf ka hash_enc st = (r, st')"
  shows "pin_kept content invar st (client_hash (ps_pin st) (Some ka) (Some hash_enc)) r st'
    \<and> pin_demanded content st (client_hash (ps_pin st) (Some ka) (Some hash_enc)) r st'"
proof (cases "retries_left (content (ps_store st)) = 0")
  case True
  with assms have "r = Err CTAP2_ERR_PIN_BLOCKED \<and> st' = st"
    by (auto simp: process_get_pin_token_def sbind_def op_defs from_store_def pin_retries_law)
  with assms True show ?thesis by (auto simp: pin_kept_def pin_demanded_def)
next
  case False
  define x where "x = (of_nat (retries_left (content (ps_store st))) :: u8)"
  have x: "pin_retries (pf_store pf) (ps_store st) = Ok x" "x \<noteq> 0"
    using pin_retries_law [OF assms(1,2)] unblocked [OF assms(1,2)] False by (auto simp: x_def)
  note run = process_get_pin_token_def sbind_def op_defs from_store_def get_pin_def x Let_def modify_pin_def
  show ?thesis
  proof (cases "ecdh_try_from_cose_key ka")
    case (Inl e)
    with assms have "r = Err e \<and> st' = st" by (auto simp: run)
    with assms False Inl key_error_not_pin [of ka] show ?thesis by (auto simp: pin_kept_def pin_demanded_def)
  next
    case (Inr pk)
    obtain r1 st1 where v: "verify_pin_hash_enc pf (exchanged_key (ps_pin st) pk) hash_enc st = (r1, st1)" by fastforce
    from assms(3) v Inr x have "ps_store st' = ps_store st1 \<and> consecutive_pin_mismatches (ps_pin st') = consecutive_pin_mismatches (ps_pin st1)
        \<and> ((\<exists>y. r = Ok y) \<longrightarrow> r1 = Ok ()) \<and> (\<forall>e. r = Err e \<longrightarrow> r1 = Err e)"
      by (cases r1; cases "pf_v21 pf") (auto simp: run exchanged_key_def [symmetric])
    with verify_pin_kept [OF assms(1,2) False v Inr] False show ?thesis by (simp add: pin_kept_def pin_demanded_def)
  qed
qed

lemma process_change_pin_kept:
  assumes "invar (ps_store st)" and "pin_ok (content (ps_store st))"
    and "process_change_pin pf ka auth new_pin_enc hash_enc st = (r, st')"
  shows "pin_kept content invar st (client_hash (ps_pin st) (Some ka) (Some hash_enc)) r st'
    \<and> pin_demanded content st (client_hash (ps_pin st) (Some ka) (Some hash_enc)) r st'"
proof (cases "retries_left (content (ps_store st)) = 0")
  case True
  with assms have "r = Err CTAP2_ERR_PIN_BLOCKED \<and> st' = st"
    by (auto simp: process_change_pin_def sbind_def op_defs from_store_def pin_retries_law)
  with assms True show ?thesis by (auto simp: pin_kept_def pin_demanded_def)
next
  case False
  define x where "x = (of_nat (retries_left (content (ps_store st))) :: u8)"
  have x: "pin_retries (pf_store pf) (ps_store st) = Ok x" "x \<noteq> 0"
    using pin_retries_law [OF assms(1,2)] unblocked [OF assms(1,2)] False by (auto simp: x_def)
  note run = process_change_pin_def sbind_def op_defs from_store_def get_pin_def x Let_def modify_pin_def
  from refl [of "exchange_decryption_key (ps_pin st) ka auth (new_pin_enc @ hash_enc)"] show ?thesis
  proof (cases rule: exchange_decryption_key_cases)
    case (1 e)
    with assms have "r = Err e \<and> st' = st" by (auto simp: run)
    with assms False 1 show ?thesis by (auto simp: pin_kept_def pin_demanded_def)
  next
    case (2 pk)
    obtain r1 st1 where v: "verify_pin_hash_enc pf (exchanged_key (ps_pin st) pk) hash_enc st = (r1, st1)" by fastforce
    note kept = verify_pin_kept [OF assms(1,2) False v 2(2)]
    show ?thesis
    proof (cases "r1 = Ok ()")
      case True
      obtain r2 s2 where c: "check_and_store_new_pin pf (exchanged_key (ps_pin st) pk) new_pin_enc (ps_store st1) = (r2, s2)" by fastforce
      from kept have "invar (ps_store st1)" "pin_ok (content (ps_store st1))" by (auto simp: pin_kept_def)
      note law = check_and_store_new_pin_law [OF this c]
      from assms(3) v 2 True c have "ps_store st' = s2 \<and> consecutive_pin_mismatches (ps_pin st') = consecutive_pin_mismatches (ps_pin st1)
          \<and> (r = Err CTAP2_ERR_PIN_INVALID \<longrightarrow> r2 = Err CTAP2_ERR_PIN_INVALID)"
        by (cases r2) (auto simp: run with_store_def random_bytes_def split: prod.splits)
      with law kept True False show ?thesis by (auto simp: pin_kept_def pin_demanded_def)
    next
      case no: False
      with assms(3) v 2 have "st' = st1 \<and> (\<forall>y. r \<noteq> Ok y) \<and> (\<forall>e. r = Err e \<longrightarrow> r1 = Err e)" by (cases r1) (auto simp: run)
      with kept False show ?thesis by (simp add: pin_kept_def pin_demanded_def)
    qed
  qed
qed

lemma process_set_pin_kept:
  assumes "invar (ps_store st)" and "pin_ok (content (ps_store st))"
    and "process_set_pin pf ka auth new_pin_enc st = (r, st')"
  shows "pin_kept content invar st guess r st'"
proof (cases "content (ps_store st) KEY_PIN_HASH")
  case None
  note run = process_set_pin_def sbind_def op_defs from_store_def get_pin_def Let_def pin_hash_law [OF assms(1,2)] None with_store_def
  from refl [of "exchange_decryption_key (ps_pin st) ka auth new_pin_enc"] show ?thesis
  proof (cases rule: exchange_decryption_key_cases)
    case (1 e)
    with assms have "r = Err e \<and> st' = st" by (auto simp: run)
    with assms 1 show ?thesis by (auto intro: pin_kept_same)
  next
    case (2 pk)
    obtain r2 s2 where c: "check_and_store_new_pin pf (exchanged_key (ps_pin st) pk) new_pin_enc (ps_store st) = (r2, s2)" by fastforce
    note law = check_and_store_new_pin_law [OF assms(1,2) c]
    obtain r3 s3 where d: "reset_pin_retries (pf_store pf) s2 = (r3, s3)" by fastforce
    note law' = reset_pin_retries_law [OF _ _ d]
    from assms(3) 2 c d have "ps_pin st' = ps_pin st \<and> (ps_store st' = s2 \<and> r \<noteq> Err CTAP2_ERR_PIN_INVALID \<or> ps_store st' = s3 \<and> r = r3)"
      using law by (cases r2) (auto simp: run)
    with law law' None show ?thesis by (auto simp: pin_kept_def)
  qed
next
  case (Some h)
  with assms have "r = Err CTAP2_ERR_PIN_AUTH_INVALID \<and> st' = st"
    by (auto simp: process_set_pin_def sbind_def op_defs from_store_def pin_hash_law)
  with assms show ?thesis by (auto intro: pin_kept_same)
qed

lemma process_set_min_pin_length_kept:
  assumes "invar (ps_store st)" and "pin_ok (content (ps_store st))"
    and "process_set_min_pin_length pf n ids auth st = (r, st')"
  shows "pin_kept content invar st guess r st'"
proof -
  obtain r2 s2 where c: "set_min_pin_length (pf_store pf) n (ps_store st) = (r2, s2)" by fastforce
  note law = ctap_insert_law [OF assms(1) c [unfolded set_min_pin_length_def]]
  have l: "min_pin_length (pf_store pf) (ps_store st) \<in> range Ok"
    using assms(1,2) by (auto simp: min_pin_length_def ctap_find_law pin_ok_def split: option.splits)
  have e: "r2 \<noteq> Err CTAP2_ERR_PIN_INVALID"
    using c by (auto simp: set_min_pin_length_def dest: ctap_insert_not_pin)
  from assms(3) l have "ps_pin st' = ps_pin st \<and> (ps_store st' = ps_store st \<and> r \<noteq> Err CTAP2_ERR_PIN_INVALID \<or> ps_store st' = s2 \<and> r = r2)"
    by (auto simp: process_set_min_pin_length_def sbind_def op_defs from_store_def get_pin_def with_store_def pin_hash_law [OF assms(1,2)] c Let_def
        split: option.splits if_splits outcome.splits)
  with law e assms(1,2) show ?thesis by (cases "r2 = Ok ()") (auto simp: pin_kept_def pin_ok_def retries_left_def)
qed

lemma permissions_kept:
  assumes "invar (ps_store st)" and "pin_ok (content (ps_store st))"
    and "process_get_pin_uv_auth_token_using_pin_with_permissions pf ka hash_enc perms rp st = (r, st')"
  shows "pin_kept content invar st (client_hash (ps_pin st) (Some ka) (Some hash_enc)) r st'
    \<and> pin_demanded content st (client_hash (ps_pin st) (Some ka) (Some hash_enc)) r st'"
proof (cases "perms \<noteq> 0 \<and> \<not> (perms AND 0x03 \<noteq> 0 \<and> rp = None)")
  case True
  obtain r1 st1 where v: "process_get_pin_token pf ka hash_enc st = (r1, st1)" by fastforce
  with assms(3) True have "ps_store st' = ps_store st1" "consecutive_pin_mismatches (ps_pin st') = consecutive_pin_mismatches (ps_pin st1)"
      "same_outcome r1 r" "(\<exists>e. r1 = Err e) \<longrightarrow> st' = st1"
    by (cases r1; auto simp: process_get_pin_uv_auth_token_using_pin_with_permissions_def sbind_simps sbind_def op_defs modify_pin_def same_outcome_def)+
  with process_get_pin_token_kept [OF assms(1,2) v] show ?thesis by (auto simp: pin_kept_def pin_demanded_def same_outcome_def)
next
  case False
  with assms(3) have "r = Err CTAP1_ERR_INVALID_PARAMETER \<and> st' = st"
    by (auto simp: process_get_pin_uv_auth_token_using_pin_with_permissions_def sbind_def op_defs split: if_splits)
  with assms show ?thesis by (auto simp: pin_kept_def pin_demanded_def)
qed

lemma subcommand_kept_failed:
  assumes "invar (ps_store st)" and "pin_ok (content (ps_store st))" and "e \<noteq> CTAP2_ERR_PIN_INVALID"
  shows "subcommand_kept content invar params st (Err e) st"
  using assms by (auto simp: subcommand_kept_def pin_kept_def pin_demanded_def Let_def)

lemma process_subcommand_kept:
  assumes "invar (ps_store st)" and "pin_ok (content (ps_store st))" and "process_subcommand pf params st = (r, st')"
  shows "subcommand_kept content invar params st r st'"
proof (cases "cpp_pin_protocol params = 1")
  case False
  with assms(3) have "\<exists>e. r = Err e \<and> e \<noteq> CTAP2_ERR_PIN_INVALID \<and> st' = st"
    by (auto simp: process_subcommand_def sbind_def op_defs split: if_splits)
  with subcommand_kept_failed [OF assms(1,2)] show ?thesis by auto
next
  case True
  note step = assms(3) [unfolded process_subcommand_def, simplified True sbind_assoc sbind_simps]
  note missing = subcommand_kept_failed [OF assms(1,2), of CTAP2_ERR_MISSING_PARAMETER params, simplified]
  show ?thesis
  proof (cases "cpp_sub_command params")
    case GetPinRetries
    with step assms(1,2) show ?thesis
      by (auto simp: from_store_def op_defs sbind_def process_get_pin_retries_def pin_retries_law demands_pin_def
          intro!: subcommand_kept_free pin_kept_same)
  next
    case GetKeyAgreement
    with step assms(1,2) show ?thesis
      by (cases "cose_key_from_ecdh (ecdh_genpk (key_agreement_key (ps_pin st)))")
        (auto simp: get_pin_def op_defs sbind_def process_get_key_agreement_def demands_pin_def
          intro!: subcommand_kept_free pin_kept_same)
  next
    case SetPin
    with step show ?thesis
      by (auto simp: sbind_assoc sbind_simps missing demands_pin_def elim!: present_step sret_step
          intro: subcommand_kept_outcome [OF subcommand_kept_free [OF process_set_pin_kept [OF assms(1,2)]]])
  next
    case ChangePin
    with step show ?thesis 
      by (auto simp: sbind_assoc sbind_simps missing elim!: present_step sret_step
          intro: subcommand_kept_outcome [OF subcommand_kept_demanded [OF process_change_pin_kept [OF assms(1,2)]]])
  next
    case GetPinToken
    with step show ?thesis
      by (auto simp: sbind_assoc sbind_simps missing elim!: present_step sret_step
          intro: subcommand_kept_outcome [OF subcommand_kept_demanded [OF process_get_pin_token_kept [OF assms(1,2)]]])
  next
    case GetPinUvAuthTokenUsingUvWithPermissions
    with step assms(1,2) show ?thesis
      by (auto simp: sbind_assoc sbind_simps missing process_get_pin_uv_auth_token_using_uv_with_permissions_def sfail_apply
          elim!: present_step intro: subcommand_kept_failed)
  next
    case GetUvRetries
    with step assms(1,2) show ?thesis
      by (auto simp: sbind_simps sfail_apply process_get_uv_retries_def intro: subcommand_kept_failed)
  next
    case SetMinPinLength
    with step show ?thesis
      by (auto simp: sbind_assoc sbind_simps missing demands_pin_def elim!: present_step sret_step
          intro: subcommand_kept_outcome [OF subcommand_kept_free [OF process_set_min_pin_length_kept [OF assms(1,2)]]])
  next
    case GetPinUvAuthTokenUsingPinWithPermissions
    with step show ?thesis
      by (auto simp: sbind_assoc sbind_simps missing elim!: present_step sret_step
          intro: subcommand_kept_outcome [OF subcommand_kept_demanded [OF permissions_kept [OF assms(1,2)]]])
  qed
qed

end

text \<open>The contract holds on a platform whose store is the abstract store.\<close>

definition model_platform :: "('r \<Rightarrow> bytes \<times> 'r) \<Rightarrow> (store_model, nat \<times> bytes, 'r) platform" where
  "model_platform gen =
     \<lparr>pf_store = model_store_ops, pf_gen = gen, pf_usize = 32, pf_v21 = False, pf_ctap1 = True, pf_aaguid = replicate 16 0,
      pf_user_presence = (\<lambda>cid r. (Ok (), r)), pf_set_protection = (\<lambda>r. (True, r))\<rparr>"

interpretation abstract_platform: platform_store "model_platform gen" "\<lambda>m. map_of (model_content m)" model_ok for gen
  using abstract_store.key_value_store_axioms by (simp add: platform_store_def model_platform_def)

section \<open>Guessing the PIN\<close>

text \<open>
  A session of somebody who does not know the PIN: any subcommands, none with the hash of the PIN, and
  restarts of the device, which start the protocol anew on the store as it is.
\<close>

inductive guessing :: "('s, 'h, 'r) platform \<Rightarrow> bytes \<Rightarrow> ('s, 'r) pin_state \<Rightarrow> response_data fallible list \<Rightarrow> ('s, 'r) pin_state \<Rightarrow> bool"
  for pf :: "('s, 'h, 'r) platform" and h :: bytes where
  nothing: "guessing pf h st [] st"
| subcommand: "process_subcommand pf params st = (r, st1)
    \<Longrightarrow> client_hash (ps_pin st) (cpp_key_agreement params) (cpp_pin_hash_enc params) \<noteq> Some h
    \<Longrightarrow> guessing pf h st1 rs st2 \<Longrightarrow> guessing pf h st (r # rs) st2"
| restart: "pin_protocol_new (pf_gen pf) rng = Some (p, rng')
    \<Longrightarrow> guessing pf h \<lparr>ps_pin = p, ps_store = ps_store st, ps_rng = rng'\<rparr> rs st2 \<Longrightarrow> guessing pf h st rs st2"

context platform_store
begin

lemma guessing_law:
  assumes "guessing pf h st rs st'"
  shows "invar (ps_store st) \<Longrightarrow> pin_ok (content (ps_store st)) \<Longrightarrow> content (ps_store st) KEY_PIN_HASH = Some h
    \<Longrightarrow> invar (ps_store st') \<and> pin_ok (content (ps_store st')) \<and> content (ps_store st') KEY_PIN_HASH = Some h
      \<and> count_list rs (Err CTAP2_ERR_PIN_INVALID) + retries_left (content (ps_store st')) \<le> retries_left (content (ps_store st))"
  using assms
proof (induction rule: guessing.induct)
  case (subcommand params st r st1 rs st2)
  from process_subcommand_kept [OF subcommand.prems(1,2) subcommand.hyps(1)] subcommand.hyps(2) subcommand.prems(3)
  have "invar (ps_store st1)" "pin_ok (content (ps_store st1))" "content (ps_store st1) KEY_PIN_HASH = Some h"
    "retries_left (content (ps_store st1)) \<le> retries_left (content (ps_store st))"
    "r = Err CTAP2_ERR_PIN_INVALID \<Longrightarrow> Suc (retries_left (content (ps_store st1))) = retries_left (content (ps_store st))"
    by (simp_all add: subcommand_kept_def pin_kept_def Let_def)
  with subcommand.IH show ?case by (auto simp: not_le)
qed simp_all

end

text \<open>
  C1. Brute force is bounded across restarts. On any store that keeps its contract and holds a PIN, whoever
  does not send the hash of the PIN is told that a PIN was wrong at most as often as the store has retries left
  (at most eight), through any sequence of subcommands and restarts of the device; the PIN stays the same, and each
  such answer has consumed a retry for good.
\<close>

theorem guesses_bounded:
  assumes "key_value_store (pf_store pf) content invar" and "invar (ps_store st)" and "pin_ok (content (ps_store st))"
    and "content (ps_store st) KEY_PIN_HASH = Some h" and "guessing pf h st rs st'"
  shows "content (ps_store st') KEY_PIN_HASH = Some h \<and> invar (ps_store st')
    \<and> count_list rs (Err CTAP2_ERR_PIN_INVALID) + retries_left (content (ps_store st')) \<le> retries_left (content (ps_store st))
    \<and> retries_left (content (ps_store st)) \<le> 8"
  using platform_store.guessing_law [OF platform_store.intro [OF assms(1)] assms(5,2,3,4)] retries_left_le [OF assms(3)] by simp

definition sample_pin_state :: "bytes \<Rightarrow> (store_model, nat) pin_state" where
  "sample_pin_state retries =
     \<lparr>ps_pin = \<lparr>key_agreement_key = int256_ONE, pin_uv_auth_token = replicate 32 0, consecutive_pin_mismatches = 0,
        pp_permissions = 0, pp_permissions_rp_id = None\<rparr>,
      ps_store = \<lparr>model_content = [(KEY_PIN_RETRIES, retries), (KEY_PIN_HASH, replicate 16 7)], model_format = nrf52840_format\<rparr>,
      ps_rng = 0\<rparr>"

definition sample_token_request :: client_pin_parameters where
  "sample_token_request =
     \<lparr>cpp_pin_protocol = 1, cpp_sub_command = GetPinToken, cpp_key_agreement = Some [], cpp_pin_auth = None,
      cpp_new_pin_enc = None, cpp_pin_hash_enc = Some (replicate 16 0), cpp_min_pin_length = None,
      cpp_min_pin_length_rp_ids = None, cpp_permissions = None, cpp_permissions_rp_id = None\<rparr>"

abbreviation sample_rng :: "nat \<Rightarrow> bytes \<times> nat" where
  "sample_rng n \<equiv> (replicate 32 (of_nat n), Suc n)"

lemma sample_pin_state_ok:
  "retries \<in> {[0], [2]} \<Longrightarrow> model_ok (ps_store (sample_pin_state retries))
    \<and> pin_ok (map_of (model_content (ps_store (sample_pin_state retries))))
    \<and> map_of (model_content (ps_store (sample_pin_state retries))) KEY_PIN_HASH = Some (replicate 16 7)
    \<and> retries_left (map_of (model_content (ps_store (sample_pin_state retries)))) = unat (retries ! 0)"
  by (auto simp: sample_pin_state_def model_ok_def pin_ok_def retries_left_def store_keys MAX_PIN_RETRIES_def PIN_AUTH_LENGTH_def
      model_capacity_def btree_ok_def total_capacity_def virt_size_def max_prefix_len_def bytes_to_words_def div_ceil_def
      max_value_len_def max_key_def virt_page_size_def fmt_word_size_def nrf52840_format_def format_consts entry_size_def)

lemma sample_token_request_guess: "client_hash p (cpp_key_agreement sample_token_request) (cpp_pin_hash_enc sample_token_request) \<noteq> Some h"
  by (simp add: sample_token_request_def ecdh_try_from_cose_key_def destructure_cbor_map.simps required_def ok_or_missing_def
      ok_or_def)

theorem guesses_bounded_witness:
  "\<exists>rs st'. length rs = 2 \<and> guessing (model_platform sample_rng) (replicate 16 7) (sample_pin_state [2]) rs st'
    \<and> count_list rs (Err CTAP2_ERR_PIN_INVALID) + retries_left (map_of (model_content (ps_store st'))) \<le> 2"
proof -
  obtain r1 st1 where one: "process_subcommand (model_platform sample_rng) sample_token_request (sample_pin_state [2]) = (r1, st1)"
    by fastforce
  obtain r2 st2 where two: "process_subcommand (model_platform sample_rng) sample_token_request st1 = (r2, st2)" by fastforce
  have "guessing (model_platform sample_rng) (replicate 16 7) (sample_pin_state [2]) [r1, r2] st2"
    by (rule guessing.subcommand [OF one sample_token_request_guess guessing.subcommand [OF two sample_token_request_guess
          guessing.nothing]])
  note session = this
  have "key_value_store (pf_store (model_platform sample_rng)) (\<lambda>m. map_of (model_content m)) model_ok"
    by (rule abstract_platform.key_value_store_axioms)
  note bound = guesses_bounded [OF this _ _ _ session]
  have "count_list [r1, r2] (Err CTAP2_ERR_PIN_INVALID) + retries_left (map_of (model_content (ps_store st2))) \<le> 2"
    using bound sample_pin_state_ok [of "[2]"] by simp
  with session show ?thesis by (intro exI [of _ "[r1, r2]"] exI [of _ st2]) simp
qed



end
