(* ===== verification/Pin_Exchange.thy ===== *)
theory Pin_Exchange
  imports Pin_Properties
begin

text \<open>
  The client PIN protocol between an authenticator and an honest platform: what the platform encrypts
  with the shared secret arrives, in both directions.
\<close>

section \<open>The platform\<close>

text \<open>A PIN padded with zeros to 64 bytes and encrypted, its encrypted hash, and the tag over a message.\<close>

definition client_pin_enc :: "bytes \<Rightarrow> bytes \<Rightarrow> bytes" where
  "client_pin_enc secret pin =
     concat (cbc_encrypt encrypt_block (encryption_key_new secret) zero_iv
       (split_blocks 4 (pin @ replicate (64 - length pin) 0)))"

definition client_hash_enc :: "bytes \<Rightarrow> bytes \<Rightarrow> bytes" where
  "client_hash_enc secret pin =
     concat (cbc_encrypt encrypt_block (encryption_key_new secret) zero_iv [take 16 (sha256_hash pin)])"

definition client_auth :: "bytes \<Rightarrow> bytes \<Rightarrow> bytes" where
  "client_auth secret message = take 16 (hmac_256 secret message)"

definition client_token :: "bytes \<Rightarrow> bytes \<Rightarrow> bytes" where
  "client_token secret token_enc =
     concat (cbc_decrypt decrypt_block (decryption_key_new (encryption_key_new secret)) zero_iv (split_blocks 2 token_enc))"

section \<open>Blocks\<close>

lemma split_blocks_Suc: "split_blocks (Suc n) bs = take 16 bs # split_blocks n (drop 16 bs)"
  unfolding split_blocks_def by (simp add: upt_conv_Cons map_Suc_upt [symmetric] ac_simps del: upt_Suc)

lemma split_blocks_0 [simp]: "split_blocks 0 bs = []"
  by (simp add: split_blocks_def)

lemma concat_split_blocks: "length bs = 16 * n \<Longrightarrow> concat (split_blocks n bs) = bs"
  by (induction n arbitrary: bs) (simp_all add: split_blocks_Suc)

lemma split_blocks_concat: "\<forall>b \<in> set blocks. length b = 16 \<Longrightarrow> split_blocks (length blocks) (concat blocks) = blocks"
  by (induction blocks) (simp_all add: split_blocks_Suc)

lemma split_blocks_length: "length bs = 16 * n \<Longrightarrow> \<forall>b \<in> set (split_blocks n bs). length b = 16"
  by (auto simp: split_blocks_def)

lemma length_split_blocks [simp]: "length (split_blocks n bs) = n"
  by (simp add: split_blocks_def)

lemma length_zero_iv [simp]: "length zero_iv = 16"
  by (simp add: zero_iv_def)

lemma length_exchange [simp]: "length (exchange_x_sha256 sk pk) = 32"
  by (simp add: exchange_x_sha256_def)

text \<open>A message of whole blocks that one side encrypts and the other splits and decrypts.\<close>

lemma exchange_blocks:
  assumes "length secret = 32" and "length m = 16 * n"
  defines "c \<equiv> concat (cbc_encrypt encrypt_block (encryption_key_new secret) zero_iv (split_blocks n m))"
  shows "length c = 16 * n
    \<and> concat (cbc_decrypt decrypt_block (decryption_key_new (encryption_key_new secret)) zero_iv (split_blocks n c)) = m"
proof -
  let ?ek = "encryption_key_new secret" and ?bs = "split_blocks n m"
  note keys = aes_keys_match_new [OF assms(1)]
  have blocks: "length (cbc_encrypt encrypt_block ?ek zero_iv ?bs) = n"
      "\<forall>b \<in> set (cbc_encrypt encrypt_block ?ek zero_iv ?bs). length b = 16"
    using aes.cbc_blocks [OF keys length_zero_iv split_blocks_length [OF assms(2)]] by simp_all
  then have "split_blocks n c = cbc_encrypt encrypt_block ?ek zero_iv ?bs"
    unfolding c_def using split_blocks_concat [OF blocks(2)] by simp
  moreover have "length c = 16 * n"
    unfolding c_def using blocks by (simp add: length_concat sum_list_triv cong: map_cong)
  ultimately show ?thesis
    using aes.cbc_round_trip [OF keys length_zero_iv split_blocks_length [OF assms(2)]] concat_split_blocks [OF assms(2)] by simp
qed

lemma decrypt_pin_client:
  assumes "length secret = 32" and "length pin \<le> 64" and "0 \<notin> set pin"
  shows "decrypt_pin (decryption_key_new (encryption_key_new secret)) (client_pin_enc secret pin) = Some pin"
proof -
  have "takeWhile (\<lambda>c. c \<noteq> 0) (pin @ replicate (64 - length pin) 0) = pin"
    using assms(3) by (subst takeWhile_append2) (auto simp: takeWhile_replicate)
  with exchange_blocks [OF assms(1), of "pin @ replicate (64 - length pin) 0" 4] assms(2) show ?thesis
    by (simp add: decrypt_pin_def PIN_PADDED_LENGTH_def client_pin_enc_def)
qed

lemma sent_hash_client:
  assumes "length secret = 32"
  shows "length (client_hash_enc secret pin) = 16
    \<and> sent_hash (decryption_key_new (encryption_key_new secret)) (client_hash_enc secret pin) = take 16 (sha256_hash pin)"
  using exchange_blocks [OF assms, of "take 16 (sha256_hash pin)" 1, THEN conjunct1]
    exchange_blocks [OF assms, of "take 16 (sha256_hash pin)" 1, THEN conjunct2]
  by (simp add: client_hash_enc_def sent_hash_def split_blocks_Suc [of 0, simplified] Let_def)

lemma verify_client_auth: "verify_pin_auth secret m (client_auth secret m)"
  by (simp add: verify_pin_auth_def client_auth_def verify_hmac_256_first_128bits_def PIN_AUTH_LENGTH_def
      hmac_256_spec hmac_spec_def Let_def)

section \<open>The authenticator\<close>

context platform_store
begin

lemma verify_pin_hash_enc_right:
  assumes "invar (ps_store st)" and "pin_ok (content (ps_store st))"
    and "content (ps_store st) KEY_PIN_HASH = Some (sent_hash key hash_enc)" and "length hash_enc = 16"
    and "consecutive_pin_mismatches (ps_pin st) < 3" and "verify_pin_hash_enc pf key hash_enc st = (r, st')"
  shows "r = Ok () \<or> r \<in> Err ` range status_of_store_error"
proof -
  obtain r1 s1 where d: "decr_pin_retries (pf_store pf) (ps_store st) = (r1, s1)" by fastforce
  note dl = decr_pin_retries_law [OF assms(1,2) d]
  obtain r2 s2 where rs: "reset_pin_retries (pf_store pf) s1 = (r2, s2)" by fastforce
  have "invar s1" "pin_ok (content s1)" using dl by auto
  note rl = reset_pin_retries_law [OF this rs]
  from assms(6) have "r = (if r1 = Ok () then r2 else r1)"
    using dl rl assms(3,4,5)
    by (cases r1; cases r2)
      (auto simp: verify_pin_hash_enc_def sbind_def op_defs from_store_def get_pin_def with_store_def modify_pin_def
        pin_hash_law [OF assms(1,2)] d rs Let_def sent_hash_def PIN_AUTH_LENGTH_def not_le)
  with dl rl show ?thesis by auto
qed

lemma process_set_pin_right:
  assumes "invar (ps_store st)" and "pin_ok (content (ps_store st))" and "content (ps_store st) KEY_PIN_HASH = None"
    and "ecdh_try_from_cose_key ka = Inr pk" and "length pin < 64" and "0 \<notin> set pin"
    and "least_pin_length (pf_v21 pf) (content (ps_store st)) \<le> length pin"
    and "process_set_pin pf ka (client_auth secret (client_pin_enc secret pin)) (client_pin_enc secret pin) st = (r, st')"
    and "secret = exchange_x_sha256 (key_agreement_key (ps_pin st)) pk"
  shows "invar (ps_store st') \<and> pin_ok (content (ps_store st')) \<and> ps_pin st' = ps_pin st
    \<and> (r = Ok () \<or> r \<in> Err ` range status_of_store_error)
    \<and> (r = Ok () \<longrightarrow> content (ps_store st') KEY_PIN_HASH = Some (take 16 (sha256_hash pin))
         \<and> retries_left (content (ps_store st')) = 8)"
proof -
  let ?enc = "client_pin_enc secret pin" and ?key = "exchanged_key (ps_pin st) pk"
  have x: "exchange_decryption_key (ps_pin st) ka (client_auth secret ?enc) ?enc = Ok ?key"
    by (simp add: exchange_decryption_key_def assms(4) assms(9) [symmetric] verify_client_auth exchanged_key_def)
  obtain r2 s2 where c: "check_and_store_new_pin pf ?key ?enc (ps_store st) = (r2, s2)" by fastforce
  note law = check_and_store_new_pin_law [OF assms(1,2) c]
  have dec: "decrypt_pin ?key ?enc = Some pin"
    using decrypt_pin_client [of secret pin] assms(5,6) by (simp add: exchanged_key_def assms(9))
  obtain r3 s3 where d: "reset_pin_retries (pf_store pf) s2 = (r3, s3)" by fastforce
  note law' = reset_pin_retries_law [OF _ _ d]
  note run = process_set_pin_def sbind_def op_defs from_store_def get_pin_def Let_def pin_hash_law [OF assms(1,2)] assms(3) with_store_def x c d
  have ins: "ctap_insert (pf_store pf) KEY_PIN_HASH (take 16 (sha256_hash pin)) (ps_store st) = (r2, s2)"
    using c assms(5,7) by (simp add: check_and_store_new_pin_run [OF assms(1,2)] dec PIN_PADDED_LENGTH_def)
  have r2: "r2 = Ok () \<or> r2 \<in> Err ` range status_of_store_error"
    using ctap_store_errors(1) [of "pf_store pf"] ins ctap_insert_law [OF assms(1) ins] by (cases r2) auto
  show ?thesis
  proof (cases "r2 = Ok ()")
    case True
    with assms(8) have "ps_pin st' = ps_pin st \<and> ps_store st' = s3 \<and> r = r3"
      by (cases r3) (auto simp: run)
    with True law law' dec show ?thesis by auto
  next
    case False
    with r2 assms(8) have "ps_pin st' = ps_pin st \<and> ps_store st' = s2 \<and> r = r2" by (auto simp: run)
    with False r2 law show ?thesis by auto
  qed
qed

lemma process_get_pin_token_right:
  assumes "invar (ps_store st)" and "pin_ok (content (ps_store st))" and "ecdh_try_from_cose_key ka = Inr pk"
    and "content (ps_store st) KEY_PIN_HASH = Some (take 16 (sha256_hash pin))"
    and "retries_left (content (ps_store st)) \<noteq> 0" and "consecutive_pin_mismatches (ps_pin st) < 3"
    and "length (pin_uv_auth_token (ps_pin st)) = 32"
    and "process_get_pin_token pf ka (client_hash_enc secret pin) st = (r, st')"
    and "secret = exchange_x_sha256 (key_agreement_key (ps_pin st)) pk"
  shows "r \<in> Err ` range status_of_store_error
    \<or> (\<exists>resp enc. r = Ok resp \<and> cpr_pin_token resp = Some enc \<and> client_token secret enc = pin_uv_auth_token (ps_pin st)
         \<and> retries_left (content (ps_store st')) = 8 \<and> consecutive_pin_mismatches (ps_pin st') = 0
         \<and> (pf_v21 pf \<longrightarrow> pp_permissions (ps_pin st') = 3))"
proof -
  define x where "x = (of_nat (retries_left (content (ps_store st))) :: u8)"
  have x: "pin_retries (pf_store pf) (ps_store st) = Ok x" "x \<noteq> 0"
    using pin_retries_law [OF assms(1,2)] unblocked [OF assms(1,2)] assms(5) by (auto simp: x_def)
  note run = process_get_pin_token_def sbind_def op_defs from_store_def get_pin_def x Let_def modify_pin_def assms(3)
  let ?key = "exchanged_key (ps_pin st) pk" and ?t = "pin_uv_auth_token (ps_pin st)"
  obtain r1 st1 where v: "verify_pin_hash_enc pf ?key (client_hash_enc secret pin) st = (r1, st1)" by fastforce
  note law = verify_pin_hash_enc_law [OF assms(1,2) v]
  have key: "?key = decryption_key_new (encryption_key_new secret)" by (simp add: exchanged_key_def assms(9))
  have "length secret = 32" by (simp add: assms(9))
  note sent = sent_hash_client [OF this, of pin] and token = exchange_blocks [OF this, of ?t 2]
  have "r1 = Ok () \<or> r1 \<in> Err ` range status_of_store_error"
    using verify_pin_hash_enc_right [OF assms(1,2) _ _ assms(6) v] assms(4) sent by (simp add: key)
  then show ?thesis
  proof
    assume ok: "r1 = Ok ()"
    let ?enc = "concat (cbc_encrypt encrypt_block (encryption_key_new secret) zero_iv (split_blocks 2 ?t))"
    have "r = Ok \<lparr>cpr_key_agreement = None, cpr_pin_token = Some ?enc, cpr_retries = None\<rparr> \<and> ps_store st' = ps_store st1
        \<and> consecutive_pin_mismatches (ps_pin st') = consecutive_pin_mismatches (ps_pin st1) \<and> (pf_v21 pf \<longrightarrow> pp_permissions (ps_pin st') = 3)"
      using assms(8) v ok law by (cases "pf_v21 pf") (auto simp: run exchanged_key_def assms(9) PIN_TOKEN_LENGTH_def)
    with law ok token assms(7) show ?thesis by (simp add: client_token_def)
  next
    assume "r1 \<in> Err ` range status_of_store_error"
    with assms(8) v show ?thesis by (auto simp: run exchanged_key_def assms(9))
  qed
qed

end


lemma sample_no_pin:
  defines "st \<equiv> (sample_pin_state [2])\<lparr>ps_store := model_new nrf52840_format\<rparr>"
  shows "pin_ok (map_of (model_content (ps_store st)))" "map_of (model_content (ps_store st)) KEY_PIN_HASH = None"
    "least_pin_length v21 (map_of (model_content (ps_store st))) = 4"
  by (simp_all add: st_def pin_ok_def model_new_def least_pin_length_def DEFAULT_MIN_PIN_LENGTH_def)


end
