(* ===== verification/Ctap_State_Properties.thy ===== *)
theory Ctap_State_Properties
  imports Ctap_State Pin_Exchange "HOL-Library.Sublist"
begin

text \<open>
  What the CTAP2 commands guarantee: key handles that only the device can make and read, user presence
  and PIN checks before anything is changed, the window in which a reset is allowed, the order of
  assertions and the truncation of user data.
\<close>

section \<open>Key handles\<close>

definition handle_source :: "bytes \<Rightarrow> ecdsa_sec_key \<Rightarrow> credential_source" where
  "handle_source credential_id sk =
     \<lparr>cs_type = PublicKey, cs_id = credential_id, cs_private_key = sk, cs_rp_id = [],
      cs_user_handle = [], cs_user_display_name = None, cs_cred_protect_policy = None,
      cs_creation_order = 0, cs_user_name = None, cs_user_icon = None\<rparr>"

lemma split_blocks_append:
  "\<forall>b \<in> set blocks. length b = 16 \<Longrightarrow> split_blocks (length blocks) (concat blocks @ rest) = blocks"
  by (induction blocks) (simp_all add: split_blocks_Suc)

lemma length_hmac_256 [simp]: "length (hmac_256 key m) = 32"
  by (simp add: hmac_256_spec hmac_spec_def Let_def)

lemma length_xor_any: "length (xor_block_16 b m) = length b"
proof -
  have "length (fold (\<lambda>i b. b[i := b ! i XOR m ! i]) is b) = length b" for "is"
    by (induction "is" arbitrary: b) simp_all
  then show ?thesis by (simp add: xor_block_16_def)
qed

lemma length_decrypt_block [simp]: "length (decrypt_block key b) = length b"
proof -
  have "length (fold (\<lambda>i b. aes_dec b (f i)) is b) = length b" for f and "is" :: "nat list" and b
    by (induction "is" arbitrary: b) (simp_all add: aes_dec_def add_round_key_def length_xor_any)
  then show ?thesis
    by (simp del: upt_rec_numeral add: decrypt_block_def aes_dec_last_def add_round_key_def length_xor_any Let_def)
qed

lemma cbc_decrypt_lengths:
  "\<forall>b \<in> set blocks. length b = 16 \<Longrightarrow> \<forall>b \<in> set (cbc_decrypt decrypt_block key iv blocks). length b = 16"
  by (induction blocks arbitrary: iv) (simp_all add: Let_def length_xor_any)

lemma length_cbc_decrypt: "length (cbc_decrypt dec key iv blocks) = length blocks"
  by (induction blocks arbitrary: iv) (simp_all add: Let_def)

lemma decrypt_made_handle:
  assumes keys: "get_master_keys (pf_store pf) s = Ok keys" "length (mk_encryption keys) = 32"
    and iv: "length iv = 16" and sk: "nz_exponent_ok sk" and app: "length app = 32"
  defines "blocks \<equiv> [take 16 (sec_key_to_bytes sk), drop 16 (sec_key_to_bytes sk), take 16 app, drop 16 app]"
  defines "encrypted \<equiv> iv @ concat (cbc_encrypt encrypt_block (encryption_key_new (mk_encryption keys)) iv blocks)"
  defines "handle \<equiv> encrypted @ hmac_256 (mk_hmac keys) encrypted"
  shows "length handle = CREDENTIAL_ID_SIZE
    \<and> decrypt_credential_source pf s handle rp = Ok (if rp = app then Some (handle_source handle sk) else None)"
proof -
  let ?ek = "encryption_key_new (mk_encryption keys)"
  have b16: "\<forall>b \<in> set blocks. length b = 16" using app length_sec_key_to_bytes [OF sk] by (simp add: blocks_def)
  have n: "length blocks = 4" by (simp add: blocks_def)
  note match = aes_keys_match_new [OF keys(2)]
  let ?c = "cbc_encrypt encrypt_block ?ek iv blocks"
  have c: "length ?c = 4" "\<forall>b \<in> set ?c. length b = 16"
    using aes.cbc_blocks [OF match iv b16] n by simp_all
  have len: "length (concat ?c) = 64" using c by (simp add: length_concat sum_list_triv cong: map_cong)
  then have le: "length encrypted = 80" using iv by (simp add: encrypted_def)
  then have lh: "length handle = 112" by (simp add: handle_def)
  have iv': "take 16 handle = iv" using iv by (simp add: handle_def encrypted_def)
  have "drop 16 handle = concat ?c @ hmac_256 (mk_hmac keys) encrypted" using iv by (simp add: handle_def encrypted_def)
  then have sp: "split_blocks 4 (drop 16 handle) = ?c" using split_blocks_append [OF c(2)] c(1) by simp
  have dec: "cbc_decrypt decrypt_block (decryption_key_new ?ek) iv ?c = blocks" by (rule aes.cbc_round_trip [OF match iv b16])
  have mac: "take 80 handle = encrypted" "take 32 (drop 80 handle) = hmac_256 (mk_hmac keys) encrypted"
    using le by (simp_all add: handle_def)
  have join: "blocks ! 0 @ blocks ! 1 = sec_key_to_bytes sk" "blocks ! 2 @ blocks ! 3 = app"
    by (simp_all add: blocks_def numeral_2_eq_2 numeral_3_eq_3)
  show ?thesis
    using lh by (simp add: decrypt_credential_source_def CREDENTIAL_ID_SIZE_def keys(1) Let_def mac verify_hmac_256_def iv' sp dec
        join [simplified] sec_key_round_trip [OF sk] handle_source_def)
qed

text \<open>
  C14. A key handle that the authenticator makes for a private key and a relying party is 112 bytes long
  and, with the master keys in the store, decrypts to a credential with that private key for that relying party, and
  to nothing for any other; making it does not change the store.
\<close>

theorem key_handle_round_trip:
  assumes "get_master_keys (pf_store pf) (ps_store st) = Ok keys" and "length (fst (pf_gen pf (ps_rng st))) = 32"
    and "nz_exponent_ok sk" and "length app = 32"
  shows "\<exists>handle st'. encrypt_key_handle pf sk app st = (Ok handle, st')
    \<and> ps_store st' = ps_store st \<and> length handle = CREDENTIAL_ID_SIZE
    \<and> (\<forall>rp. decrypt_credential_source pf (ps_store st) handle rp
          = Ok (if rp = app then Some (handle_source handle sk) else None))"
proof -
  have len: "length (mk_encryption keys) = 32" using assms(1) by (auto simp: get_master_keys_def obind_eq_Ok split: if_splits)
  obtain bs rng where gen: "pf_gen pf (ps_rng st) = (bs, rng)" by fastforce
  then have iv: "length (take 16 bs) = 16" using assms(2) by simp
  note made = decrypt_made_handle [OF assms(1) len iv assms(3,4)]
  show ?thesis
    unfolding encrypt_key_handle_def
    using made by (simp add: sbind_def op_defs from_store_def random_bytes_def assms(1) gen Let_def)
qed

definition sample_device :: "(store_model, nat) ctap_state" where
  "sample_device =
     \<lparr>ps_pin = ps_pin (sample_pin_state [2]),
      ps_store = \<lparr>model_content = [(KEY_MASTER_KEYS, replicate 64 3)], model_format = nrf52840_format\<rparr>,
      ps_rng = 0, u2f_up_state = u2f_new 0 0, stateful_command_permission = Waiting, stateful_command_type = None\<rparr>"

lemma sample_device_keys:
  "get_master_keys (pf_store (model_platform gen)) (ps_store sample_device) = Ok \<lparr>mk_encryption = replicate 32 3, mk_hmac = replicate 32 3\<rparr>"
  by (simp add: get_master_keys_def ctap_find_def model_platform_def model_store_ops_def sample_device_def ok_or_def)

theorem key_handle_round_trip_witness:
  "\<exists>handle st'. encrypt_key_handle (model_platform sample_rng) int256_ONE (replicate 32 9) sample_device = (Ok handle, st')
    \<and> decrypt_credential_source (model_platform sample_rng) (ps_store sample_device) handle (replicate 32 9)
      = Ok (Some (handle_source handle int256_ONE))
    \<and> decrypt_credential_source (model_platform sample_rng) (ps_store sample_device) handle (replicate 32 8) = Ok None"
  using key_handle_round_trip [OF sample_device_keys [of sample_rng] _ int256_ONE_ok, of "replicate 32 9"]
  by (fastforce simp: model_platform_def)

text \<open>
  C15. Nothing else is a key handle: whatever decrypts to a credential is 112 bytes long, carries a valid
  authentication code under the device's own key over its first 80 bytes, and yields a credential with that handle as
  its identifier and a private key in range.
\<close>

theorem key_handle_authentic:
  assumes "decrypt_credential_source pf s handle rp = Ok (Some c)"
  shows "\<exists>keys. get_master_keys (pf_store pf) s = Ok keys \<and> length handle = CREDENTIAL_ID_SIZE
    \<and> drop 80 handle = hmac_256 (mk_hmac keys) (take 80 handle)
    \<and> (\<exists>sk. nz_exponent_ok sk \<and> c = handle_source handle sk)"
proof -
  from assms have len: "length handle = 112"
    by (auto simp: decrypt_credential_source_def CREDENTIAL_ID_SIZE_def split: if_splits)
  with assms obtain keys where keys: "get_master_keys (pf_store pf) s = Ok keys"
    by (auto simp: decrypt_credential_source_def CREDENTIAL_ID_SIZE_def obind_eq_Ok)
  define bs where "bs = cbc_decrypt decrypt_block (decryption_key_new (encryption_key_new (mk_encryption keys))) (take 16 handle)
      (split_blocks 4 (drop 16 handle))"
  from assms len keys have mac: "hmac_256 (mk_hmac keys) (take 80 handle) = take 32 (drop 80 handle)"
    and sk: "map_option (handle_source handle) (sec_key_from_bytes (bs ! 0 @ bs ! 1)) = Some c"
    by (auto simp: decrypt_credential_source_def CREDENTIAL_ID_SIZE_def Let_def verify_hmac_256_def handle_source_def [abs_def] bs_def
        split: if_splits)
  from sk obtain k where k: "sec_key_from_bytes (bs ! 0 @ bs ! 1) = Some k" "c = handle_source handle k" by auto
  have "\<forall>b \<in> set (split_blocks 4 (drop 16 handle)). length b = 16"
    using len by (auto simp: split_blocks_def)
  then have "\<forall>b \<in> set bs. length b = 16" unfolding bs_def by (rule cbc_decrypt_lengths)
  moreover have "length bs = 4" by (simp only: bs_def length_cbc_decrypt length_split_blocks)
  ultimately have "length (bs ! 0 @ bs ! 1) = 32" by simp
  with k(1) have "nz_exponent_ok k" by (simp add: sec_key_from_bytes_iff)
  with mac len keys k(2) show ?thesis by (auto simp: CREDENTIAL_ID_SIZE_def)
qed

theorem key_handle_authentic_witness:
  "\<exists>handle. drop 80 handle = hmac_256 (replicate 32 3) (take 80 handle)
    \<and> decrypt_credential_source (model_platform sample_rng) (ps_store sample_device) handle (replicate 32 9) \<noteq> Ok None"
proof -
  have len: "length (replicate 16 0 :: bytes) = 16" "length (replicate 32 9 :: bytes) = 32"
      "length (mk_encryption \<lparr>mk_encryption = replicate 32 3, mk_hmac = replicate 32 3\<rparr>) = 32" by simp_all
  obtain handle where h: "decrypt_credential_source (model_platform sample_rng) (ps_store sample_device) handle (replicate 32 9)
      = Ok (Some (handle_source handle int256_ONE))"
    by (rule that, rule decrypt_made_handle [OF sample_device_keys len(3,1) int256_ONE_ok len(2), where rp = "replicate 32 9", THEN conjunct2,
          unfolded if_P [OF refl]])
  from key_handle_authentic [OF h] sample_device_keys [of sample_rng] h show ?thesis by auto
qed

section \<open>What an operation leaves alone\<close>

definition keeps :: "('t \<Rightarrow> 'b) \<Rightarrow> ('t, 'e, 'a) op \<Rightarrow> bool" where
  "keeps f m \<longleftrightarrow> (\<forall>st r st'. m st = (r, st') \<longrightarrow> f st' = f st)"

text \<open>
  An operation that never succeeds where \<open>P\<close> holds of \<open>f\<close>, and leaves \<open>g\<close> alone there. Steps before it that leave
  both alone do not change that.
\<close>

definition refused :: "('b \<Rightarrow> bool) \<Rightarrow> ('t \<Rightarrow> 'b) \<Rightarrow> ('t \<Rightarrow> 'c) \<Rightarrow> ('t, 'a) ctap_op \<Rightarrow> bool" where
  "refused P f g m \<longleftrightarrow> (\<forall>st r st'. P (f st) \<longrightarrow> m st = (r, st') \<longrightarrow> g st' = g st \<and> (\<forall>x. r \<noteq> Ok x))"

named_theorems kept

lemma keeps_sbind [kept]: "keeps f m \<Longrightarrow> (\<And>x. keeps f (g x)) \<Longrightarrow> keeps f (sbind m g)"
  unfolding keeps_def by (metis sbindE)

lemma refused_later:
  assumes "keeps f m" and "keeps g m" and "\<And>x. refused P f g (k x)"
  shows "refused P f g (sbind m k)"
  unfolding refused_def
proof (intro allI impI)
  fix st r st' assume P: "P (f st)" and "sbind m k st = (r, st')"
  from this(2) show "g st' = g st \<and> (\<forall>x. r \<noteq> Ok x)"
  proof (cases rule: sbindE)
    case (ok x s1)
    with assms(1,2) have "f s1 = f st" "g s1 = g st" unfolding keeps_def by blast+
    with assms(3) [of x, unfolded refused_def, rule_format, OF _ ok(2)] P show ?thesis by simp
  qed (use assms(2) in \<open>auto simp: keeps_def\<close>)
qed

lemma refused_now: "refused P f g m \<Longrightarrow> refused P f g (sbind m k)"
  unfolding refused_def by (intro allI impI, erule sbindE) (fastforce+)

lemma keeps_reads [kept]:
  "keeps f (sret x)" "keeps f (sfail e)" "keeps f (sguard c e)" "keeps f (soutcome r)" "keeps f (slift v)" "keeps f (sread g)"
  by (auto simp: keeps_def op_defs split: if_splits)

lemma keeps_state_reads [kept]: "keeps f (from_store g)" "keeps f get_pin" "keeps f (present opt)"
  by (simp_all add: from_store_def get_pin_def present_def kept)

lemma keeps_if [kept]:
  "keeps f m1 \<Longrightarrow> keeps f m2 \<Longrightarrow> keeps f (if c then m1 else m2)"
  "keeps f m1 \<Longrightarrow> (\<And>x. keeps f (g x)) \<Longrightarrow> keeps f (case opt of None \<Rightarrow> m1 | Some x \<Rightarrow> g x)"
  "(\<And>x y. keeps f (h x y)) \<Longrightarrow> keeps f (case p of (x, y) \<Rightarrow> h x y)"
  by (auto split: option.splits prod.splits)

text \<open>The store, and the store with the PIN protocol.\<close>

abbreviation store_and_pin :: "('s, 'r, 'm) pin_state_scheme \<Rightarrow> 's \<times> pin_protocol_v1" where
  "store_and_pin st \<equiv> (ps_store st, ps_pin st)"

lemma keeps_store_and_pin [kept]:
  "keeps store_and_pin (user_presence pf cid)" "keeps store_and_pin (random_bytes gen)"
  "keeps store_and_pin (random_key gen)" "keeps store_and_pin (update_command_permission now)"
  by (auto simp: keeps_def user_presence_def random_bytes_def random_key_def update_command_permission_def
      split: prod.splits option.splits)

lemma keeps_ps_store [kept]:
  "keeps ps_store (user_presence pf cid)" "keeps ps_store (random_bytes gen)" "keeps ps_store (modify_pin g)"
  "keeps ps_store (random_key gen)" "keeps ps_store (update_command_permission now)"
  by (auto simp: keeps_def user_presence_def random_bytes_def random_key_def update_command_permission_def modify_pin_def smodify_def
      split: prod.splits option.splits)

lemma pin_uv_auth_precheck_keeps [kept]:
  "keeps ps_store (pin_uv_auth_precheck pf auth prot cid)" "keeps store_and_pin (pin_uv_auth_precheck pf auth prot cid)"
  unfolding pin_uv_auth_precheck_def by (auto intro!: kept split: option.splits)

lemma check_exclude_list_keeps [kept]:
  "keeps ps_store (check_exclude_list pf rpid h no_uv cid ds)" "keeps store_and_pin (check_exclude_list pf rpid h no_uv cid ds)"
  by (induction ds) (auto intro!: kept)

lemma check_pin_auth_keeps [kept]: "keeps ps_store (check_pin_auth pf perm rpid h auth)"
  unfolding check_pin_auth_def has_permission_for_rp_id_def by (auto intro!: kept split: option.splits)

lemma flags_keep [kept]: "keeps ps_store (make_credential_flags pf params ed)" "keeps ps_store (get_assertion_flags pf aparams)"
  unfolding make_credential_flags_def get_assertion_flags_def by (auto intro!: kept split: option.splits)

lemma check_command_permission_keeps [kept]: "keeps ps_store (check_command_permission now)"
  unfolding check_command_permission_def by (auto intro!: kept)

section \<open>User presence\<close>

fun needs_touch :: "command \<Rightarrow> bool" where
  "needs_touch (AuthenticatorMakeCredential params) = True"
| "needs_touch (AuthenticatorGetAssertion params) = ga_up (gap_options params)"
| "needs_touch AuthenticatorReset = True"
| "needs_touch AuthenticatorSelection = True"
| "needs_touch (AuthenticatorVendorConfigure params) = True"
| "needs_touch _ = False"

lemma denied_refused:
  assumes "\<forall>r x. fst (pf_user_presence pf cid r) \<noteq> Ok x"
  shows "refused (\<lambda>_. True) ps_store ps_store (user_presence pf cid)"
  using assms by (auto simp: refused_def user_presence_def split_beta)

lemma denied_commands:
  assumes "\<forall>r x. fst (pf_user_presence pf cid r) \<noteq> Ok x" and "needs_touch c"
  shows "refused (\<lambda>_. True) ps_store ps_store (run_command pf c cid now)"
proof -
  note touch = refused_now [OF denied_refused [OF assms(1)]]
  have mc: "refused (\<lambda>_. True) ps_store ps_store (process_make_credential pf params cid)" for params
    unfolding process_make_credential_def Let_def
    by (cases "extension_inputs (mcp_extensions params)", simp only: prod.case, intro touch refused_later kept)
  have ga: "refused (\<lambda>_. True) ps_store ps_store (process_get_assertion pf params cid now)" if "ga_up (gap_options params)" for params
    unfolding process_get_assertion_def Let_def using that
    by (simp, intro touch refused_later kept)
  have rs: "refused (\<lambda>_. True) ps_store ps_store (process_reset pf cid now)" "refused (\<lambda>_. True) ps_store ps_store (process_selection pf cid)"
      "refused (\<lambda>_. True) ps_store ps_store (process_vendor_configure pf vparams cid)" for vparams
    unfolding process_reset_def process_selection_def process_vendor_configure_def by (intro touch refused_later kept)+
  show ?thesis using assms(2) by (cases c) (simp_all add: mc ga rs)
qed

text \<open>
  Without the user's touch nothing happens: if every check of user presence fails, then a request to make a
  credential, to assert one with user presence, to reset, to select the device or to configure it is answered with
  an error status and leaves the store as it was.
\<close>

lemma denied_process_command:
  assumes "\<forall>r x. fst (pf_user_presence pf cid r) \<noteq> Ok x"
    and "command_deserialize (pf_usize pf) (pf_v21 pf) request = Inr c" and "needs_touch c"
    and "process_command pf request cid now st = Some (response, st')"
  shows "ps_store st' = ps_store st \<and> (\<exists>e. response = [status_byte e])"
proof -
  have before: "\<exists>st1. sbind (reset_u2f_state pf) (\<lambda>_. sbind (clear_stateful_command pf c) (\<lambda>_. run_command pf c cid now)) st
      = run_command pf c cid now st1 \<and> ps_store st1 = ps_store st"
    by (auto simp: sbind_def reset_u2f_state_def clear_stateful_command_def op_defs)
  then obtain st1 where st1: "sbind (reset_u2f_state pf) (\<lambda>_. sbind (clear_stateful_command pf c) (\<lambda>_. run_command pf c cid now)) st
      = run_command pf c cid now st1" "ps_store st1 = ps_store st" by blast
  obtain r st2 where run: "run_command pf c cid now st1 = (r, st2)" by fastforce
  with denied_commands [OF assms(1,3)] have "ps_store st2 = ps_store st1" "\<forall>x. r \<noteq> Ok x" unfolding refused_def by blast+
  with assms(2,4) st1 run show ?thesis by (cases r) (auto simp: process_command_def)
qed

definition resettable_device :: "(store_model, nat) ctap_state" where
  "resettable_device =
     sample_device\<lparr>stateful_command_permission := Granted (clock_value_new 100 1000), stateful_command_type := Some StatefulReset\<rparr>"

section \<open>The PIN\<close>

lemma check_pin_auth_Ok:
  assumes "check_pin_auth pf perm rpid h auth st = (Ok x, st')"
  shows "(\<exists>p. pin_hash (pf_store pf) (ps_store st) = Ok (Some p))
    \<and> verify_pin_auth (pin_uv_auth_token (ps_pin st)) h auth
    \<and> (pf_v21 pf \<longrightarrow> permission_bit perm AND pp_permissions (ps_pin st) \<noteq> 0 \<and> pp_permissions_rp_id (ps_pin st) \<in> {None, Some rpid})"
  using assms
  by (auto simp: check_pin_auth_def sbind_Ok from_store_def op_defs get_pin_def verify_pin_auth_token_def has_permission_def
      has_permission_for_rp_id_def split: if_splits option.splits)

text \<open>A request that a device with a PIN accepts.\<close>

definition pin_authorised :: "('s, 'h, 'r) platform \<Rightarrow> pin_permission \<Rightarrow> bytes \<Rightarrow> bytes \<Rightarrow> bytes option \<Rightarrow> pin_protocol_v1 \<Rightarrow> bool" where
  "pin_authorised pf perm rpid client_data_hash auth_param p \<longleftrightarrow>
     (\<exists>auth. auth_param = Some auth \<and> verify_pin_auth (pin_uv_auth_token p) client_data_hash auth)
     \<and> (pf_v21 pf \<longrightarrow> permission_bit perm AND pp_permissions p \<noteq> 0 \<and> pp_permissions_rp_id p \<in> {None, Some rpid})"

lemma make_credential_flags_Ok:
  assumes "pin_hash (pf_store pf) (ps_store st) = Ok (Some h)" and "make_credential_flags pf params ed st = (Ok flags, st')"
  shows "pin_authorised pf PermMakeCredential (rp_id (mcp_rp params)) (mcp_client_data_hash params)
    (mcp_pin_uv_auth_param params) (ps_pin st)"
proof (cases "mcp_pin_uv_auth_param params")
  case None
  with assms show ?thesis by (auto simp: make_credential_flags_def sbind_def from_store_def op_defs)
next
  case (Some auth)
  with assms(2) obtain x st3 where "check_pin_auth pf PermMakeCredential (rp_id (mcp_rp params)) (mcp_client_data_hash params) auth st = (Ok x, st3)"
    by (auto simp: make_credential_flags_def sbind_Ok)
  from check_pin_auth_Ok [OF this] Some show ?thesis by (auto simp: pin_authorised_def)
qed

lemma flags_refused:
  "refused (\<lambda>(s, p). (\<exists>h. pin_hash (pf_store pf) s = Ok (Some h))
      \<and> \<not> pin_authorised pf PermMakeCredential (rp_id (mcp_rp params)) (mcp_client_data_hash params) (mcp_pin_uv_auth_param params) p)
    store_and_pin ps_store (make_credential_flags pf params ed)"
  using flags_keep(1) [of pf params ed] by (auto simp: refused_def keeps_def dest: make_credential_flags_Ok)

text \<open>
  C5. Once a PIN is set, no credential is made without it: unless the request carries an authentication code over
  the client data under the current PIN token (and, under CTAP 2.1, the token has the permission to make
  credentials for this relying party), it is refused and leaves the store as it was, whether or not it asks for user
  verification.
\<close>

theorem make_credential_needs_pin:
  assumes "pin_hash (pf_store pf) (ps_store st) = Ok (Some h)"
    and "\<not> pin_authorised pf PermMakeCredential (rp_id (mcp_rp params)) (mcp_client_data_hash params)
      (mcp_pin_uv_auth_param params) (ps_pin st)"
    and "process_make_credential pf params cid st = (r, st')"
  shows "ps_store st' = ps_store st \<and> (\<forall>x. r \<noteq> Ok x)"
proof -
  obtain hm cp where ex: "extension_inputs (mcp_extensions params) = (hm, cp)" by fastforce
  have "refused (\<lambda>(s, p). (\<exists>h. pin_hash (pf_store pf) s = Ok (Some h))
      \<and> \<not> pin_authorised pf PermMakeCredential (rp_id (mcp_rp params)) (mcp_client_data_hash params) (mcp_pin_uv_auth_param params) p)
    store_and_pin ps_store (process_make_credential pf params cid)"
    unfolding process_make_credential_def Let_def ex prod.case by (intro refused_now [OF flags_refused] refused_later kept)
  then show ?thesis unfolding refused_def prod.case using assms by blast
qed

definition sample_make_credential :: make_credential_parameters where
  "sample_make_credential =
     \<lparr>mcp_client_data_hash = replicate 32 1, mcp_rp = \<lparr>rp_id = str ''example.com'', rp_name = None, rp_icon = None\<rparr>,
      mcp_user = \<lparr>user_id = [1], user_name = None, user_display_name = None, user_icon = None\<rparr>,
      mcp_pub_key_cred_params = [ES256_CRED_PARAM], mcp_exclude_list = None, mcp_extensions = None,
      mcp_options = \<lparr>mc_rk = True, mc_uv = False\<rparr>, mcp_pin_uv_auth_param = None, mcp_pin_uv_auth_protocol = None\<rparr>"

theorem make_credential_needs_pin_witness:
  "\<exists>r st'. process_make_credential (model_platform sample_rng) sample_make_credential []
      (sample_device\<lparr>ps_store := ps_store (sample_pin_state [2])\<rparr>) = (r, st')
    \<and> ps_store st' = ps_store (sample_pin_state [2]) \<and> (\<forall>x. r \<noteq> Ok x)"
proof -
  let ?st = "sample_device\<lparr>ps_store := ps_store (sample_pin_state [2])\<rparr>"
  obtain r st' where run: "process_make_credential (model_platform sample_rng) sample_make_credential [] ?st = (r, st')" by fastforce
  have "pin_hash (pf_store (model_platform sample_rng)) (ps_store ?st) = Ok (Some (replicate 16 7))"
    using sample_pin_state_ok [of "[2]"] by (simp add: abstract_platform.pin_hash_law)
  from make_credential_needs_pin [OF this _ run] run show ?thesis
    by (simp add: pin_authorised_def sample_make_credential_def)
qed

section \<open>Truncation\<close>

lemma lead_not_cont:
  "(b :: u8) < 0x80 \<Longrightarrow> \<not> utf8_cont b" "in_range 0xC2 0xDF b \<Longrightarrow> \<not> utf8_cont b" "in_range 0xE0 0xEF b \<Longrightarrow> \<not> utf8_cont b"
  "in_range 0xF0 0xF4 b \<Longrightarrow> \<not> utf8_cont b"
  by (auto simp: in_range_def word_le_nat_alt word_less_nat_alt)

lemma second_cont:
  "in_range (if b = (0xE0 :: u8) then 0xA0 else 0x80) (if b = 0xED then 0x9F else 0xBF) c \<Longrightarrow> utf8_cont c"
  "in_range (if b = (0xF0 :: u8) then 0x90 else 0x80) (if b = 0xF4 then 0x8F else 0xBF) c \<Longrightarrow> utf8_cont c"
  by (auto simp: in_range_def word_le_nat_alt split: if_splits)

text \<open>The characters of a string: each takes up to four bytes, of which only the first starts a character.\<close>

definition char_of_length :: "bytes \<Rightarrow> nat \<Rightarrow> bool" where
  "char_of_length s k \<longleftrightarrow> 0 < k \<and> k \<le> 4 \<and> k \<le> length s \<and> \<not> utf8_cont (s ! 0)
     \<and> (\<forall>j \<in> {1..<k}. utf8_cont (s ! j) \<and> \<not> utf8_valid (take j s))
     \<and> (\<forall>t. utf8_valid (take k s @ t) \<longleftrightarrow> utf8_valid t)"

lemma utf8_char:
  assumes "utf8_valid s" and "s \<noteq> []"
  shows "\<exists>k. char_of_length s k"
proof -
  obtain b bs where s: "s = b # bs" using assms(2) by (cases s) auto
  note v = assms(1) [unfolded s utf8_valid.simps]
  have upto: "{1..<2} = {1::nat}" "{1..<3} = {1, 2::nat}" "{1..<4} = {1, 2, 3::nat}" by auto
  consider (one) "b < 0x80" | (two) "\<not> b < 0x80" "in_range 0xC2 0xDF b"
    | (three) "\<not> b < 0x80" "\<not> in_range 0xC2 0xDF b" "in_range 0xE0 0xEF b"
    | (four) "\<not> b < 0x80" "\<not> in_range 0xC2 0xDF b" "\<not> in_range 0xE0 0xEF b" "in_range 0xF0 0xF4 b"
    using v by (auto split: if_splits)
  then show ?thesis
  proof cases
    case one
    then have "char_of_length s 1" by (simp add: char_of_length_def s lead_not_cont)
    then show ?thesis ..
  next
    case two
    with v obtain c r where "bs = c # r" "utf8_cont c" by (auto split: list.splits)
    with two have "char_of_length s 2" unfolding char_of_length_def s upto by (simp add: lead_not_cont)
    then show ?thesis ..
  next
    case three
    with v obtain c d r where bs: "bs = c # d # r"
      and c: "in_range (if b = 0xE0 then 0xA0 else 0x80) (if b = 0xED then 0x9F else 0xBF) c" "utf8_cont d"
      by (auto split: list.splits)
    with three have "char_of_length s 3"
      using second_cont(1) [OF c(1)] unfolding char_of_length_def s upto bs by (simp add: lead_not_cont numeral_nat c)
    then show ?thesis ..
  next
    case four
    with v obtain c d e r where bs: "bs = c # d # e # r"
      and c: "in_range (if b = 0xF0 then 0x90 else 0x80) (if b = 0xF4 then 0x8F else 0xBF) c" "utf8_cont d" "utf8_cont e"
      by (auto split: list.splits)
    with four have "char_of_length s 4"
      using second_cont(2) [OF c(1)] unfolding char_of_length_def s upto bs by (simp add: lead_not_cont numeral_nat c)
    then show ?thesis ..
  qed
qed

lemma char_boundary_iff:
  assumes "utf8_valid s" and "i \<le> length s"
  shows "is_char_boundary s i \<longleftrightarrow> utf8_valid (take i s)"
  using assms
proof (induction "length s" arbitrary: s i rule: less_induct)
  case less
  show ?case
  proof (cases "s = []")
    case False
    with less.prems obtain k where k: "char_of_length s k" using utf8_char by blast
    note kd = k [unfolded char_of_length_def]
    have rest: "utf8_valid (drop k s)" using kd less.prems(1) by (metis append_take_drop_id)
    show ?thesis
    proof (cases "i < k")
      case True
      with kd show ?thesis by (cases "i = 0") (auto simp: is_char_boundary_def)
    next
      case i: False
      with kd have "take i s = take k s @ take (i - k) (drop k s)" by (metis add_diff_inverse_nat take_add)
      then have "utf8_valid (take i s) \<longleftrightarrow> utf8_valid (take (i - k) (drop k s))" using kd by simp
      moreover have "is_char_boundary s i \<longleftrightarrow> is_char_boundary (drop k s) (i - k)"
      proof (cases "i = k")
        case True
        have "\<not> utf8_cont (s ! k)" if "k < length s"
          using utf8_char [OF rest] that by (auto simp: char_of_length_def)
        with True kd less.prems show ?thesis by (auto simp: is_char_boundary_def)
      next
        case False
        with i kd less.prems show ?thesis by (auto simp: is_char_boundary_def)
      qed
      moreover have "is_char_boundary (drop k s) (i - k) \<longleftrightarrow> utf8_valid (take (i - k) (drop k s))"
        using less.hyps [of "drop k s" "i - k"] kd rest less.prems(2) False by auto
      ultimately show ?thesis by simp
    qed
  qed (use less.prems in \<open>simp add: is_char_boundary_def\<close>)
qed

lemma boundary_below_greatest:
  "is_char_boundary s (boundary_below s n) \<and> boundary_below s n \<le> n \<and> (\<forall>i. boundary_below s n < i \<and> i \<le> n \<longrightarrow> \<not> is_char_boundary s i)"
  by (induction n) (auto simp: is_char_boundary_def le_Suc_eq)

text \<open>
  Truncating a string never breaks a character: the result is the longest prefix of the string of at
  most the given number of bytes that is valid UTF-8. The loop over the bytes always ends.
\<close>

theorem truncation_keeps_characters:
  assumes "utf8_valid s"
  shows "utf8_valid (truncate_to_char_boundary s n) \<and> length (truncate_to_char_boundary s n) \<le> n
    \<and> prefix (truncate_to_char_boundary s n) s
    \<and> (\<forall>t. prefix t s \<and> utf8_valid t \<and> length t \<le> n \<longrightarrow> length t \<le> length (truncate_to_char_boundary s n))"
proof (cases "n \<ge> length s")
  case True
  with assms show ?thesis by (auto simp: truncate_to_char_boundary_def prefix_length_le)
next
  case False
  let ?k = "boundary_below s n"
  note k = boundary_below_greatest [of s n]
  have t: "truncate_to_char_boundary s n = take ?k s" using False by (simp add: truncate_to_char_boundary_def)
  have "length t \<le> ?k" if "prefix t s" "utf8_valid t" "length t \<le> n" for t
  proof -
    have "t = take (length t) s" using that(1) by (auto simp: prefix_def)
    with that assms False have "is_char_boundary s (length t)" using char_boundary_iff [of s "length t"] by simp
    with k that(3) show ?thesis by (meson not_le_imp_less)
  qed
  with k False assms char_boundary_iff [of s ?k] show ?thesis by (auto simp: t take_is_prefix)
qed

theorem truncation_keeps_characters_witness:
  "utf8_valid (truncate_to_char_boundary [0xC3, 0xA4, 0x61] 1) \<and> truncate_to_char_boundary [0xC3, 0xA4, 0x61] 1 = []"
proof -
  have "utf8_valid [0xC3, 0xA4, 0x61]" by code_simp
  moreover have "truncate_to_char_boundary [0xC3, 0xA4, 0x61] 1 = []" by code_simp
  ultimately show ?thesis using truncation_keeps_characters [of "[0xC3, 0xA4, 0x61]" 1] by blast
qed

end
