(* ===== verification/Device_Properties.thy ===== *)
theory Device_Properties
  imports Authenticator Ctap_State_Properties
begin

text \<open>
  The authenticator from power-up on: any sequence of CTAP2 requests, U2F messages and passes of the main
  loop, and what holds of every state it can reach.
\<close>

section \<open>Runs\<close>

text \<open>The commands answered since power-up at \<open>t0\<close>, the last one first.\<close>

inductive device_run :: "('s, 'h, 'r) platform \<Rightarrow> clock_value \<Rightarrow> command list \<Rightarrow> ('s, 'r) ctap_state \<Rightarrow> bool"
  for pf :: "('s, 'h, 'r) platform" and t0 :: clock_value where
  power_up: "ctap_state_new pf s r t0 = Some st \<Longrightarrow> device_run pf t0 [] st"
| ctap2: "device_run pf t0 cs st \<Longrightarrow> process_command pf request cid now st = Some (response, st')
    \<Longrightarrow> command_deserialize (pf_usize pf) (pf_v21 pf) request = Inr c \<Longrightarrow> device_run pf t0 (c # cs) st'"
| malformed: "device_run pf t0 cs st \<Longrightarrow> process_command pf request cid now st = Some (response, st')
    \<Longrightarrow> command_deserialize (pf_usize pf) (pf_v21 pf) request = Inl e \<Longrightarrow> device_run pf t0 cs st'"
| u2f: "device_run pf t0 cs st \<Longrightarrow> ctap1_process_command pf message now st = (r, st') \<Longrightarrow> r \<noteq> Panic
    \<Longrightarrow> device_run pf t0 cs st'"
| pass: "device_run pf t0 cs st \<Longrightarrow> update_command_permission now st = (Ok (), st') \<Longrightarrow> device_run pf t0 cs st'"

section \<open>What a command leaves alone\<close>

text \<open>A part of the state that depends neither on the store nor on the PIN protocol nor on random numbers.\<close>

definition outer_part :: "(('s, 'r) ctap_state \<Rightarrow> 'b) \<Rightarrow> bool" where
  "outer_part p \<longleftrightarrow> (\<forall>st s. p (st\<lparr>ps_store := s\<rparr>) = p st) \<and> (\<forall>st r. p (st\<lparr>ps_rng := r\<rparr>) = p st)
     \<and> (\<forall>st pin. p (st\<lparr>ps_pin := pin\<rparr>) = p st)"

lemma outer_updates [kept]:
  assumes "outer_part p"
  shows "keeps p (user_presence pf cid)" "keeps p (set_protection pf)" "keeps p (random_bytes gen)"
    "keeps p (random_key gen)" "keeps p (modify_pin g)" "keeps p (with_store m)" "keeps p (with_store_rng n)"
proof -
  have p: "p (st\<lparr>ps_store := s\<rparr>) = p st" "p (st\<lparr>ps_rng := r\<rparr>) = p st" "p (st\<lparr>ps_pin := pin\<rparr>) = p st"
      "p (st\<lparr>ps_store := s, ps_rng := r\<rparr>) = p st" for st s r pin
    using assms by (simp_all add: outer_part_def)
  show "keeps p (user_presence pf cid)" "keeps p (set_protection pf)" "keeps p (random_bytes gen)"
      "keeps p (random_key gen)" "keeps p (modify_pin g)" "keeps p (with_store m)" "keeps p (with_store_rng n)"
    by (auto simp: p keeps_def user_presence_def set_protection_def random_bytes_def random_key_def modify_pin_def with_store_def
      with_store_rng_def smodify_def split: prod.splits option.splits)
qed

lemma verification_keeps [kept]:
  assumes "outer_part p"
  shows "keeps p (pin_mismatch pf)" "keeps p (verify_pin_hash_enc pf key hash_enc)"
  unfolding pin_mismatch_def verify_pin_hash_enc_def Let_def by (intro kept assms)+

lemma pin_subcommands_keep [kept]:
  assumes "outer_part p"
  shows "keeps p (process_set_pin pf ka auth new_enc)" "keeps p (process_change_pin pf ka auth new_enc hash_enc)"
  "keeps p (process_get_pin_token pf ka hash_enc)" "keeps p (process_set_min_pin_length pf n ids min_auth)"
  "keeps p (pin_protocol_reset pf)"
  unfolding process_set_pin_def process_change_pin_def process_get_pin_token_def process_set_min_pin_length_def
    pin_protocol_reset_def Let_def by (intro kept assms)+

lemma process_subcommand_keeps [kept]:
  assumes "outer_part p"
  shows "keeps p (process_subcommand pf params)"
proof -
  have "keeps p (process_get_pin_uv_auth_token_using_pin_with_permissions pf ka hash_enc perms rp)" for ka hash_enc perms rp
    unfolding process_get_pin_uv_auth_token_using_pin_with_permissions_def by (intro kept assms)
  note all = this kept assms
  show ?thesis
    unfolding process_subcommand_def
    by (cases "cpp_sub_command params"; simp only: client_pin_sub_command.case; intro all)
qed

lemma authorisation_keeps [kept]:
  assumes "outer_part p"
  shows "keeps p (pin_uv_auth_precheck pf auth prot cid)" "keeps p (check_pin_auth pf perm rpid h token_auth)"
  unfolding pin_uv_auth_precheck_def check_pin_auth_def has_permission_for_rp_id_def
  by (auto intro!: kept assms split: option.splits)

lemma check_exclude_list_keeps_stateful [kept]:
  assumes "outer_part p"
  shows "keeps p (check_exclude_list pf rpid h no_uv cid ds)"
  by (induction ds) (auto intro!: kept assms)

lemma command_parts_keep [kept]:
  assumes "outer_part p"
  shows "keeps p (make_credential_flags pf params ed)" "keeps p (get_assertion_flags pf aparams)"
  "keeps p (encrypt_key_handle pf sk app)" "keeps p (increment_global_signature_counter pf)"
  "keeps p (assertion_response pf credential input n)" "keeps p (lockdown pf response)"
  "keeps p (program_attestation pf k c data)"
  unfolding make_credential_flags_def get_assertion_flags_def encrypt_key_handle_def increment_global_signature_counter_def
    assertion_response_def lockdown_def program_attestation_def Let_def
  by (intro kept assms)+

lemma create_credential_keeps [kept]:
  assumes "outer_part p"
  shows "keeps p (create_credential pf params cp sk h)"
  unfolding create_credential_def Let_def by (intro kept assms)

lemma commands_keep [kept]:
  assumes "outer_part p"
  shows "keeps p (process_make_credential pf params cid)" "keeps p (process_client_pin pf pparams)"
  "keeps p (process_selection pf cid)" "keeps p (process_vendor_configure pf vparams cid)"
  unfolding process_make_credential_def process_client_pin_def process_selection_def process_vendor_configure_def Let_def
  by (intro kept assms)+

abbreviation stateful_part :: "('s, 'r) ctap_state \<Rightarrow> stateful_command option \<times> timed_permission" where
  "stateful_part st \<equiv> (stateful_command_type st, stateful_command_permission st)"

lemma outer_parts [kept]: "outer_part stateful_part" "outer_part u2f_up_state"
  by (simp_all add: outer_part_def)

lemma reset_u2f_keeps_stateful [kept]: "keeps stateful_part (reset_u2f_state pf)"
  by (auto simp: keeps_def reset_u2f_state_def smodify_def sret_def split: if_splits)

section \<open>The stateful command\<close>

text \<open>No step brings a stateful reset back, or extends the permission for it.\<close>

definition reset_kept :: "('s, 'r) ctap_state \<Rightarrow> ('s, 'r) ctap_state \<Rightarrow> bool" where
  "reset_kept st st' \<longleftrightarrow> (stateful_command_type st' = Some StatefulReset \<longrightarrow>
     stateful_command_type st = Some StatefulReset
     \<and> stateful_command_permission st' \<in> {Waiting, stateful_command_permission st})"

definition never_resets :: "(('s, 'r) ctap_state, 'e, 'a) op \<Rightarrow> bool" where
  "never_resets m \<longleftrightarrow> (\<forall>st r st'. m st = (r, st') \<longrightarrow> reset_kept st st')"

lemma reset_kept_trans: "reset_kept st1 st2 \<Longrightarrow> reset_kept st2 st3 \<Longrightarrow> reset_kept st1 st3"
  by (auto simp: reset_kept_def)

lemma never_resets_keeps: "keeps stateful_part m \<Longrightarrow> never_resets m"
  by (simp add: keeps_def never_resets_def reset_kept_def)

named_theorems no_reset

lemma never_resets_sbind [no_reset]:
  assumes "never_resets m" and "\<And>x. never_resets (f x)"
  shows "never_resets (sbind m f)"
  unfolding never_resets_def
proof (intro allI impI)
  fix st r st' assume "sbind m f st = (r, st')"
  then show "reset_kept st st'"
  proof (cases rule: sbindE)
    case (ok x s1)
    with assms have "reset_kept st s1" "reset_kept s1 st'" unfolding never_resets_def by blast+
    then show ?thesis by (rule reset_kept_trans)
  qed (use assms(1) in \<open>auto simp: never_resets_def\<close>)
qed

lemma never_resets_cases [no_reset]:
  "never_resets m1 \<Longrightarrow> never_resets m2 \<Longrightarrow> never_resets (if c then m1 else m2)"
  "never_resets m1 \<Longrightarrow> (\<And>x. never_resets (g x)) \<Longrightarrow> never_resets (case opt of None \<Rightarrow> m1 | Some x \<Rightarrow> g x)"
  "(\<And>x y. never_resets (h x y)) \<Longrightarrow> never_resets (case p of (x, y) \<Rightarrow> h x y)"
  by (auto split: option.splits prod.splits)

lemma never_resets_basic [no_reset]:
  "never_resets (sret x)" "never_resets (sfail e)" "never_resets (sguard c e)" "never_resets (soutcome r)"
  "never_resets (slift v)" "never_resets (sread q)"
  by (auto simp: never_resets_def reset_kept_def op_defs split: if_splits)

lemma never_resets_stateful [no_reset]:
  "never_resets (update_command_permission now)" "never_resets pop_next_credential"
  "never_resets (smodify (\<lambda>st. st\<lparr>stateful_command_permission := permission, stateful_command_type := Some (StatefulGetAssertion a)\<rparr>))"
  "never_resets (clear_stateful_command pf c)"
  by (auto simp: never_resets_def reset_kept_def update_command_permission_def pop_next_credential_def clear_stateful_command_def
      smodify_def tp_check_expiration_is_granted split: option.splits stateful_command.splits if_splits)

lemma check_command_permission_never_resets [no_reset]: "never_resets (check_command_permission now)"
  unfolding check_command_permission_def by (intro no_reset)

lemma run_command_never_resets: "never_resets (run_command pf c cid now)"
proof -
  have "never_resets (process_get_assertion pf params cid now)" for params
    unfolding process_get_assertion_def Let_def by (intro no_reset never_resets_keeps kept)
  moreover have "never_resets (process_get_next_assertion pf now)" "never_resets (process_reset pf cid now)"
    unfolding process_get_next_assertion_def process_reset_def by (intro no_reset never_resets_keeps kept)+
  ultimately show ?thesis
    by (cases c) (auto intro: never_resets_keeps kept)
qed

lemma never_resets_u2f [no_reset]:
  "never_resets m \<Longrightarrow> never_resets (or_fail code m)" "never_resets (u2f_consume_up now)"
  by (auto simp: never_resets_def reset_kept_def or_fail_def smap_err_def u2f_consume_up_def split: prod.splits option.splits)

lemma ctap1_never_resets: "never_resets (ctap1_process_command pf message now)"
proof -
  have "never_resets (process_register pf challenge application)"
      "never_resets (process_authenticate pf challenge application handle flags)" for challenge application handle flags
    unfolding process_register_def process_authenticate_def Let_def by (intro no_reset never_resets_keeps kept)+
  note parts = this
  have "never_resets (case command of
         U2fRegister challenge application \<Rightarrow>
           sbind (u2f_consume_up now) (\<lambda>present.
           sbind (sguard present SW_COND_USE_NOT_SATISFIED) (\<lambda>_.
             process_register pf challenge application))
       | U2fAuthenticate challenge application key_handle flags \<Rightarrow>
           sbind (if flags = EnforceUpAndSign
                  then sbind (u2f_consume_up now) (\<lambda>present. sguard present SW_COND_USE_NOT_SATISFIED)
                  else sret ()) (\<lambda>_.
             process_authenticate pf challenge application key_handle flags)
       | U2fVersion \<Rightarrow> sret U2F_VERSION_STRING
       | U2fVendorSpecific _ \<Rightarrow> sfail SW_SUCCESS)" for command
    by (cases command; simp only: u2f_command.case; intro parts no_reset)
  then show ?thesis unfolding ctap1_process_command_def by (intro never_resets_sbind never_resets_basic)
qed

section \<open>The reset window\<close>

definition harmless :: "command \<Rightarrow> bool" where
  "harmless c \<longleftrightarrow> c \<in> {AuthenticatorGetInfo, AuthenticatorSelection, AuthenticatorReset}"

lemma process_command_stateful:
  assumes "process_command pf request cid now st = Some (response, st')"
    and "command_deserialize (pf_usize pf) (pf_v21 pf) request = Inr c"
  shows "reset_kept st st' \<and> (stateful_command_type st' = Some StatefulReset \<longrightarrow> harmless c)"
proof -
  obtain r where run: "sbind (reset_u2f_state pf) (\<lambda>_. sbind (clear_stateful_command pf c) (\<lambda>_. run_command pf c cid now)) st = (r, st')"
    using assms by (auto simp: process_command_def split: prod.splits outcome.splits)
  have "never_resets (sbind (reset_u2f_state pf) (\<lambda>_. sbind (clear_stateful_command pf c) (\<lambda>_. run_command pf c cid now)))"
    by (intro no_reset never_resets_keeps [OF reset_u2f_keeps_stateful] run_command_never_resets)
  with run have kept: "reset_kept st st'" by (simp add: never_resets_def)
  obtain st1 where st1: "run_command pf c cid now st1 = (r, st')"
      "stateful_command_type st1 = (if keeps_stateful_command pf c (stateful_command_type st) then stateful_command_type st else None)"
    using run by (auto simp: sbind_def reset_u2f_state_def clear_stateful_command_def op_defs split: if_splits)
  have "harmless c" if "stateful_command_type st' = Some StatefulReset"
  proof -
    have "stateful_command_type st1 = Some StatefulReset"
      using run_command_never_resets [of pf c cid now] st1(1) that by (auto simp: never_resets_def reset_kept_def)
    with st1(2) have "keeps_stateful_command pf c (Some StatefulReset)" by (auto split: if_splits)
    then show ?thesis by (cases c) (auto simp: keeps_stateful_command_def harmless_def)
  qed
  with kept show ?thesis by simp
qed

lemma device_run_reset:
  assumes "device_run pf t0 cs st" and "tp_granted t0 RESET_TIMEOUT_DURATION = Some p0"
    and "stateful_command_type st = Some StatefulReset"
  shows "stateful_command_permission st \<in> {Waiting, p0} \<and> (\<forall>c \<in> set cs. harmless c)"
  using assms(1,3)
proof (induction rule: device_run.induct)
  case (power_up s r st)
  with assms(2) show ?case by (auto simp: ctap_state_new_def bind_eq_Some_conv)
next
  case (ctap2 cs st request cid now response st' c)
  with process_command_stateful [OF ctap2.hyps(2,3)] show ?case by (auto simp: reset_kept_def)
next
  case (malformed cs st request cid now response st' e)
  then show ?case by (auto simp: process_command_def)
next
  case (u2f cs st message now r st')
  have "reset_kept st st'" using ctap1_never_resets [of pf message now] u2f.hyps(2) by (simp add: never_resets_def)
  with u2f show ?case by (auto simp: reset_kept_def)
next
  case (pass cs st now st')
  have "reset_kept st st'" by (rule never_resets_stateful(1) [unfolded never_resets_def, rule_format, OF pass.hyps(2)])
  with pass show ?case by (auto simp: reset_kept_def)
qed

lemma reset_refused:
  assumes "stateful_command_type st = Some StatefulReset \<longrightarrow> is_granted (stateful_command_permission st) now \<noteq> Some True"
    and "process_reset pf cid now st = (r, st')"
  shows "ps_store st' = ps_store st \<and> (\<forall>x. r \<noteq> Ok x)"
  using assms
  by (auto simp: process_reset_def check_command_permission_def update_command_permission_def tp_check_expiration_is_granted
      sbind_def op_defs oguard_def split: option.splits if_splits)


definition initialised_store :: store_model where
  "initialised_store = \<lparr>model_content = [(KEY_AAGUID, replicate 16 0), (KEY_CRED_RANDOM_SECRET, replicate 64 5), (KEY_MASTER_KEYS, replicate 64 3)],
    model_format = nrf52840_format\<rparr>"

lemma sample_power_up: "\<exists>st. ctap_state_new (model_platform sample_rng) initialised_store 0 (clock_value_new 0 32768) = Some st
   \<and> ps_store st = initialised_store"
proof -
  have "store_init (pf_store (model_platform sample_rng)) sample_rng aaguid (initialised_store, 0) = (Ok (), (initialised_store, 0))" for aaguid
    by (simp add: store_init_def init_secret_def sbind_def on_store_def op_defs ctap_find_handle_def model_platform_def
      initialised_store_def model_store_ops_def store_keys)
  then have "persistent_store_new (model_platform sample_rng) initialised_store 0 = Some (initialised_store, 0)"
    by (simp add: persistent_store_new_def model_platform_def split: unit.splits)
  moreover have "\<not> ct_lt int256_N_MIN_2 (draw (gen_uniform_u32x8 sample_rng) 0 0)"
  proof -
    have "draw (gen_uniform_u32x8 sample_rng) 0 0 = [0, 0, 0, 0, 0, 0, 0, 0]" by code_simp
    moreover have "int256_ok [0, 0, 0, 0, 0, 0, 0, 0]" by (simp add: int256_ok_def NDIGITS_def)
    ultimately show ?thesis using int256_ok_constants by (simp add: ct_lt_iff)
  qed
  then have "\<exists>p r. pin_protocol_new sample_rng 0 = Some (p, r)"
    using gen_uniform_first [of 0 "gen_uniform_u32x8 sample_rng" 0]
    by (simp add: pin_protocol_new_def ecdh_gensk_def split: prod.splits)
  ultimately show ?thesis
    by (auto simp: ctap_state_new_def tp_granted_ticks model_platform_def)
qed


end
