(* ===== verification/Main_Properties.thy ===== *)
theory Main_Properties
  imports Main_Loop Device_Properties
begin

text \<open>
  What the firmware's check of user presence guarantees: it succeeds only after a button press, it ends with a
  touch, a timeout or a cancellation, and on a board whose alarms fire it always ends.
\<close>

section \<open>Waiting\<close>

text \<open>Whatever the callbacks preserve holds when the wait is over.\<close>

lemma yieldk_for_preserves:
  assumes "yieldk_for event callback cond f e = Some y" and "P f"
    and "\<And>ev f e e'. event e = (ev, e') \<Longrightarrow> P f \<Longrightarrow> P (callback ev f)"
  shows "P (fst y) \<and> cond (fst y)"
proof -
  have "P f \<longrightarrow> (\<forall>ev f e e'. event e = (ev, e') \<longrightarrow> P f \<longrightarrow> P (callback ev f)) \<longrightarrow> P (fst y) \<and> cond (fst y)"
  proof (rule yieldk_for.raw_induct [where P = "\<lambda>event callback cond f e y. P f \<longrightarrow>
        (\<forall>ev f e e'. event e = (ev, e') \<longrightarrow> P f \<longrightarrow> P (callback ev f)) \<longrightarrow> P (fst y) \<and> cond (fst y)", OF _ assms(1)])
    fix yield :: "('b \<Rightarrow> kernel_event \<times> 'b) \<Rightarrow> (kernel_event \<Rightarrow> 'a \<Rightarrow> 'a) \<Rightarrow> ('a \<Rightarrow> bool) \<Rightarrow> 'a \<Rightarrow> 'b \<Rightarrow> ('a \<times> 'b) option"
      and event callback cond f e y
    assume IH: "\<And>event callback cond f e y. yield event callback cond f e = Some y \<Longrightarrow> P f \<longrightarrow>
        (\<forall>ev f e e'. event e = (ev, e') \<longrightarrow> P f \<longrightarrow> P (callback ev f)) \<longrightarrow> P (fst y) \<and> cond (fst y)"
      and run: "(if cond f then Some (f, e) else case event e of (ev, e') \<Rightarrow> yield event callback cond (callback ev f) e') = Some y"
    show "P f \<longrightarrow> (\<forall>ev f e e'. event e = (ev, e') \<longrightarrow> P f \<longrightarrow> P (callback ev f)) \<longrightarrow> P (fst y) \<and> cond (fst y)"
    proof (cases "cond f")
      case False
      obtain ev e' where ev: "event e = (ev, e')" by fastforce
      with run False have "yield event callback cond (callback ev f) e' = Some y" by simp
      from IH [OF this] ev show ?thesis by blast
    qed (use run in auto)
  qed
  with assms(2,3) show ?thesis by blast
qed

lemma wait_for_preserves:
  assumes "wait_for B callback cond f e = (Ok f', e')" and "P f"
    and "\<And>ev f e e'. bd_event B e = (ev, e') \<Longrightarrow> P f \<Longrightarrow> P (callback ev f)"
  shows "P f' \<and> cond f'"
  using yieldk_for_preserves [of "bd_event B" callback cond f e _ P, OF _ assms(2,3)] assms(1)
  by (auto simp: wait_for_def split: option.splits)

lemma wait_for_outcome: "wait_for B callback cond f e \<noteq> (Err x, e')"
  by (auto simp: wait_for_def split: option.splits)

section \<open>A touch is a button press\<close>

definition never_pressed :: "'e board \<Rightarrow> bool" where
  "never_pressed B \<longleftrightarrow> (\<forall>e. fst (bd_event B e) \<noteq> ButtonCallback True)"

lemma usb_no_touch:
  assumes "never_pressed B" and "timed_transaction B channel nr status_of buf d e = (Ok f, e')"
  shows "\<not> uf_button_touched f"
proof -
  have step: "\<not> uf_button_touched (usb_callback status_of ev f)" if "bd_event B e = (ev, e')" "\<not> uf_button_touched f" for ev f e e'
  proof -
    have "ev \<noteq> ButtonCallback True" using assms(1) that(1) unfolding never_pressed_def by (metis fst_conv)
    with that(2) show ?thesis by (cases ev) auto
  qed
  have wait: "\<not> uf_button_touched f"
    if "wait_for B (usb_callback status_of) c f0 e1 = (Ok f, e2)" "\<not> uf_button_touched f0" for c f0 e1 f e2
    using wait_for_preserves [of B _ _ _ _ _ _ "\<lambda>f. \<not> uf_button_touched f", OF that step] by simp
  from assms(2) show ?thesis
    by (auto simp: timed_transaction_def Let_def returning_def sbind_def try_call_def usb_flags_new_def sret_def
        cleanup_alarm_def cancel_transaction_def wait_for_outcome dest: wait
        split: prod.splits outcome.splits if_splits stop_result.splits)
qed

lemma send_or_recv_no_touch:
  assumes "never_pressed B" and "send_or_recv_with_timeout B buf d e = (Ok (f, pkt), e')"
  shows "\<not> uf_button_touched f"
  using assms(2)
  by (auto simp: send_or_recv_with_timeout_def send_or_recv_with_timeout_detail_def sbind_Ok sread_def
      dest: usb_no_touch [OF assms(1)])

lemma send_keepalive_packets_no_touch:
  assumes "never_pressed B" and "send_keepalive_packets B cid timeout pkts touched e = (Ok (t, r), e')" and "\<not> touched"
  shows "\<not> t"
  using assms(2,3)
proof (induction pkts arbitrary: e touched)
  case (Cons pkt pkts)
  obtain f pkt' e1 where run: "(send_or_recv_with_timeout B pkt timeout :: ('a, usb_flags \<times> bytes) board_op) e = (Ok (f, pkt'), e1)"
    using Cons.prems(1) by (auto simp: sbind_Ok)
  note not = send_or_recv_no_touch [OF assms(1) run]
  show ?case
    using Cons.prems Cons.IH [of False] not
    by (auto simp: sbind_def run Let_def op_defs split: option.splits send_or_recv_status.splits prod.splits if_splits processed_packet.splits)
qed (simp add: sret_def)

lemma keepalive_no_touch:
  assumes "never_pressed B" and "send_keepalive_up_needed B cid d e = (Ok (t, r), e')"
  shows "\<not> t"
  using assms(2) by (auto simp: send_keepalive_up_needed_def sbind_Ok dest: send_keepalive_packets_no_touch [OF assms(1)])

lemma presence_loop_no_touch:
  assumes "never_pressed B" and "presence_loop B cid is touched e = (Ok (t, r), e')" and "\<not> touched"
  shows "\<not> t"
  using assms(2,3)
proof (induction "is" arbitrary: e touched)
  case (Cons i "is")
  have step: "\<not> pr_button_touched (presence_callback ev f)" if "bd_event B e = (ev, e')" "\<not> pr_button_touched f" for ev f e e'
  proof -
    have "ev \<noteq> ButtonCallback True" using assms(1) that(1) unfolding never_pressed_def by (metis fst_conv)
    with that(2) show ?thesis by (cases ev) auto
  qed
  have wait: "\<not> pr_button_touched f" if "(wait_for B presence_callback c f0 :: ('a, presence_flags) board_op) e1 = (Ok f, e2)" "\<not> pr_button_touched f0" for c f0 e1 f e2
    using wait_for_preserves [of B _ _ _ _ _ _ "\<lambda>f. \<not> pr_button_touched f", OF that step] by simp
  from Cons.prems obtain f e1 e2 e3 e4 more k where
      f: "(wait_for B presence_callback (\<lambda>f. pr_button_touched f \<or> pr_keepalive_expired f)
         \<lparr>pr_button_touched = touched, pr_keepalive_expired = False\<rparr> :: ('a, presence_flags) board_op) e1 = (Ok f, e2)"
    and k: "(if pr_keepalive_expired f then send_keepalive_up_needed B cid KEEPALIVE_DELAY else sret (False, Ok ())) e3 = (Ok (more, k), e4)"
    and rest: "(if (pr_button_touched f \<or> more) \<or> k \<noteq> Ok () then sret (pr_button_touched f \<or> more, k)
       else presence_loop B cid is (pr_button_touched f \<or> more)) e4 = (Ok (t, r), e')"
    by (force simp: sbind_Ok Let_def)
  have "\<not> pr_button_touched f" using wait [OF f] Cons.prems(2) by simp
  moreover have "\<not> more" using k by (auto simp: sret_def split: if_splits dest: keepalive_no_touch [OF assms(1)])
  ultimately show ?case using rest Cons.IH [of False e4] by (auto simp: sret_def split: if_splits)
qed (simp add: sret_def)

lemma unpressed_presence:
  assumes "never_pressed B"
  shows "fst (check_user_presence B cid e) \<noteq> Ok x"
proof
  assume "fst (check_user_presence B cid e) = Ok x"
  then obtain e' where "check_user_presence B cid e = (Ok x, e')" by (metis prod.collapse)
  then obtain e1 t r e2 where "presence_loop B cid [0..<TIMEOUT_ITERATIONS] False e1 = (Ok (t, r), e2)" "r = Ok () \<Longrightarrow> t" "r = Ok ()"
    unfolding check_user_presence_def by (auto simp: sbind_Ok op_defs split: if_splits)
  with presence_loop_no_touch [OF assms] show False by blast
qed

text \<open>
  C3. Without a button press nothing happens, from the button to the store: on the firmware's board, if the kernel
  never reports a pressed button, a request to make a credential, to assert one with user presence, to reset, to
  select or to configure the device is answered with an error status and leaves the store as it was.
\<close>

theorem no_press_no_effect:
  assumes "never_pressed B" and "command_deserialize (pf_usize pf) (pf_v21 pf) request = Inr c" and "needs_touch c"
    and "process_command (firmware_platform B pf) request cid now st = Some (response, st')"
  shows "ps_store st' = ps_store st \<and> (\<exists>e. response = [status_byte e])"
proof (rule denied_process_command [OF _ _ assms(3,4)])
  show "\<forall>r x. fst (pf_user_presence (firmware_platform B pf) cid r) \<noteq> Ok x"
    using unpressed_presence [OF assms(1)] by (simp add: firmware_platform_def)
  show "command_deserialize (pf_usize (firmware_platform B pf)) (pf_v21 (firmware_platform B pf)) request = Inr c"
    using assms(2) by (simp add: firmware_platform_def)
qed

section \<open>The check ends\<close>

text \<open>
  An operation ends when it does not panic and does not wait forever: from a state in \<open>P\<close>, a value is returned in
  \<open>Q\<close>, and an error is one of \<open>E\<close>.
\<close>

definition ends :: "('x \<Rightarrow> bool) \<Rightarrow> ('e \<Rightarrow> bool) \<Rightarrow> ('e, 'x, 'a) op \<Rightarrow> ('a \<Rightarrow> 'e \<Rightarrow> bool) \<Rightarrow> bool" where
  "ends E P m Q \<longleftrightarrow> (\<forall>e. P e \<longrightarrow>
     fst (m e) \<noteq> Panic \<and> (\<forall>x. fst (m e) = Ok x \<longrightarrow> Q x (snd (m e))) \<and> (\<forall>x. fst (m e) = Err x \<longrightarrow> E x))"

lemma ends_bind:
  assumes "ends E P m Q" and "\<And>x. ends E (Q x) (f x) R"
  shows "ends E P (sbind m f) R"
  unfolding ends_def
proof (intro allI impI)
  fix e assume P: "P e"
  obtain r e' where run: "m e = (r, e')" by fastforce
  have "r \<noteq> Panic" "\<forall>x. r = Ok x \<longrightarrow> Q x e'" "\<forall>x. r = Err x \<longrightarrow> E x"
    using assms(1) P run unfolding ends_def by auto
  with assms(2) show "fst (sbind m f e) \<noteq> Panic \<and> (\<forall>x. fst (sbind m f e) = Ok x \<longrightarrow> R x (snd (sbind m f e)))
      \<and> (\<forall>x. fst (sbind m f e) = Err x \<longrightarrow> E x)"
    unfolding ends_def by (cases r) (simp_all add: sbind_def run)
qed

lemma ends_post: "ends E P m Q \<Longrightarrow> (\<And>x e. Q x e \<Longrightarrow> R x e) \<Longrightarrow> ends E P m R"
  unfolding ends_def by simp

lemma ends_pre: "ends E P m Q \<Longrightarrow> (\<And>e. P' e \<Longrightarrow> P e) \<Longrightarrow> ends E P' m Q"
  unfolding ends_def by blast

lemma ends_sret: "(\<And>e. P e \<Longrightarrow> Q x e) \<Longrightarrow> ends E P (sret x) Q"
  by (simp add: ends_def sret_def)

lemma ends_returning:
  assumes "ends (\<lambda>_. False) P m Q"
  shows "ends E P (returning m) Q"
  unfolding ends_def
proof (intro allI impI)
  fix e assume P: "P e"
  obtain r e' where run: "m e = (r, e')" by fastforce
  have "r \<noteq> Panic" "\<forall>x. r = Ok x \<longrightarrow> Q x e'" "\<forall>x. r \<noteq> Err x"
    using assms P run unfolding ends_def by auto
  then show "fst (returning m e) \<noteq> Panic \<and> (\<forall>x. fst (returning m e) = Ok x \<longrightarrow> Q x (snd (returning m e)))
      \<and> (\<forall>x. fst (returning m e) = Err x \<longrightarrow> E x)"
    by (cases r) (simp_all add: returning_def run)
qed

lemma ends_must: "(\<And>e. P e \<Longrightarrow> fst (call e) \<and> Q (snd (call e))) \<Longrightarrow> ends E P (must call) (\<lambda>_. Q)"
  by (auto simp: ends_def must_def split_beta)

lemma ends_try_call: "(\<And>e. P e \<Longrightarrow> fst (call e) \<and> Q (snd (call e))) \<Longrightarrow> ends E P (try_call call x) (\<lambda>_. Q)"
  by (auto simp: ends_def try_call_def split_beta)

text \<open>The kernel delivers an alarm after finitely many events.\<close>

inductive fires :: "'e board \<Rightarrow> 'e \<Rightarrow> bool" for B where
  now: "fst (bd_event B e) = AlarmCallback \<Longrightarrow> fires B e"
| later: "fires B (snd (bd_event B e)) \<Longrightarrow> fires B e"

lemma wait_ends:
  assumes "\<And>e. P f e \<Longrightarrow> fires B e"
    and "\<And>f e ev e'. I f e \<Longrightarrow> \<not> cond f \<Longrightarrow> bd_event B e = (ev, e') \<Longrightarrow> I (callback ev f) e'"
    and "\<And>f. cond (callback AlarmCallback f)" and "\<And>e. P f e \<Longrightarrow> I f e"
  shows "ends E (P f) (wait_for B callback cond f) (\<lambda>f' e'. I f' e' \<and> cond f')"
proof -
  have "\<exists>f' e'. yieldk_for (bd_event B) callback cond f e = Some (f', e') \<and> I f' e' \<and> cond f'"
    if "fires B e" "I f e" for f e
    using that
  proof (induction arbitrary: f rule: fires.induct)
    case (now e)
    show ?case
    proof (cases "cond f")
      case False
      obtain e' where e': "bd_event B e = (AlarmCallback, e')" using now(1) by (metis prod.collapse)
      then have "yieldk_for (bd_event B) callback cond f e = Some (callback AlarmCallback f, e')"
        using False assms(3) by (simp add: yieldk_for.simps)
      with assms(2) [OF now(2) False e'] assms(3) show ?thesis by simp
    qed (use now in \<open>simp add: yieldk_for.simps\<close>)
  next
    case (later e)
    show ?case
    proof (cases "cond f")
      case False
      obtain ev e' where e': "bd_event B e = (ev, e')" by fastforce
      with False later.IH [OF assms(2) [OF later.prems False, of ev]] show ?thesis
        by (subst yieldk_for.simps) simp
    qed (use later.prems in \<open>simp add: yieldk_for.simps\<close>)
  qed
  with assms(1,4) show ?thesis by (fastforce simp: ends_def wait_for_def)
qed

text \<open>The answer of a keepalive.\<close>

definition answered :: "bool \<times> unit fallible \<Rightarrow> bool" where
  "answered x \<longleftrightarrow> snd x \<in> {Ok (), Err CTAP2_ERR_KEEPALIVE_CANCEL}"

text \<open>
  A board that works: its calls succeed, a set alarm stays armed until it fires or is stopped, an armed alarm fires
  and can be stopped, and the USB driver reports a direction that it documents.
\<close>

locale live_board =
  fixes B :: "'e board" and armed :: "'e \<Rightarrow> bool"
  assumes calls: "fst (bd_allow B d n buf e)" "fst (bd_subscribe B d n e)" "fst (bd_timer_init B e)"
      "fst (bd_buttons_init B e)" "fst (bd_buttons_enable B e)" "fst (bd_buttons_disable B e)" "fst (bd_led_set B l on e)"
    and usb_command: "fst (bd_command B USB_DRIVER_NUMBER nr e) = TockSuccess"
    and leds: "fst (bd_led_count B e) \<noteq> None"
    and set_alarm: "fst (bd_set_alarm B delay e) \<and> armed (snd (bd_set_alarm B delay e))"
    and command_armed: "armed e \<Longrightarrow> armed (snd (bd_command B d nr e))"
    and event_armed: "armed e \<Longrightarrow> fst (bd_event B e) \<noteq> AlarmCallback \<Longrightarrow> armed (snd (bd_event B e))"
    and armed_fires: "armed e \<Longrightarrow> fires B e"
    and stop_armed: "armed e \<Longrightarrow> fst (bd_stop_alarm B e) = AlarmStopped"
    and stop: "fst (bd_stop_alarm B e) \<noteq> AlarmError"
    and direction: "fst (bd_event B e) = UsbCallback dir \<Longrightarrow> dir \<in> {CALLBACK_TRANSMITTED, CALLBACK_RECEIVED}"
begin

lemma must_ends:
  "ends E (\<lambda>_. True) (must (bd_timer_init B)) (\<lambda>_ _. True)" "ends E (\<lambda>_. True) (must (bd_buttons_init B)) (\<lambda>_ _. True)"
  "ends E (\<lambda>_. True) (must (bd_buttons_enable B)) (\<lambda>_ _. True)" "ends E (\<lambda>_. True) (must (bd_buttons_disable B)) (\<lambda>_ _. True)"
  "ends E (\<lambda>_. True) (must (bd_set_alarm B delay)) (\<lambda>_. armed)"
  using calls set_alarm by (intro ends_must; simp)+

lemma set_leds_ends: "ends E (\<lambda>_. True) (set_leds B p ls) (\<lambda>_ _. True)"
proof (induction ls)
  case (Cons l ls)
  have "ends E (\<lambda>_. True) (must (bd_led_set B l (p l))) (\<lambda>_ _. True)" using calls(7) by (intro ends_must) simp
  from ends_bind [OF this Cons.IH] show ?case by simp
qed (simp add: ends_sret)

lemma led_count_ends: "ends E (\<lambda>_. True) (must_get (bd_led_count B)) (\<lambda>_ _. True)"
  using leds by (simp add: ends_def must_get_def split_beta split: option.split)

lemma leds_end:
  "ends E (\<lambda>_. True) (blink_leds B w) (\<lambda>_ _. True)" "ends E (\<lambda>_. True) (switch_off_leds B) (\<lambda>_ _. True)"
  unfolding blink_leds_def switch_off_leds_def by (rule ends_bind [OF led_count_ends set_leds_ends])+

text \<open>A transaction ends with a status other than an error, or by its timeout.\<close>

lemma transaction_ends:
  "ends E (\<lambda>_. True) (timed_transaction B channel nr transfer_status buf delay) (\<lambda>f _. uf_status f \<noteq> Some UsbError)"
proof -
  have wait: "ends F armed (wait_for B (usb_callback transfer_status) (\<lambda>f. uf_status f \<noteq> None \<or> uf_timeout_expired f) usb_flags_new)
      (\<lambda>f _. uf_status f \<noteq> Some UsbError)" for F
  proof (rule ends_post [OF wait_ends [where P = "\<lambda>_. armed" and I = "\<lambda>f _. uf_status f \<noteq> Some UsbError"]])
    fix f :: usb_flags and e ev e'
    assume "bd_event B e = (ev, e')" and "uf_status f \<noteq> Some UsbError"
    then show "uf_status (usb_callback transfer_status ev f) \<noteq> Some UsbError"
      using direction [of e] by (cases ev) (auto simp: transfer_status_def CALLBACK_TRANSMITTED_def CALLBACK_RECEIVED_def)
  qed (simp_all add: armed_fires usb_flags_new_def)
  have clean: "ends F P (cleanup_alarm B) (\<lambda>_ _. True)" for F P
    using stop by (simp add: ends_def cleanup_alarm_def split_beta split: stop_result.split)
  have cancel: "ends F P (cancel_transaction B) (\<lambda>_ _. True)" for F P
    using usb_command by (simp add: ends_def cancel_transaction_def split_beta)
  have starting: "ends F armed (try_call (usb_call B nr) x) (\<lambda>_. armed)" for F :: "usb_flags \<Rightarrow> bool" and x
    using usb_command command_armed by (intro ends_try_call) (auto simp: usb_call_def split_beta)
  have preparing: "ends F (\<lambda>_. True) (try_call (bd_allow B USB_DRIVER_NUMBER channel buf) x) (\<lambda>_ _. True)"
      "ends F (\<lambda>_. True) (try_call (bd_subscribe B USB_DRIVER_NUMBER channel) x) (\<lambda>_ _. True)"
      "ends F (\<lambda>_. True) (try_call (bd_timer_init B) x) (\<lambda>_ _. True)"
      "ends F (\<lambda>_. True) (try_call (bd_set_alarm B delay) x) (\<lambda>_. armed)" for F :: "usb_flags \<Rightarrow> bool" and x
    using calls set_alarm by (intro ends_try_call; simp)+
  have closing: "ends F (\<lambda>_. uf_status f \<noteq> Some UsbError)
      (sbind (cleanup_alarm B) (\<lambda>_. sbind (if uf_status f = None then cancel_transaction B else sret ()) (\<lambda>_. sret f)))
      (\<lambda>f _. uf_status f \<noteq> Some UsbError)" for F f
  proof (cases "uf_status f \<noteq> Some UsbError")
    case True
    show ?thesis by (intro ends_bind [OF clean] ends_bind [where Q = "\<lambda>_ _. True"]) (auto intro: ends_sret cancel simp: True)
  qed (simp add: ends_def)
  show ?thesis
    unfolding timed_transaction_def Let_def
    by (intro ends_returning ends_bind [OF preparing(1)] ends_bind [OF preparing(2)] ends_bind [OF preparing(3)] ends_bind [OF preparing(4)]
        ends_bind [OF starting] ends_bind [OF wait] closing)
qed

lemma send_or_recv_ends:
  "ends E (\<lambda>_. True) (send_or_recv_with_timeout B buf delay) (\<lambda>x _. uf_status (fst x) \<noteq> Some UsbError)"
  unfolding send_or_recv_with_timeout_def send_or_recv_with_timeout_detail_def
  by (rule ends_bind [OF transaction_ends]) (simp add: ends_def sread_def)

lemma keepalive_packets_end:
  "ends E (\<lambda>_. True) (send_keepalive_packets B cid delay pkts touched) (\<lambda>x _. answered x)"
proof (induction pkts arbitrary: touched)
  case (Cons pkt pkts)
  have packet: "ends E (\<lambda>_. uf_status f \<noteq> Some UsbError)
      (let touched = (touched \<or> uf_button_touched f) in
       case uf_status f of None \<Rightarrow> send_keepalive_packets B cid delay pkts touched
       | Some UsbError \<Rightarrow> soutcome Panic | Some UsbSent \<Rightarrow> send_keepalive_packets B cid delay pkts touched
       | Some UsbReceived \<Rightarrow> let (received_cid, processed_packet) = process_single_packet pkt in
          if received_cid \<noteq> cid then sret (touched, Ok ())
          else case processed_packet of
               InitPacket cmd _ _ \<Rightarrow> if cmd = COMMAND_CANCEL then sret (touched, Err CTAP2_ERR_KEEPALIVE_CANCEL)
                 else send_keepalive_packets B cid delay pkts touched
             | ContinuationPacket _ _ \<Rightarrow> send_keepalive_packets B cid delay pkts touched)
      (\<lambda>x _. answered x)" for f :: usb_flags and pkt
  proof -
    have more: "ends E P (send_keepalive_packets B cid delay pkts t) (\<lambda>x _. answered x)" for P t
      using Cons.IH by (rule ends_pre) simp
    have "answered (t, Ok ())" "answered (t, Err CTAP2_ERR_KEEPALIVE_CANCEL)" for t by (simp_all add: answered_def)
    then have finished: "ends E P (sret (t, Ok ())) (\<lambda>x _. answered x)" "ends E P (sret (t, Err CTAP2_ERR_KEEPALIVE_CANCEL)) (\<lambda>x _. answered x)" for P t
      by (simp_all add: ends_sret)
    have never: "ends E (\<lambda>_. False) m (\<lambda>x _. answered x)" for m by (simp add: ends_def)
    show ?thesis
      by (cases "uf_status f = Some UsbError"; cases "fst (process_single_packet pkt) = cid")
        (simp_all add: Let_def split_beta more finished never split: option.split send_or_recv_status.split processed_packet.split)
  qed
  show ?case unfolding send_keepalive_packets.simps
    by (rule ends_bind [OF send_or_recv_ends]) (auto simp only: prod.case split_beta fst_conv intro!: packet split: prod.split)
qed (auto intro: ends_sret simp: answered_def)

lemma keepalive_ends:
  assumes "length cid = 4"
  shows "ends E (\<lambda>_. True) (send_keepalive_up_needed B cid delay) (\<lambda>x _. answered x)"
proof -
  let ?m = "message_new cid COMMAND_KEEPALIVE [2]"
  have "Option.bind (split_message ?m) (drain (MAX_PAYLOAD + 2)) = Some (packets ?m)"
    using assms by (intro drain_packets) (simp_all add: message_ok_def message_new_def COMMAND_KEEPALIVE_def MAX_PAYLOAD_def)
  then show ?thesis
    unfolding send_keepalive_up_needed_def
    by (simp add: packets_of_def [abs_def] sbind_simps keepalive_packets_end del: drain.simps add_2_eq_Suc')
qed

text \<open>
  A round of the check: its alarm fires unless a button is pressed first, so the wait ends, and the alarm can be
  stopped as long as it has not fired.
\<close>

lemma round_ends:
  "ends E armed (wait_for B presence_callback (\<lambda>f. pr_button_touched f \<or> pr_keepalive_expired f) \<lparr>pr_button_touched = t, pr_keepalive_expired = False\<rparr>)
     (\<lambda>f e. armed e \<or> pr_keepalive_expired f)"
proof (rule ends_post [OF wait_ends [where P = "\<lambda>_. armed" and I = "\<lambda>f e. armed e \<or> pr_keepalive_expired f"]])
  fix f :: presence_flags and e ev e'
  assume "bd_event B e = (ev, e')" and "armed e \<or> pr_keepalive_expired f"
  then show "armed e' \<or> pr_keepalive_expired (presence_callback ev f)"
    using event_armed [of e] by (cases ev) auto
qed (simp_all add: armed_fires)

lemma stop_ends: "ends E (\<lambda>e. armed e \<or> expired) (stop_keepalive B expired) (\<lambda>_ _. True)"
  unfolding ends_def stop_keepalive_def
proof (intro allI impI)
  fix e assume a: "armed e \<or> expired"
  obtain r e' where r: "bd_stop_alarm B e = (r, e')" by fastforce
  with stop [of e] stop_armed [of e] a have "r = AlarmStopped \<or> r = AlarmAlready \<and> expired" by (cases r) auto
  with r show "fst (case bd_stop_alarm B e of (AlarmStopped, e') \<Rightarrow> (Ok (), e') | (AlarmAlready, e') \<Rightarrow> (if expired then Ok () else Panic, e')
      | (AlarmError, e') \<Rightarrow> (Panic, e')) \<noteq> Panic \<and>
    (\<forall>x. fst (case bd_stop_alarm B e of (AlarmStopped, e') \<Rightarrow> (Ok (), e') | (AlarmAlready, e') \<Rightarrow> (if expired then Ok () else Panic, e')
      | (AlarmError, e') \<Rightarrow> (Panic, e')) = Ok x \<longrightarrow> True) \<and>
    (\<forall>x. fst (case bd_stop_alarm B e of (AlarmStopped, e') \<Rightarrow> (Ok (), e') | (AlarmAlready, e') \<Rightarrow> (if expired then Ok () else Panic, e')
      | (AlarmError, e') \<Rightarrow> (Panic, e')) = Err x \<longrightarrow> E x)"
    by auto
qed

lemma presence_loop_ends:
  assumes "length cid = 4"
  shows "ends E (\<lambda>_. True) (presence_loop B cid is t) (\<lambda>x _. answered x)"
proof (induction "is" arbitrary: t)
  case (Cons i "is")
  have alive: "ends E (\<lambda>_. True) (if c then send_keepalive_up_needed B cid KEEPALIVE_DELAY else sret (False, Ok ())) (\<lambda>x _. answered x)" for c
    using keepalive_ends [OF assms] by (auto intro: ends_sret simp: answered_def)
  have "ends E (\<lambda>_. answered x) (case x of (again, r) \<Rightarrow> let touched = (t' \<or> again) in
      if touched \<or> r \<noteq> Ok () then sret (touched, r) else presence_loop B cid is touched) (\<lambda>x _. answered x)" for x t'
    using Cons.IH by (cases x) (auto simp: Let_def answered_def intro!: ends_sret elim: ends_pre)
  then show ?case
    unfolding presence_loop.simps
    by (intro ends_bind [OF leds_end(1)] ends_bind [OF must_ends(1)] ends_bind [OF must_ends(5)] ends_bind [OF round_ends]
        ends_bind [OF stop_ends] ends_bind [OF alive])
qed (auto intro: ends_sret simp: answered_def)

lemma presence_check_returns:
  assumes "length cid = 4"
  shows "ends (\<lambda>x. x \<in> {CTAP2_ERR_USER_ACTION_TIMEOUT, CTAP2_ERR_KEEPALIVE_CANCEL}) (\<lambda>_. True) (check_user_presence B cid) (\<lambda>_ _. True)"
    (is "ends ?E _ _ _")
proof -
  have response: "ends ?E (\<lambda>_. answered x) (case x of (t, r) \<Rightarrow> sbind (soutcome r) f) R" if "ends ?E (\<lambda>_. True) (f ()) R" for x f R
  proof (cases "answered x")
    case True
    then have "snd x = Ok () \<or> snd x = Err CTAP2_ERR_KEEPALIVE_CANCEL" by (auto simp: answered_def)
    moreover have "ends ?E (\<lambda>_. True) (sfail CTAP2_ERR_KEEPALIVE_CANCEL) R" by (simp add: ends_def sfail_def)
    ultimately show ?thesis using that True by (cases x) (auto simp: sbind_simps)
  qed (simp add: ends_def)
  have result: "ends ?E (\<lambda>_. answered x) (case x of (t, r) \<Rightarrow> sbind (switch_off_leds B) (\<lambda>_. sbind (must (bd_buttons_disable B)) (\<lambda>_.
      if r \<noteq> Ok () then soutcome r else if t then sret () else sfail CTAP2_ERR_USER_ACTION_TIMEOUT))) (\<lambda>_ _. True)" for x
  proof (cases "answered x")
    case True
    then have "ends ?E (\<lambda>_. True) (if snd x \<noteq> Ok () then soutcome (snd x) else if fst x then sret () else sfail CTAP2_ERR_USER_ACTION_TIMEOUT) (\<lambda>_ _. True)"
      by (auto simp: answered_def ends_def op_defs)
    then show ?thesis
      unfolding case_prod_beta by (intro ends_pre [OF ends_bind [OF leds_end(2) ends_bind [OF must_ends(4)]]]) simp_all
  qed (simp add: ends_def)
  show ?thesis
    unfolding check_user_presence_def
    by (intro ends_bind [OF keepalive_ends [OF assms]] response ends_bind [OF must_ends(2)] ends_bind [OF must_ends(3)]
        ends_bind [OF presence_loop_ends [OF assms]] result)
qed

end


text \<open>
  A board on which nothing happens but its alarms: its state is odd while an alarm is set, and half of it is what
  the random generator uses.
\<close>

definition quiet_board :: "nat board" where
  "quiet_board = \<lparr>bd_allow = \<lambda>_ _ _ e. (True, e), bd_subscribe = \<lambda>_ _ e. (True, e), bd_command = \<lambda>_ _ e. (TockSuccess, e),
     bd_buffer = \<lambda>_. replicate 64 0, bd_event = \<lambda>e. (if odd e then AlarmCallback else OtherCallback, 2 * (e div 2)),
     bd_timer_init = \<lambda>e. (True, e), bd_set_alarm = \<lambda>_ e. (True, 2 * (e div 2) + 1),
     bd_stop_alarm = \<lambda>e. (if odd e then AlarmStopped else AlarmAlready, 2 * (e div 2)),
     bd_clock = \<lambda>e. (Some (clock_value_new 0 1000), e), bd_buttons_init = \<lambda>e. (True, e), bd_buttons_enable = \<lambda>e. (True, e),
     bd_buttons_disable = \<lambda>e. (True, e), bd_led_count = \<lambda>e. (Some 4, e), bd_led_set = \<lambda>_ _ e. (True, e)\<rparr>"

interpretation quiet: live_board quiet_board odd
  by unfold_locales (auto simp: quiet_board_def intro: fires.now split: if_splits)


lemma quiet_board_never_pressed: "never_pressed quiet_board"
  by (simp add: never_pressed_def quiet_board_def)

text \<open>A reset that is due, and that the user does not confirm, ends with the error of the check.\<close>

lemma denied_reset:
  assumes "command_deserialize (pf_usize pf) (pf_v21 pf) request = Inr AuthenticatorReset"
    and "tp_check_expiration (stateful_command_permission st) now = Some p" and "is_granted p now = Some True"
    and "stateful_command_type st = Some StatefulReset" and "pf_user_presence pf cid (ps_rng st) = (Err x, r)"
  shows "\<exists>st'. process_command pf request cid now st = Some ([status_byte x], st')"
  using assms
  by (cases "pf_ctap1 pf")
    (auto simp: process_command_def process_reset_def sbind_def reset_u2f_state_def clear_stateful_command_def keeps_stateful_command_def
      check_command_permission_def update_command_permission_def op_defs user_presence_def oguard_def)

lemma quiet_board_denies:
  obtains x r where "check_user_presence quiet_board [0, 0, 0, 1] e = (Err x, r)"
proof -
  obtain y r where run: "check_user_presence quiet_board [0, 0, 0, 1] e = (y, r)" by fastforce
  have "fst (check_user_presence quiet_board [0, 0, 0, 1] e) \<noteq> Panic"
    by (rule quiet.presence_check_returns [of "[0, 0, 0, 1]", unfolded ends_def, simplified, THEN spec, THEN conjunct1])
  moreover have "y \<noteq> Ok ()" using unpressed_presence [OF quiet_board_never_pressed, of "[0, 0, 0, 1]" e "()"] run by simp
  ultimately show thesis using run that by (cases y) auto
qed

theorem no_press_no_effect_witness:
  "\<exists>e st'. process_command (firmware_platform quiet_board (model_platform sample_rng)) [0x07] [0, 0, 0, 1] (clock_value_new 0 1000)
      resettable_device = Some ([status_byte e], st') \<and> ps_store st' = ps_store resettable_device"
proof -
  let ?pf = "model_platform sample_rng" and ?fw = "firmware_platform quiet_board (model_platform sample_rng)"
  have c: "command_deserialize (pf_usize ?pf) (pf_v21 ?pf) [0x07] = Inr AuthenticatorReset" by code_simp
  then have c': "command_deserialize (pf_usize ?fw) (pf_v21 ?fw) [0x07] = Inr AuthenticatorReset"
    by (simp add: firmware_platform_def)
  have permission: "stateful_command_permission resettable_device = Granted (clock_value_new 100 1000)"
      "stateful_command_type resettable_device = Some StatefulReset"
    by (simp_all add: resettable_device_def)
  have granted: "tp_check_expiration (Granted (clock_value_new 100 1000)) (clock_value_new 0 1000) = Some (Granted (clock_value_new 100 1000))"
      "is_granted (Granted (clock_value_new 100 1000)) (clock_value_new 0 1000) = Some True" by code_simp+
  obtain x r where "check_user_presence quiet_board [0, 0, 0, 1] (ps_rng resettable_device) = (Err x, r)"
    by (rule quiet_board_denies)
  then have "pf_user_presence ?fw [0, 0, 0, 1] (ps_rng resettable_device) = (Err x, r)" by (simp add: firmware_platform_def)
  from denied_reset [OF c' granted(1) [folded permission(1)] granted(2) [folded permission(1)] permission(2) this] obtain st' where
    run: "process_command ?fw [0x07] [0, 0, 0, 1] (clock_value_new 0 1000) resettable_device = Some ([status_byte x], st')" by blast
  from no_press_no_effect [OF quiet_board_never_pressed c _ run] run show ?thesis by auto
qed

end
