(* ===== verification/Ctap1_Properties.thy ===== *)
theory Ctap1_Properties
  imports Device_Properties
begin

text \<open>
  User presence for U2F, from the touch to the answer: which messages consume a touch, over every run of the
  device that mixes touches, U2F messages, CTAP2 requests and passes of the main loop.
\<close>

section \<open>Messages and the U2F state\<close>

lemma keeps_u2f_stateful [kept]:
  "keeps u2f_up_state (update_command_permission now)" "keeps u2f_up_state pop_next_credential"
  "keeps u2f_up_state (smodify (\<lambda>st. st\<lparr>stateful_command_permission := permission, stateful_command_type := t\<rparr>))"
  "keeps u2f_up_state (clear_stateful_command pf c)"
  by (auto simp: keeps_def update_command_permission_def pop_next_credential_def clear_stateful_command_def smodify_def
      split: option.splits stateful_command.splits if_splits)

lemma keeps_or_fail [kept]: "keeps f m \<Longrightarrow> keeps f (or_fail code m)"
  by (auto simp: keeps_def or_fail_def smap_err_def split: prod.splits)

lemma keeps_u2f_commands [kept]:
  "keeps u2f_up_state (check_command_permission now)" "keeps u2f_up_state (process_get_assertion pf params cid now)"
  "keeps u2f_up_state (process_get_next_assertion pf now)"
  unfolding check_command_permission_def process_get_assertion_def process_get_next_assertion_def Let_def
  by (intro kept)+

lemma u2f_processing_keeps [kept]:
  "keeps u2f_up_state (process_register pf challenge application)"
  "keeps u2f_up_state (process_authenticate pf challenge application handle flags)"
  unfolding process_register_def process_authenticate_def Let_def by (intro kept)+

text \<open>An operation that never brings a touch.\<close>

definition no_touch :: "(('s, 'r) ctap_state, 'e, 'a) op \<Rightarrow> bool" where
  "no_touch m \<longleftrightarrow> (\<forall>st r st'. m st = (r, st') \<longrightarrow> pending (u2f_up_state st') \<le> pending (u2f_up_state st))"

lemma no_touch_keeps: "keeps u2f_up_state m \<Longrightarrow> no_touch m"
  by (simp add: keeps_def no_touch_def)

lemma no_touch_sbind: "no_touch m \<Longrightarrow> (\<And>x. no_touch (f x)) \<Longrightarrow> no_touch (sbind m f)"
  unfolding no_touch_def by (meson sbindE le_trans)

lemma no_touch_reset_u2f: "no_touch (reset_u2f_state pf)"
  by (auto simp: no_touch_def reset_u2f_state_def smodify_def sret_def pending_def u2f_new_def split: if_splits)

lemma run_command_no_touch: "no_touch (run_command pf c cid now)"
proof -
  have "no_touch (process_reset pf cid now)"
    unfolding process_reset_def by (intro no_touch_sbind no_touch_reset_u2f no_touch_keeps kept)
  then show ?thesis by (cases c) (auto intro: no_touch_keeps kept)
qed

lemma process_command_no_touch:
  assumes "process_command pf request cid now st = Some (response, st')"
  shows "pending (u2f_up_state st') \<le> pending (u2f_up_state st)"
proof (cases "command_deserialize (pf_usize pf) (pf_v21 pf) request")
  case (Inr c)
  then obtain r where "sbind (reset_u2f_state pf) (\<lambda>_. sbind (clear_stateful_command pf c) (\<lambda>_. run_command pf c cid now)) st = (r, st')"
    using assms by (auto simp: process_command_def split: prod.splits outcome.splits)
  moreover have "no_touch (sbind (reset_u2f_state pf) (\<lambda>_. sbind (clear_stateful_command pf c) (\<lambda>_. run_command pf c cid now)))"
    by (intro no_touch_sbind no_touch_reset_u2f run_command_no_touch no_touch_keeps kept)
  ultimately show ?thesis by (simp add: no_touch_def)
qed (use assms in \<open>simp add: process_command_def\<close>)

section \<open>One touch, one request\<close>

text \<open>The requests that must not be served without a touch, and whether one was served.\<close>

fun demands_touch :: "u2f_command \<Rightarrow> bool" where
  "demands_touch (U2fRegister challenge application) = True"
| "demands_touch (U2fAuthenticate challenge application handle flags) = (flags = EnforceUpAndSign)"
| "demands_touch _ = False"

definition touch_used :: "bytes \<Rightarrow> (apdu_status_code, bytes) outcome \<Rightarrow> nat" where
  "touch_used message r =
     (case u2f_command_try_from message of
        Ok c \<Rightarrow> if demands_touch c \<and> r \<noteq> Err SW_COND_USE_NOT_SATISFIED then 1 else 0
      | _ \<Rightarrow> 0)"

lemma consume_up_outcome:
  assumes "u2f_consume_up now st = (Ok up, st1)"
  shows "(if up then 1 else 0) + pending (u2f_up_state st1) \<le> pending (u2f_up_state st) \<and> ps_store st1 = ps_store st"
  using assms u2f_step_pending(2) [of "u2f_up_state st" now]
  by (auto simp: u2f_consume_up_def split: option.splits prod.splits)

lemma guarded_message:
  assumes "sbind (u2f_consume_up now) (\<lambda>up. sbind (sguard up SW_COND_USE_NOT_SATISFIED) (\<lambda>_. m)) st = (r, st')"
    and "r \<noteq> Panic" and "keeps u2f_up_state m"
  shows "(if r \<noteq> Err SW_COND_USE_NOT_SATISFIED then 1 else 0) + pending (u2f_up_state st') \<le> pending (u2f_up_state st)"
  using assms(1)
proof (cases rule: sbindE)
  case (ok up st1)
  show ?thesis
  proof (cases up)
    case True
    with ok assms(3) have "u2f_up_state st' = u2f_up_state st1" by (auto simp: sbind_simps keeps_def)
    with consume_up_outcome [OF ok(1)] True show ?thesis by auto
  qed (use ok consume_up_outcome [OF ok(1)] in \<open>auto simp: sbind_def op_defs\<close>)
qed (use assms(2) in \<open>auto simp: u2f_consume_up_def split: option.splits prod.splits\<close>)

lemma ctap1_pending:
  assumes "ctap1_process_command pf message now st = (r, st')" and "r \<noteq> Panic"
  shows "touch_used message r + pending (u2f_up_state st') \<le> pending (u2f_up_state st)"
proof (cases "u2f_command_try_from message")
  case (Ok c)
  show ?thesis
  proof (cases c)
    case (U2fRegister challenge application)
    with Ok assms(1) have "sbind (u2f_consume_up now) (\<lambda>up. sbind (sguard up SW_COND_USE_NOT_SATISFIED) (\<lambda>_.
        process_register pf challenge application)) st = (r, st')"
      by (simp add: ctap1_process_command_def sbind_simps)
    from guarded_message [OF this assms(2) u2f_processing_keeps(1)] Ok U2fRegister show ?thesis by (simp add: touch_used_def)
  next
    case (U2fAuthenticate challenge application handle flags)
    show ?thesis
    proof (cases "flags = EnforceUpAndSign")
      case True
      with Ok assms(1) U2fAuthenticate have "sbind (u2f_consume_up now) (\<lambda>up. sbind (sguard up SW_COND_USE_NOT_SATISFIED) (\<lambda>_.
          process_authenticate pf challenge application handle flags)) st = (r, st')"
        by (simp add: ctap1_process_command_def sbind_simps sbind_assoc)
      from guarded_message [OF this assms(2) u2f_processing_keeps(2)] Ok U2fAuthenticate True show ?thesis by (simp add: touch_used_def)
    next
      case False
      with Ok assms(1) U2fAuthenticate have "process_authenticate pf challenge application handle flags st = (r, st')"
        by (simp add: ctap1_process_command_def sbind_simps)
      with u2f_processing_keeps(2) [of pf challenge application handle flags] Ok U2fAuthenticate False show ?thesis
        by (auto simp: touch_used_def keeps_def)
    qed
  qed (use assms Ok in \<open>auto simp: ctap1_process_command_def sbind_def touch_used_def op_defs\<close>)
qed (use assms in \<open>auto simp: ctap1_process_command_def touch_used_def op_defs sbind_def\<close>)

text \<open>Runs of the device with the number of touches and the number of served requests that demand one.\<close>

inductive touch_run :: "('s, 'h, 'r) platform \<Rightarrow> nat \<Rightarrow> nat \<Rightarrow> ('s, 'r) ctap_state \<Rightarrow> bool"
  for pf :: "('s, 'h, 'r) platform" where
  power_up: "ctap_state_new pf s r t0 = Some st \<Longrightarrow> touch_run pf 0 0 st"
| touch: "touch_run pf t n st \<Longrightarrow> grant_up (u2f_up_state st) now = Some u \<Longrightarrow> touch_run pf (Suc t) n (st\<lparr>u2f_up_state := u\<rparr>)"
| message: "touch_run pf t n st \<Longrightarrow> ctap1_process_command pf m now st = (r, st') \<Longrightarrow> r \<noteq> Panic
    \<Longrightarrow> touch_run pf t (n + touch_used m r) st'"
| request: "touch_run pf t n st \<Longrightarrow> process_command pf m cid now st = Some (response, st') \<Longrightarrow> touch_run pf t n st'"
| blink: "touch_run pf t n st \<Longrightarrow> is_up_needed (u2f_up_state st) now = Some (b, u) \<Longrightarrow> touch_run pf t n (st\<lparr>u2f_up_state := u\<rparr>)"
| pass: "touch_run pf t n st \<Longrightarrow> update_command_permission now st = (Ok (), st') \<Longrightarrow> touch_run pf t n st'"

lemma touch_run_pending: "touch_run pf t n st \<Longrightarrow> n + pending (u2f_up_state st) \<le> t"
proof (induction rule: touch_run.induct)
  case (power_up s r t0 st)
  then show ?case by (auto simp: ctap_state_new_def bind_eq_Some_conv pending_def u2f_new_def)
next
  case (touch t n st now u)
  with u2f_step_pending(1) [OF touch.hyps(2)] show ?case by simp
next
  case (message t n st m now r st')
  with ctap1_pending [OF message.hyps(2,3)] show ?case by simp
next
  case (request t n st m cid now response st')
  with process_command_no_touch [OF request.hyps(2)] show ?case by simp
next
  case (blink t n st now b u)
  with u2f_step_pending(3) [OF blink.hyps(2)] show ?case by simp
next
  case (pass t n st now st')
  have "u2f_up_state st' = u2f_up_state st"
    by (rule keeps_u2f_stateful(1) [unfolded keeps_def, rule_format, OF pass.hyps(2)])
  with pass show ?case by simp
qed

lemma u2f_store_steps:
  "keeps ps_store (u2f_consume_up now)" "keeps ps_store (process_register pf challenge application)"
proof -
  note steps = keeps_sbind keeps_reads keeps_state_reads keeps_if keeps_or_fail keeps_ps_store
  have "keeps ps_store (encrypt_key_handle pf sk application)" for sk
    unfolding encrypt_key_handle_def Let_def by (intro steps)
  note steps = this steps
  show "keeps ps_store (process_register pf challenge application)"
    unfolding process_register_def Let_def by (intro steps)
qed (auto simp: keeps_def u2f_consume_up_def split: option.splits prod.splits)

lemma authenticate_refusal:
  assumes "process_authenticate pf challenge application handle flags st = (Err SW_COND_USE_NOT_SATISFIED, st')"
  shows "st' = st"
  using assms
  by (auto simp: process_authenticate_def sbind_def op_defs or_fail_def from_store_def Let_def subslice_def
      split: outcome.splits prod.splits option.splits if_splits elim!: map_err.elims unwrap_option.elims)

lemma ctap1_refusal_keeps_store:
  assumes "ctap1_process_command pf message now st = (Err SW_COND_USE_NOT_SATISFIED, st')"
  shows "ps_store st' = ps_store st"
proof (cases "u2f_command_try_from message")
  case (Ok c)
  show ?thesis
  proof (cases c)
    case (U2fRegister challenge application)
    have "keeps ps_store (sbind (u2f_consume_up now) (\<lambda>up. sbind (sguard up SW_COND_USE_NOT_SATISFIED) (\<lambda>_.
        process_register pf challenge application)))" by (intro keeps_sbind keeps_reads u2f_store_steps)
    with Ok U2fRegister assms show ?thesis by (simp add: ctap1_process_command_def sbind_simps keeps_def)
  next
    case (U2fAuthenticate challenge application handle flags)
    let ?up = "if flags = EnforceUpAndSign then sbind (u2f_consume_up now) (\<lambda>up. sguard up SW_COND_USE_NOT_SATISFIED) else sret ()"
    have up: "ps_store st1 = ps_store st" if "?up st = (x, st1)" for x st1
    proof -
      have "keeps ps_store ?up" by (intro keeps_if keeps_sbind keeps_reads u2f_store_steps)
      with that show ?thesis unfolding keeps_def by blast
    qed
    from Ok U2fAuthenticate assms have "sbind ?up (\<lambda>_. process_authenticate pf challenge application handle flags) st
        = (Err SW_COND_USE_NOT_SATISFIED, st')"
      by (simp add: ctap1_process_command_def sbind_simps)
    then show ?thesis by (cases rule: sbindE) (auto dest: up authenticate_refusal)
  qed (use assms Ok in \<open>auto simp: ctap1_process_command_def sbind_def op_defs\<close>)
qed (use assms in \<open>auto simp: ctap1_process_command_def op_defs sbind_def\<close>)

text \<open>
  C7. One touch serves one U2F request: in every run of the device since power-up, through touches, U2F
  messages, CTAP2 requests and passes of the main loop in any order, at most as many registrations and enforced
  authentications are answered with anything but the demand for a touch as there were touches; and that demand
  leaves the store as it was.
\<close>

theorem one_touch_one_u2f_request:
  assumes "touch_run pf touches served st" and "ctap1_process_command pf message now st = (r, st')" and "r \<noteq> Panic"
  shows "served + touch_used message r \<le> touches
    \<and> (r = Err SW_COND_USE_NOT_SATISFIED \<longrightarrow> ps_store st' = ps_store st)"
  using touch_run_pending [OF touch_run.message [OF assms]] ctap1_refusal_keeps_store [of pf message now st st'] assms(2)
  by auto

text \<open>An enforced authentication with an empty key handle.\<close>

definition sample_authenticate :: bytes where
  "sample_authenticate = [0, 2, 3, 0, 0, 0, 65] @ replicate 64 7 @ [0] @ [0, 0]"

lemma sample_authenticate_parsed:
  "u2f_command_try_from sample_authenticate = Ok (U2fAuthenticate (replicate 32 7) (replicate 32 7) [] EnforceUpAndSign)"
  by code_simp

text \<open>What an enforced authentication with that handle does to a state, by the outcome of the check of presence.\<close>

lemma sample_authenticate_run:
  assumes "consume_up (u2f_up_state st) now = Some (up, u)"
  shows "ctap1_process_command pf sample_authenticate now st
    = (Err (if up then SW_WRONG_DATA else SW_COND_USE_NOT_SATISFIED), st\<lparr>u2f_up_state := u\<rparr>)"
  using assms
  by (simp add: ctap1_process_command_def sample_authenticate_parsed sbind_def u2f_consume_up_def op_defs process_authenticate_def
      or_fail_def from_store_def decrypt_credential_source_def CREDENTIAL_ID_SIZE_def)

lemma sample_touch_sequence:
  "\<exists>u1 u2 u3 u4. consume_up (u2f_new U2F_UP_PROMPT_TIMEOUT TOUCH_TIMEOUT_MS) (clock_value_new 0 32768) = Some (False, u1)
     \<and> grant_up u1 (clock_value_new 1 32768) = Some u2
     \<and> consume_up u2 (clock_value_new 2 32768) = Some (True, u3)
     \<and> consume_up u3 (clock_value_new 3 32768) = Some (False, u4)"
  by (simp add: u2f_defs u2f_new_def clock_value_new_def clock_wrapping_sub_def clock_ms_def
      scale_int_def i64_div_def grant_ticks_def U2F_UP_PROMPT_TIMEOUT_def TOUCH_TIMEOUT_MS_def)

theorem one_touch_one_u2f_request_witness:
  "\<exists>st st'. touch_run (model_platform sample_rng) 1 1 st
     \<and> ctap1_process_command (model_platform sample_rng) sample_authenticate (clock_value_new 3 32768) st = (Err SW_COND_USE_NOT_SATISFIED, st')
     \<and> ps_store st' = ps_store st"
proof -
  let ?pf = "model_platform sample_rng"
  obtain st0 where st0: "ctap_state_new ?pf initialised_store 0 (clock_value_new 0 32768) = Some st0"
    using sample_power_up by blast
  then have u0: "u2f_up_state st0 = u2f_new U2F_UP_PROMPT_TIMEOUT TOUCH_TIMEOUT_MS"
    by (auto simp: ctap_state_new_def bind_eq_Some_conv)
  obtain u1 u2 u3 u4 where u: "consume_up (u2f_up_state st0) (clock_value_new 0 32768) = Some (False, u1)"
      "grant_up u1 (clock_value_new 1 32768) = Some u2" "consume_up u2 (clock_value_new 2 32768) = Some (True, u3)"
      "consume_up u3 (clock_value_new 3 32768) = Some (False, u4)"
    using sample_touch_sequence unfolding u0 by blast
  let ?st1 = "st0\<lparr>u2f_up_state := u1\<rparr>" and ?st2 = "st0\<lparr>u2f_up_state := u2\<rparr>" and ?st3 = "st0\<lparr>u2f_up_state := u3\<rparr>"
  have used: "touch_used sample_authenticate (Err SW_COND_USE_NOT_SATISFIED) = 0" "touch_used sample_authenticate (Err SW_WRONG_DATA) = 1"
    by (simp_all add: touch_used_def sample_authenticate_parsed)
  have "touch_run ?pf 0 0 ?st1"
    using touch_run.message [OF touch_run.power_up [OF st0] sample_authenticate_run [OF u(1)]] by (simp add: used)
  then have "touch_run ?pf 1 0 ?st2" using touch_run.touch [of ?pf 0 0 ?st1 "clock_value_new 1 32768" u2] u(2) by simp
  moreover have "ctap1_process_command ?pf sample_authenticate (clock_value_new 2 32768) ?st2 = (Err SW_WRONG_DATA, ?st3)"
    using sample_authenticate_run [of ?st2 "clock_value_new 2 32768" True u3 ?pf] u(3) by simp
  ultimately have run: "touch_run ?pf 1 1 ?st3" using touch_run.message [of ?pf 1 0 ?st2] used(2) by fastforce
  have last: "ctap1_process_command ?pf sample_authenticate (clock_value_new 3 32768) ?st3
      = (Err SW_COND_USE_NOT_SATISFIED, st0\<lparr>u2f_up_state := u4\<rparr>)"
    using sample_authenticate_run [of ?st3 "clock_value_new 3 32768" False u4 ?pf] u(4) by simp
  from one_touch_one_u2f_request [OF run last] run last show ?thesis by auto
qed

section \<open>The indicator of user presence\<close>

text \<open>
  The first byte of the answer to an authentication says that user presence was verified, also for the flag that
  does not enforce it, where no touch is asked for or consumed.
\<close>

lemma unenforced_claims_presence:
  assumes "process_authenticate pf challenge application handle DontEnforceUpAndSign st = (Ok response, st')"
    and "length application = 32"
  shows "hd response = 0x01 \<and> u2f_up_state st' = u2f_up_state st"
proof
  from assms(1) obtain s auth_data signature response' where
      data: "map_err (\<lambda>_. SW_WRONG_DATA) (generate_auth_data pf s application USER_PRESENCE_INDICATOR_BYTE) = Ok auth_data"
    and resp: "subslice (length application) 5 (auth_data @ challenge) = (Ok response' :: (apdu_status_code, bytes) outcome)"
      "response = response' @ to_asn1_der signature"
    by (auto simp: process_authenticate_def sbind_Ok Let_def op_defs or_fail_def from_store_def split: option.splits)
  from data obtain n where "auth_data = application @ [0x01] @ be_enc 4 n"
    by (auto simp: generate_auth_data_def USER_PRESENCE_INDICATOR_BYTE_def obind_eq_Ok elim!: map_err.elims)
  with resp assms(2) show "hd response = 0x01" by (auto simp: subslice_def split: if_splits)
  show "u2f_up_state st' = u2f_up_state st" 
    by (rule u2f_processing_keeps(2) [unfolded keeps_def, rule_format, OF assms(1)])
qed

end
