(* ===== verification/Montgomery_Carry.thy ===== *)
theory Montgomery_Carry
  imports Montgomery
begin

text \<open>
  Carries in the arithmetic of field elements in Montgomery form (\<open>ec/montgomery.rs\<close>): limbs are read as integers,
  a pass of carries loses nothing, the carry out of the top limb is replaced by a multiple of the field size, and
  the 64-bit limbs of a product are spread over limbs of 28 and 29 bits. So additions, subtractions and small
  multiples are correct modulo the field size.
\<close>

section \<open>Words of integers\<close>

lemma word_of_int_drop:
  assumes "0 \<le> x" and "x < 2 ^ 32"
  shows "drop_bit n (word_of_int x :: u32) = word_of_int (x div 2 ^ n)"
proof (rule bit_word_eqI)
  have small: "take_bit 32 x = x" using assms by (simp add: take_bit_int_eq_self_iff)
  have "bit x m \<Longrightarrow> m < 32" for m
    using bit_take_bit_iff [of 32 x m] small by simp
  note high = this
  show "bit (drop_bit n (word_of_int x :: u32)) m \<longleftrightarrow> bit (word_of_int (x div 2 ^ n) :: u32) m" for m
    using high [of "n + m"] by (auto simp: bit_drop_bit_eq bit_word_of_int_iff simp flip: drop_bit_eq_div)
qed

lemma word_of_int_mask: "n \<le> 32 \<Longrightarrow> (word_of_int x :: u32) AND mask n = word_of_int (x mod 2 ^ n)"
  by (rule bit_word_eqI) (auto simp: bit_and_iff bit_mask_iff bit_word_of_int_iff bit_take_bit_iff simp flip: take_bit_eq_mod)

lemma word_of_int_push: "push_bit n (word_of_int x :: u32) = word_of_int (x * 2 ^ n)"
  by (simp add: push_bit_eq_mult)

lemma word_of_int_zero_iff: "0 \<le> x \<Longrightarrow> x < 2 ^ 32 \<Longrightarrow> (word_of_int x :: u32) = 0 \<longleftrightarrow> x = 0"
  by (auto simp: word_of_int_eq_0_iff dest: zdvd_imp_le)

lemma masks: "BOTTOM_28_BITS = mask 28" "BOTTOM_29_BITS = mask 29" "bottom_bits i = mask (limb_bits i)"
  by (simp_all add: BOTTOM_28_BITS_def BOTTOM_29_BITS_def bottom_bits_def limb_bits_def mask_eq_exp_minus_1)

lemmas word_of_int_ops = word_of_int_drop word_of_int_mask word_of_int_push word_of_int_zero_iff

lemma uint_word_of_int_small: "0 \<le> x \<Longrightarrow> x < 2 ^ 32 \<Longrightarrow> uint (word_of_int x :: u32) = x"
  by (simp add: uint_word_of_int)

lemma uint_gt: "- 1 < uint (w :: u32)"
  using uint_ge_0 [of w] by linarith

section \<open>Values\<close>

definition p256 :: int where "p256 = 2 ^ 256 - 2 ^ 224 + 2 ^ 192 + 2 ^ 96 - 1"

text \<open>The position of a limb, and the value of the first \<open>n\<close> limbs.\<close>

definition limb_pos :: "nat \<Rightarrow> nat" where
  "limb_pos i = 57 * (i div 2) + (if even i then 0 else 29)"

lemma limb_pos_Suc: "limb_pos (Suc i) = limb_pos i + limb_bits i"
  by (auto simp: limb_pos_def limb_bits_def elim!: evenE oddE)

definition weighted :: "nat \<Rightarrow> (nat \<Rightarrow> int) \<Rightarrow> int" where
  "weighted n f = (\<Sum>i<n. f i * 2 ^ limb_pos i)"

lemma weighted_0 [simp]: "weighted 0 f = 0" by (simp add: weighted_def)
lemma weighted_Suc: "weighted (Suc n) f = weighted n f + f n * 2 ^ limb_pos n" by (simp add: weighted_def)

lemma weighted_cong: "(\<And>i. i < n \<Longrightarrow> f i = g i) \<Longrightarrow> weighted n f = weighted n g"
  unfolding weighted_def by (rule sum.cong) auto

abbreviation limb :: "u32 list \<Rightarrow> nat \<Rightarrow> int" where "limb m i \<equiv> uint (m ! i)"

definition mont_val :: "montgomery \<Rightarrow> int" where
  "mont_val m = weighted 9 (limb m)"

text \<open>Limbs as they are between operations, and as they are after a pass of carries.\<close>

definition limbs_ok :: "montgomery \<Rightarrow> bool" where
  "limbs_ok m \<longleftrightarrow> length m = 9 \<and> (\<forall>i < 9. limb m i < 2 ^ (limb_bits i + 1)) \<and> limb m 8 < 2 ^ 29"

definition limbs_tight :: "nat \<Rightarrow> u32 list \<Rightarrow> bool" where
  "limbs_tight n m \<longleftrightarrow> (\<forall>i < n. limb m i < 2 ^ limb_bits i)"

section \<open>Carries\<close>

text \<open>One step of a pass: the low bits stay, the rest is carried to the next limb.\<close>

lemma carry_split:
  assumes "0 \<le> x" and "x < 2 ^ 32"
  shows "uint ((word_of_int x :: u32) AND bottom_bits i) = x mod 2 ^ limb_bits i"
    and "uint (drop_bit (limb_bits i) (word_of_int x :: u32)) = x div 2 ^ limb_bits i"
    and "x div 2 ^ limb_bits i < 16"
proof -
  have b: "limb_bits i \<le> 32" "x mod 2 ^ limb_bits i < 2 ^ 32" "x div 2 ^ limb_bits i < 16"
    using assms by (auto simp: limb_bits_def intro: order_less_trans [OF pos_mod_bound])
  show "uint ((word_of_int x :: u32) AND bottom_bits i) = x mod 2 ^ limb_bits i"
    using b(2) by (simp add: masks word_of_int_mask b(1) uint_word_of_int)
  show "uint (drop_bit (limb_bits i) (word_of_int x :: u32)) = x div 2 ^ limb_bits i"
    using assms b(3) by (simp add: word_of_int_drop uint_word_of_int pos_imp_zdiv_nonneg_iff)
qed (use assms in \<open>auto simp: limb_bits_def\<close>)

lemma carry_value: "(x mod 2 ^ limb_bits i) * 2 ^ limb_pos i + (x div 2 ^ limb_bits i) * 2 ^ limb_pos (Suc i) = (x::int) * 2 ^ limb_pos i"
proof -
  have "(x mod 2 ^ limb_bits i) * 2 ^ limb_pos i + (x div 2 ^ limb_bits i) * 2 ^ limb_pos (Suc i)
      = (x mod 2 ^ limb_bits i + 2 ^ limb_bits i * (x div 2 ^ limb_bits i)) * 2 ^ limb_pos i"
    by (simp only: limb_pos_Suc power_add distrib_left mult.assoc mult.commute mult.left_commute)
  then show ?thesis by (simp only: mod_mult_div_eq)
qed

text \<open>
  A pass whose step \<open>i\<close> splits \<open>F i\<close> plus the carry into the low bits, which it stores, and the next carry. A carry
  is at most 16.
\<close>

definition carries :: "(nat \<Rightarrow> int) \<Rightarrow> nat \<Rightarrow> u32 list \<Rightarrow> u32 \<Rightarrow> u32 list \<times> u32 \<Rightarrow> bool" where
  "carries F i l c r \<longleftrightarrow> (\<exists>w c'. r = (l[i := w], c') \<and> uint w = (F i + uint c) mod 2 ^ limb_bits i
     \<and> uint c' = (F i + uint c) div 2 ^ limb_bits i \<and> uint c' \<le> 16)"

lemma carry_chain:
  assumes "length l0 = N" and "n \<le> N"
    and "\<And>i l c. i < n \<Longrightarrow> uint c \<le> 16 \<Longrightarrow> (i = 0 \<Longrightarrow> c = 0) \<Longrightarrow> length l = N \<Longrightarrow> (\<And>j. i \<le> j \<Longrightarrow> l ! j = l0 ! j)
        \<Longrightarrow> (\<And>k. i = Suc k \<Longrightarrow> \<exists>c1. 0 \<le> c1 \<and> c1 \<le> 16 \<and> uint c = (F k + c1) div 2 ^ limb_bits k) \<Longrightarrow> carries F i l c (step i (l, c))"
    and "fold step [0..<n] (l0, 0) = (l, c)"
  shows "length l = N \<and> limbs_tight n l \<and> uint c \<le> 16 \<and> (\<forall>j. n \<le> j \<longrightarrow> l ! j = l0 ! j)
    \<and> weighted n (limb l) + uint c * 2 ^ limb_pos n = weighted n F
    \<and> (\<forall>k. n = Suc k \<longrightarrow> (\<exists>c1. 0 \<le> c1 \<and> c1 \<le> 16 \<and> uint c = (F k + c1) div 2 ^ limb_bits k))"
  using assms(2-)
proof (induction n arbitrary: l c)
  case 0
  with assms(1) show ?case by (simp add: limbs_tight_def)
next
  case (Suc n)
  obtain l1 c1 where run: "fold step [0..<n] (l0, 0) = (l1, c1)" by fastforce
  have IH: "length l1 = N" "limbs_tight n l1" "uint c1 \<le> 16" "\<forall>j. n \<le> j \<longrightarrow> l1 ! j = l0 ! j"
      "weighted n (limb l1) + uint c1 * 2 ^ limb_pos n = weighted n F"
      "\<forall>k. n = Suc k \<longrightarrow> (\<exists>c2. 0 \<le> c2 \<and> c2 \<le> 16 \<and> uint c1 = (F k + c2) div 2 ^ limb_bits k)"
    using Suc.IH [OF _ _ run] Suc.prems(1,2) by auto
  let ?x = "F n + uint c1"
  have "n = 0 \<Longrightarrow> c1 = 0" using run by simp
  then have "carries F n l1 c1 (step n (l1, c1))" using Suc.prems(2) [of n c1 l1] IH by simp
  moreover have "step n (l1, c1) = (l, c)" using Suc.prems(3) run by simp
  ultimately obtain w where lc: "l = l1[n := w]" "uint w = ?x mod 2 ^ limb_bits n" and c: "uint c = ?x div 2 ^ limb_bits n" "uint c \<le> 16"
    unfolding carries_def by auto
  have l: "limb l i = (if i = n then ?x mod 2 ^ limb_bits n else limb l1 i)" for i
    using IH(1) Suc.prems(1) lc(2) by (auto simp: lc(1) nth_list_update)
  have "weighted n (limb l) = weighted n (limb l1)" by (rule weighted_cong) (simp add: l)
  then have "weighted (Suc n) (limb l) + uint c * 2 ^ limb_pos (Suc n) = weighted n (limb l1) + ?x * 2 ^ limb_pos n"
    using carry_value [of ?x n] by (simp add: weighted_Suc l c)
  then have "weighted (Suc n) (limb l) + uint c * 2 ^ limb_pos (Suc n) = weighted (Suc n) F"
    using IH(5) by (simp add: weighted_Suc algebra_simps)
  moreover have "limbs_tight (Suc n) l" using IH(2) by (auto simp: limbs_tight_def l less_Suc_eq)
  moreover have "\<forall>j. Suc n \<le> j \<longrightarrow> l ! j = l0 ! j" using IH(4) by (simp add: lc(1))
  ultimately show ?case using IH(1,3) c lc(1) uint_ge_0 [of c1] by auto
qed

lemma carries_word:
  assumes "0 \<le> F i + uint c" and "F i + 17 \<le> 2 ^ 32" and "uint c \<le> 16"
    and "r = (l[i := word_of_int (F i + uint c) AND bottom_bits i], drop_bit (limb_bits i) (word_of_int (F i + uint c)))"
  shows "carries F i l c r"
proof -
  have "0 \<le> F i + uint c" "F i + uint c < 2 ^ 32" using assms(1-3) by simp_all
  note split = carry_split [OF this, of i]
  show ?thesis unfolding carries_def assms(4) using split by auto
qed

lemma carry_pass_value:
  assumes "\<And>i. i < 9 \<Longrightarrow> uint (f i) + 17 \<le> 2 ^ 32" and "carry_pass f = (l, c)"
  shows "length l = 9 \<and> limbs_tight 9 l \<and> uint c \<le> 8 \<and> mont_val l + uint c * 2 ^ 257 = weighted 9 (\<lambda>i. uint (f i))"
proof -
  have "carries (\<lambda>i. uint (f i)) i l c (carry_step f i (l, c))" if "i < 9" "uint c \<le> 16" for i l c
    using assms(1) that by (intro carries_word) (auto simp: carry_step_def Let_def)
  note chain = carry_chain [of "replicate 9 0" 9 9 "\<lambda>i. uint (f i)" "carry_step f" l c, OF _ _ this]
  have "length l = 9 \<and> limbs_tight 9 l \<and> uint c \<le> 16 \<and> (\<forall>j. 9 \<le> j \<longrightarrow> l ! j = replicate 9 0 ! j)
      \<and> weighted 9 (limb l) + uint c * 2 ^ limb_pos 9 = weighted 9 (\<lambda>i. uint (f i))
      \<and> (\<forall>k. 9 = Suc k \<longrightarrow> (\<exists>c1. 0 \<le> c1 \<and> c1 \<le> 16 \<and> uint c = (uint (f k) + c1) div 2 ^ limb_bits k))"
    using assms(2) by (intro chain) (auto simp: carry_pass_def NLIMBS_def)
  then obtain c1 where "length l = 9" "limbs_tight 9 l" "weighted 9 (limb l) + uint c * 2 ^ limb_pos 9 = weighted 9 (\<lambda>i. uint (f i))"
      "uint c = (uint (f 8) + c1) div 2 ^ limb_bits 8" "c1 \<le> 16" by auto
  moreover have "(uint (f 8) + c1) div 2 ^ limb_bits 8 \<le> 8"
    using assms(1) [of 8] \<open>c1 \<le> 16\<close> by (simp add: limb_bits_def)
  ultimately show ?thesis by (simp add: mont_val_def limb_pos_def)
qed

lemma uint_eqI: "w = word_of_int k \<Longrightarrow> 0 \<le> k \<Longrightarrow> k < 2 ^ 32 \<Longrightarrow> uint (w :: u32) = k"
  by (simp add: uint_word_of_int)

lemma uint_add_small: "uint a + uint b < 2 ^ 32 \<Longrightarrow> uint (a + b :: u32) = uint a + uint b"
  by (intro uint_eqI) simp_all

lemma mont_val_limbs:
  "mont_val [a, b, c, d, e, f, g, h, i] = uint a + uint b * 2 ^ 29 + uint c * 2 ^ 57 + uint d * 2 ^ 86 + uint e * 2 ^ 114
     + uint f * 2 ^ 143 + uint g * 2 ^ 171 + uint h * 2 ^ 200 + uint i * 2 ^ 228"
  by (simp add: mont_val_def weighted_def limb_pos_def lessThan_nat_numeral lessThan_Suc)

lemma nine_limbs:
  assumes "length m = 9"
  obtains a b c d e f g h i where "m = [a, b, c, d, e, f, g, h, i]"
  using assms by (auto simp: numeral_eq_Suc length_Suc_conv)

lemma all_less_9: "(\<forall>i < 9. P i) \<longleftrightarrow> P 0 \<and> P 1 \<and> P 2 \<and> P 3 \<and> P 4 \<and> P 5 \<and> P 6 \<and> P 7 \<and> P (8 :: nat)"
  by (simp add: numeral_eq_Suc All_less_Suc) blast

lemma limbs_ok_list:
  "limbs_ok [a, b, c, d, e, f, g, h, i] \<longleftrightarrow> uint a < 2 ^ 30 \<and> uint b < 2 ^ 29 \<and> uint c < 2 ^ 30 \<and> uint d < 2 ^ 29
     \<and> uint e < 2 ^ 30 \<and> uint f < 2 ^ 29 \<and> uint g < 2 ^ 30 \<and> uint h < 2 ^ 29 \<and> uint i < 2 ^ 29"
  by (auto simp: limbs_ok_def all_less_9 limb_bits_def)

lemma reduce_carry_value:
  assumes "length m = 9" and "limbs_tight 9 m" and "uint carry \<le> 8"
  shows "limbs_ok (reduce_carry m carry)
    \<and> mont_val (reduce_carry m carry) = mont_val m + uint carry * 2 ^ 257 - 2 * uint carry * p256"
proof (cases "carry = 0")
  case True
  have "reduce_carry m carry = m"
    by (simp add: True reduce_carry_def unless_zero_def list_update_id)
  moreover have "limbs_ok m" unfolding limbs_ok_def
    using assms(1,2) unfolding limbs_tight_def all_less_9 by (simp add: limb_bits_def)
  ultimately show ?thesis by (simp add: True)
next
  case False
  obtain a b c d e f g h i where m: "m = [a, b, c, d, e, f, g, h, i]" using assms(1) by (rule nine_limbs)
  let ?C = "uint carry"
  have C: "1 \<le> ?C" "?C \<le> 8" using False assms(3) by (auto simp: uint_0_iff int_one_le_iff_zero_less order_neq_le_trans)
  have tight: "uint a < 2 ^ 29" "uint b < 2 ^ 28" "uint c < 2 ^ 29" "uint d < 2 ^ 28" "uint e < 2 ^ 29" "uint f < 2 ^ 28"
      "uint g < 2 ^ 29" "uint h < 2 ^ 28" "uint i < 2 ^ 29"
    using assms(2) by (simp_all add: limbs_tight_def all_less_9 m limb_bits_def)
  have r: "reduce_carry m carry = [a + push_bit 1 carry, b, c, d + 0x10000000 - push_bit 11 carry, e + (0x20000000 - 1),
      f + (0x10000000 - 1), g + (0x20000000 - 1) - push_bit 22 carry, h + push_bit 25 carry - 1, i]"
    using False by (simp add: reduce_carry_def unless_zero_def m)
  have nonneg: "- 1 < uint a" "- 1 < uint d" "- 1 < uint e" "- 1 < uint f" "- 1 < uint g" "- 1 < uint h"
    by (rule uint_gt)+
  have "uint (a + push_bit 1 carry) = uint a + 2 * ?C" "uint (d + 0x10000000 - push_bit 11 carry) = uint d + 2 ^ 28 - 2 ^ 11 * ?C"
      "uint (e + (0x20000000 - 1)) = uint e + 2 ^ 29 - 1" "uint (f + (0x10000000 - 1)) = uint f + 2 ^ 28 - 1"
      "uint (g + (0x20000000 - 1) - push_bit 22 carry) = uint g + 2 ^ 29 - 1 - 2 ^ 22 * ?C"
      "uint (h + push_bit 25 carry - 1) = uint h + 2 ^ 25 * ?C - 1"
    by (rule uint_eqI, simp add: push_bit_eq_mult, insert tight C nonneg, simp, simp)+
  note v = this
  have "mont_val (reduce_carry m carry) = mont_val m + ?C * 2 ^ 257 - 2 * ?C * p256"
    unfolding r unfolding m mont_val_limbs v p256_def by (simp add: algebra_simps)
  moreover have "limbs_ok (reduce_carry m carry)"
    using tight C nonneg unfolding r limbs_ok_list v by simp
  ultimately show ?thesis by blast
qed

section \<open>Addition, subtraction, small factors\<close>

text \<open>The end of every pass: the carry is reduced.\<close>

lemma reduce_pass:
  assumes "length l = 9 \<and> limbs_tight 9 l \<and> uint c \<le> 8 \<and> mont_val l + uint c * 2 ^ 257 = v"
  shows "limbs_ok (reduce_carry l c) \<and> mont_val (reduce_carry l c) mod p256 = v mod p256"
proof -
  from assms have "limbs_ok (reduce_carry l c)" "mont_val (reduce_carry l c) = v - 2 * uint c * p256"
    using reduce_carry_value [of l c] by auto
  then show ?thesis by (simp add: mod_diff_right_eq [symmetric])
qed

lemma mont_pass:
  assumes "\<And>i. i < 9 \<Longrightarrow> uint (f i) + 17 \<le> 2 ^ 32"
  shows "limbs_ok (case carry_pass f of (l, c) \<Rightarrow> reduce_carry l c)
    \<and> mont_val (case carry_pass f of (l, c) \<Rightarrow> reduce_carry l c) mod p256 = weighted 9 (\<lambda>i. uint (f i)) mod p256"
proof -
  obtain l c where lc: "carry_pass f = (l, c)" by fastforce
  from reduce_pass [OF carry_pass_value [OF assms lc]] lc show ?thesis by simp
qed

lemma limb_bound: "limbs_ok m \<Longrightarrow> i < 9 \<Longrightarrow> limb m i < 2 ^ 30"
  by (auto simp: limbs_ok_def limb_bits_def split: if_splits)

lemma weighted_add: "weighted n (\<lambda>i. f i + g i) = weighted n f + weighted n g"
  by (simp add: weighted_def sum.distrib algebra_simps)

lemma weighted_diff: "weighted n (\<lambda>i. f i - g i) = weighted n f - weighted n g"
  by (simp add: weighted_def sum_subtractf algebra_simps)

lemma weighted_mult: "weighted n (\<lambda>i. k * f i) = k * weighted n f"
  by (simp add: weighted_def sum_distrib_left algebra_simps)

lemma montgomery_add_value:
  assumes "limbs_ok a" and "limbs_ok b"
  shows "limbs_ok (montgomery_add a b) \<and> mont_val (montgomery_add a b) mod p256 = (mont_val a + mont_val b) mod p256"
proof -
  have u: "uint (a ! i + b ! i) = limb a i + limb b i" if "i < 9" for i
    using limb_bound [OF assms(1) that] limb_bound [OF assms(2) that] by (intro uint_eqI) simp_all
  have "weighted 9 (\<lambda>i. uint (a ! i + b ! i)) = mont_val a + mont_val b"
    unfolding mont_val_def weighted_add [symmetric] by (rule weighted_cong) (rule u)
  then show ?thesis
    using mont_pass [of "\<lambda>i. a ! i + b ! i"] limb_bound [OF assms(1)] limb_bound [OF assms(2)]
    unfolding montgomery_add_def by (fastforce simp: u)
qed

definition ZERO31_limb :: "nat \<Rightarrow> int" where
  "ZERO31_limb i = [2147483640, 1073741820, 2147483644, 1073750012, 2147483644, 1073741820, 2164260860, 939524092, 2147483644] ! i"

lemma ZERO31_limbs:
  "i < 9 \<Longrightarrow> limb montgomery_ZERO31 i = ZERO31_limb i" "i < 9 \<Longrightarrow> ZERO31_limb i < 2 ^ 32 - 2 ^ 30 - 2 ^ 29"
  "i < 9 \<Longrightarrow> 2 ^ (limb_bits i + 1) \<le> ZERO31_limb i" "weighted 9 ZERO31_limb mod p256 = 0"
proof -
  have "\<forall>i < 9. limb montgomery_ZERO31 i = ZERO31_limb i \<and> ZERO31_limb i < 2 ^ 32 - 2 ^ 30 - 2 ^ 29 \<and> 2 ^ (limb_bits i + 1) \<le> ZERO31_limb i"
    unfolding all_less_9 by (simp add: montgomery_ZERO31_def ZERO31_limb_def limb_bits_def)
  then show "i < 9 \<Longrightarrow> limb montgomery_ZERO31 i = ZERO31_limb i" "i < 9 \<Longrightarrow> ZERO31_limb i < 2 ^ 32 - 2 ^ 30 - 2 ^ 29"
      "i < 9 \<Longrightarrow> 2 ^ (limb_bits i + 1) \<le> ZERO31_limb i" by blast+
  show "weighted 9 ZERO31_limb mod p256 = 0"
    by (simp add: weighted_def limb_pos_def ZERO31_limb_def p256_def lessThan_nat_numeral lessThan_Suc)
qed

lemma montgomery_sub_value:
  assumes "limbs_ok a" and "limbs_ok b"
  shows "limbs_ok (montgomery_sub a b) \<and> mont_val (montgomery_sub a b) mod p256 = (mont_val a - mont_val b) mod p256"
proof -
  let ?f = "\<lambda>i. a ! i + (montgomery_ZERO31 ! i - b ! i)"
  have u: "uint (?f i) = limb a i + (ZERO31_limb i - limb b i)" "uint (?f i) + 17 \<le> 2 ^ 32" if i: "i < 9" for i
  proof -
    have bounds: "limb a i < 2 ^ 30" "limb b i < ZERO31_limb i" "ZERO31_limb i < 2 ^ 32 - 2 ^ 30 - 2 ^ 29" "- 1 < limb a i" "- 1 < limb b i"
      using limb_bound [OF assms(1) i] assms(2) ZERO31_limbs(2,3) [OF i] i by (auto simp: limbs_ok_def uint_gt intro: order_less_le_trans)
    show u: "uint (?f i) = limb a i + (ZERO31_limb i - limb b i)"
      using bounds by (intro uint_eqI) (simp_all flip: ZERO31_limbs(1) [OF i])
    show "uint (?f i) + 17 \<le> 2 ^ 32" unfolding u using bounds by simp
  qed
  have "weighted 9 (\<lambda>i. uint (?f i)) = mont_val a + (weighted 9 ZERO31_limb - mont_val b)"
    unfolding mont_val_def weighted_add [symmetric] weighted_diff [symmetric] by (rule weighted_cong) (rule u(1))
  also have "\<dots> mod p256 = (mont_val a - mont_val b + weighted 9 ZERO31_limb) mod p256" by (simp add: algebra_simps)
  also have "\<dots> = (mont_val a - mont_val b) mod p256" using ZERO31_limbs(4) by (metis add.right_neutral mod_add_right_eq)
  finally show ?thesis using mont_pass [of ?f, OF u(2)] unfolding montgomery_sub_def by simp
qed

lemma mul_scalar3_value:
  assumes "limbs_ok a"
  shows "limbs_ok (mul_scalar3 a) \<and> mont_val (mul_scalar3 a) mod p256 = 3 * mont_val a mod p256"
proof -
  have u: "uint (a ! i * 3) = 3 * limb a i" if "i < 9" for i
    using limb_bound [OF assms that] by (intro uint_eqI) simp_all
  have "weighted 9 (\<lambda>i. uint (a ! i * 3)) = 3 * mont_val a"
    unfolding mont_val_def weighted_mult [symmetric] by (rule weighted_cong) (rule u)
  then show ?thesis
    using mont_pass [of "\<lambda>i. a ! i * 3"] limb_bound [OF assms] unfolding mul_scalar3_def by (fastforce simp: u)
qed

text \<open>Shifting a limb first takes its top bits, so that nothing is lost.\<close>

lemma shift_step_carries:
  assumes "limb l i < 2 ^ (limb_bits i + 1)" and "uint c \<le> 16" and "n \<le> 3" and "l ! i = l0 ! i"
  shows "carries (\<lambda>i. 2 ^ n * limb l0 i) i l c (shift_step n i (l, c))"
proof -
  let ?X = "limb l0 i" and ?b = "limb_bits i"
  have X: "0 \<le> ?X" "?X < 2 ^ (?b + 1)" using assms(1,4) by simp_all
  have li: "l ! i = word_of_int ?X" using assms(4) by simp
  have b: "?b = 28 \<or> ?b = 29" by (simp add: limb_bits_def)
  then have X32: "?X < 2 ^ 32" using X by auto
  define low where "low = (2 ^ n * ?X) mod 2 ^ ?b"
  have low: "0 \<le> low" "low < 2 ^ ?b" by (simp_all add: low_def)
  have "2 ^ ?b = (2 :: int) ^ n * 2 ^ (?b - n)" using assms(3) b by (auto simp flip: power_add)
  then have "2 ^ n * ?X div 2 ^ ?b = ?X div 2 ^ (?b - n)" by (simp add: div_mult_mult1)
  then have d: "2 ^ n * ?X = 2 ^ ?b * (?X div 2 ^ (?b - n)) + low"
    using mult_div_mod_eq [of "2 ^ ?b" "2 ^ n * ?X"] by (simp add: low_def)
  have w: "push_bit n (l ! i) AND bottom_bits i = word_of_int low"
    unfolding li word_of_int_push masks(3) low_def using b by (subst word_of_int_mask) (auto simp: mult.commute)
  have "n = 0 \<or> n = 1 \<or> n = 2 \<or> n = 3" using assms(3) by auto
  then have small: "?X div 2 ^ (?b - n) \<le> 15" using X(2) b by (elim disjE) simp_all
  have nc: "uint (drop_bit (?b - n) (l ! i)) = ?X div 2 ^ (?b - n)"
    unfolding li word_of_int_drop [OF X(1) X32]
    using small X(1) by (intro uint_word_of_int_small) (simp_all add: pos_imp_zdiv_nonneg_iff)
  have x: "0 \<le> low + uint c" "low + uint c < 2 ^ 32" using low b assms(2) by auto
  note split = carry_split [OF x, of i]
  have q: "(2 ^ n * ?X + uint c) mod 2 ^ ?b = (low + uint c) mod 2 ^ ?b"
      "(2 ^ n * ?X + uint c) div 2 ^ ?b = ?X div 2 ^ (?b - n) + (low + uint c) div 2 ^ ?b"
    unfolding d add.assoc by simp_all
  let ?w = "word_of_int (low + uint c) :: u32"
  have c': "uint (drop_bit (?b - n) (l ! i) + drop_bit ?b ?w) = ?X div 2 ^ (?b - n) + (low + uint c) div 2 ^ ?b"
      "?X div 2 ^ (?b - n) + (low + uint c) div 2 ^ ?b \<le> 16"
  proof -
    have "(low + uint c) div 2 ^ ?b \<le> 1" using low(2) assms(2) b by auto
    with small show le: "?X div 2 ^ (?b - n) + (low + uint c) div 2 ^ ?b \<le> 16" by simp
    show "uint (drop_bit (?b - n) (l ! i) + drop_bit ?b ?w) = ?X div 2 ^ (?b - n) + (low + uint c) div 2 ^ ?b"
      unfolding nc [symmetric] split(2) [symmetric] using le nc split(2) by (intro uint_add_small) simp
  qed
  have "shift_step n i (l, c) = (l[i := ?w AND bottom_bits i], drop_bit (?b - n) (l ! i) + drop_bit ?b ?w)"
    by (simp add: shift_step_def Let_def w)
  then show ?thesis unfolding carries_def q using c' split(1) by auto
qed

lemma mul_shift_value:
  assumes "limbs_ok a" and "n \<le> 3"
  shows "limbs_ok (mul_shift n a) \<and> mont_val (mul_shift n a) mod p256 = 2 ^ n * mont_val a mod p256"
proof -
  let ?F = "\<lambda>i. 2 ^ n * limb a i"
  obtain l c where lc: "fold (shift_step n) [0..<9] (a, 0) = (l, c)" by fastforce
  have "carries ?F i l c (shift_step n i (l, c))" if "i < 9" "uint c \<le> 16" "\<And>j. i \<le> j \<Longrightarrow> l ! j = a ! j" for i l c
    using shift_step_carries [of l i c n a] assms that by (auto simp: limbs_ok_def)
  note chain = carry_chain [of a 9 9 ?F "shift_step n" l c, OF _ _ this lc]
  have len: "length a = 9" "limb a 8 < 2 ^ 29" using assms(1) by (simp_all add: limbs_ok_def)
  have all: "length l = 9 \<and> limbs_tight 9 l \<and> uint c \<le> 16 \<and> (\<forall>j. 9 \<le> j \<longrightarrow> l ! j = a ! j)
      \<and> weighted 9 (limb l) + uint c * 2 ^ limb_pos 9 = weighted 9 ?F
      \<and> (\<forall>k. 9 = Suc k \<longrightarrow> (\<exists>c1. 0 \<le> c1 \<and> c1 \<le> 16 \<and> uint c = (?F k + c1) div 2 ^ limb_bits k))"
    using len(1) by (intro chain) simp_all
  then obtain c1 where r: "length l = 9" "limbs_tight 9 l" "weighted 9 (limb l) + uint c * 2 ^ limb_pos 9 = weighted 9 ?F"
      "uint c = (2 ^ n * limb a 8 + c1) div 2 ^ limb_bits 8" "c1 \<le> 16"
    by (metis eval_nat_numeral(3))
  have "(2 :: int) ^ n * limb a 8 \<le> 2 ^ 3 * (2 ^ 29 - 1)"
    using len(2) assms(2) by (intro mult_mono power_increasing) simp_all
  then have "uint c \<le> 8" using r(4,5) by (simp add: limb_bits_def)
  with r have "length l = 9 \<and> limbs_tight 9 l \<and> uint c \<le> 8 \<and> mont_val l + uint c * 2 ^ 257 = 2 ^ n * mont_val a"
    by (simp add: mont_val_def limb_pos_def weighted_mult)
  from reduce_pass [OF this] lc show ?thesis by (simp add: mul_shift_def NLIMBS_def)
qed

section \<open>Products\<close>

text \<open>A 64-bit limb at position \<open>i\<close> has a part for limb \<open>i\<close>, one for the next, and one for the limb after that.\<close>

definition part0 :: "nat \<Rightarrow> int \<Rightarrow> int" where "part0 i u = u mod 2 ^ limb_bits i"
definition part1 :: "nat \<Rightarrow> int \<Rightarrow> int" where "part1 i u = u div 2 ^ limb_bits i mod 2 ^ limb_bits (Suc i)"
definition part2 :: "int \<Rightarrow> int" where "part2 u = u div 2 ^ 57"

lemma limb_bits_cases: "limb_bits i = 28 \<and> limb_bits (Suc i) = 29 \<or> limb_bits i = 29 \<and> limb_bits (Suc i) = 28"
  by (simp add: limb_bits_def)

lemma part_bounds: "0 \<le> part0 i u" "part0 i u < 2 ^ 29" "0 \<le> part1 i u" "part1 i u < 2 ^ 29"
    "0 \<le> u \<Longrightarrow> 0 \<le> part2 u" "u < 2 ^ 64 \<Longrightarrow> part2 u < 2 ^ 7"
  using limb_bits_cases [of i] pos_mod_bound [of "2 ^ 28" u] pos_mod_bound [of "2 ^ 28" "u div 2 ^ 29"]
  by (auto simp: part0_def part1_def part2_def pos_imp_zdiv_nonneg_iff)

lemma part_div: "u div 2 ^ limb_bits i = part1 i u + 2 ^ limb_bits (Suc i) * part2 u"
proof -
  have "(2 :: int) ^ 57 = 2 ^ limb_bits i * 2 ^ limb_bits (Suc i)"
    using limb_bits_cases [of i] by (auto simp flip: power_add)
  then have "part2 u = u div (2 ^ limb_bits i * 2 ^ limb_bits (Suc i))" by (simp only: part2_def)
  then have "part2 u = u div 2 ^ limb_bits i div 2 ^ limb_bits (Suc i)" by (simp add: zdiv_zmult2_eq)
  then show ?thesis by (simp add: part1_def)
qed

lemma part_split: "u = part0 i u + 2 ^ limb_bits i * (u div 2 ^ limb_bits i)"
  by (simp add: part0_def)

lemma low_high: "low32 x = word_of_int (uint x)" "high32 x = word_of_int (uint x div 2 ^ 32)"
    "uint (low32 x) = uint x mod 2 ^ 32" "uint (high32 x) = uint x div 2 ^ 32"
proof -
  have "uint (drop_bit 32 x) = drop_bit 32 (uint x)" using uint_lt2p [of x] by (simp add: unsigned_drop_bit_eq take_bit_int_eq_self)
  then have "uint (drop_bit 32 x) = uint x div 2 ^ 32" by (simp only: drop_bit_eq_div [where 'a = int])
  then have high: "high32 x = word_of_int (uint x div 2 ^ 32)" by (simp only: high32_def ucast_eq)
  show "low32 x = word_of_int (uint x)" "high32 x = word_of_int (uint x div 2 ^ 32)" by (simp_all only: low32_def ucast_eq high)
  then show "uint (low32 x) = uint x mod 2 ^ 32" by (simp only: uint_word_of_int) simp
  have "uint x div 2 ^ 32 < 2 ^ 32" using uint_lt2p [of x] by simp
  then show "uint (high32 x) = uint x div 2 ^ 32"
    unfolding high by (intro uint_word_of_int_small) (simp_all add: pos_imp_zdiv_nonneg_iff)
qed

text \<open>The middle part, from the two halves of the word.\<close>

lemma part1_halves:
  assumes "0 \<le> u"
  shows "u mod 2 ^ 32 div 2 ^ limb_bits i + (u div 2 ^ 32 * 2 ^ (32 - limb_bits i)) mod 2 ^ limb_bits (Suc i) = part1 i u"
proof -
  let ?b = "limb_bits i" and ?k = "2 ^ (32 - limb_bits i) :: int"
  let ?v = "u div 2 ^ ?b"
  have p: "(2 :: int) ^ 32 = 2 ^ ?b * ?k" "(2 :: int) ^ limb_bits (Suc i) = ?k * 2 ^ 25"
    using limb_bits_cases [of i] by auto
  have "u mod 2 ^ 32 div 2 ^ ?b = ?v mod ?k" unfolding p(1) by (simp add: zmod_zmult2_eq)
  moreover have "u div 2 ^ 32 = ?v div ?k" unfolding p(1) by (simp add: zdiv_zmult2_eq)
  moreover have "?v div ?k * ?k mod (?k * 2 ^ 25) = ?k * (?v div ?k mod 2 ^ 25)" by (simp add: mult.commute [of _ ?k] mod_mult_mult1)
  moreover have "?v mod (?k * 2 ^ 25) = ?k * (?v div ?k mod 2 ^ 25) + ?v mod ?k" by (simp add: zmod_zmult2_eq)
  ultimately show ?thesis by (simp add: part1_def p(2))
qed

text \<open>What limb \<open>i\<close> gets from the parts, and what is left for the limbs above it.\<close>

definition spread :: "(nat \<Rightarrow> int) \<Rightarrow> nat \<Rightarrow> int" where
  "spread u i = (if 2 \<le> i then part2 (u (i - 2)) else 0) + (if 1 \<le> i then part1 (i - 1) (u (i - 1)) else 0) + part0 i (u i)"

definition left_over :: "(nat \<Rightarrow> int) \<Rightarrow> nat \<Rightarrow> int" where
  "left_over u i = (if 1 \<le> i then part2 (u (i - 1)) else 0) + u i div 2 ^ limb_bits i"

lemma spread_value: "weighted (Suc n) u = weighted (Suc n) (spread u) + left_over u n * 2 ^ limb_pos (Suc n)"
proof (induction n)
  case 0
  show ?case using part_split [of "u 0" 0]
    by (simp add: weighted_Suc spread_def left_over_def limb_pos_def limb_bits_def mult.commute)
next
  case (Suc n)
  have "left_over u n + u (Suc n) = spread u (Suc n) + 2 ^ limb_bits (Suc n) * left_over u (Suc n)"
    using part_split [of "u (Suc n)" "Suc n"] part_div [of "u n" n] by (simp add: left_over_def spread_def algebra_simps)
  then have "(left_over u n + u (Suc n)) * 2 ^ limb_pos (Suc n)
      = spread u (Suc n) * 2 ^ limb_pos (Suc n) + left_over u (Suc n) * 2 ^ limb_pos (Suc (Suc n))"
    by (simp add: limb_pos_Suc [of "Suc n"] power_add algebra_simps)
  with Suc.IH show ?case by (simp add: weighted_Suc [of "Suc n"] algebra_simps)
qed

lemma spread_bounds:
  assumes "\<And>j. 0 \<le> u j" and "\<And>j. u j < 2 ^ 64"
  shows "0 \<le> spread u i" "spread u i + 17 \<le> 2 ^ 32"
proof -
  have b: "0 \<le> part2 (u j)" "part2 (u j) < 2 ^ 7" for j using part_bounds(5,6) assms by blast+
  show "0 \<le> spread u i" using b part_bounds(1,3) by (simp add: spread_def)
  show "spread u i + 17 \<le> 2 ^ 32"
  proof -
    have "(if 2 \<le> i then part2 (u (i - 2)) else 0) < 2 ^ 7" "(if 1 \<le> i then part1 (i - 1) (u (i - 1)) else 0) < 2 ^ 29"
      using b(2) part_bounds(4) by simp_all
    then show ?thesis using part_bounds(2) [of i "u i"] by (simp add: spread_def)
  qed
qed

text \<open>The first two limbs, which the code computes before its loop, as steps of the same pass.\<close>

definition first_step :: "u64 list \<Rightarrow> nat \<Rightarrow> u32 list \<times> u32 \<Rightarrow> u32 list \<times> u32" where
  "first_step big i = (\<lambda>(limbs, carry).
     if i = 0 then (limbs[0 := low32 (big ! 0) AND BOTTOM_29_BITS], 0)
     else
       (let limb = drop_bit 29 (low32 (big ! 0));
            limb = limb OR (push_bit 3 (high32 (big ! 0)) AND BOTTOM_28_BITS);
            limb = limb + (low32 (big ! 1) AND BOTTOM_28_BITS) + carry
        in (limbs[1 := limb AND BOTTOM_28_BITS], drop_bit 28 limb)))"

definition pass_step :: "u64 list \<Rightarrow> nat \<Rightarrow> u32 list \<times> u32 \<Rightarrow> u32 list \<times> u32" where
  "pass_step big i = (if i < 2 then first_step big i else propagate_step big i)"

lemma low_part: "low32 x AND bottom_bits i = word_of_int (part0 i (uint x))"
  unfolding low_high(1) masks(3) part0_def by (rule word_of_int_mask) (simp add: limb_bits_def)

lemma middle_parts:
  "drop_bit (limb_bits i) (low32 x) = word_of_int (uint x mod 2 ^ 32 div 2 ^ limb_bits i)"
  "push_bit (32 - limb_bits i) (high32 x) AND bottom_bits (Suc i)
     = word_of_int ((uint x div 2 ^ 32 * 2 ^ (32 - limb_bits i)) mod 2 ^ limb_bits (Suc i))"
proof -
  have "low32 x = word_of_int (uint x mod 2 ^ 32)" by (rule word_uint_eqI) (simp add: low_high(3) uint_word_of_int)
  then show "drop_bit (limb_bits i) (low32 x) = word_of_int (uint x mod 2 ^ 32 div 2 ^ limb_bits i)"
    by (simp add: word_of_int_drop)
  show "push_bit (32 - limb_bits i) (high32 x) AND bottom_bits (Suc i)
     = word_of_int ((uint x div 2 ^ 32 * 2 ^ (32 - limb_bits i)) mod 2 ^ limb_bits (Suc i))"
    unfolding low_high(2) masks(3) word_of_int_push by (rule word_of_int_mask) (simp add: limb_bits_def)
qed

lemma middle_part:
  "drop_bit (limb_bits i) (low32 x) + (push_bit (32 - limb_bits i) (high32 x) AND bottom_bits (Suc i)) = word_of_int (part1 i (uint x))"
  unfolding middle_parts part1_halves [OF uint_ge_0, symmetric] by (simp only: of_int_add)

lemma top_part: "drop_bit 25 (high32 x) = word_of_int (part2 (uint x))"
proof -
  have "0 \<le> uint x div 2 ^ 32" "uint x div 2 ^ 32 < 2 ^ 32" using uint_lt2p [of x] by (simp_all add: pos_imp_zdiv_nonneg_iff)
  from word_of_int_drop [OF this] have "drop_bit 25 (high32 x) = word_of_int (uint x div 2 ^ 32 div 2 ^ 25)" by (simp only: low_high(2))
  also have "uint x div 2 ^ 32 div 2 ^ 25 = uint x div (2 ^ 32 * 2 ^ 25)" by (rule zdiv_zmult2_eq [symmetric]) simp
  finally show ?thesis by (simp add: part2_def)
qed

lemma first_limbs:
  "drop_bit 29 (low32 x) OR (push_bit 3 (high32 x) AND BOTTOM_28_BITS) = word_of_int (part1 0 (uint x))"
proof -
  have "drop_bit 29 (low32 x) OR (push_bit 3 (high32 x) AND BOTTOM_28_BITS)
      = drop_bit 29 (low32 x) + (push_bit 3 (high32 x) AND BOTTOM_28_BITS)"
    by (rule disjunctive_add [symmetric]) (auto simp: bit_drop_bit_eq bit_push_bit_iff bit_and_iff dest: bit_imp_le_length)
  then show ?thesis using middle_part [of 0 x] by (simp add: limb_bits_def bottom_bits_def)
qed

lemma pass_step_carries:
  assumes "uint c \<le> 16" and "i = 0 \<Longrightarrow> c = 0"
  shows "carries (spread (\<lambda>j. uint (big ! j))) i l c (pass_step big i (l, c))"
proof (rule carries_word)
  let ?F = "spread (\<lambda>j. uint (big ! j))"
  have "0 \<le> ?F i" "?F i + 17 \<le> 2 ^ 32" using uint_lt2p [where 'a = 64] by (intro spread_bounds; simp)+
  then show "0 \<le> ?F i + uint c" "?F i + 17 \<le> 2 ^ 32" by simp_all
  consider (zero) "i = 0" | (one) "i = 1" | (more) "2 \<le> i" by linarith
  then show "pass_step big i (l, c) = (l[i := word_of_int (?F i + uint c) AND bottom_bits i], drop_bit (limb_bits i) (word_of_int (?F i + uint c)))"
  proof cases
    case zero
    have "part0 0 (uint (big ! 0)) < 2 ^ 29" "0 \<le> part0 0 (uint (big ! 0))" by (rule part_bounds)+
    with zero assms(2) low_part [of "big ! 0" 0] show ?thesis
      by (simp add: pass_step_def first_step_def spread_def limb_bits_def bottom_bits_def masks word_of_int_ops)
  next
    case one
    have "(drop_bit 29 (low32 (big ! 0)) OR (push_bit 3 (high32 (big ! 0)) AND BOTTOM_28_BITS)) + (low32 (big ! 1) AND BOTTOM_28_BITS)
        = word_of_int (?F 1)"
      using low_part [of "big ! 1" 1] unfolding first_limbs by (simp add: spread_def bottom_bits_def)
    then show ?thesis using one
      by (simp add: pass_step_def first_step_def Let_def limb_bits_def bottom_bits_def)
  next
    case more
    then obtain k where k: "i = Suc (Suc k)" by (metis Suc_le_D Suc_le_mono numeral_2_eq_2)
    have "drop_bit 25 (high32 (big ! (i - 2))) + drop_bit (if even i then 28 else 29) (low32 (big ! (i - 1)))
        + (push_bit (if even i then 4 else 3) (high32 (big ! (i - 1))) AND bottom_bits i)
        + (low32 (big ! i) AND bottom_bits i) + c = word_of_int (?F i + uint c)"
      using middle_part [of "Suc k" "big ! Suc k"] low_part [of "big ! i" i] top_part [of "big ! k"]
      by (simp add: spread_def k limb_bits_def add.assoc split: if_splits)
    then show ?thesis using more by (simp add: pass_step_def propagate_step_def Let_def)
  qed
qed (rule assms(1))

lemma propagate_carry_pass:
  assumes "fold (pass_step big) [0..<17] (replicate 18 0, 0) = (l, c)"
  shows "propagate_carry big = l[17 := drop_bit 25 (high32 (big ! 15)) + drop_bit 29 (low32 (big ! 16)) + push_bit 3 (high32 (big ! 16)) + c]"
proof -
  have "[0..<17] = 0 # 1 # [2..<17]" by (simp add: upt_rec)
  moreover have "fold (pass_step big) [2..<17] x = fold (propagate_step big) [2..<17] x" for x
    by (rule fold_cong) (auto simp: pass_step_def)
  ultimately have "fold (propagate_step big) [2..<17] (pass_step big 1 (pass_step big 0 (replicate 18 0, 0))) = (l, c)"
    using assms by (simp del: upt_rec_numeral)
  then show ?thesis
    by (simp add: propagate_carry_def pass_step_def first_step_def Let_def del: upt_rec_numeral)
qed

lemma propagate_carry_value:
  assumes "uint (big ! 16) < 2 ^ 60"
  shows "length (propagate_carry big) = 18 \<and> limbs_tight 17 (propagate_carry big) \<and> limb (propagate_carry big) 17 < 2 ^ 31 + 2 ^ 8
    \<and> weighted 18 (limb (propagate_carry big)) = weighted 17 (\<lambda>i. uint (big ! i))"
proof -
  let ?u = "\<lambda>i. uint (big ! i)"
  obtain l c where lc: "fold (pass_step big) [0..<17] (replicate 18 0, 0) = (l, c)" by fastforce
  have chain: "length l = 18 \<and> limbs_tight 17 l \<and> uint c \<le> 16 \<and> (\<forall>j. 17 \<le> j \<longrightarrow> l ! j = replicate 18 0 ! j)
      \<and> weighted 17 (limb l) + uint c * 2 ^ limb_pos 17 = weighted 17 (spread ?u)
      \<and> (\<forall>k. 17 = Suc k \<longrightarrow> (\<exists>c1. 0 \<le> c1 \<and> c1 \<le> 16 \<and> uint c = (spread ?u k + c1) div 2 ^ limb_bits k))"
    using lc by (intro carry_chain [where step = "pass_step big"]) (auto intro: pass_step_carries)
  let ?w = "drop_bit 25 (high32 (big ! 15)) + drop_bit 29 (low32 (big ! 16)) + push_bit 3 (high32 (big ! 16)) + c"
  have p: "propagate_carry big = l[17 := ?w]" using lc by (rule propagate_carry_pass)
  have halves: "?u 16 mod 2 ^ 32 div 2 ^ 29 + ?u 16 div 2 ^ 32 * 2 ^ 3 = ?u 16 div 2 ^ 29"
  proof -
    have "(2 :: int) ^ 32 = 2 ^ 29 * 2 ^ 3" by simp
    then have "?u 16 div 2 ^ 32 = ?u 16 div 2 ^ 29 div 2 ^ 3" "?u 16 mod 2 ^ 32 = 2 ^ 29 * (?u 16 div 2 ^ 29 mod 2 ^ 3) + ?u 16 mod 2 ^ 29"
      by (simp_all only: zdiv_zmult2_eq zmod_zmult2_eq zero_le_numeral zero_le_power)
    then show ?thesis by simp
  qed
  have "drop_bit 29 (low32 (big ! 16)) + push_bit 3 (high32 (big ! 16)) = word_of_int (?u 16 div 2 ^ 29)"
    using middle_parts(1) [of 0 "big ! 16"] unfolding low_high(2) word_of_int_push halves [symmetric] by (simp add: limb_bits_def)
  then have "?w = word_of_int (left_over ?u 16 + uint c)"
    using top_part [of "big ! 15"] by (simp add: left_over_def limb_bits_def add.assoc)
  moreover have bounds: "0 \<le> left_over ?u 16 + uint c" "left_over ?u 16 + uint c < 2 ^ 31 + 2 ^ 8"
  proof -
    have "0 \<le> part2 (?u 15)" "part2 (?u 15) < 2 ^ 7" using part_bounds(5) [of "?u 15"] part_bounds(6) [of "?u 15"] uint_lt2p [of "big ! 15"] by simp_all
    moreover have "0 \<le> ?u 16 div 2 ^ 29" "?u 16 div 2 ^ 29 < 2 ^ 31" using assms by (simp_all add: pos_imp_zdiv_nonneg_iff)
    ultimately show "0 \<le> left_over ?u 16 + uint c" "left_over ?u 16 + uint c < 2 ^ 31 + 2 ^ 8"
      using chain by (simp_all add: left_over_def limb_bits_def)
  qed
  ultimately have w: "uint ?w = left_over ?u 16 + uint c" by (intro uint_eqI) simp_all
  have limbs: "limb (propagate_carry big) i = (if i = 17 then left_over ?u 16 + uint c else limb l i)" for i
    using chain w by (auto simp: p nth_list_update)
  have "weighted 17 (limb (propagate_carry big)) = weighted 17 (limb l)" by (rule weighted_cong) (simp add: limbs)
  then have "weighted 18 (limb (propagate_carry big)) = weighted 17 ?u"
    using chain spread_value [of 16 ?u] weighted_Suc [of 17] by (simp add: limbs algebra_simps)
  moreover have "limbs_tight 17 (propagate_carry big)" using chain by (auto simp: limbs_tight_def limbs)
  moreover have "length (propagate_carry big) = 18" "limb (propagate_carry big) 17 < 2 ^ 31 + 2 ^ 8" using chain bounds(2) by (simp_all add: limbs) (simp add: p)
  ultimately show ?thesis by blast
qed

end
