(* ===== verification/Montgomery_Correct.thy ===== *)
theory Montgomery_Correct
  imports Montgomery_Carry
begin

text \<open>
  The reduction of a product of field elements in Montgomery form: every elimination adds a multiple of the field
  size, no limb overflows, and the result is the product divided by \<open>2 ^ 257\<close>. Inside a reduction a limb may be \<open>-1\<close>
  for a while, which its word represents by wrapping.
\<close>

section \<open>Elimination\<close>

text \<open>
  What the elimination of limb \<open>k\<close> adds to limb \<open>k + d\<close>: its high bits \<open>h\<close> go to the next limb, and a multiple of the
  field size cancels its low bits \<open>x\<close>.
\<close>

definition added_even :: "int \<Rightarrow> int \<Rightarrow> nat \<Rightarrow> int" where
  "added_even x h d =
     (if d = 1 then h
      else if d = 3 then x * 2 ^ 10 mod 2 ^ 28
      else if d = 4 then x div 2 ^ 18
      else if d = 6 then x * 2 ^ 21 mod 2 ^ 29
      else if d = 7 then x div 2 ^ 8 + (if x = 0 then 0 else 2 ^ 28) - x * 2 ^ 24 mod 2 ^ 28
      else if d = 8 then (if x = 0 then 0 else x - 1) - x div 2 ^ 4 + (if x = 0 then 0 else 2 ^ 29) - x + x * 2 ^ 28 mod 2 ^ 29
      else if d = 9 then (if x = 0 then 0 else x div 2 - 1)
      else 0)"

definition added_odd :: "int \<Rightarrow> int \<Rightarrow> nat \<Rightarrow> int" where
  "added_odd x h d =
     (if d = 1 then h
      else if d = 3 then x * 2 ^ 11 mod 2 ^ 29
      else if d = 4 then x div 2 ^ 18
      else if d = 6 then x * 2 ^ 21 mod 2 ^ 28
      else if d = 7 then x div 2 ^ 7 + (if x = 0 then 0 else 2 ^ 29) - x * 2 ^ 25 mod 2 ^ 29
      else if d = 8 then (if x = 0 then 0 else x - 1) - x div 2 ^ 4 + (if x = 0 then 0 else 2 ^ 28) - x
      else if d = 9 then (if x = 0 then 0 else x - 1)
      else 0)"

definition added :: "nat \<Rightarrow> int \<Rightarrow> nat \<Rightarrow> int" where
  "added k l = (if even k then added_even else added_odd) (l mod 2 ^ limb_bits k) (l div 2 ^ limb_bits k)"

definition cancel :: "nat \<Rightarrow> (nat \<Rightarrow> int) \<Rightarrow> nat \<Rightarrow> int" where
  "cancel k L j = (if j = k then 0 else if k < j \<and> j \<le> k + 9 then L j + added k (L k) (j - k) else L j)"

definition represents :: "(nat \<Rightarrow> int) \<Rightarrow> u32 list \<Rightarrow> bool" where
  "represents L l \<longleftrightarrow> length l = 18 \<and> (\<forall>j < 18. l ! j = word_of_int (L j))"

lemma offset_cases: "j < k \<or> j = k \<or> j = k + 1 \<or> j = k + 2 \<or> j = k + 3 \<or> j = k + 4 \<or> j = k + 5 \<or> j = k + 6 \<or> j = k + 7
    \<or> j = k + 8 \<or> j = k + 9 \<or> k + 9 < (j :: nat)"
  by arith

text \<open>The limbs after an elimination, as words.\<close>

lemma eliminate_even_nth:
  assumes "length l = 18" and "k \<le> 8" and "j < 18" and "l ! k AND BOTTOM_29_BITS = x" and "drop_bit 29 (l ! k) = h"
  shows "eliminate_even k l ! j =
    (if j = k then 0
     else if j = k + 1 then l ! j + h
     else if j = k + 3 then l ! j + (push_bit 10 x AND BOTTOM_28_BITS)
     else if j = k + 4 then l ! j + drop_bit 18 x
     else if j = k + 6 then l ! j + (push_bit 21 x AND BOTTOM_29_BITS)
     else if j = k + 7 then l ! j + drop_bit 8 x + (if x = 0 then 0 else 0x10000000) - (push_bit 24 x AND BOTTOM_28_BITS)
     else if j = k + 8 then l ! j + (if x = 0 then 0 else x - 1) - drop_bit 4 x + (if x = 0 then 0 else 0x20000000) - x + (push_bit 28 x AND BOTTOM_29_BITS)
     else if j = k + 9 then l ! j + (if x = 0 then 0 else drop_bit 1 x - 1)
     else l ! j)"
  using offset_cases [of j k] assms(1-3) assms(4,5)
  by (elim disjE) (simp_all add: eliminate_even_def add_at_def sub_at_def Let_def nth_list_update unless_zero_def del: push_bit_and drop_bit_and)

lemma eliminate_odd_nth:
  assumes "length l = 18" and "i \<le> 7" and "j < 18" and "l ! (i + 1) AND BOTTOM_28_BITS = x" and "drop_bit 28 (l ! (i + 1)) = h"
  shows "eliminate_odd i l ! j =
    (if j = i + 1 then 0
     else if j = i + 2 then l ! j + h
     else if j = i + 4 then l ! j + (push_bit 11 x AND BOTTOM_29_BITS)
     else if j = i + 5 then l ! j + drop_bit 18 x
     else if j = i + 7 then l ! j + (push_bit 21 x AND BOTTOM_28_BITS)
     else if j = i + 8 then l ! j + drop_bit 7 x + (if x = 0 then 0 else 0x20000000) - (push_bit 25 x AND BOTTOM_29_BITS)
     else if j = i + 9 then l ! j + (if x = 0 then 0 else x - 1) - drop_bit 4 x + (if x = 0 then 0 else 0x10000000) - x
     else if j = i + 10 then l ! j + (if x = 0 then 0 else x - 1)
     else l ! j)"
proof -
  have "j < i + 1 \<or> j = i + 1 \<or> j = i + 2 \<or> j = i + 3 \<or> j = i + 4 \<or> j = i + 5 \<or> j = i + 6 \<or> j = i + 7 \<or> j = i + 8
      \<or> j = i + 9 \<or> j = i + 10 \<or> i + 10 < j" by arith
  then show ?thesis using assms
    by (elim disjE)
      (simp_all add: eliminate_odd_def add_at_def sub_at_def Let_def nth_list_update unless_zero_def del: push_bit_and drop_bit_and)
qed

text \<open>The words of the low bits.\<close>

lemma low_words:
  assumes "0 \<le> x" and "x < 2 ^ 29"
  shows "m \<le> 32 \<Longrightarrow> push_bit n (word_of_int x :: u32) AND mask m = word_of_int (x * 2 ^ n mod 2 ^ m)"
    and "drop_bit n (word_of_int x :: u32) = word_of_int (x div 2 ^ n)"
    and "(word_of_int x :: u32) = 0 \<longleftrightarrow> x = 0"
proof -
  have "x < 2 ^ 32" using assms(2) by simp
  with assms(1) show "drop_bit n (word_of_int x :: u32) = word_of_int (x div 2 ^ n)" "(word_of_int x :: u32) = 0 \<longleftrightarrow> x = 0"
    by (rule word_of_int_drop word_of_int_zero_iff)+
qed (simp only: word_of_int_push word_of_int_mask)

lemma eliminate_represents:
  assumes "represents L l" and "k \<le> 8" and "0 \<le> L k" and "L k < 2 ^ 32"
  shows "even k \<Longrightarrow> represents (cancel k L) (eliminate_even k l)"
    and "k = Suc i \<Longrightarrow> odd k \<Longrightarrow> represents (cancel k L) (eliminate_odd i l)"
proof -
  have len: "length l = 18" and L: "\<And>j. j < 18 \<Longrightarrow> l ! j = word_of_int (L j)" using assms(1) by (auto simp: represents_def)
  define x where "x = L k mod 2 ^ limb_bits k"
  define h where "h = L k div 2 ^ limb_bits k"
  have b: "limb_bits k \<le> 29" by (simp add: limb_bits_def)
  have x: "0 \<le> x" "x < 2 ^ 29"
    using limb_bits_cases [of k] pos_mod_bound [of "2 ^ 28" "L k"] by (auto simp: x_def)
  have lk: "l ! k = word_of_int (L k)" using L assms(2) by simp
  have words: "l ! k AND mask (limb_bits k) = word_of_int x" "drop_bit (limb_bits k) (l ! k) = word_of_int h"
    using assms(3,4) b unfolding lk x_def h_def by (simp_all add: word_of_int_mask word_of_int_drop)
  show "represents (cancel k L) (eliminate_even k l)" if "even k"
    unfolding represents_def
  proof (intro conjI allI impI)
    fix j :: nat assume j: "j < 18"
    have "l ! k AND BOTTOM_29_BITS = word_of_int x" "drop_bit 29 (l ! k) = word_of_int h"
      using words that by (simp_all add: limb_bits_def masks)
    from eliminate_even_nth [OF len assms(2) j this] offset_cases [of j k]
    show "eliminate_even k l ! j = word_of_int (cancel k L j)"
      using that L [OF j] by (elim disjE; cases "x = 0")
        (simp_all add: low_words [OF x] masks cancel_def added_def added_even_def flip: x_def h_def)
  qed (simp add: eliminate_even_def add_at_def sub_at_def Let_def len)
  show "represents (cancel k L) (eliminate_odd i l)" if k: "k = Suc i" "odd k"
    unfolding represents_def
  proof (intro conjI allI impI)
    fix j :: nat assume j: "j < 18"
    have "l ! (i + 1) AND BOTTOM_28_BITS = word_of_int x" "drop_bit 28 (l ! (i + 1)) = word_of_int h"
      using words k by (simp_all add: limb_bits_def masks)
    moreover have "i \<le> 7" using assms(2) k by simp
    ultimately have nth: "eliminate_odd i l ! j = (if j = k then 0
       else if j = k + 1 then l ! j + word_of_int h
       else if j = k + 3 then l ! j + (push_bit 11 (word_of_int x) AND BOTTOM_29_BITS)
       else if j = k + 4 then l ! j + drop_bit 18 (word_of_int x)
       else if j = k + 6 then l ! j + (push_bit 21 (word_of_int x) AND BOTTOM_28_BITS)
       else if j = k + 7 then l ! j + drop_bit 7 (word_of_int x) + (if word_of_int x = (0 :: u32) then 0 else 0x20000000)
         - (push_bit 25 (word_of_int x) AND BOTTOM_29_BITS)
       else if j = k + 8 then l ! j + (if word_of_int x = (0 :: u32) then 0 else word_of_int x - 1) - drop_bit 4 (word_of_int x)
         + (if word_of_int x = (0 :: u32) then 0 else 0x10000000) - word_of_int x
       else if j = k + 9 then l ! j + (if word_of_int x = (0 :: u32) then 0 else word_of_int x - 1)
       else l ! j)"
      using eliminate_odd_nth [OF len _ j] by (simp only: k(1)) simp
    show "eliminate_odd i l ! j = word_of_int (cancel k L j)"
      using nth offset_cases [of j k] k(2) L [OF j] by (elim disjE; cases "x = 0")
        (simp_all add: low_words [OF x] masks cancel_def added_def added_odd_def flip: x_def h_def)
  qed (simp add: eliminate_odd_def add_at_def sub_at_def Let_def len)
qed

section \<open>Values and bounds\<close>

text \<open>The sum over the ten limbs that an elimination changes: a multiple of the field size.\<close>

lemma pos_offsets:
  "even k \<Longrightarrow> limb_pos (k + 1) = limb_pos k + 29" "odd k \<Longrightarrow> limb_pos (k + 1) = limb_pos k + 28"
  "even k \<Longrightarrow> limb_pos (k + 3) = limb_pos k + 86" "odd k \<Longrightarrow> limb_pos (k + 3) = limb_pos k + 85"
  "limb_pos (k + 4) = limb_pos k + 114" "limb_pos (k + 6) = limb_pos k + 171"
  "even k \<Longrightarrow> limb_pos (k + 7) = limb_pos k + 200" "odd k \<Longrightarrow> limb_pos (k + 7) = limb_pos k + 199"
  "limb_pos (k + 8) = limb_pos k + 228"
  "even k \<Longrightarrow> limb_pos (k + 9) = limb_pos k + 257" "odd k \<Longrightarrow> limb_pos (k + 9) = limb_pos k + 256"
  by (cases "even k"; auto simp: limb_pos_def elim!: evenE oddE)+

lemma split_shift: "b = a + c \<Longrightarrow> x * 2 ^ a mod 2 ^ b = x * 2 ^ a - 2 ^ b * (x div 2 ^ c)" for x :: int
proof -
  assume b: "b = a + c"
  have "x * 2 ^ a div 2 ^ b = x div 2 ^ c" by (simp add: b power_add mult.commute [of x])
  then show ?thesis using minus_mult_div_eq_mod [of "x * 2 ^ a" "2 ^ b"] by simp
qed

lemma added_even_value:
  "added_even x h 1 * 2 ^ 29 + added_even x h 3 * 2 ^ 86 + added_even x h 4 * 2 ^ 114 + added_even x h 6 * 2 ^ 171
     + added_even x h 7 * 2 ^ 200 + added_even x h 8 * 2 ^ 228 + added_even x h 9 * 2 ^ 257 = (h * 2 ^ 29 + x) + x * p256"
proof -
  define m10 m21 m24 m28 where m: "m10 = x * 2 ^ 10 mod 2 ^ 28" "m21 = x * 2 ^ 21 mod 2 ^ 29" "m24 = x * 2 ^ 24 mod 2 ^ 28"
      "m28 = x * 2 ^ 28 mod 2 ^ 29"
  define q18 q8 q4 q1 where q: "q18 = x div 2 ^ 18" "q8 = x div 2 ^ 8" "q4 = x div 2 ^ 4" "q1 = x div 2"
  have half: "x div 2 = x div 2 ^ 1" by simp
  have "m10 = x * 2 ^ 10 - 2 ^ 28 * q18" "m21 = x * 2 ^ 21 - 2 ^ 29 * q8" "m24 = x * 2 ^ 24 - 2 ^ 28 * q4" "m28 = x * 2 ^ 28 - 2 ^ 29 * q1"
    unfolding m q half by (rule split_shift, simp)+
  note s = this
  have "x = 0 \<Longrightarrow> q4 = 0 \<and> q1 = 0 \<and> q8 = 0 \<and> q18 = 0" by (simp add: q)
  then show ?thesis unfolding added_even_def m [symmetric] q [symmetric] s p256_def
    by (cases "x = 0") (simp_all add: algebra_simps)
qed

lemma added_odd_value:
  "added_odd x h 1 * 2 ^ 28 + added_odd x h 3 * 2 ^ 85 + added_odd x h 4 * 2 ^ 114 + added_odd x h 6 * 2 ^ 171
     + added_odd x h 7 * 2 ^ 199 + added_odd x h 8 * 2 ^ 228 + added_odd x h 9 * 2 ^ 256 = (h * 2 ^ 28 + x) + x * p256"
proof -
  define m11 m21 m25 where m: "m11 = x * 2 ^ 11 mod 2 ^ 29" "m21 = x * 2 ^ 21 mod 2 ^ 28" "m25 = x * 2 ^ 25 mod 2 ^ 29"
  define q18 q7 q4 where q: "q18 = x div 2 ^ 18" "q7 = x div 2 ^ 7" "q4 = x div 2 ^ 4"
  have "m11 = x * 2 ^ 11 - 2 ^ 29 * q18" "m21 = x * 2 ^ 21 - 2 ^ 28 * q7" "m25 = x * 2 ^ 25 - 2 ^ 29 * q4"
    unfolding m q by (rule split_shift, simp)+
  note s = this
  have "x = 0 \<Longrightarrow> q4 = 0 \<and> q7 = 0 \<and> q18 = 0" by (simp add: q)
  then show ?thesis unfolding added_odd_def m [symmetric] q [symmetric] s p256_def
    by (cases "x = 0") (simp_all add: algebra_simps)
qed

lemma added_value:
  "(\<Sum>d\<in>{1, 3, 4, 6, 7, 8, 9}. added k l d * 2 ^ limb_pos (k + d)) = (l + (l mod 2 ^ limb_bits k) * p256) * 2 ^ limb_pos k"
proof -
  let ?x = "l mod 2 ^ limb_bits k" and ?h = "l div 2 ^ limb_bits k"
  have l: "l = ?h * 2 ^ limb_bits k + ?x" by (rule div_mult_mod_eq [symmetric])
  show ?thesis
  proof (cases "even k")
    case True
    then have "(l + ?x * p256) = added k l 1 * 2 ^ 29 + added k l 3 * 2 ^ 86 + added k l 4 * 2 ^ 114 + added k l 6 * 2 ^ 171
        + added k l 7 * 2 ^ 200 + added k l 8 * 2 ^ 228 + added k l 9 * 2 ^ 257"
      using added_even_value [of ?x ?h] by (simp add: added_def limb_bits_def)
    then show ?thesis using pos_offsets(1) [OF True]
      by (simp add: pos_offsets True power_add algebra_simps del: One_nat_def)
  next
    case False
    then have "(l + ?x * p256) = added k l 1 * 2 ^ 28 + added k l 3 * 2 ^ 85 + added k l 4 * 2 ^ 114 + added k l 6 * 2 ^ 171
        + added k l 7 * 2 ^ 199 + added k l 8 * 2 ^ 228 + added k l 9 * 2 ^ 256"
      using added_odd_value [of ?x ?h] by (simp add: added_def limb_bits_def)
    then show ?thesis using pos_offsets(2) [OF False]
      by (simp add: pos_offsets False power_add algebra_simps del: One_nat_def)
  qed
qed

lemma cancel_value:
  assumes "k \<le> 8"
  shows "weighted 18 (cancel k L) = weighted 18 L + (L k mod 2 ^ limb_bits k) * p256 * 2 ^ limb_pos k"
proof -
  let ?D = "{1, 3, 4, 6, 7, 8, 9} :: nat set" and ?g = "\<lambda>j. (cancel k L j - L j) * 2 ^ limb_pos j"
  have "weighted 18 (cancel k L) - weighted 18 L = (\<Sum>j<18. ?g j)"
    by (simp add: weighted_def sum_subtractf algebra_simps)
  also have "\<dots> = sum ?g (insert k ((+) k ` ?D))"
  proof (rule sum.mono_neutral_right)
    show "\<forall>j \<in> {..<18} - insert k ((+) k ` ?D). ?g j = 0"
    proof
      fix j assume "j \<in> {..<18} - insert k ((+) k ` ?D)"
      then have "j \<noteq> k" "j - k \<notin> ?D \<or> j < k" by (auto simp: image_iff)
      then show "?g j = 0" by (auto simp: cancel_def added_def added_even_def added_odd_def)
    qed
  qed (use assms in auto)
  also have "\<dots> = - L k * 2 ^ limb_pos k + sum ?g ((+) k ` ?D)"
    by (subst sum.insert) (auto simp: cancel_def)
  also have "sum ?g ((+) k ` ?D) = (\<Sum>d\<in>?D. ?g (k + d))"
    by (subst sum.reindex) auto
  also have "\<dots> = (\<Sum>d\<in>?D. added k (L k) d * 2 ^ limb_pos (k + d))"
    by (rule sum.cong) (auto simp: cancel_def)
  finally show ?thesis unfolding added_value by (simp add: algebra_simps)
qed

definition growth :: "nat \<Rightarrow> int" where
  "growth d = (if d = 1 then 16 else if d = 3 then 2 ^ 29 else if d = 4 then 2 ^ 11 else if d = 6 then 2 ^ 29
     else if d = 7 then 2 ^ 21 + 2 ^ 29 else if d = 8 then 2 ^ 29 + 2 ^ 28 else if d = 9 then 2 ^ 28 else 0)"

lemma growth_cases:
  "d = 1 \<or> d = 3 \<or> d = 4 \<or> d = 6 \<or> d = 7 \<or> d = 8 \<or> d = 9 \<or> growth d = 0 \<and> added_even x h d = 0 \<and> added_odd x h d = 0"
  by (simp add: growth_def added_even_def added_odd_def)

lemma added_even_bounds:
  assumes "0 \<le> x" and "x < 2 ^ 29" and "0 \<le> h" and "h < 16"
  shows "added_even x h d \<le> growth d \<and> (d \<noteq> 9 \<longrightarrow> 0 \<le> added_even x h d)" and "- 1 \<le> added_even x h 9"
    and "added_even x h 9 < 0 \<Longrightarrow> 2 ^ 29 \<le> added_even x h 8"
proof -
  define m10 m21 m24 where m: "m10 = x * 2 ^ 10 mod 2 ^ 28" "m21 = x * 2 ^ 21 mod 2 ^ 29" "m24 = x * 2 ^ 24 mod 2 ^ 28"
  define q18 q8 q4 q1 where q: "q18 = x div 2 ^ 18" "q8 = x div 2 ^ 8" "q4 = x div 2 ^ 4" "q1 = x div 2"
  define r where r: "r = x mod 2"
  have "x * 2 ^ 28 mod (2 * 2 ^ 28) = x mod 2 * 2 ^ 28" by (rule mod_mult_mult2)
  then have par: "x * 2 ^ 28 mod 2 ^ 29 = r * 2 ^ 28" by (simp add: r)
  have e: "added_even x h d = (if d = 1 then h else if d = 3 then m10 else if d = 4 then q18 else if d = 6 then m21
      else if d = 7 then q8 + (if x = 0 then 0 else 2 ^ 28) - m24
      else if d = 8 then (if x = 0 then 0 else x - 1) - q4 + (if x = 0 then 0 else 2 ^ 29) - x + r * 2 ^ 28
      else if d = 9 then (if x = 0 then 0 else q1 - 1) else 0)" for d
    unfolding added_even_def par m [symmetric] q [symmetric] by (rule refl)
  have b: "0 \<le> m10" "m10 < 2 ^ 28" "0 \<le> m21" "m21 < 2 ^ 29" "0 \<le> m24" "m24 < 2 ^ 28" "0 \<le> r" "r \<le> 1"
    unfolding m r by simp_all
  have c: "0 \<le> q18" "q18 < 2 ^ 11" "0 \<le> q8" "q8 < 2 ^ 21" "0 \<le> q4" "q4 < 2 ^ 25" "0 \<le> q1" "q1 < 2 ^ 28"
    unfolding q using assms(1,2) by (simp_all add: pos_imp_zdiv_nonneg_iff)
  have z: "x = 0 \<Longrightarrow> m24 = 0 \<and> q4 = 0 \<and> r = 0" by (simp add: m q r)
  show "added_even x h d \<le> growth d \<and> (d \<noteq> 9 \<longrightarrow> 0 \<le> added_even x h d)"
    using growth_cases [of d x h] assms b c z by (elim disjE; simp add: e growth_def)
  show "- 1 \<le> added_even x h 9" using c by (simp add: e)
  show "2 ^ 29 \<le> added_even x h 8" if "added_even x h 9 < 0"
  proof -
    have "x \<noteq> 0" "x div 2 < 1" using that q by (auto simp: e split: if_splits)
    then have "x = 1" using assms(1) by simp
    then show ?thesis by (simp add: added_even_def)
  qed
qed

lemma added_odd_bounds:
  assumes "0 \<le> x" and "x < 2 ^ 28" and "0 \<le> h" and "h < 16"
  shows "added_odd x h d \<le> growth d \<and> 0 \<le> added_odd x h d"
proof -
  define m11 m21 m25 where m: "m11 = x * 2 ^ 11 mod 2 ^ 29" "m21 = x * 2 ^ 21 mod 2 ^ 28" "m25 = x * 2 ^ 25 mod 2 ^ 29"
  define q18 q7 q4 where q: "q18 = x div 2 ^ 18" "q7 = x div 2 ^ 7" "q4 = x div 2 ^ 4"
  have e: "added_odd x h d = (if d = 1 then h else if d = 3 then m11 else if d = 4 then q18 else if d = 6 then m21
      else if d = 7 then q7 + (if x = 0 then 0 else 2 ^ 29) - m25
      else if d = 8 then (if x = 0 then 0 else x - 1) - q4 + (if x = 0 then 0 else 2 ^ 28) - x
      else if d = 9 then (if x = 0 then 0 else x - 1) else 0)" for d
    unfolding added_odd_def m [symmetric] q [symmetric] by (rule refl)
  have b: "0 \<le> m11" "m11 < 2 ^ 29" "0 \<le> m21" "m21 < 2 ^ 28" "0 \<le> m25" "m25 < 2 ^ 29"
    unfolding m by simp_all
  have c: "0 \<le> q18" "q18 < 2 ^ 11" "0 \<le> q7" "q7 < 2 ^ 21" "0 \<le> q4" "q4 < 2 ^ 25"
    unfolding q using assms(1,2) by (simp_all add: pos_imp_zdiv_nonneg_iff)
  have z: "x = 0 \<Longrightarrow> m25 = 0 \<and> q4 = 0" by (simp add: m q)
  show ?thesis using growth_cases [of d x h] assms b c z by (elim disjE; simp add: e growth_def)
qed

lemma added_bounds:
  assumes "0 \<le> l" and "l < 2 ^ 32"
  shows "added k l d \<le> growth d" and "d \<noteq> 9 \<or> odd k \<Longrightarrow> 0 \<le> added k l d" and "- 1 \<le> added k l d"
    and "added k l 9 < 0 \<Longrightarrow> 2 ^ 29 \<le> added k l 8"
proof -
  define x h where xh: "x = l mod 2 ^ limb_bits k" "h = l div 2 ^ limb_bits k"
  have b: "0 \<le> x" "x < 2 ^ limb_bits k" "0 \<le> h" "h < 16"
    using assms limb_bits_cases [of k] by (auto simp: xh pos_imp_zdiv_nonneg_iff)
  have a: "added k l = (if even k then added_even x h else added_odd x h)" by (simp add: added_def xh)
  show "added k l d \<le> growth d" "d \<noteq> 9 \<or> odd k \<Longrightarrow> 0 \<le> added k l d" "- 1 \<le> added k l d"
      "added k l 9 < 0 \<Longrightarrow> 2 ^ 29 \<le> added k l 8"
    using added_even_bounds(1) [of x h d] added_even_bounds(2,3) [of x h] added_odd_bounds [of x h d] added_odd_bounds [of x h 9] b
    by (cases "d = 9"; auto simp: a limb_bits_def split: if_splits)+
qed

section \<open>All eliminations\<close>

primrec eliminated :: "(nat \<Rightarrow> int) \<Rightarrow> nat \<Rightarrow> nat \<Rightarrow> int" where
  "eliminated L 0 = L"
| "eliminated L (Suc k) = cancel k (eliminated L k)"

text \<open>The limbs of a product after its carries were propagated, and a bound of what they grow to.\<close>

definition start_bound :: "nat \<Rightarrow> int" where
  "start_bound j = (if j = 17 then 2 ^ 31 + 2 ^ 8 else 2 ^ 29)"

definition started :: "(nat \<Rightarrow> int) \<Rightarrow> bool" where
  "started L \<longleftrightarrow> (\<forall>j < 18. 0 \<le> L j \<and> L j < start_bound j)"

definition grown :: "nat \<Rightarrow> nat \<Rightarrow> int" where
  "grown k j = start_bound j + (\<Sum>i<k. if i < j \<and> j \<le> i + 9 then growth (j - i) else 0)"

lemma growth_nonneg: "0 \<le> growth d" by (simp add: growth_def)

lemma grown_mono: "k \<le> k' \<Longrightarrow> grown k j \<le> grown k' j"
  unfolding grown_def by (intro add_left_mono sum_mono2) (auto simp: growth_nonneg)

lemma grown_small: "j < 18 \<Longrightarrow> grown 9 j + 2 ^ 28 + 17 \<le> 2 ^ 32" and grown_top: "grown 9 17 + 17 \<le> 2 ^ 32 - 2 ^ 30"
proof -
  have "\<forall>j < 18. grown 9 j + 2 ^ 28 + 17 \<le> 2 ^ 32" 
    by (simp add: grown_def growth_def start_bound_def lessThan_nat_numeral lessThan_Suc numeral_eq_Suc All_less_Suc)
  then show "j < 18 \<Longrightarrow> grown 9 j + 2 ^ 28 + 17 \<le> 2 ^ 32" by blast
  show "grown 9 17 + 17 \<le> 2 ^ 32 - 2 ^ 30"
    by (simp add: grown_def growth_def start_bound_def lessThan_nat_numeral lessThan_Suc)
qed

text \<open>
  After \<open>k\<close> eliminations the limbs below \<open>k\<close> are zero. An odd limb may have become \<open>-1\<close>, but then the limb below it
  has a carry for it.
\<close>

definition repaired :: "(nat \<Rightarrow> int) \<Rightarrow> nat \<Rightarrow> nat \<Rightarrow> bool" where
  "repaired L k j \<longleftrightarrow> odd j \<and> 9 \<le> j \<and> j < k + 9 \<and> - 1 \<le> L j \<and> 2 ^ 29 \<le> L (j - 1)"

definition bounded :: "(nat \<Rightarrow> int) \<Rightarrow> nat \<Rightarrow> bool" where
  "bounded L k \<longleftrightarrow> (\<forall>j < k. L j = 0) \<and> (\<forall>j < 18. L j < grown k j \<and> (0 \<le> L j \<or> repaired L k j))"

lemma boundedD:
  assumes "bounded L k" and "j < 18"
  shows "j < k \<Longrightarrow> L j = 0" and "L j < grown k j" and "0 \<le> L j \<or> repaired L k j"
  using assms by (auto simp: bounded_def)

lemma cancel_bounded:
  assumes "bounded L k" and "k \<le> 8"
  shows "bounded (cancel k L) (Suc k)" and "0 \<le> L k" and "L k < 2 ^ 32"
proof -
  have k: "k < 18" using assms(2) by simp
  show lk: "0 \<le> L k" using boundedD(3) [OF assms(1) k] assms(2) by (auto simp: repaired_def)
  have "grown k k \<le> grown 9 k" using assms(2) by (intro grown_mono) simp
  then show uk: "L k < 2 ^ 32" using boundedD(2) [OF assms(1) k] grown_small [OF k] by simp
  note ab = added_bounds [OF lk uk]
  have mono: "L j \<le> cancel k L j" if "j \<noteq> k" "j \<noteq> k + 9 \<or> even j" for j
    using that ab(2) [of "j - k" k] by (auto simp: cancel_def)
  have even_pos: "0 \<le> L j" if "even j" "j < 18" for j using boundedD(3) [OF assms(1) that(2)] that(1) by (auto simp: repaired_def)
  have low: "0 \<le> cancel k L j \<or> repaired (cancel k L) (Suc k) j" if j: "j < 18" for j
  proof (cases "j = k + 9 \<and> odd j")
    case True
    have "0 \<le> L j" "0 \<le> L (j - 1)" using boundedD(3) [OF assms(1) j] True j even_pos [of "j - 1"] by (auto simp: repaired_def)
    moreover have "cancel k L j = L j + added k (L k) 9" "cancel k L (j - 1) = L (j - 1) + added k (L k) 8"
      using True by (auto simp: cancel_def)
    ultimately show ?thesis using ab(3) [of k 9] ab(4) [of k] True by (auto simp: repaired_def)
  next
    case False
    show ?thesis
    proof (cases "j = k \<or> 0 \<le> L j")
      case True
      then show ?thesis using mono [of j] False by (auto simp: cancel_def)
    next
      case neg: False
      then have r: "repaired L k j" using boundedD(3) [OF assms(1) j] by blast
      have up: "L j \<le> cancel k L j" using neg False by (intro mono) auto
      show ?thesis
      proof (cases "j - 1 = k")
        case True
        then have "cancel k L j = L j + L k div 2 ^ limb_bits k" "2 ^ 29 \<le> L k" "k = 8"
          using r assms(2) by (auto simp: cancel_def added_def added_even_def added_odd_def repaired_def)
        moreover have "1 \<le> L k div 2 ^ 29" using \<open>2 ^ 29 \<le> L k\<close> by simp
        ultimately show ?thesis using r by (simp add: repaired_def limb_bits_def)
      next
        case False
        then have "L (j - 1) \<le> cancel k L (j - 1)" using r by (intro mono) (auto simp: repaired_def)
        then show ?thesis using r up by (auto simp: repaired_def)
      qed
    qed
  qed
  have "cancel k L j < grown (Suc k) j" if "j < 18" for j
    using lk boundedD(2) [OF assms(1) that] ab(1) [of k "j - k"] growth_nonneg [of "j - k"]
    by (auto simp: cancel_def grown_def)
  then show "bounded (cancel k L) (Suc k)"
    using low boundedD(1) [OF assms(1)] assms(2) by (auto simp: bounded_def cancel_def less_Suc_eq)
qed

lemma eliminated_bounded:
  assumes "started L" and "k \<le> 9"
  shows "bounded (eliminated L k) k"
  using assms(2)
proof (induction k)
  case 0
  show ?case using assms(1) by (auto simp: bounded_def started_def grown_def)
qed (simp add: cancel_bounded)

lemma eliminated_value:
  assumes "k \<le> 9"
  shows "weighted 18 (eliminated L k) mod p256 = weighted 18 L mod p256"
  using assms
proof (induction k)
  case (Suc k)
  have "weighted 18 (eliminated L (Suc k)) = weighted 18 (eliminated L k) + p256 * ((eliminated L k k mod 2 ^ limb_bits k) * 2 ^ limb_pos k)"
    using cancel_value [of k "eliminated L k"] Suc.prems by (simp add: ac_simps)
  with Suc show ?case by simp
qed simp

lemma eliminated_represents:
  assumes "represents L l" and "started L"
  shows "represents (eliminated L 9) (eliminate_terms l)"
proof -
  have b: "k \<le> 8 \<Longrightarrow> 0 \<le> eliminated L k k \<and> eliminated L k k < 2 ^ 32" for k
    using cancel_bounded(2,3) [OF eliminated_bounded [OF assms(2)]] by simp
  have even: "represents (eliminated L k) l \<Longrightarrow> even k \<Longrightarrow> k \<le> 8 \<Longrightarrow> represents (eliminated L (Suc k)) (eliminate_even k l)" for k l
    using eliminate_represents(1) b [of k] by simp
  have both: "represents (eliminated L m) (eliminate_odd k (eliminate_even k l))"
    if "m = k + 2" "even k" "k \<le> 6" "represents (eliminated L k) l" for k m l
    using eliminate_represents(2) [OF even [OF that(4,2)]] b [of "Suc k"] that(1-3) by simp
  have "represents (eliminated L 0) l" using assms(1) by simp
  then have "represents (eliminated L 2) (eliminate_odd 0 (eliminate_even 0 l))" (is "represents _ ?l2") by (rule both [rotated 3]) simp_all
  then have "represents (eliminated L 4) (eliminate_odd 2 (eliminate_even 2 ?l2))" (is "represents _ ?l4") by (rule both [rotated 3]) simp_all
  then have "represents (eliminated L 6) (eliminate_odd 4 (eliminate_even 4 ?l4))" (is "represents _ ?l6") by (rule both [rotated 3]) simp_all
  then have "represents (eliminated L 8) (eliminate_odd 6 (eliminate_even 6 ?l6))" by (rule both [rotated 3]) simp_all
  from even [OF this] show ?thesis by (simp add: eliminate_terms_def del: eliminated.simps)
qed

section \<open>Compaction\<close>

text \<open>The upper nine limbs, moved down by 257 bits: the widths of even and odd limbs are exchanged.\<close>

definition gathered :: "(nat \<Rightarrow> int) \<Rightarrow> nat \<Rightarrow> int" where
  "gathered T i = (if i = 8 then T 17 else if even i then T (i + 9) + 2 ^ 28 * (T (i + 10) mod 2) else T (i + 9) div 2)"

lemma gathered_value:
  assumes "\<And>j. j < 9 \<Longrightarrow> T j = 0"
  shows "weighted 9 (gathered T) * 2 ^ 257 = weighted 18 T"
proof -
  define q r where qr: "q j = T j div 2" "r j = T j mod 2" for j
  have t: "T j = 2 * q j + r j" for j by (simp add: qr)
  have g: "weighted 9 (gathered T) = T 9 + 2 ^ 28 * r 10 + q 10 * 2 ^ 29 + (T 11 + 2 ^ 28 * r 12) * 2 ^ 57 + q 12 * 2 ^ 86
      + (T 13 + 2 ^ 28 * r 14) * 2 ^ 114 + q 14 * 2 ^ 143 + (T 15 + 2 ^ 28 * r 16) * 2 ^ 171 + q 16 * 2 ^ 200 + T 17 * 2 ^ 228"
    by (simp add: weighted_def lessThan_nat_numeral lessThan_Suc limb_pos_def gathered_def flip: qr)
  have w: "weighted 18 T = T 9 * 2 ^ 257 + T 10 * 2 ^ 285 + T 11 * 2 ^ 314 + T 12 * 2 ^ 342 + T 13 * 2 ^ 371 + T 14 * 2 ^ 399
      + T 15 * 2 ^ 428 + T 16 * 2 ^ 456 + T 17 * 2 ^ 485"
    using assms by (simp add: weighted_def lessThan_nat_numeral lessThan_Suc limb_pos_def)
  show ?thesis unfolding g w t [of 10] t [of 12] t [of 14] t [of 16] by (simp add: algebra_simps)
qed

definition compact_pass :: "u32 list \<Rightarrow> nat \<Rightarrow> montgomery \<times> u32 \<Rightarrow> montgomery \<times> u32" where
  "compact_pass tmp i = (if i < 8 then compact_step tmp i
     else (\<lambda>(limbs, carry). (limbs[8 := (tmp ! 17 + carry) AND BOTTOM_29_BITS], drop_bit 29 (tmp ! 17 + carry))))"

lemma compact_limbs_pass: "compact_limbs tmp = (case fold (compact_pass tmp) [0..<9] (replicate 9 0, 0) of (l, c) \<Rightarrow> reduce_carry l c)"
proof -
  have "fold (compact_pass tmp) [0..<8] x = fold (compact_step tmp) [0..<8] x" for x
    by (rule fold_cong) (auto simp: compact_pass_def)
  moreover have "[0..<9] = [0..<8] @ [8]" by (simp add: upt_rec)
  ultimately show ?thesis
    by (simp add: compact_limbs_def compact_pass_def NLIMBS_def Let_def split: prod.splits del: upt_rec_numeral)
qed

lemma gathered_bounds:
  assumes "bounded T 9" and "i < 9"
  shows "gathered T i + 17 \<le> 2 ^ 32" and "0 \<le> gathered T i \<or> (\<exists>k. i = Suc k \<and> - 1 \<le> gathered T i \<and> odd k \<and> 2 ^ 28 \<le> gathered T k)"
proof -
  have r: "0 \<le> T (i + 10) mod 2" "T (i + 10) mod 2 \<le> 1" by simp_all
  have t: "T (i + 9) < grown 9 (i + 9)" "grown 9 (i + 9) + 2 ^ 28 + 17 \<le> 2 ^ 32" "0 \<le> T (i + 9) \<or> repaired T 9 (i + 9)"
    using boundedD [OF assms(1), of "i + 9"] grown_small [of "i + 9"] assms(2) by auto
  have e: "gathered T i = T (i + 9) + 2 ^ 28 * (T (i + 10) mod 2) \<or> gathered T i = T (i + 9) \<or> odd i \<and> gathered T i = T (i + 9) div 2"
    by (auto simp: gathered_def)
  have "odd i \<Longrightarrow> 0 \<le> T (i + 9)" using t(3) by (auto simp: repaired_def)
  then show "gathered T i + 17 \<le> 2 ^ 32" using e t r by auto
  show "0 \<le> gathered T i \<or> (\<exists>k. i = Suc k \<and> - 1 \<le> gathered T i \<and> odd k \<and> 2 ^ 28 \<le> gathered T k)"
  proof (cases "0 \<le> T (i + 9)")
    case True
    then show ?thesis using e r by auto
  next
    case False
    with t(3) have rep: "odd (i + 9)" "- 1 \<le> T (i + 9)" "2 ^ 29 \<le> T (i + 8)"
      by (auto simp: repaired_def add.commute [of i])
    have "i \<noteq> 0" using boundedD(1) [OF assms(1), of 8] rep(3) by (cases i) auto
    then obtain k where k: "i = Suc k" by (cases i) auto
    have "gathered T k = T (i + 8) div 2" using rep(1) assms(2) k by (auto simp: gathered_def add.commute [of k])
    then have "2 ^ 28 \<le> gathered T k" using rep(3) by simp
    moreover have "- 1 \<le> gathered T i" "odd k" using e rep(1,2) r k by auto
    ultimately show ?thesis using k by blast
  qed
qed

lemma compact_pass_carries:
  assumes "bounded T 9" and "represents T tmp" and "i < 9" and "uint c \<le> 16"
    and "\<And>k. i = Suc k \<Longrightarrow> \<exists>c1. 0 \<le> c1 \<and> uint c = (gathered T k + c1) div 2 ^ limb_bits k"
  shows "carries (gathered T) i l c (compact_pass tmp i (l, c))"
proof (rule carries_word)
  have T: "tmp ! j = word_of_int (T j)" if "j < 18" for j using assms(2) that by (auto simp: represents_def)
  show "gathered T i + 17 \<le> 2 ^ 32" using assms(1,3) by (rule gathered_bounds)
  from gathered_bounds(2) [OF assms(1,3)] show "0 \<le> gathered T i + uint c"
  proof
    assume "\<exists>k. i = Suc k \<and> - 1 \<le> gathered T i \<and> odd k \<and> 2 ^ 28 \<le> gathered T k"
    then obtain k where k: "i = Suc k" "- 1 \<le> gathered T i" "odd k" "2 ^ 28 \<le> gathered T k" by blast
    then obtain c1 where c1: "0 \<le> c1" "uint c = (gathered T k + c1) div 2 ^ limb_bits k" using assms(5) by blast
    have "2 ^ 28 div 2 ^ 28 \<le> (gathered T k + c1) div 2 ^ 28" using k(4) c1(1) by (intro zdiv_mono1) simp_all
    then have "1 \<le> uint c" using k(3) c1(2) by (simp add: limb_bits_def)
    then show ?thesis using k(2) by simp
  qed simp
  show "compact_pass tmp i (l, c) = (l[i := word_of_int (gathered T i + uint c) AND bottom_bits i],
      drop_bit (limb_bits i) (word_of_int (gathered T i + uint c)))"
  proof -
    consider (last_limb) "i = 8" | (even_limb) "i < 8" "even i" | (odd_limb) "i < 8" "odd i" using assms(3) by linarith
    then show ?thesis
    proof cases
      case even_limb
      have "push_bit 28 (tmp ! (i + 10)) AND BOTTOM_29_BITS = word_of_int (2 ^ 28 * (T (i + 10) mod 2))"
      proof -
        have t: "tmp ! (i + 10) = word_of_int (T (i + 10))" using even_limb by (intro T) simp
        have "push_bit 28 (tmp ! (i + 10)) AND BOTTOM_29_BITS = word_of_int (T (i + 10) * 2 ^ 28 mod 2 ^ 29)"
          unfolding t masks word_of_int_push by (rule word_of_int_mask) simp
        moreover have "T (i + 10) * 2 ^ 28 mod 2 ^ 29 = 2 ^ 28 * (T (i + 10) mod 2)"
          using mod_mult_mult2 [of "T (i + 10)" "2 ^ 28" 2] by simp
        ultimately show ?thesis by simp
      qed
      then show ?thesis using even_limb T [of "i + 9"]
        by (simp add: compact_pass_def compact_step_def Let_def gathered_def bottom_bits_def limb_bits_def ac_simps)
    next
      case odd_limb
      have "0 \<le> T (i + 9)" "T (i + 9) < 2 ^ 32"
        using boundedD(2,3) [OF assms(1), of "i + 9"] grown_small [of "i + 9"] odd_limb by (auto simp: repaired_def)
      then have "drop_bit 1 (tmp ! (i + 9)) = word_of_int (T (i + 9) div 2)"
        using odd_limb T [of "i + 9"] word_of_int_drop [of "T (i + 9)" 1] by simp
      then show ?thesis using odd_limb
        by (simp add: compact_pass_def compact_step_def Let_def gathered_def bottom_bits_def limb_bits_def)
    qed (use T [of 17] in \<open>simp add: compact_pass_def gathered_def bottom_bits_def limb_bits_def\<close>)
  qed
qed (rule assms(4))

lemma compact_limbs_value:
  assumes "bounded T 9" and "represents T tmp"
  shows "limbs_ok (compact_limbs tmp) \<and> mont_val (compact_limbs tmp) mod p256 = weighted 9 (gathered T) mod p256"
proof -
  obtain l c where lc: "fold (compact_pass tmp) [0..<9] (replicate 9 0, 0) = (l, c)" by fastforce
  have step: "carries (gathered T) i l c (compact_pass tmp i (l, c))"
    if "i < 9" "uint c \<le> 16" "\<And>k. i = Suc k \<Longrightarrow> \<exists>c1. 0 \<le> c1 \<and> c1 \<le> 16 \<and> uint c = (gathered T k + c1) div 2 ^ limb_bits k" for i l c
    using compact_pass_carries [OF assms that(1,2)] that(3) by blast
  have "length l = 9 \<and> limbs_tight 9 l \<and> uint c \<le> 16 \<and> (\<forall>j. 9 \<le> j \<longrightarrow> l ! j = replicate 9 0 ! j)
      \<and> weighted 9 (limb l) + uint c * 2 ^ limb_pos 9 = weighted 9 (gathered T)
      \<and> (\<forall>k. 9 = Suc k \<longrightarrow> (\<exists>c1. 0 \<le> c1 \<and> c1 \<le> 16 \<and> uint c = (gathered T k + c1) div 2 ^ limb_bits k))"
    using lc by (intro carry_chain [where step = "compact_pass tmp"]) (auto intro: step)
  then obtain c1 where c1: "length l = 9" "limbs_tight 9 l" "weighted 9 (limb l) + uint c * 2 ^ limb_pos 9 = weighted 9 (gathered T)"
      "uint c = (gathered T 8 + c1) div 2 ^ limb_bits 8" "c1 \<le> 16" by auto
  have "gathered T 8 + 17 \<le> 2 ^ 32" using assms(1) by (intro gathered_bounds) simp_all
  then have "uint c \<le> 8" using c1(4,5) by (simp add: limb_bits_def)
  with c1 have "length l = 9 \<and> limbs_tight 9 l \<and> uint c \<le> 8 \<and> mont_val l + uint c * 2 ^ 257 = weighted 9 (gathered T)"
    by (simp add: mont_val_def limb_pos_def)
  from reduce_pass [OF this] show ?thesis by (simp add: compact_limbs_pass lc)
qed

text \<open>The reduction divides by \<open>2 ^ 257\<close> modulo the field size.\<close>

lemma reduce_degree_value:
  assumes "uint (big ! 16) < 2 ^ 60"
  shows "limbs_ok (reduce_degree big) \<and> mont_val (reduce_degree big) * 2 ^ 257 mod p256 = weighted 17 (\<lambda>i. uint (big ! i)) mod p256"
proof -
  define L where "L = limb (propagate_carry big)"
  have p: "length (propagate_carry big) = 18" "limbs_tight 17 (propagate_carry big)" "limb (propagate_carry big) 17 < 2 ^ 31 + 2 ^ 8"
      "weighted 18 L = weighted 17 (\<lambda>i. uint (big ! i))"
    using propagate_carry_value [OF assms] by (auto simp: L_def)
  have L: "represents L (propagate_carry big)" using p(1) by (simp add: represents_def L_def)
  have "L j < start_bound j" if "j < 18" for j
  proof (cases "j = 17")
    case False
    then have "L j < 2 ^ limb_bits j" using p(2) that by (simp add: L_def limbs_tight_def)
    then show ?thesis using False limb_bits_cases [of j] by (auto simp: start_bound_def)
  qed (use p(3) in \<open>simp add: L_def start_bound_def\<close>)
  then have s: "started L" by (simp add: started_def L_def)
  let ?T = "eliminated L 9"
  have b: "bounded ?T 9" using s by (rule eliminated_bounded) simp
  note c = compact_limbs_value [OF b eliminated_represents [OF L s]]
  have "mont_val (reduce_degree big) * 2 ^ 257 mod p256 = weighted 9 (gathered ?T) * 2 ^ 257 mod p256"
    using c by (simp only: reduce_degree_def) (metis mod_mult_left_eq)
  also have "weighted 9 (gathered ?T) * 2 ^ 257 = weighted 18 ?T"
    using boundedD(1) [OF b] by (intro gathered_value) simp
  also have "\<dots> mod p256 = weighted 18 L mod p256" by (rule eliminated_value) simp
  finally show ?thesis using c p(4) by (simp add: reduce_degree_def)
qed

end
