(* ===== verification/Montgomery_Product.thy ===== *)
theory Montgomery_Product
  imports Montgomery_Correct
begin

text \<open>
  Products of field elements in Montgomery form: the limbs of a product fit in 64 bits, and a multiplication, a
  squaring and the inverse are correct modulo the field size.
\<close>

section \<open>Products\<close>

text \<open>The limbs of a product: two odd limbs stand one bit above the position of their sum.\<close>

definition product_limbs :: "(nat \<Rightarrow> int) \<Rightarrow> (nat \<Rightarrow> int) \<Rightarrow> int list" where
  "product_limbs A B =
     [A 0 * B 0,
      A 0 * B 1 + A 1 * B 0,
      A 0 * B 2 + A 1 * B 1 * 2 + A 2 * B 0,
      A 0 * B 3 + A 1 * B 2 + A 2 * B 1 + A 3 * B 0,
      A 0 * B 4 + A 1 * B 3 * 2 + A 2 * B 2 + A 3 * B 1 * 2 + A 4 * B 0,
      A 0 * B 5 + A 1 * B 4 + A 2 * B 3 + A 3 * B 2 + A 4 * B 1 + A 5 * B 0,
      A 0 * B 6 + A 1 * B 5 * 2 + A 2 * B 4 + A 3 * B 3 * 2 + A 4 * B 2 + A 5 * B 1 * 2 + A 6 * B 0,
      A 0 * B 7 + A 1 * B 6 + A 2 * B 5 + A 3 * B 4 + A 4 * B 3 + A 5 * B 2 + A 6 * B 1 + A 7 * B 0,
      A 0 * B 8 + A 1 * B 7 * 2 + A 2 * B 6 + A 3 * B 5 * 2 + A 4 * B 4 + A 5 * B 3 * 2 + A 6 * B 2 + A 7 * B 1 * 2 + A 8 * B 0,
      A 1 * B 8 + A 2 * B 7 + A 3 * B 6 + A 4 * B 5 + A 5 * B 4 + A 6 * B 3 + A 7 * B 2 + A 8 * B 1,
      A 2 * B 8 + A 3 * B 7 * 2 + A 4 * B 6 + A 5 * B 5 * 2 + A 6 * B 4 + A 7 * B 3 * 2 + A 8 * B 2,
      A 3 * B 8 + A 4 * B 7 + A 5 * B 6 + A 6 * B 5 + A 7 * B 4 + A 8 * B 3,
      A 4 * B 8 + A 5 * B 7 * 2 + A 6 * B 6 + A 7 * B 5 * 2 + A 8 * B 4,
      A 5 * B 8 + A 6 * B 7 + A 7 * B 6 + A 8 * B 5,
      A 6 * B 8 + A 7 * B 7 * 2 + A 8 * B 6,
      A 7 * B 8 + A 8 * B 7,
      A 8 * B 8]"

lemma product_limbs_value: "weighted 17 ((!) (product_limbs A B)) = weighted 9 A * weighted 9 B"
  unfolding product_limbs_def by (simp add: weighted_def lessThan_nat_numeral lessThan_Suc limb_pos_def algebra_simps)

definition big_words :: "int list \<Rightarrow> u64 list" where
  "big_words = map word_of_int"

lemma get64_limb: "get64 a i = word_of_int (limb a i)"
  unfolding get64_def ucast_eq by (rule refl)

lemma push_word64: "push_bit n (word_of_int x :: u64) = word_of_int (x * 2 ^ n)"
  by (simp add: push_bit_eq_mult)

lemma montgomery_mul_words: "montgomery_mul a b = reduce_degree (big_words (product_limbs (limb a) (limb b)))"
  unfolding montgomery_mul_def get64_limb push_word64
  by (rule arg_cong [of _ _ reduce_degree]) (simp add: big_words_def product_limbs_def)

lemma montgomery_square_words: "montgomery_square a = reduce_degree (big_words (product_limbs (limb a) (limb a)))"
  unfolding montgomery_square_def get64_limb push_word64
  by (rule arg_cong [of _ _ reduce_degree]) (simp add: big_words_def product_limbs_def algebra_simps)

lemma list_all2_below: "list_all2 (\<le>) xs ys \<Longrightarrow> \<forall>y \<in> set ys. y < c \<Longrightarrow> \<forall>x \<in> set xs. x < (c :: int)"
  by (induction rule: list_all2_induct) auto

lemma product_bounds:
  assumes "limbs_ok a" and "limbs_ok b"
  shows "\<forall>x \<in> set (product_limbs (limb a) (limb b)). 0 \<le> x \<and> x < 2 ^ 64"
    and "product_limbs (limb a) (limb b) ! 16 < 2 ^ 60"
proof -
  have le: "limb m i \<le> 2 ^ 30" if "limbs_ok m" "i < 9" for m i
    using that limb_bits_cases [of i] by (auto simp: limbs_ok_def)
  let ?M = "\<lambda>i :: nat. 2 ^ 30 :: int"
  have p: "limb a i * limb b j \<le> 2 ^ 30 * 2 ^ 30" if "i < 9" "j < 9" for i j
    using le [OF assms(1) that(1)] le [OF assms(2) that(2)] by (intro mult_mono) simp_all
  have top: "limb a 8 * limb b 8 < 2 ^ 29 * 2 ^ 29" using assms by (intro mult_strict_mono) (simp_all add: limbs_ok_def)
  then show "product_limbs (limb a) (limb b) ! 16 < 2 ^ 60" by (simp add: product_limbs_def)
  have below: "list_all2 (\<le>) (product_limbs (limb a) (limb b)) (product_limbs ?M ?M)"
    unfolding product_limbs_def by (simp only: list_all2_Cons list_all2_Nil simp_thms, intro conjI add_mono p mult_right_mono) simp_all
  have small: "\<forall>x \<in> set (product_limbs ?M ?M). x < 2 ^ 64" by (simp add: product_limbs_def)
  have "\<forall>x \<in> set (product_limbs (limb a) (limb b)). 0 \<le> x"
    unfolding product_limbs_def set_simps ball_simps by (intro conjI add_nonneg_nonneg mult_nonneg_nonneg TrueI) simp_all
  with list_all2_below [OF below small] show "\<forall>x \<in> set (product_limbs (limb a) (limb b)). 0 \<le> x \<and> x < 2 ^ 64" by blast
qed

lemma product_words:
  assumes "limbs_ok a" and "limbs_ok b"
  shows "weighted 17 (\<lambda>i. uint (big_words (product_limbs (limb a) (limb b)) ! i)) = mont_val a * mont_val b"
    and "uint (big_words (product_limbs (limb a) (limb b)) ! 16) < 2 ^ 60"
proof -
  have "length (product_limbs (limb a) (limb b)) = 17" by (simp add: product_limbs_def)
  then have u: "uint (big_words (product_limbs (limb a) (limb b)) ! i) = product_limbs (limb a) (limb b) ! i" if "i < 17" for i
    using product_bounds(1) [OF assms] that by (simp add: big_words_def uint_word_of_int)
  have "weighted 17 (\<lambda>i. uint (big_words (product_limbs (limb a) (limb b)) ! i)) = weighted 17 ((!) (product_limbs (limb a) (limb b)))"
    by (rule weighted_cong) (rule u)
  then show "weighted 17 (\<lambda>i. uint (big_words (product_limbs (limb a) (limb b)) ! i)) = mont_val a * mont_val b"
    by (simp add: product_limbs_value mont_val_def)
  show "uint (big_words (product_limbs (limb a) (limb b)) ! 16) < 2 ^ 60" using u [of 16] product_bounds(2) [OF assms] by simp
qed

lemma montgomery_mul_value:
  assumes "limbs_ok a" and "limbs_ok b"
  shows "limbs_ok (montgomery_mul a b) \<and> mont_val (montgomery_mul a b) * 2 ^ 257 mod p256 = mont_val a * mont_val b mod p256"
  using reduce_degree_value [OF product_words(2) [OF assms]]
  by (simp only: montgomery_mul_words product_words(1) [OF assms])

lemma montgomery_square_value:
  assumes "limbs_ok a"
  shows "limbs_ok (montgomery_square a) \<and> mont_val (montgomery_square a) * 2 ^ 257 mod p256 = mont_val a * mont_val a mod p256"
  using reduce_degree_value [OF product_words(2) [OF assms assms]]
  by (simp only: montgomery_square_words product_words(1) [OF assms assms])

end
