(* ===== verification/Montgomery_Field.thy ===== *)
theory Montgomery_Field
  imports Montgomery_Product
begin

text \<open>
  Field elements in Montgomery form as elements of the prime field: what a list of limbs stands for, the operations on
  it, the conversions from and to 256-bit integers, and the comparison with zero.
\<close>

section \<open>Shifts of integers of digits\<close>

lemma unat_drop_digit: "unat (drop_bit n (d :: u32)) = unat d div 2 ^ n"
  unfolding unat_drop_bit_eq by (rule drop_bit_eq_div)

lemma digit_or:
  assumes "m + n = 32"
  shows "unat (push_bit m (e :: u32) OR drop_bit n d) = (unat e mod 2 ^ n) * 2 ^ m + unat d div 2 ^ n"
proof -
  have "(2 :: nat) ^ 32 = 2 ^ n * 2 ^ m" using assms by (simp add: add.commute flip: power_add)
  note p = this
  have "unat (push_bit m e) = take_bit 32 (push_bit m (unat e))" by (simp add: unsigned_push_bit_eq)
  also have "\<dots> = (unat e * 2 ^ m) mod (2 ^ n * 2 ^ m)" by (simp only: take_bit_eq_mod push_bit_eq_mult p)
  finally have push: "unat (push_bit m e) = (unat e mod 2 ^ n) * 2 ^ m" by (simp only: mod_mult_mult2)
  have drop: "unat (drop_bit n d) = unat d div 2 ^ n" by (rule unat_drop_digit)
  have "push_bit m e OR drop_bit n d = push_bit m e + drop_bit n d"
    using assms by (intro disjunctive_add [symmetric]) (auto simp: bit_drop_bit_eq bit_push_bit_iff dest!: bit_imp_le_length)
  moreover have "unat (push_bit m e) + unat (drop_bit n d) < 2 ^ 32"
  proof -
    have "unat d div 2 ^ n < 2 ^ m" using unat_u32_less [of d] by (intro less_mult_imp_div_less) (simp only: p mult.commute)
    moreover have "Suc (unat e mod 2 ^ n) * 2 ^ m \<le> 2 ^ n * 2 ^ m" by (intro mult_le_mono1 Suc_leI) simp
    ultimately show ?thesis unfolding push drop p by simp
  qed
  ultimately have "unat (push_bit m e OR drop_bit n d) = unat (push_bit m e) + unat (drop_bit n d)"
    by (simp only: unat_word_ariths(1)) simp
  then show ?thesis by (simp only: push drop)
qed

lemma shr_digits:
  assumes "m + n = 32"
  shows "digits_val (map2 (\<lambda>d high. drop_bit n d OR push_bit m high) x (drop 1 x @ [0])) = digits_val x div 2 ^ n"
proof (induction x)
  case (Cons d ds)
  let ?V = "digits_val ds" and ?f = "\<lambda>d high. drop_bit n d OR push_bit m high"
  have p: "(2 :: nat) ^ 32 = 2 ^ n * 2 ^ m" using assms by (simp add: add.commute flip: power_add)
  have hd: "unat (hd (ds @ [0])) mod 2 ^ n = ?V mod 2 ^ n"
  proof (cases ds)
    case (Cons e es)
    have "?V = unat e + 2 ^ n * (2 ^ m * digits_val es)" unfolding Cons digits_val.simps by (simp only: p mult.assoc)
    then show ?thesis by (simp only: Cons list.sel append_Cons mod_mult_self2)
  qed simp
  have "map2 ?f (d # ds) (drop 1 (d # ds) @ [0]) = ?f d (hd (ds @ [0])) # map2 ?f ds (drop 1 ds @ [0])"
    by (cases ds) simp_all
  then have "digits_val (map2 ?f (d # ds) (drop 1 (d # ds) @ [0])) = unat (?f d (hd (ds @ [0]))) + 2 ^ 32 * (?V div 2 ^ n)"
    using Cons.IH by simp
  also have "unat (?f d (hd (ds @ [0]))) = (?V mod 2 ^ n) * 2 ^ m + unat d div 2 ^ n"
    using digit_or [OF assms, of "hd (ds @ [0])" d] hd by (simp add: or.commute)
  also have "(?V mod 2 ^ n) * 2 ^ m + unat d div 2 ^ n + 2 ^ 32 * (?V div 2 ^ n) = 2 ^ m * (2 ^ n * (?V div 2 ^ n) + ?V mod 2 ^ n) + unat d div 2 ^ n"
    by (simp only: p distrib_left ac_simps)
  also have "\<dots> = (unat d + 2 ^ n * (2 ^ m * ?V)) div 2 ^ n" by simp
  finally show ?case by (simp only: p mult.assoc digits_val.simps)
qed simp

lemma shl_digits:
  assumes "m + n = 32"
  shows "digits_val (map2 (\<lambda>d low. push_bit m d OR drop_bit n low) x (butlast (c # x))) + base ^ length x * unat (drop_bit n (List.last (c # x)))
    = digits_val x * 2 ^ m + unat c div 2 ^ n"
proof (induction x arbitrary: c)
  case Nil
  show ?case by (simp add: unat_drop_digit del: drop_bit_eq_div)
next
  case (Cons d ds)
  have p: "(2 :: nat) ^ 32 = 2 ^ n * 2 ^ m" using assms by (simp add: add.commute flip: power_add)
  let ?r = "digits_val (map2 (\<lambda>d low. push_bit m d OR drop_bit n low) ds (butlast (d # ds)))"
  let ?t = "unat (drop_bit n (List.last (d # ds)))"
  have "?r + base ^ length ds * ?t = digits_val ds * 2 ^ m + unat d div 2 ^ n" by (rule Cons.IH)
  then have "base * ?r + base * (base ^ length ds * ?t) = base * (digits_val ds * 2 ^ m) + base * (unat d div 2 ^ n)"
    by (simp only: distrib_left [symmetric])
  moreover have "(unat d mod 2 ^ n) * 2 ^ m + base * (unat d div 2 ^ n) = 2 ^ m * (2 ^ n * (unat d div 2 ^ n) + unat d mod 2 ^ n)"
    by (simp only: p distrib_left ac_simps)
  then have "(unat d mod 2 ^ n) * 2 ^ m + base * (unat d div 2 ^ n) = unat d * 2 ^ m" by simp
  ultimately show ?case using digit_or [OF assms, of d c] by (simp add: algebra_simps)
qed

section \<open>What limbs stand for\<close>

definition stands :: "montgomery \<Rightarrow> int \<Rightarrow> bool" where
  "stands m f \<longleftrightarrow> limbs_ok m \<and> mont_val m mod p256 = f * 2 ^ 257 mod p256"

lemma R_inverse: "(2 ^ 257 * int (digits_val int256_R_INV)) mod p256 = 1" "int (digits_val int256_R) = 2 ^ 257 mod p256"
    "int prime_P = p256"
  by (simp_all add: int256_R_INV_def int256_R_def int256_P_def p256_def)

lemma cancel_R:
  assumes "x * 2 ^ 257 mod p256 = y * 2 ^ 257 mod p256"
  shows "x mod p256 = y mod p256"
proof -
  let ?r = "int (digits_val int256_R_INV)"
  have id: "z * 2 ^ 257 * ?r mod p256 = z mod p256" for z
    using mod_mult_right_eq [of z "2 ^ 257 * ?r" p256] by (simp only: R_inverse(1) mult.assoc mult_1_right)
  have "x * 2 ^ 257 * ?r mod p256 = y * 2 ^ 257 * ?r mod p256" using assms by (metis mod_mult_left_eq)
  then show ?thesis by (simp only: id)
qed

lemma stands_mod: "f mod p256 = g mod p256 \<Longrightarrow> stands m f \<longleftrightarrow> stands m g"
  unfolding stands_def by (metis mod_mult_left_eq)

lemma stands_unique: "stands m f \<Longrightarrow> stands m g \<Longrightarrow> f mod p256 = g mod p256"
  unfolding stands_def by (rule cancel_R) (elim conjE, rule trans [OF sym])

lemma stands_product:
  assumes "limbs_ok r" and "mont_val r * 2 ^ 257 mod p256 = mont_val a * mont_val b mod p256" and "stands a f" and "stands b g"
  shows "stands r (f * g)"
proof -
  define R :: int where "R = 2 ^ 257"
  have "mont_val a mod p256 = f * R mod p256" "mont_val b mod p256 = g * R mod p256"
    using assms(3,4) unfolding stands_def R_def by blast+
  then have "mont_val a * mont_val b mod p256 = (f * R) * (g * R) mod p256" by (metis mod_mult_eq)
  moreover have "(f * R) * (g * R) = (f * g * R) * R" by (simp only: ac_simps)
  ultimately have "mont_val r * 2 ^ 257 mod p256 = (f * g * R) * 2 ^ 257 mod p256" using assms(2) unfolding R_def by metis
  then have "mont_val r mod p256 = (f * g * R) mod p256" by (rule cancel_R)
  with assms(1) show ?thesis unfolding stands_def R_def by blast
qed

lemma stands_mul: "stands a f \<Longrightarrow> stands b g \<Longrightarrow> stands (montgomery_mul a b) (f * g)"
  using montgomery_mul_value [of a b] by (intro stands_product) (auto simp: stands_def)

lemma stands_square: "stands a f \<Longrightarrow> stands (montgomery_square a) (f * f)"
  using montgomery_square_value [of a] by (intro stands_product) (auto simp: stands_def)

lemma stands_add: "stands a f \<Longrightarrow> stands b g \<Longrightarrow> stands (montgomery_add a b) (f + g)"
  using montgomery_add_value [of a b] unfolding stands_def distrib_right by (metis mod_add_eq)

lemma stands_sub: "stands a f \<Longrightarrow> stands b g \<Longrightarrow> stands (montgomery_sub a b) (f - g)"
  using montgomery_sub_value [of a b] unfolding stands_def left_diff_distrib by (metis mod_diff_eq)

lemma stands_multiple:
  assumes "stands a f" and "limbs_ok r" and "mont_val r mod p256 = k * mont_val a mod p256"
  shows "stands r (k * f)"
  using assms unfolding stands_def mult.assoc by (metis mod_mult_right_eq)

lemma stands_scalars:
  assumes "stands a f"
  shows "stands (mul_scalar2 a) (2 * f)" "stands (mul_scalar3 a) (3 * f)" "stands (mul_scalar4 a) (4 * f)" "stands (mul_scalar8 a) (8 * f)"
proof -
  have "limbs_ok a" using assms by (simp add: stands_def)
  note v = mul_scalar3_value [OF this] mul_shift_value [OF this, of 1] mul_shift_value [OF this, of 2] mul_shift_value [OF this, of 3]
  show "stands (mul_scalar2 a) (2 * f)" "stands (mul_scalar3 a) (3 * f)" "stands (mul_scalar4 a) (4 * f)" "stands (mul_scalar8 a) (8 * f)"
    using v by (intro stands_multiple [OF assms]; simp add: mul_scalar2_def mul_scalar4_def mul_scalar8_def)+
qed

section \<open>Powers\<close>

text \<open>The contract of a representation with products, and what repeated squaring gives.\<close>

locale field_representation =
  fixes rep :: "'m \<Rightarrow> int \<Rightarrow> bool"
    and mul :: "'m \<Rightarrow> 'm \<Rightarrow> 'm"
    and square :: "'m \<Rightarrow> 'm"
  assumes mul_rep: "rep a f \<Longrightarrow> rep b g \<Longrightarrow> rep (mul a b) (f * g)"
    and square_rep: "rep a f \<Longrightarrow> rep (square a) (f * f)"
begin

lemma power_start: "rep a f \<Longrightarrow> rep a (f ^ 1)"
  by simp

lemma power_mul: "rep a (f ^ d) \<Longrightarrow> rep b (f ^ e) \<Longrightarrow> n = d + e \<Longrightarrow> rep (mul a b) (f ^ n)"
  using mul_rep by (fastforce simp: power_add)

lemma power_square: "rep a (f ^ e) \<Longrightarrow> n = 2 * e \<Longrightarrow> rep (square a) (f ^ n)"
  using square_rep by (fastforce simp: power_add mult_2)

lemma power_squares: "rep a (f ^ e) \<Longrightarrow> n = e * 2 ^ k \<Longrightarrow> rep ((square ^^ k) a) (f ^ n)"
proof (induction k arbitrary: n)
  case (Suc k)
  then have "rep ((square ^^ k) a) (f ^ (e * 2 ^ k))" by simp
  then have "rep (square ((square ^^ k) a)) (f ^ n)" by (rule power_square) (simp add: Suc.prems(2))
  then show ?case by simp
qed simp

end

interpretation mont: field_representation stands montgomery_mul montgomery_square
  by unfold_locales (auto intro: stands_mul stands_square)

text \<open>The chain of squarings and products of the inverse reaches the exponent \<open>P - 2\<close>.\<close>

lemma stands_inv:
  assumes "stands a f"
  shows "stands (montgomery_inv a) (f ^ (prime_P - 2))"
proof -
  let ?sq = "\<lambda>k m. (montgomery_square ^^ k) m"
  define e2 where "e2 = montgomery_mul (montgomery_square a) a"
  define e4 where "e4 = montgomery_mul (?sq 2 e2) e2"
  define e8 where "e8 = montgomery_mul (?sq 4 e4) e4"
  define e16 where "e16 = montgomery_mul (?sq 8 e8) e8"
  define e32 where "e32 = montgomery_mul (?sq 16 e16) e16"
  define e64 where "e64 = ?sq 32 e32"
  define hi where "hi = ?sq 192 (montgomery_mul e64 a)"
  define t80 where "t80 = montgomery_mul (?sq 16 (montgomery_mul e64 e32)) e16"
  define t88 where "t88 = montgomery_mul (?sq 8 t80) e8"
  define t92 where "t92 = montgomery_mul (?sq 4 t88) e4"
  define t94 where "t94 = montgomery_mul (?sq 2 t92) e2"
  define lo where "lo = montgomery_mul (?sq 2 t94) a"
  have inv: "montgomery_inv a = montgomery_mul lo hi"
    unfolding montgomery_inv_def Let_def e2_def [symmetric] e4_def [symmetric] e8_def [symmetric] e16_def [symmetric]
      e32_def [symmetric] e64_def [symmetric] hi_def [symmetric] t80_def [symmetric] t88_def [symmetric] t92_def [symmetric]
      t94_def [symmetric] lo_def [symmetric] by (rule refl)
  have p1: "stands a (f ^ 1)" using assms by (rule mont.power_start)
  have p2: "stands e2 (f ^ (2 ^ 2 - 1))" unfolding e2_def
    by (rule mont.power_mul [OF mont.power_square [OF p1 refl] p1]) simp
  have p4: "stands e4 (f ^ (2 ^ 4 - 1))" unfolding e4_def
    by (rule mont.power_mul [OF mont.power_squares [OF p2 refl] p2]) simp
  have p8: "stands e8 (f ^ (2 ^ 8 - 1))" unfolding e8_def
    by (rule mont.power_mul [OF mont.power_squares [OF p4 refl] p4]) simp
  have p16: "stands e16 (f ^ (2 ^ 16 - 1))" unfolding e16_def
    by (rule mont.power_mul [OF mont.power_squares [OF p8 refl] p8]) simp
  have p32: "stands e32 (f ^ (2 ^ 32 - 1))" unfolding e32_def
    by (rule mont.power_mul [OF mont.power_squares [OF p16 refl] p16]) simp
  have p64: "stands e64 (f ^ (2 ^ 64 - 2 ^ 32))" unfolding e64_def by (rule mont.power_squares [OF p32]) simp
  have ph: "stands hi (f ^ ((2 ^ 64 - 2 ^ 32 + 1) * 2 ^ 192))" unfolding hi_def
    by (rule mont.power_squares [OF mont.power_mul [OF p64 p1 refl]]) simp
  have p80: "stands t80 (f ^ (2 ^ 80 - 1))" unfolding t80_def
    by (rule mont.power_mul [OF mont.power_squares [OF mont.power_mul [OF p64 p32 refl] refl] p16]) simp
  have p88: "stands t88 (f ^ (2 ^ 88 - 1))" unfolding t88_def
    by (rule mont.power_mul [OF mont.power_squares [OF p80 refl] p8]) simp
  have p92: "stands t92 (f ^ (2 ^ 92 - 1))" unfolding t92_def
    by (rule mont.power_mul [OF mont.power_squares [OF p88 refl] p4]) simp
  have p94: "stands t94 (f ^ (2 ^ 94 - 1))" unfolding t94_def
    by (rule mont.power_mul [OF mont.power_squares [OF p92 refl] p2]) simp
  have pl: "stands lo (f ^ (2 ^ 96 - 3))" unfolding lo_def
    by (rule mont.power_mul [OF mont.power_squares [OF p94 refl] p1]) simp
  show ?thesis unfolding inv by (rule mont.power_mul [OF pl ph]) (simp add: int256_P_def)
qed

section \<open>From integers\<close>

lemma int256_shr_val:
  assumes "int256_ok x" and "n \<le> 32"
  shows "int256_ok (int256_shr x n)" and "digits_val (int256_shr x n) = digits_val x div 2 ^ n"
  using shr_digits [of "32 - n" n x] assms by (simp_all add: int256_shr_def int256_ok_def BITS_PER_DIGIT_def NDIGITS_def)

definition limb_step :: "nat \<Rightarrow> montgomery \<times> int256 \<Rightarrow> montgomery \<times> int256" where
  "limb_step i = (\<lambda>(limbs, shifted). (limbs[i := shifted ! 0 AND bottom_bits i], int256_shr shifted (limb_bits i)))"

lemma limb_steps:
  assumes "int256_ok x" and "n \<le> 9" and "fold limb_step [0..<n] (replicate 9 0, x) = (l, s)"
  shows "length l = 9 \<and> int256_ok s \<and> limbs_tight n l \<and> weighted n (limb l) + int (digits_val s) * 2 ^ limb_pos n = int (digits_val x)"
  using assms(2,3)
proof (induction n arbitrary: l s)
  case 0
  with assms(1) show ?case by (auto simp: limbs_tight_def limb_pos_def)
next
  case (Suc n)
  obtain l1 s1 where run: "fold limb_step [0..<n] (replicate 9 0, x) = (l1, s1)" by fastforce
  have IH: "length l1 = 9" "int256_ok s1" "limbs_tight n l1"
      "weighted n (limb l1) + int (digits_val s1) * 2 ^ limb_pos n = int (digits_val x)"
    using Suc.IH [OF _ run] Suc.prems(1) by auto
  let ?w = "s1 ! 0 AND bottom_bits n" and ?V = "int (digits_val s1)"
  have "limb_step n (l1, s1) = (l, s)" using Suc.prems(2) run by simp
  then have ls: "l = l1[n := ?w]" "s = int256_shr s1 (limb_bits n)" by (simp_all add: limb_step_def)
  have b: "limb_bits n \<le> 32" by (simp add: limb_bits_def)
  have s: "int256_ok s" "digits_val s = digits_val s1 div 2 ^ limb_bits n" unfolding ls(2) by (rule int256_shr_val [OF IH(2) b])+
  have w: "uint ?w = ?V mod 2 ^ limb_bits n"
  proof -
    obtain d ds where d: "s1 = d # ds" using IH(2) by (cases s1) (auto simp: int256_ok_def NDIGITS_def)
    have "uint d < 2 ^ 32" using uint_lt2p [of d] by simp
    then have "uint ?w = uint d mod 2 ^ limb_bits n" using carry_split(1) [of "uint d" n] by (simp add: d)
    moreover have "(2 :: int) ^ limb_bits n dvd 2 ^ 32" using b by (rule le_imp_power_dvd)
    then have "(uint d + 2 ^ 32 * int (digits_val ds)) mod 2 ^ limb_bits n = uint d mod 2 ^ limb_bits n"
      by (metis dvd_mult2 mod_add_right_eq mod_0_imp_dvd dvd_imp_mod_0 add.right_neutral)
    ultimately show ?thesis by (simp add: d)
  qed
  have lim: "limb l i = (if i = n then ?V mod 2 ^ limb_bits n else limb l1 i)" for i
    using IH(1) Suc.prems(1) w by (auto simp: ls(1) nth_list_update)
  have "weighted n (limb l) = weighted n (limb l1)" by (rule weighted_cong) (simp add: lim)
  then have "weighted (Suc n) (limb l) + int (digits_val s) * 2 ^ limb_pos (Suc n) = int (digits_val x)"
    using IH(4) carry_value [of ?V n] by (simp add: weighted_Suc lim s(2) zdiv_int)
  moreover have "limbs_tight (Suc n) l" using IH(3) by (auto simp: limbs_tight_def lim less_Suc_eq)
  ultimately show ?case using s(1) IH(1) by (simp add: ls(1))
qed

lemma gfp_mul_val:
  assumes "int256_ok a" and "int256_ok b"
  shows "int256_ok (gfp_mul a b)" and "int (digits_val (gfp_mul a b)) = int (digits_val a) * int (digits_val b) mod p256"
  using modmul_val [OF assms library_moduli(2)] unfolding gfp_mul_def R_inverse(3) [symmetric] by (simp_all add: zmod_int)

lemma field_to_montgomery_value:
  assumes "int256_ok x"
  shows "stands (field_to_montgomery x) (int (digits_val x))" and "limb (field_to_montgomery x) 0 < 2 ^ 29"
proof -
  let ?y = "gfp_mul x int256_R"
  have R: "int256_ok int256_R" by (simp add: int256_ok_def constants_length)
  note y = gfp_mul_val [OF assms R]
  obtain l s where run: "fold limb_step [0..<9] (replicate 9 0, ?y) = (l, s)" by fastforce
  have m: "field_to_montgomery x = l" using run by (simp add: field_to_montgomery_def limb_step_def [abs_def] NLIMBS_def)
  from limb_steps [OF y(1) _ run] have l: "length l = 9" "limbs_tight 9 l"
      "mont_val l + int (digits_val s) * 2 ^ 257 = int (digits_val ?y)"
    by (simp_all add: mont_val_def limb_pos_def)
  have "0 \<le> mont_val l" by (simp add: mont_val_def weighted_def sum_nonneg)
  moreover have "int (digits_val ?y) < int (2 ^ 256)" using int256_less [OF y(1)] by (simp only: of_nat_less_iff)
  then have "int (digits_val ?y) < 2 ^ 256" by (simp only: of_nat_power of_nat_numeral)
  ultimately have "int (digits_val s) * 2 ^ 257 < 2 ^ 257" using l(3) by simp
  then have "digits_val s = 0" by simp
  then have "mont_val l = int (digits_val ?y)" using l(3) by simp
  then have "mont_val l = int (digits_val x) * (2 ^ 257 mod p256) mod p256" by (simp only: y(2) R_inverse(2))
  then have "mont_val l mod p256 = int (digits_val x) * 2 ^ 257 mod p256" by (simp only: mod_mult_right_eq mod_mod_trivial)
  moreover have "limbs_ok l" using l(1,2) unfolding limbs_ok_def limbs_tight_def all_less_9 by (simp add: limb_bits_def)
  ultimately show "stands (field_to_montgomery x) (int (digits_val x))" unfolding stands_def m by blast
  show "limb (field_to_montgomery x) 0 < 2 ^ 29" using l(2) unfolding m limbs_tight_def all_less_9 by (simp add: limb_bits_def)
qed

section \<open>To integers\<close>

lemma int256_shl_val:
  assumes "int256_ok x" and "n \<le> 32" and "int256_shl x n = (t, c)"
  shows "int256_ok t" and "digits_val t + 2 ^ 256 * unat c = digits_val x * 2 ^ n"
proof -
  obtain d ds where x: "x = d # ds" "length x = 8" using assms(1) by (cases x) (auto simp: int256_ok_def NDIGITS_def)
  have ne: "x \<noteq> []" by (simp add: x(1))
  have tc: "t = map2 (\<lambda>d low. push_bit n d OR drop_bit (32 - n) low) x (butlast (0 # x))" "c = drop_bit (32 - n) (List.last (0 # x))"
    using assms(3) ne by (simp_all add: int256_shl_def BITS_PER_DIGIT_def)
  show "int256_ok t" using x(2) ne by (simp add: tc(1) int256_ok_def NDIGITS_def)
  show "digits_val t + 2 ^ 256 * unat c = digits_val x * 2 ^ n"
    using shl_digits [of n "32 - n" x 0] assms(2) unfolding tc x(2) base_pow_8 by simp
qed

lemma int256_add_digit_carry:
  assumes "int256_ok x" and "int256_add_digit x d = (r, c)"
  shows "int256_ok r" and "digits_val r + 2 ^ 256 * unat c = digits_val x + unat d"
proof -
  obtain q k where l: "add_loop (ucast d) x (replicate NDIGITS 0) = (q, k)" by fastforce
  have "int256_ok (replicate NDIGITS 0)" by (simp add: int256_ok_def)
  from int256_add_loop [OF assms(1) this _ l] unat_u32_less [of d]
  have "int256_ok q" "unat k < 2 ^ 32" "digits_val q + 2 ^ 256 * unat k = digits_val x + unat d" by simp_all
  moreover have "r = q" "c = ucast k" using assms(2) l by (simp_all add: int256_add_digit_def)
  moreover have "unat (ucast k :: u32) = unat k" using \<open>unat k < 2 ^ 32\<close> by simp
  ultimately show "int256_ok r" "digits_val r + 2 ^ 256 * unat c = digits_val x + unat d" by (simp_all only:)
qed

text \<open>The limbs from the top: what the loop has gathered after \<open>j\<close> steps.\<close>

primrec horner :: "montgomery \<Rightarrow> nat \<Rightarrow> nat" where
  "horner m 0 = unat (m ! 8)"
| "horner m (Suc j) = horner m j * 2 ^ limb_bits (7 - j) + unat (m ! (7 - j))"

lemma horner_value: "int (horner m 8) = mont_val m"
proof -
  have "horner m 8 = horner m (Suc (Suc (Suc (Suc (Suc (Suc (Suc (Suc 0))))))))" by (simp add: numeral_eq_Suc del: horner.simps)
  then show ?thesis by (simp add: mont_val_def weighted_def lessThan_nat_numeral lessThan_Suc limb_pos_def limb_bits_def algebra_simps)
qed

lemma limb_unat_bound: "limbs_ok m \<Longrightarrow> i < 9 \<Longrightarrow> unat (m ! i) < 2 ^ 30"
  using limb_bound [of m i] unfolding unat_eq_nat_uint by (subst nat_less_iff) simp_all

lemma horner_bound:
  assumes "limbs_ok m" and "j \<le> 8"
  shows "horner m j < 2 ^ (31 * Suc j)"
  using assms(2)
proof (induction j)
  case 0
  show ?case using limb_unat_bound [OF assms(1), of 8] by simp
next
  case (Suc j)
  have "unat (m ! (7 - j)) < 2 ^ 30" using assms(1) by (rule limb_unat_bound) simp
  moreover have "(horner m j + 1) * 2 ^ limb_bits (7 - j) \<le> 2 ^ (31 * Suc j) * 2 ^ 30"
    using Suc by (intro mult_mono power_increasing) (auto simp: limb_bits_def)
  moreover have "(2 :: nat) ^ (31 * Suc (Suc j)) = 2 * (2 ^ (31 * Suc j) * 2 ^ 30)" by (simp add: power_add)
  moreover have "(2 :: nat) ^ 30 \<le> 2 ^ (31 * Suc j) * 2 ^ 30" by simp
  moreover have "(2 :: nat) ^ 0 \<le> 2 ^ limb_bits (7 - j)" by (rule power_increasing) simp_all
  ultimately show ?case unfolding horner.simps distrib_right by linarith
qed

definition gather_step :: "montgomery \<Rightarrow> nat \<Rightarrow> int256 \<times> u32 \<Rightarrow> int256 \<times> u32" where
  "gather_step m j = (\<lambda>(result, tp).
     (let i = NLIMBS - 2 - j;
          (tmp, top1) = int256_shl result (limb_bits i);
          (r, top2) = int256_add_digit tmp (m ! i)
      in (r, top1 OR top2)))"

lemma gather_stepE:
  assumes "int256_ok x" and "gather_step m j (x, tp) = (r, tp')"
  obtains t c1 c2 where "int256_ok t" and "int256_ok r" and "digits_val t + 2 ^ 256 * unat c1 = digits_val x * 2 ^ limb_bits (7 - j)"
    and "digits_val r + 2 ^ 256 * unat c2 = digits_val t + unat (m ! (7 - j))" and "tp' = c1 OR c2"
proof -
  obtain t c1 where t: "int256_shl x (limb_bits (7 - j)) = (t, c1)" by fastforce
  obtain q c2 where q: "int256_add_digit t (m ! (7 - j)) = (q, c2)" by fastforce
  have "limb_bits (7 - j) \<le> 32" by (simp add: limb_bits_def)
  note t' = int256_shl_val [OF assms(1) this t]
  note q' = int256_add_digit_carry [OF t'(1) q]
  have "r = q" "tp' = c1 OR c2" using assms(2) t q by (simp_all add: gather_step_def NLIMBS_def Let_def)
  then show ?thesis using that t' q' by blast
qed

lemma gather_steps:
  assumes "limbs_ok m" and "int256_ok x0" and "digits_val x0 = horner m 0" and "j \<le> 7" and "fold (gather_step m) [0..<j] (x0, 0) = (x, tp)"
  shows "int256_ok x \<and> digits_val x = horner m j"
  using assms(4,5)
proof (induction j arbitrary: x tp)
  case (Suc j)
  obtain y tp1 where run: "fold (gather_step m) [0..<j] (x0, 0) = (y, tp1)" by fastforce
  have IH: "int256_ok y" "digits_val y = horner m j" using Suc.IH [OF _ run] Suc.prems(1) by auto
  have "gather_step m j (y, tp1) = (x, tp)" using Suc.prems(2) run by simp
  then obtain t c1 c2 where t: "int256_ok t" and st: "int256_ok x" "digits_val t + 2 ^ 256 * unat c1 = digits_val y * 2 ^ limb_bits (7 - j)"
      "digits_val x + 2 ^ 256 * unat c2 = digits_val t + unat (m ! (7 - j))" "tp = c1 OR c2"
    by (rule gather_stepE [OF IH(1)])
  have total: "digits_val x + 2 ^ 256 * (unat c1 + unat c2) = horner m (Suc j)" using st(2,3) IH(2) by simp
  have "horner m (Suc j) < 2 ^ (31 * Suc (Suc j))" using assms(1) Suc.prems(1) by (intro horner_bound) simp_all
  also have "\<dots> \<le> (2 :: nat) ^ 256" using Suc.prems(1) by (intro power_increasing) simp_all
  finally have "2 ^ 256 * (unat c1 + unat c2) < (2 :: nat) ^ 256 * 1" using total by linarith
  then have "unat c1 + unat c2 = 0" by (simp only: mult_less_cancel1 less_one)
  then show ?case using total st(1) by simp
qed (use assms(2,3) in auto)

text \<open>
  The last step joins the two carries with a bitwise or, which loses one of them when both are odd: the addition of the
  lowest limb carries all the way up only if that limb has more than 29 bits and the sum ends near a multiple of
  \<open>2 ^ 256\<close>.
\<close>

definition carries_apart :: "montgomery \<Rightarrow> bool" where
  "carries_apart m \<longleftrightarrow> limb m 0 < 2 ^ 29 \<or> 2 ^ 30 \<le> mont_val m mod 2 ^ 256"

lemma last_carry:
  assumes "limbs_ok m" and "carries_apart m" and "t + 2 ^ 256 * c1 = v * 2 ^ 29" and "t < 2 ^ 256"
    and "r + 2 ^ 256 * c2 = t + unat (m ! 0)" and "v * 2 ^ 29 + unat (m ! 0) = horner m 8" and "r < 2 ^ 256"
  shows "c2 = 0"
proof (rule ccontr)
  assume "c2 \<noteq> 0"
  then have c2: "2 ^ 256 \<le> 2 ^ 256 * c2" by simp
  have "t mod 2 ^ 29 = (t + 2 ^ 29 * (2 ^ 227 * c1)) mod 2 ^ 29" by (rule mod_mult_self2 [symmetric])
  also have "t + 2 ^ 29 * (2 ^ 227 * c1) = v * 2 ^ 29" using assms(3) by (simp only: mult.assoc [symmetric] power_add [symmetric]) simp
  finally have "2 ^ 29 dvd t" by (simp add: mod_eq_0_iff_dvd)
  then obtain k where k: "t = 2 ^ 29 * k" ..
  have "2 ^ 29 * k < 2 ^ 29 * 2 ^ 227" using assms(4) k by (simp only: power_add [symmetric]) simp
  then have "k + 1 \<le> 2 ^ 227" by simp
  then have "2 ^ 29 * (k + 1) \<le> 2 ^ 29 * 2 ^ 227" by (rule mult_le_mono2)
  then have t: "t + 2 ^ 29 \<le> 2 ^ 256" unfolding k distrib_left by (simp only: power_add [symmetric]) simp
  have m0: "unat (m ! 0) < 2 ^ 30" using assms(1) by (rule limb_unat_bound) simp
  show False using assms(2) unfolding carries_apart_def
  proof
    assume "limb m 0 < 2 ^ 29"
    then have "unat (m ! 0) < 2 ^ 29" unfolding unat_eq_nat_uint by (subst nat_less_iff) simp_all
    then show False using t c2 assms(5) by linarith
  next
    assume l: "2 ^ 30 \<le> mont_val m mod 2 ^ 256"
    have "r < 2 ^ 30" using c2 assms(4,5) m0 by linarith
    moreover have "horner m 8 = r + 2 ^ 256 * (c1 + c2)" using assms(3,5,6) by simp
    then have "horner m 8 mod 2 ^ 256 = r" using assms(7) by (simp only: mod_mult_self2 mod_less)
    then have "int (horner m 8) mod 2 ^ 256 = int r" by (metis of_nat_mod of_nat_numeral of_nat_power)
    ultimately show False using l unfolding horner_value by simp
  qed
qed

lemma montgomery_to_field_value:
  assumes "stands m f" and "carries_apart m"
  shows "int256_ok (montgomery_to_field m)" and "int (digits_val (montgomery_to_field m)) = f mod p256"
proof -
  have ok: "limbs_ok m" using assms(1) by (simp add: stands_def)
  obtain x0 c0 where x0: "int256_add_digit int256_ZERO (m ! 8) = (x0, c0)" by fastforce
  have "int256_ok int256_ZERO" "digits_val int256_ZERO = 0" by (simp_all add: int256_ok_def int256_ZERO_def NDIGITS_def)
  then have a0: "int256_ok x0" "digits_val x0 + 2 ^ 256 * unat c0 = unat (m ! 8)"
    using int256_add_digit_carry [OF _ x0] by simp_all
  have "2 ^ 256 * unat c0 < (2 :: nat) ^ 256 * 1" using a0(2) limb_unat_bound [OF ok, of 8] by simp
  then have "unat c0 = 0" by (simp only: mult_less_cancel1 less_one)
  then have v0: "digits_val x0 = horner m 0" using a0(2) by simp
  obtain x tp where run: "fold (gather_step m) [0..<7] (x0, 0) = (x, tp)" by fastforce
  have x: "int256_ok x" "digits_val x = horner m 7" using gather_steps [OF ok a0(1) v0 _ run] by simp_all
  obtain r tp' where last: "gather_step m 7 (x, tp) = (r, tp')" by fastforce
  obtain t c1 c2 where t: "int256_ok t" and st: "int256_ok r" "digits_val t + 2 ^ 256 * unat c1 = digits_val x * 2 ^ limb_bits (7 - 7)"
      "digits_val r + 2 ^ 256 * unat c2 = digits_val t + unat (m ! (7 - 7))" "tp' = c1 OR c2"
    using last by (rule gather_stepE [OF x(1)])
  have h8: "horner m 8 = horner m 7 * 2 ^ 29 + unat (m ! 0)" using horner.simps(2) [of m 7] by (simp add: limb_bits_def)
  have "unat c2 = 0"
    using last_carry [OF ok assms(2), of "digits_val t" "unat c1" "horner m 7" "digits_val r" "unat c2"] st(2,3) x(2) h8
      int256_less [OF st(1)] int256_less [OF t] by (simp add: limb_bits_def)
  then have c2: "c2 = 0" by (simp add: unat_eq_zero)
  then have total: "digits_val r + 2 ^ 256 * unat tp' = horner m 8" using st(2-4) x(2) h8 by (simp add: limb_bits_def)
  have "montgomery_to_field m = gfp_mul_top int256_R_INV r tp'"
  proof -
    have "[0..<8] = [0..<7] @ [7]" by (simp add: upt_rec)
    then have "fold (gather_step m) [0..<8] (x0, 0) = (r, tp')" using run last by (simp del: upt_rec_numeral)
    then show ?thesis using x0
      by (simp add: montgomery_to_field_def NLIMBS_def gather_step_def [abs_def] Let_def del: upt_rec_numeral)
  qed
  moreover have "int256_ok int256_R_INV" by (simp add: int256_ok_def int256_R_INV_def NDIGITS_def)
  ultimately have res: "int256_ok (montgomery_to_field m)" "digits_val (montgomery_to_field m) = digits_val int256_R_INV * horner m 8 mod prime_P"
    using modmul_top_val [OF _ st(1) library_moduli(2)] total by (simp_all add: gfp_mul_top_def)
  show "int256_ok (montgomery_to_field m)" by (rule res(1))
  have "int (digits_val (montgomery_to_field m)) = int (digits_val int256_R_INV) * mont_val m mod p256"
    unfolding res(2) R_inverse(3) [symmetric] horner_value [symmetric] by (simp only: of_nat_mod of_nat_mult)
  also have "\<dots> = int (digits_val int256_R_INV) * (f * 2 ^ 257) mod p256"
    using assms(1) unfolding stands_def by (metis mod_mult_right_eq)
  also have "\<dots> = f * (2 ^ 257 * int (digits_val int256_R_INV)) mod p256" by (simp only: ac_simps)
  also have "\<dots> = f mod p256" using mod_mult_right_eq [of f "2 ^ 257 * int (digits_val int256_R_INV)" p256] by (simp only: R_inverse(1) mult_1_right)
  finally show "int (digits_val (montgomery_to_field m)) = f mod p256" .
qed

section \<open>Comparison\<close>

definition round_step :: "nat \<Rightarrow> montgomery \<times> u32 \<Rightarrow> montgomery \<times> u32" where
  "round_step i = (\<lambda>(limbs, carry). (let limb = limbs ! i + carry in (limbs[i := limb AND bottom_bits i], drop_bit (limb_bits i) limb)))"

lemma reduce_round_value:
  assumes "limbs_ok m" and "reduce_round m = (l, c)"
  shows "length l = 9 \<and> limbs_tight 9 l \<and> uint c \<le> 8 \<and> mont_val l + uint c * 2 ^ 257 = mont_val m"
proof -
  have run: "fold round_step [0..<9] (m, 0) = (l, c)" using assms(2) by (simp add: reduce_round_def round_step_def [abs_def] NLIMBS_def)
  have len: "length m = 9" using assms(1) by (simp add: limbs_ok_def)
  have "carries (limb m) i l c (round_step i (l, c))" if "i < 9" "uint c \<le> 16" "\<And>j. i \<le> j \<Longrightarrow> l ! j = m ! j" for i l c
    using limb_bound [OF assms(1) that(1)] that by (intro carries_word) (simp_all add: round_step_def Let_def)
  note chain = carry_chain [of m 9 9 "limb m" round_step l c, OF len _ this run]
  have "length l = 9 \<and> limbs_tight 9 l \<and> uint c \<le> 16 \<and> (\<forall>j. 9 \<le> j \<longrightarrow> l ! j = m ! j)
      \<and> weighted 9 (limb l) + uint c * 2 ^ limb_pos 9 = weighted 9 (limb m)
      \<and> (\<forall>k. 9 = Suc k \<longrightarrow> (\<exists>c1. 0 \<le> c1 \<and> c1 \<le> 16 \<and> uint c = (limb m k + c1) div 2 ^ limb_bits k))"
    by (rule chain) simp_all
  then obtain c1 where "length l = 9" "limbs_tight 9 l" "weighted 9 (limb l) + uint c * 2 ^ limb_pos 9 = weighted 9 (limb m)"
      "uint c = (limb m 8 + c1) div 2 ^ limb_bits 8" "c1 \<le> 16" by auto
  moreover have "(limb m 8 + c1) div 2 ^ limb_bits 8 \<le> 8" using limb_bound [OF assms(1), of 8] \<open>c1 \<le> 16\<close> by (simp add: limb_bits_def)
  ultimately show ?thesis by (simp add: mont_val_def limb_pos_def)
qed

lemma mont_val_nonneg: "0 \<le> mont_val m"
  by (simp add: mont_val_def weighted_def sum_nonneg)

text \<open>The rounds end, because each subtracts a positive multiple of the field size.\<close>

lemma reduced_vartime_value:
  assumes "limbs_ok m"
  shows "\<exists>r. reduced_vartime m = Some r \<and> length r = 9 \<and> limbs_tight 9 r \<and> mont_val r mod p256 = mont_val m mod p256"
  using assms
proof (induction "nat (mont_val m)" arbitrary: m rule: less_induct)
  case less
  obtain l c where lc: "reduce_round m = (l, c)" by fastforce
  note v = reduce_round_value [OF less.prems lc]
  show ?case
  proof (cases "c = 0")
    case True
    then show ?thesis using v lc by (simp add: reduced_vartime.simps)
  next
    case False
    let ?m = "reduce_carry l c"
    have c: "1 \<le> uint c" using False by (simp add: uint_0_iff int_one_le_iff_zero_less order_neq_le_trans)
    have m: "limbs_ok ?m" "mont_val ?m = mont_val m - 2 * uint c * p256" using v reduce_carry_value [of l c] by auto
    have "0 < 2 * uint c * p256" using c by (simp add: p256_def)
    then have "nat (mont_val ?m) < nat (mont_val m)" using m(2) mont_val_nonneg [of ?m] by linarith
    from less.hyps [OF this m(1)] obtain r where r: "reduced_vartime ?m = Some r" "length r = 9" "limbs_tight 9 r"
      "mont_val r mod p256 = mont_val ?m mod p256" by blast
    moreover have "reduced_vartime m = reduced_vartime ?m" using lc False by (subst reduced_vartime.simps) simp
    moreover have "mont_val ?m mod p256 = mont_val m mod p256" unfolding m(2) by (simp add: mod_diff_right_eq [symmetric])
    ultimately show ?thesis by auto
  qed
qed

lemma weighted_below: "(\<And>i. i < n \<Longrightarrow> 0 \<le> f i \<and> f i < 2 ^ limb_bits i) \<Longrightarrow> 0 \<le> weighted n f \<and> weighted n f < 2 ^ limb_pos n"
proof (induction n)
  case (Suc n)
  then have IH: "0 \<le> weighted n f" "weighted n f < 2 ^ limb_pos n" "0 \<le> f n" "f n + 1 \<le> 2 ^ limb_bits n" by fastforce+
  have "(f n + 1) * 2 ^ limb_pos n \<le> 2 ^ limb_bits n * 2 ^ limb_pos n" using IH(4) by (rule mult_right_mono) simp
  moreover have "0 \<le> f n * 2 ^ limb_pos n" using IH(3) by simp
  ultimately show ?case using IH(1,2) by (simp add: weighted_Suc limb_pos_Suc power_add algebra_simps)
qed (simp add: limb_pos_def)

lemma weighted_unique:
  assumes "\<And>i. i < n \<Longrightarrow> 0 \<le> f i \<and> f i < 2 ^ limb_bits i" and "\<And>i. i < n \<Longrightarrow> 0 \<le> g i \<and> g i < 2 ^ limb_bits i"
    and "weighted n f = weighted n g" and "i < n"
  shows "f i = g i"
  using assms
proof (induction n)
  case (Suc n)
  have b: "0 \<le> weighted n f" "weighted n f < 2 ^ limb_pos n" "0 \<le> weighted n g" "weighted n g < 2 ^ limb_pos n"
    using weighted_below [of n f] weighted_below [of n g] Suc.prems(1,2) by auto
  have "(weighted n f + f n * 2 ^ limb_pos n) div 2 ^ limb_pos n = (weighted n g + g n * 2 ^ limb_pos n) div 2 ^ limb_pos n"
    using Suc.prems(3) by (simp only: weighted_Suc)
  then have fg: "f n = g n" using b by simp
  then have "weighted n f = weighted n g" using Suc.prems(3) by (simp only: weighted_Suc add_right_cancel)
  then show ?case using Suc fg by (cases "i = n") auto
qed simp

lemma tight_unique:
  assumes "length a = 9" and "limbs_tight 9 a" and "length b = 9" and "limbs_tight 9 b" and "mont_val a = mont_val b"
  shows "a = b"
proof (rule nth_equalityI)
  fix i assume "i < length a"
  then have "limb a i = limb b i"
    using assms by (intro weighted_unique [of 9 "limb a" "limb b"]) (auto simp: limbs_tight_def mont_val_def)
  then show "a ! i = b ! i" by (rule word_uint_eqI)
qed (simp add: assms)

lemma is_zero_vartime_value:
  assumes "stands m f"
  shows "is_zero_vartime m = Some (f mod p256 = 0)"
proof -
  have ok: "limbs_ok m" using assms by (simp add: stands_def)
  then obtain r where r: "reduced_vartime m = Some r" "length r = 9" "limbs_tight 9 r" "mont_val r mod p256 = mont_val m mod p256"
    using reduced_vartime_value by blast
  have "stands m 0 \<longleftrightarrow> mont_val m mod p256 = 0" using ok by (simp add: stands_def)
  then have z: "mont_val m mod p256 = 0 \<longleftrightarrow> f mod p256 = 0"
    using assms stands_unique [of m f 0] stands_mod [of f 0 m] by auto
  have known: "length montgomery_ZERO = 9" "limbs_tight 9 montgomery_ZERO" "mont_val montgomery_ZERO = 0"
      "length montgomery_P = 9" "limbs_tight 9 montgomery_P" "mont_val montgomery_P = p256"
      "length montgomery_TWO_P = 9" "limbs_tight 9 montgomery_TWO_P" "mont_val montgomery_TWO_P = 2 * p256"
    by (simp_all add: montgomery_ZERO_def montgomery_P_def montgomery_TWO_P_def limbs_tight_def all_less_9 mont_val_limbs
      limb_bits_def p256_def)
  have eqs: "r = montgomery_ZERO \<longleftrightarrow> mont_val r = 0" "r = montgomery_P \<longleftrightarrow> mont_val r = p256" "r = montgomery_TWO_P \<longleftrightarrow> mont_val r = 2 * p256"
    using tight_unique [OF r(2,3)] known by metis+
  have "0 \<le> mont_val r" "mont_val r < 2 ^ 257"
    using weighted_below [of 9 "limb r"] r(3) by (auto simp: limbs_tight_def mont_val_def limb_pos_def)
  then have "mont_val r mod p256 = 0 \<longleftrightarrow> mont_val r = 0 \<or> mont_val r = p256 \<or> mont_val r = 2 * p256"
  proof -
    have p: "0 < p256" "2 ^ 257 < 3 * p256" by (simp_all add: p256_def)
    have "p256 * (mont_val r div p256) < p256 * 3"
      using \<open>mont_val r < 2 ^ 257\<close> p pos_mod_sign [OF p(1), of "mont_val r"] mult_div_mod_eq [of p256 "mont_val r"] by linarith
    then have "mont_val r div p256 < 3" using p(1) by (simp only: mult_less_cancel_left_pos)
    moreover have "0 \<le> mont_val r div p256" using \<open>0 \<le> mont_val r\<close> p(1) by (simp add: pos_imp_zdiv_nonneg_iff)
    ultimately have "mont_val r div p256 = 0 \<or> mont_val r div p256 = 1 \<or> mont_val r div p256 = 2" by linarith
    moreover have "mont_val r = p256 * (mont_val r div p256) + mont_val r mod p256" by simp
    ultimately show ?thesis by auto
  qed
  then show ?thesis using r(1,4) z eqs by (simp add: is_zero_vartime_def)
qed

section \<open>Properties\<close>

lemma gfp_add_sub_val:
  assumes "int256_ok a" and "int256_ok b" and "digits_val a < prime_P" and "digits_val b < prime_P"
  shows "int256_ok (gfp_add a b)" and "int (digits_val (gfp_add a b)) = (int (digits_val a) + int (digits_val b)) mod p256"
    and "int256_ok (gfp_sub a b)" and "int (digits_val (gfp_sub a b)) = (int (digits_val a) - int (digits_val b)) mod p256"
  using modadd_vartime_val [OF assms(1,2) int256_ok_constants(2) assms(3,4)]
    modsub_vartime_val [OF assms(1,2) int256_ok_constants(2) less_imp_le [OF assms(4)]] assms(3)
  unfolding gfp_add_def gfp_sub_def R_inverse(3) [symmetric] by (simp_all add: zmod_int)

lemma to_field_eq:
  assumes "stands m f" and "carries_apart m" and "int256_ok x" and "int (digits_val x) = f mod p256"
  shows "montgomery_to_field m = x"
proof (rule digits_val_inject)
  show "length (montgomery_to_field m) = length x"
    using montgomery_to_field_value(1) [OF assms(1,2)] assms(3) by (simp add: int256_ok_def)
  show "digits_val (montgomery_to_field m) = digits_val x"
    using montgomery_to_field_value(2) [OF assms(1,2)] assms(4) by simp
qed

lemma one_minus_zero:
  "montgomery_sub montgomery_ONE montgomery_ZERO
    = [0x20000000, 0xfffffff, 0x1fffffff, 0xfffffff, 0x1fffffff, 0xfffffff, 0x1fffffff, 0xfffffff, 0x1fffffff]"
  by code_simp

lemma one_minus_zero_gathered:
  "montgomery_to_field (montgomery_sub montgomery_ONE montgomery_ZERO) = gfp_mul_top int256_R_INV int256_ZERO 1"
proof -
  define m where "m = montgomery_sub montgomery_ONE montgomery_ZERO"
  obtain x0 c0 where x0: "int256_add_digit int256_ZERO (m ! 8) = (x0, c0)" by fastforce
  have "fold (gather_step m) [0..<8] (fst (int256_add_digit int256_ZERO (m ! 8)), 0) = (int256_ZERO, 1)"
    unfolding m_def one_minus_zero by code_simp
  then show ?thesis using x0
    by (simp add: montgomery_to_field_def NLIMBS_def gather_step_def [abs_def] Let_def flip: m_def del: upt_rec_numeral)
qed

lemma curve_constants:
  "stands montgomery_ZERO 0" "stands montgomery_ONE 1" "stands montgomery_A (- 3)" "stands montgomery_B (int (digits_val int256_B))"
  "stands montgomery_THREE_B (3 * int (digits_val int256_B))"
  by (simp_all add: stands_def montgomery_ZERO_def montgomery_ONE_def montgomery_A_def montgomery_B_def montgomery_THREE_B_def limbs_ok_list
    mont_val_limbs p256_def int256_B_def)

text \<open>
  C8. The arithmetic of field elements in Montgomery form is that of the prime field: limbs that stand for \<open>f\<close> and \<open>g\<close>,
  loose or carried, give limbs that stand for the sum, the difference, the product, the square, the small multiples, and
  for the power \<open>P - 2\<close>, with every limb again within its bounds. No carry and no term of the eliminations is lost,
  and no 32- or 64-bit word overflows for good.
\<close>

theorem montgomery_arithmetic:
  assumes "stands a f" and "stands b g"
  shows "stands (montgomery_add a b) (f + g) \<and> stands (montgomery_sub a b) (f - g) \<and> stands (montgomery_mul a b) (f * g)
    \<and> stands (montgomery_square a) (f * f) \<and> stands (mul_scalar2 a) (2 * f) \<and> stands (mul_scalar3 a) (3 * f)
    \<and> stands (mul_scalar4 a) (4 * f) \<and> stands (mul_scalar8 a) (8 * f) \<and> stands (montgomery_inv a) (f ^ (prime_P - 2))"
  using stands_add [OF assms] stands_sub [OF assms] stands_mul [OF assms] stands_square [OF assms(1)] stands_scalars [OF assms(1)]
    stands_inv [OF assms(1)] by blast

theorem montgomery_arithmetic_witness:
  "stands montgomery_A (- 3) \<and> stands montgomery_B (int (digits_val int256_B))
   \<and> stands (montgomery_mul montgomery_A montgomery_B) (- 3 * int (digits_val int256_B))
   \<and> stands (montgomery_inv montgomery_A) ((- 3) ^ (prime_P - 2))"
  using montgomery_arithmetic [OF curve_constants(3,4)] curve_constants(3,4) by blast

text \<open>
  C9. The optimised field arithmetic implements the reference arithmetic on 256-bit integers: converting to Montgomery
  form and back is the identity on field elements, and a product, sum or difference computed in Montgomery form converts
  back to what the modular arithmetic gives, whenever the two carries of the conversion do not meet.
\<close>

theorem montgomery_implements_field:
  assumes "int256_ok x" and "digits_val x < prime_P" and "int256_ok y" and "digits_val y < prime_P"
  defines "a \<equiv> field_to_montgomery x" and "b \<equiv> field_to_montgomery y"
  shows "montgomery_to_field a = x
    \<and> (carries_apart (montgomery_mul a b) \<longrightarrow> montgomery_to_field (montgomery_mul a b) = gfp_mul x y)
    \<and> (carries_apart (montgomery_add a b) \<longrightarrow> montgomery_to_field (montgomery_add a b) = gfp_add x y)
    \<and> (carries_apart (montgomery_sub a b) \<longrightarrow> montgomery_to_field (montgomery_sub a b) = gfp_sub x y)"
proof -
  have a: "stands a (int (digits_val x))" "carries_apart a" and b: "stands b (int (digits_val y))"
    using field_to_montgomery_value assms(1,3) by (simp_all add: a_def b_def carries_apart_def)
  note v = gfp_mul_val [OF assms(1,3)] gfp_add_sub_val [OF assms(1,3,2,4)]
  have "int (digits_val x) < int prime_P" using assms(2) by (simp only: of_nat_less_iff)
  then have "int (digits_val x) = int (digits_val x) mod p256" unfolding R_inverse(3) by simp
  then have "montgomery_to_field a = x" using a assms(1) by (intro to_field_eq)
  then show ?thesis using stands_mul [OF a(1) b] stands_add [OF a(1) b] stands_sub [OF a(1) b] v to_field_eq by blast
qed

theorem montgomery_implements_field_witness: "montgomery_to_field (field_to_montgomery int256_B) = int256_B"
  using montgomery_implements_field [of int256_B int256_B] by (simp add: int256_B_def int256_P_def int256_ok_def NDIGITS_def)

text \<open>
  C10. The conversion back joins its two carries with a bitwise or, and loses one when both are set: the difference of one
  and zero stands for one, but converts to the field element \<open>(P + 1) / 2\<close>.
\<close>

theorem montgomery_to_field_loses_carry:
  "stands (montgomery_sub montgomery_ONE montgomery_ZERO) 1 \<and> montgomery_to_field montgomery_ONE = int256_ONE
   \<and> 2 * digits_val (montgomery_to_field (montgomery_sub montgomery_ONE montgomery_ZERO)) = prime_P + 1"
proof (intro conjI)
  show "stands (montgomery_sub montgomery_ONE montgomery_ZERO) 1" using stands_sub [OF curve_constants(2,1)] by simp
  show "montgomery_to_field montgomery_ONE = int256_ONE"
    using curve_constants(2) by (rule to_field_eq)
      (simp_all add: carries_apart_def montgomery_ONE_def int256_ONE_def int256_ok_def NDIGITS_def p256_def)
  have "int256_ok int256_R_INV" "int256_ok int256_ZERO" by (simp_all add: int256_ok_def int256_R_INV_def int256_ZERO_def NDIGITS_def)
  from modmul_top_val [OF this library_moduli(2), of 1]
  show "2 * digits_val (montgomery_to_field (montgomery_sub montgomery_ONE montgomery_ZERO)) = prime_P + 1"
    unfolding one_minus_zero_gathered gfp_mul_top_def by (simp add: int256_R_INV_def int256_ZERO_def int256_P_def)
qed

text \<open>
  Comparison with zero in variable time: the rounds of carries end, and the answer is whether the limbs stand for
  zero, for every representation of it.
\<close>

theorem is_zero_vartime_correct:
  assumes "stands m f"
  shows "is_zero_vartime m = Some (f mod p256 = 0)"
  using assms by (rule is_zero_vartime_value)

theorem is_zero_vartime_correct_witness: "is_zero_vartime montgomery_ONE = Some (1 mod p256 = 0)"
  using is_zero_vartime_correct [OF curve_constants(2)] .

end
