(* ===== verification/Spec2Isabelle.thy ===== *)
theory Spec2Isabelle
  imports Cbor Hid_Properties Timed_Permission Store Ec_Field Sha256 Aes256 Command_Properties Response
    Ctap_Storage_Properties Syscall_Storage Main_Properties Ctap1_Properties Montgomery_Field
begin

text \<open>
  OpenSK is the firmware of a security key: it speaks CTAPHID over USB, decodes CTAP2 commands in
  CBOR and U2F commands in APDU frames, keeps credentials in flash and signs with its own elliptic
  curve library. This development models these parts in the order the data flows through them.

  \<^item> \<open>Prelude\<close> and \<open>Effects\<close>: machine integers, big-endian byte strings, ordered maps, UTF-8, results
    and outcomes (\<open>Ok\<close>, \<open>Err\<close>, \<open>Panic\<close>), operations on a state. An operation returns the state it
    leaves behind also when it fails. A loop that never returns is \<open>Panic\<close> as well.

  \<^item> CBOR (\<open>libraries/cbor\<close>): \<open>Cbor_Values\<close> (\<open>values.rs\<close>, \<open>macros.rs\<close>), \<open>Cbor_Writer\<close>
    (\<open>writer.rs\<close>), \<open>Cbor_Reader\<close> (\<open>reader.rs\<close>), \<open>Cbor_Roundtrip\<close> and \<open>Cbor\<close>. Writing and reading are
    inverse on well-formed values of bounded nesting, the reader accepts canonical encodings only,
    the order of keys is the order of their encodings, and destructuring is a lookup per key. The
    width of \<open>usize\<close> is a parameter of the reader, since the length of a string is cast to it.

  \<^item> Time (\<open>third_party/libtock-drivers/src/timer.rs\<close>, \<open>src/ctap/timed_permission.rs\<close>): \<open>Timer\<close>,
    \<open>Timed_Permission\<close>. Permissions hold for exactly their duration, and one touch serves at most
    one U2F request. Ticks are 32-bit and wrap.

  \<^item> Transport (\<open>src/ctap/hid\<close>): \<open>Hid_Packets\<close> (\<open>send.rs\<close> and the packet type), \<open>Hid_Receive\<close>
    (\<open>receive.rs\<close>), \<open>Hid\<close> (\<open>mod.rs\<close>), \<open>Hid_Properties\<close>. Splitting and assembling are inverse, no packet
    panics the transport, only allocated channels reach the authenticator, a busy channel is not
    disturbed by others. The two command processors are arguments over a state of their own.

  \<^item> U2F frames (\<open>src/ctap/apdu.rs\<close>): \<open>Apdu\<close>. The parser is the inverse of the framing of commands.

  \<^item> Persistent store (\<open>libraries/persistent_store\<close>): \<open>Bitfield\<close> (\<open>format/bitfield.rs\<close>), \<open>Storage\<close>
    (\<open>storage.rs\<close>, with its contract as the locale \<open>flash\<close>), \<open>Store_Format\<close>,
    \<open>Store_Format_Properties\<close> and \<open>Store_Entries\<close> (\<open>format.rs\<close>), \<open>Store_Model\<close> (\<open>model.rs\<close>),
    \<open>Buffer_Storage\<close> (\<open>buffer.rs\<close>, which implements the contract), \<open>Store_Read\<close> and \<open>Store\<close>
    (\<open>store.rs\<close>). Every encoding of the format round trips and detects interrupted writes, the
    abstract store keeps its invariant. Loops over entries terminate because every entry but the
    tail advances; compaction until there is room is bounded by the erasures the storage has left.
    \<open>Store_Interface\<close> states what the clients of a store use: its operations and their laws, the
    locale \<open>key_value_store\<close>, which the abstract store of \<open>model.rs\<close> satisfies.

  \<^item> Cryptography (\<open>libraries/crypto\<close>): \<open>Int256\<close> and \<open>Int256_Correct\<close> (\<open>ec/int256.rs\<close>), \<open>Ec_Field\<close>
    (\<open>ec/exponent256.rs\<close>, \<open>ec/gfp256.rs\<close>, and the validation of points), \<open>Montgomery\<close>
    (\<open>ec/montgomery.rs\<close>, \<open>ec/precomputed.rs\<close>) with \<open>Montgomery_Carry\<close>, \<open>Montgomery_Correct\<close>,
    \<open>Montgomery_Product\<close> and \<open>Montgomery_Field\<close>, \<open>Point\<close> (\<open>ec/point.rs\<close>), \<open>Ec_Keys\<close> and \<open>Ecdsa\<close>
    (\<open>ecdsa.rs\<close>, \<open>ecdh.rs\<close>, \<open>rng256.rs\<close>), \<open>Sha256\<close> (\<open>sha256.rs\<close>, \<open>hmac.rs\<close>), \<open>Aes256\<close> (\<open>aes256.rs\<close>,
    \<open>cbc.rs\<close>). Every operation on eight 32-bit digits agrees with arithmetic on natural numbers, only
    points of the curve are accepted, hashing in pieces is hashing at once, decryption undoes
    encryption. The optimised field arithmetic on nine limbs is that of the prime field: passes of carries
    lose nothing (\<open>Montgomery_Carry\<close>), the eliminations of a reduction add multiples of the field size and
    no limb overflows for good (\<open>Montgomery_Correct\<close>), products fit in 64 bits (\<open>Montgomery_Product\<close>), and
    the predicate \<open>stands\<close> says which field element limbs represent (\<open>Montgomery_Field\<close>, with the contract
    \<open>field_representation\<close> for the inverse by repeated squaring). The conversion back to digits is correct but
    for limbs where two carries meet, for which a theorem shows the wrong result. Random bytes come from a parameter that turns a state into 32 bytes and a new state.

  \<^item> CTAP2 messages (\<open>src/ctap\<close>): \<open>Data_Formats\<close> and \<open>Data_Formats_Properties\<close> (\<open>data_formats.rs\<close>,
    \<open>status_code.rs\<close>), \<open>Command\<close> and \<open>Command_Properties\<close> (\<open>command.rs\<close>), \<open>Response\<close>
    (\<open>response.rs\<close>). The conversions from and to CBOR are inverse, and a command is accepted exactly
    when its parameters are. The feature \<open>with_ctap2_1\<close> is an argument.

  \<^item> Authenticator (\<open>src/ctap\<close>): \<open>Ctap_Storage\<close> (\<open>storage.rs\<close>, \<open>storage/key.rs\<close>) over the operations of
    any store, \<open>Pin_Protocol\<close> (\<open>pin_protocol_v1.rs\<close>), \<open>Ctap_State\<close> (\<open>mod.rs\<close>), \<open>Ctap1\<close> (\<open>ctap1.rs\<close>), and
    \<open>Authenticator\<close>, the transport with these processors. The record \<open>platform\<close> holds what the build
    and the board provide: store operations, random bytes, user presence, the lock of the board, the
    features and the AAGUID.

  \<^item> Properties of the authenticator: \<open>Ctap_Storage_Properties\<close> (storing and looking up credentials refines
    operations on the list of stored credentials, over any store that satisfies \<open>key_value_store\<close>; a reset
    forgets), \<open>Pin_Properties\<close> (no sequence of PIN subcommands allows more wrong guesses than there are
    retries) and \<open>Pin_Exchange\<close> (a PIN that an honest platform sets gives it the token),
    \<open>Ctap_State_Properties\<close> (credentials need the PIN once there is one, key handles round trip and are
    authentic), \<open>Device_Properties\<close> (runs of the device; a reset succeeds in its time window only),
    \<open>Ctap1_Properties\<close> (no more U2F requests that demand presence succeed than touches happened).

  \<^item> Firmware: \<open>Usb_Driver\<close> (\<open>third_party/libtock-drivers/src/usb_ctap_hid.rs\<close>, \<open>util.rs\<close>), \<open>Main_Loop\<close>
    (\<open>src/main.rs\<close>) and \<open>Syscall_Storage\<close> (\<open>src/embedded_flash/syscall.rs\<close>), over the system calls of the
    kernel, which are a record of functions on a state of their own. \<open>Main_Properties\<close> shows that on a
    board whose button is never pressed a command that needs presence has no effect, and that the wait for a
    touch ends on a board whose alarms fire (locale \<open>live_board\<close>); the flash driver implements the contract
    \<open>flash\<close> on any kernel that keeps its documented behaviour. Waits are partial functions, so the theorems
    that they return are proved as such.

  Not modelled: the other kernel drivers (\<open>third_party/libtock-drivers\<close> but the clock arithmetic and the USB
  driver), which wrap system calls that are parameters here; the boards, tools, fuzzing and test drivers
  (\<open>boards\<close>, \<open>tools\<close>, \<open>fuzz\<close>, \<open>driver.rs\<close>); the language items; functions that only tests call. The group law
  of the curve is not proved: the formulas of \<open>Point\<close> are modelled, and the theorems about them are those of
  the field arithmetic they use.
\<close>

end
